(* ===== verification/Prelude.thy ===== *)
theory Prelude
  imports Complex_Main "HOL-Library.Monad_Syntax" "HOL-Library.AList" "HOL-Library.Word"
begin

text \<open>
  Shared vocabulary of the development: results and panics, text that is
  displayed but never compared, JSON values, time, and the generic lemmas about the
  option monad and association lists that the component theories use.

  A Rust \<open>Result<T, E>\<close> is the sum \<open>'e + 'a\<close>, with \<open>Err\<close> and
  \<open>Ok\<close> for its injections. A computation that may panic returns an option, and
  \<open>None\<close> is the panic; a fallible computation that may also panic returns
  \<open>('e + 'a) option\<close>. Rust integers are words or, where only their value matters,
  nat and int with the width named at the definition that uses them.
\<close>

section \<open>Results\<close>

abbreviation Err :: "'e \<Rightarrow> 'e + 'a" where
  "Err \<equiv> Inl"

abbreviation Ok :: "'a \<Rightarrow> 'e + 'a" where
  "Ok \<equiv> Inr"

definition is_ok :: "'e + 'a \<Rightarrow> bool" where
  "is_ok r = (case r of Inl _ \<Rightarrow> False | Inr _ \<Rightarrow> True)"

text \<open>The question-mark operator: an error returns early, a value goes on.\<close>

definition and_then :: "'e + 'a \<Rightarrow> ('a \<Rightarrow> 'e + 'b) \<Rightarrow> 'e + 'b" where
  "and_then r f = (case r of Inl e \<Rightarrow> Inl e | Inr x \<Rightarrow> f x)"

definition ok_or :: "'e \<Rightarrow> 'a option \<Rightarrow> 'e + 'a" where
  "ok_or e m = (case m of None \<Rightarrow> Inl e | Some x \<Rightarrow> Inr x)"

definition or_else :: "'a option \<Rightarrow> 'a option \<Rightarrow> 'a option" where
  "or_else a b = (case a of None \<Rightarrow> b | Some x \<Rightarrow> Some x)"

definition unwrap_or :: "'a \<Rightarrow> 'a option \<Rightarrow> 'a" where
  "unwrap_or d m = (case m of None \<Rightarrow> d | Some x \<Rightarrow> x)"

lemma is_ok_simps [simp]:
  "is_ok (Inl e) = False" "is_ok (Inr x) = True"
  by (simp_all add: is_ok_def)

lemma and_then_simps [simp]:
  "and_then (Inl e) f = Inl e" "and_then (Inr x) f = f x"
  by (simp_all add: and_then_def)

lemma and_then_eq_Ok:
  "and_then r f = Inr y \<longleftrightarrow> (\<exists>x. r = Inr x \<and> f x = Inr y)"
  by (cases r) auto

lemma ok_or_simps [simp]:
  "ok_or e None = Inl e" "ok_or e (Some x) = Inr x"
  by (simp_all add: ok_or_def)

lemma ok_or_eq_Ok: "ok_or e m = Inr x \<longleftrightarrow> m = Some x"
  by (cases m) auto

lemma or_else_simps [simp]:
  "or_else None b = b" "or_else (Some x) b = Some x"
  by (simp_all add: or_else_def)

lemma unwrap_or_simps [simp]:
  "unwrap_or d None = d" "unwrap_or d (Some x) = x"
  by (simp_all add: unwrap_or_def)

text \<open>The panic monad: inversion and introduction of a computation that returned.\<close>

lemmas bind_Some_iff = Option.bind_eq_Some_conv

lemma bind_SomeE:
  assumes "Option.bind m f = Some y"
  obtains x where "m = Some x" and "f x = Some y"
  using assms by (auto simp: bind_Some_iff)

text \<open>
  The question-mark operator in a function that may also panic: \<open>attempt m f\<close> goes
  on with the value of \<open>m\<close>, returns its error early, and panics where it panics.
\<close>

definition attempt ::
    "('e + 'a) option \<Rightarrow> ('a \<Rightarrow> ('e + 'b) option) \<Rightarrow> ('e + 'b) option"
where
  "attempt m f = (case m of None \<Rightarrow> None | Some (Inl e) \<Rightarrow> Some (Inl e) | Some (Inr x) \<Rightarrow> f x)"

lemma attempt_simps [simp]:
  "attempt None f = None" "attempt (Some (Inl e)) f = Some (Inl e)" "attempt (Some (Inr x)) f = f x"
  by (simp_all add: attempt_def)

lemma map_attempt:
  "map_option (map_sum id g) (attempt m f) = attempt m (\<lambda>x. map_option (map_sum id g) (f x))"
  by (simp add: attempt_def split: option.split sum.split)

lemma attempt_Ok_iff: "attempt m f = Some (Inr y) \<longleftrightarrow> (\<exists>x. m = Some (Inr x) \<and> f x = Some (Inr y))"
  by (auto simp: attempt_def split: option.splits sum.splits)

lemma attempt_Err_iff:
  "attempt m f = Some (Inl e) \<longleftrightarrow>
     m = Some (Inl e) \<or> (\<exists>x. m = Some (Inr x) \<and> f x = Some (Inl e))"
  by (auto simp: attempt_def split: option.splits sum.splits)

lemma attempt_None_iff: "attempt m f = None \<longleftrightarrow> m = None \<or> (\<exists>x. m = Some (Inr x) \<and> f x = None)"
  by (auto simp: attempt_def split: option.splits sum.splits)

section \<open>Words\<close>

type_synonym u8 = "8 word"
type_synonym u16 = "16 word"
type_synonym u32 = "32 word"
type_synonym u64 = "64 word"
type_synonym u128 = "128 word"

text \<open>A cast to the signed type keeps a value that fits.\<close>

lemma sint_of_int_fits:
  "- (2 ^ 63) \<le> k \<Longrightarrow> k < 2 ^ 63 \<Longrightarrow> sint (word_of_int k :: u64) = k"
  by (simp add: signed_of_int signed_take_bit_int_eq_self)

lemma sint_eq_uint_fits: "uint w < 2 ^ 63 \<Longrightarrow> sint w = uint w" for w :: u64
  using sint_of_int_fits [of "uint w"] uint_ge_0 [of w] by (simp del: uint_ge_0)

text \<open>A counter below some value does not wrap.\<close>

lemma unat_succ_less: "w < v \<Longrightarrow> unat (w + 1) = Suc (unat w)" for w v :: "'a::len word"
proof -
  assume "w < v"
  then have "unat w < unat v" by (simp add: word_less_nat_alt)
  moreover have "unat v < 2 ^ LENGTH('a)" by (rule unsigned_less)
  ultimately have "unat w + 1 < 2 ^ LENGTH('a)" by linarith
  then show ?thesis by (simp add: unat_word_ariths)
qed

section \<open>Time\<close>

text \<open>
  An instant (\<open>DateTime<Utc>\<close> or \<open>Instant\<close>) is a number of nanoseconds,
  and so is a duration. \<open>TimeDelta::num_seconds\<close> and
  \<open>Duration::as_secs\<close> drop the fraction towards zero.
\<close>

type_synonym instant = int

definition nanos_per_sec :: int where
  "nanos_per_sec = 1000000000"

definition num_seconds :: "int \<Rightarrow> int" where
  "num_seconds d = sgn d * (\<bar>d\<bar> div nanos_per_sec)"

definition from_secs :: "int \<Rightarrow> int" where
  "from_secs n = n * nanos_per_sec"

lemma num_seconds_nonneg: "0 \<le> d \<Longrightarrow> num_seconds d = d div nanos_per_sec"
  by (cases "d = 0") (simp_all add: num_seconds_def)

lemma num_seconds_from_secs [simp]: "num_seconds (from_secs n) = n"
  by (auto simp: num_seconds_def from_secs_def nanos_per_sec_def abs_mult sgn_mult
      simp flip: mult.assoc) (auto simp: sgn_if)

section \<open>JSON\<close>

text \<open>
  The value type of serde_json. A number is kept as the text
  \<open>Number::to_string\<close> gives, the only thing the code reads of it; an object is the
  list of its entries.
\<close>

datatype json =
    JNull
  | JBool bool
  | JNum string
  | JStr string
  | JArr "json list"
  | JObj "(string \<times> json) list"

definition as_str :: "json \<Rightarrow> string option" where
  "as_str v = (case v of JStr s \<Rightarrow> Some s | _ \<Rightarrow> None)"

definition as_object :: "json \<Rightarrow> (string \<times> json) list option" where
  "as_object v = (case v of JObj kvs \<Rightarrow> Some kvs | _ \<Rightarrow> None)"

lemma as_str_simps [simp]:
  "as_str (JStr s) = Some s" "as_str JNull = None" "as_str (JNum n) = None"
  "as_str (JBool b) = None" "as_str (JArr vs) = None" "as_str (JObj kvs) = None"
  by (simp_all add: as_str_def)

lemma as_object_simps [simp]:
  "as_object (JObj kvs) = Some kvs" "as_object JNull = None" "as_object (JStr s) = None"
  "as_object (JNum n) = None" "as_object (JBool b) = None" "as_object (JArr vs) = None"
  by (simp_all add: as_object_def)

section \<open>Association lists\<close>

text \<open>
  A \<open>HashMap\<close> the code iterates over is an association list with distinct keys; the
  list's order stands for the unspecified iteration order. \<open>AList.update\<close> is
  \<open>HashMap::insert\<close> and \<open>map_of\<close> is \<open>HashMap::get\<close>.
\<close>

definition alist_wf :: "('k \<times> 'v) list \<Rightarrow> bool" where
  "alist_wf kvs = distinct (map fst kvs)"

lemma alist_wf_Nil [simp]: "alist_wf []"
  by (simp add: alist_wf_def)

lemma alist_wf_update [simp]: "alist_wf (AList.update k v kvs) \<longleftrightarrow> alist_wf kvs"
  by (induction kvs) (auto simp: alist_wf_def dom_update AList.update_keys split: if_splits)

lemma map_of_update [simp]: "map_of (AList.update k v kvs) = (map_of kvs)(k \<mapsto> v)"
  by (simp add: update_conv')

end
