(* ===== verification/Decimal.thy ===== *)
theory Decimal
  imports Prelude
begin

text \<open>
  Decimal arithmetic. Prices and quantities are \<open>rust_decimal::Decimal\<close>, a package
  outside the repository, so its arithmetic is a parameter of the model: a value is the
  rational number it denotes (comparison, negation, absolute value, minimum and maximum are
  by value and exact), and the four operations that may round or panic are the fields of a
  record passed to every definition that calculates. \<open>None\<close> is the documented panic
  (overflow, division by zero).

  Statements about gates, caps and ordering hold for every such record. Accounting
  identities are stated for \<open>exact_arith\<close>; \<open>arith_ok\<close> is the
  documented behaviour (an operation whose exact result is representable returns it) and
  the \<open>_exact\<close> lemmas of this theory and of the components transfer an identity to
  any such arithmetic on representable results.
\<close>

type_synonym dec = rat

record arith =
  d_add :: "dec \<Rightarrow> dec \<Rightarrow> dec option"
  d_sub :: "dec \<Rightarrow> dec \<Rightarrow> dec option"
  d_mul :: "dec \<Rightarrow> dec \<Rightarrow> dec option"
  d_div :: "dec \<Rightarrow> dec \<Rightarrow> dec option"

definition exact_arith :: arith where
  "exact_arith = \<lparr>
     d_add = (\<lambda>a b. Some (a + b)),
     d_sub = (\<lambda>a b. Some (a - b)),
     d_mul = (\<lambda>a b. Some (a * b)),
     d_div = (\<lambda>a b. if b = 0 then None else Some (a / b))\<rparr>"

lemma exact_arith_simps [simp]:
  "d_add exact_arith a b = Some (a + b)"
  "d_sub exact_arith a b = Some (a - b)"
  "d_mul exact_arith a b = Some (a * b)"
  "d_div exact_arith a b = (if b = 0 then None else Some (a / b))"
  by (simp_all add: exact_arith_def)

text \<open>A 96-bit integer coefficient over a power of ten up to the 28th.\<close>

definition representable :: "dec \<Rightarrow> bool" where
  "representable x = (\<exists>(m::int) (e::nat). \<bar>m\<bar> < 2 ^ 96 \<and> e \<le> 28 \<and> x = of_int m / 10 ^ e)"

definition arith_ok :: "arith \<Rightarrow> bool" where
  "arith_ok A = (\<forall>a b.
     (representable (a + b) \<longrightarrow> d_add A a b = Some (a + b)) \<and>
     (representable (a - b) \<longrightarrow> d_sub A a b = Some (a - b)) \<and>
     (representable (a * b) \<longrightarrow> d_mul A a b = Some (a * b)) \<and>
     (b \<noteq> 0 \<longrightarrow> representable (a / b) \<longrightarrow> d_div A a b = Some (a / b)) \<and>
     d_div A a 0 = None)"

lemma arith_ok_exact: "arith_ok exact_arith"
  by (simp add: arith_ok_def)

lemma arith_okD:
  assumes "arith_ok A"
  shows "representable (a + b) \<Longrightarrow> d_add A a b = Some (a + b)"
    and "representable (a - b) \<Longrightarrow> d_sub A a b = Some (a - b)"
    and "representable (a * b) \<Longrightarrow> d_mul A a b = Some (a * b)"
    and "b \<noteq> 0 \<Longrightarrow> representable (a / b) \<Longrightarrow> d_div A a b = Some (a / b)"
    and "d_div A a 0 = None"
  using assms by (auto simp: arith_ok_def)

lemma representable_of_int: "\<bar>m\<bar> < 2 ^ 96 \<Longrightarrow> representable (of_int m)"
  unfolding representable_def by (rule exI [of _ m], rule exI [of _ 0]) simp

lemma representable_zero [simp]: "representable 0"
  using representable_of_int [of 0] by simp

lemma representable_uminus [simp]: "representable (- x) \<longleftrightarrow> representable x"
proof -
  have *: "representable (- y)" if "representable y" for y
  proof -
    from that obtain m :: int and e :: nat
      where "\<bar>m\<bar> < 2 ^ 96" "e \<le> 28" "y = of_int m / 10 ^ e"
      by (auto simp: representable_def)
    then show ?thesis
      unfolding representable_def by (intro exI [of _ "- m"] exI [of _ e]) simp
  qed
  from * [of x] * [of "- x"] show ?thesis by auto
qed

section \<open>Displayed text\<close>

text \<open>
  Reasons and error details are built by \<open>format!\<close> from literals and displayed
  values and are shown or logged. They are kept as the list of their pieces, with the
  decimals not rendered: how a Decimal prints is the package's business.
\<close>

datatype piece =
    Lit string
  | Show dec            \<comment> \<open>a hole of the format string\<close>
  | ShowSigned dec      \<comment> \<open>the hole with the plus flag\<close>
  | ShowInt int
  | ShowJson json
  | ShowDebug string    \<comment> \<open>a string with the debug flag, quoted\<close>

type_synonym message = "piece list"

definition em_dash :: string where
  "em_dash = [CHR 0xE2, CHR 0x80, CHR 0x94]"

end
