(* ===== verification/Core_Types.thy ===== *)
theory Core_Types
  imports Decimal
begin

text \<open>
  The domain vocabulary of \<open>crates/core/src/types.rs\<close> and \<open>feed.rs\<close>:
  assets, orders, fills, market snapshots, decisions and ticks.
\<close>

record asset =
  as_symbol :: string
  as_address :: "string option"

definition asset_symbol :: "string \<Rightarrow> asset" where
  "asset_symbol s = \<lparr>as_symbol = s, as_address = None\<rparr>"

definition asset_onchain :: "string \<Rightarrow> string \<Rightarrow> asset" where
  "asset_onchain s a = \<lparr>as_symbol = s, as_address = Some a\<rparr>"

datatype venue = Paper | RobinhoodMcp | DexRouter

datatype side = Buy | Sell

record trade_order =
  o_id :: string
  o_asset :: asset
  o_side :: side
  o_qty :: dec
  o_limit_price :: "dec option"
  o_max_slippage :: dec
  o_venue :: venue
  o_reason :: message

record fill =
  f_order_id :: string
  f_asset :: asset
  f_side :: side
  f_qty :: dec
  f_price :: dec
  f_fee :: dec
  f_venue :: venue
  f_at :: instant

definition cash_delta :: "arith \<Rightarrow> fill \<Rightarrow> dec option" where
  "cash_delta A f = do {
     gross \<leftarrow> d_mul A (f_qty f) (f_price f);
     (case f_side f of
        Buy \<Rightarrow> do { t \<leftarrow> d_add A gross (f_fee f); Some (- t) }
      | Sell \<Rightarrow> d_sub A gross (f_fee f))
   }"

record market_snapshot =
  ms_asset :: asset
  ms_price :: dec
  ms_change_24h :: dec
  ms_liquidity :: "dec option"
  ms_at :: instant

datatype decision =
    DBuy dec message      \<comment> \<open>fraction of equity, reason\<close>
  | DSell dec message     \<comment> \<open>fraction of the holding, reason\<close>
  | DHold message

datatype signal_kind = Enter | Exit | Scale

record signal =
  sg_asset :: asset
  sg_kind :: signal_kind
  sg_confidence :: dec
  sg_note :: message

record tick =
  tk_at :: instant
  tk_symbol :: string
  tk_price :: dec

definition tick_asset :: "tick \<Rightarrow> asset" where
  "tick_asset t = asset_symbol (tk_symbol t)"

lemma as_symbol_asset_symbol [simp]: "as_symbol (asset_symbol s) = s"
  by (simp add: asset_symbol_def)

lemma as_symbol_tick_asset [simp]: "as_symbol (tick_asset t) = tk_symbol t"
  by (simp add: tick_asset_def)

lemma cash_delta_exact:
  "cash_delta exact_arith f =
     Some (case f_side f of Buy \<Rightarrow> - (f_qty f * f_price f + f_fee f)
                          | Sell \<Rightarrow> f_qty f * f_price f - f_fee f)"
  by (simp add: cash_delta_def split: side.split)

text \<open>How an asset and an order id are printed.\<close>

definition show_asset :: "asset \<Rightarrow> string" where
  "show_asset a = as_symbol a"

definition show_order_id :: "string \<Rightarrow> string" where
  "show_order_id i = i"

text \<open>The clock (\<open>core/src/clock.rs\<close>); the first argument is the reading of the machine's clock.\<close>

datatype clock = System_Clock | Fixed_Clock instant

fun clock_now :: "instant \<Rightarrow> clock \<Rightarrow> instant" where
  "clock_now utc_now System_Clock = utc_now"
| "clock_now utc_now (Fixed_Clock t) = t"

end
