(* ===== verification/Portfolio.thy ===== *)
theory Portfolio
  imports Core_Types "HOL-Library.Multiset"
begin

text \<open>
  The in-memory ledger of \<open>crates/core/src/portfolio.rs\<close>: cash, positions,
  realised profit and average entry cost, the queries that mark it to market, and
  \<open>apply_fill\<close>, the only operation that changes it. The lemmas show that the ledger
  balances: cash plus the cost basis of what is held is always the starting cash plus the
  realised profit minus the fees paid on buys.
\<close>

section \<open>State and queries\<close>

record portfolio =
  pf_cash :: dec
  pf_positions :: "(string \<times> dec) list"
  pf_realized_pnl :: dec
  pf_avg_cost :: "string \<rightharpoonup> dec"

definition portfolio_new :: "dec \<Rightarrow> portfolio" where
  "portfolio_new c =
     \<lparr>pf_cash = c, pf_positions = [], pf_realized_pnl = 0, pf_avg_cost = Map.empty\<rparr>"

definition position :: "portfolio \<Rightarrow> asset \<Rightarrow> dec" where
  "position p a = unwrap_or 0 (map_of (pf_positions p) (as_symbol a))"

definition avg_cost :: "portfolio \<Rightarrow> asset \<Rightarrow> dec option" where
  "avg_cost p a = pf_avg_cost p (as_symbol a)"

definition open_positions :: "portfolio \<Rightarrow> (string \<times> dec) list" where
  "open_positions p = filter (\<lambda>(s, q). q \<noteq> 0) (pf_positions p)"

definition open_position_count :: "portfolio \<Rightarrow> nat" where
  "open_position_count p = length (open_positions p)"

text \<open>The loop bodies of the two mark-to-market sums, over the positions in iteration order.\<close>

fun unrealized_loop ::
    "arith \<Rightarrow> (string \<Rightarrow> dec option) \<Rightarrow> (string \<rightharpoonup> dec) \<Rightarrow> (string \<times> dec) list \<Rightarrow> dec \<Rightarrow> dec option"
where
  "unrealized_loop A price_of costs [] acc = Some acc"
| "unrealized_loop A price_of costs ((symb, qty) # ps) acc =
     (case (price_of symb, costs symb) of
        (Some px, Some cost) \<Rightarrow> do {
          d \<leftarrow> d_sub A px cost;
          v \<leftarrow> d_mul A qty d;
          t \<leftarrow> d_add A acc v;
          unrealized_loop A price_of costs ps t }
      | _ \<Rightarrow> unrealized_loop A price_of costs ps acc)"

definition unrealized_pnl :: "arith \<Rightarrow> portfolio \<Rightarrow> (string \<Rightarrow> dec option) \<Rightarrow> dec option" where
  "unrealized_pnl A p price_of =
     unrealized_loop A price_of (pf_avg_cost p) (open_positions p) 0"

fun equity_loop ::
    "arith \<Rightarrow> (string \<Rightarrow> dec option) \<Rightarrow> (string \<times> dec) list \<Rightarrow> dec \<Rightarrow> dec option"
where
  "equity_loop A price_of [] acc = Some acc"
| "equity_loop A price_of ((symb, qty) # ps) acc =
     (case price_of symb of
        Some px \<Rightarrow> do {
          v \<leftarrow> d_mul A qty px;
          t \<leftarrow> d_add A acc v;
          equity_loop A price_of ps t }
      | None \<Rightarrow> equity_loop A price_of ps acc)"

definition equity :: "arith \<Rightarrow> portfolio \<Rightarrow> (string \<Rightarrow> dec option) \<Rightarrow> dec option" where
  "equity A p price_of = equity_loop A price_of (pf_positions p) (pf_cash p)"

section \<open>Applying a fill\<close>

definition apply_fill :: "arith \<Rightarrow> portfolio \<Rightarrow> fill \<Rightarrow> portfolio option" where
  "apply_fill A p f = do {
     delta \<leftarrow> cash_delta A f;
     cash \<leftarrow> d_add A (pf_cash p) delta;
     let symb = as_symbol (f_asset f);
     let prev_qty = unwrap_or 0 (map_of (pf_positions p) symb);
     let prev_cost = unwrap_or 0 (pf_avg_cost p symb);
     (case f_side f of
        Buy \<Rightarrow> do {
          new_qty \<leftarrow> d_add A prev_qty (f_qty f);
          costs \<leftarrow>
            (if new_qty \<noteq> 0 then do {
               old \<leftarrow> d_mul A prev_qty prev_cost;
               new \<leftarrow> d_mul A (f_qty f) (f_price f);
               sum \<leftarrow> d_add A old new;
               blended \<leftarrow> d_div A sum new_qty;
               Some ((pf_avg_cost p)(symb \<mapsto> blended)) }
             else Some (pf_avg_cost p));
          Some (p\<lparr>pf_cash := cash,
                  pf_positions := AList.update symb new_qty (pf_positions p),
                  pf_avg_cost := costs\<rparr>) }
      | Sell \<Rightarrow> do {
          let closed = min (f_qty f) (max prev_qty 0);
          gain \<leftarrow> d_sub A (f_price f) prev_cost;
          profit \<leftarrow> d_mul A closed gain;
          net \<leftarrow> d_sub A profit (f_fee f);
          realized \<leftarrow> d_add A (pf_realized_pnl p) net;
          new_qty \<leftarrow> d_sub A prev_qty (f_qty f);
          Some (p\<lparr>pf_cash := cash,
                  pf_realized_pnl := realized,
                  pf_positions := AList.update symb new_qty (pf_positions p),
                  pf_avg_cost := (if new_qty = 0 then (pf_avg_cost p)(symb := None)
                                  else pf_avg_cost p)\<rparr>) })
   }"

text \<open>A history of fills, applied in order.\<close>

fun apply_fills :: "arith \<Rightarrow> portfolio \<Rightarrow> fill list \<Rightarrow> portfolio option" where
  "apply_fills A p [] = Some p"
| "apply_fills A p (f # fs) = do { p' \<leftarrow> apply_fill A p f; apply_fills A p' fs }"

section \<open>Basic facts\<close>

definition portfolio_wf :: "portfolio \<Rightarrow> bool" where
  "portfolio_wf p = alist_wf (pf_positions p)"

lemma portfolio_new_simps [simp]:
  "pf_cash (portfolio_new c) = c" "pf_positions (portfolio_new c) = []"
  "pf_realized_pnl (portfolio_new c) = 0" "pf_avg_cost (portfolio_new c) = Map.empty"
  "position (portfolio_new c) a = 0" "open_positions (portfolio_new c) = []"
  "open_position_count (portfolio_new c) = 0" "portfolio_wf (portfolio_new c)"
  by (simp_all add: portfolio_new_def position_def open_positions_def open_position_count_def
      portfolio_wf_def)

text \<open>
  Every fill rewrites the cash, the realised profit and the entries of its own symbol, and
  nothing else, whatever the arithmetic.
\<close>

lemma apply_fill_shape:
  assumes "apply_fill A p f = Some p'"
  shows "pf_positions p' =
      AList.update (as_symbol (f_asset f)) (position p' (f_asset f)) (pf_positions p)"
    and "s \<noteq> as_symbol (f_asset f) \<Longrightarrow> pf_avg_cost p' s = pf_avg_cost p s"
proof -
  have "pf_positions p' =
      AList.update (as_symbol (f_asset f)) (position p' (f_asset f)) (pf_positions p)
    \<and> (s \<noteq> as_symbol (f_asset f) \<longrightarrow> pf_avg_cost p' s = pf_avg_cost p s)"
  proof (cases "f_side f")
    case Buy
    with assms show ?thesis
      apply (simp add: apply_fill_def position_def bind_Some_iff Let_def)
      apply (elim exE conjE, hypsubst)
      apply (auto simp: bind_Some_iff split: if_splits)
      done
  next
    case Sell
    with assms show ?thesis
      apply (simp add: apply_fill_def position_def bind_Some_iff Let_def)
      apply (elim exE conjE, hypsubst)
      apply simp
      done
  qed
  then show "pf_positions p' =
      AList.update (as_symbol (f_asset f)) (position p' (f_asset f)) (pf_positions p)"
    and "s \<noteq> as_symbol (f_asset f) \<Longrightarrow> pf_avg_cost p' s = pf_avg_cost p s"
    by blast+
qed

lemma apply_fill_wf: "apply_fill A p f = Some p' \<Longrightarrow> portfolio_wf p' = portfolio_wf p"
  by (simp add: portfolio_wf_def apply_fill_shape(1))

lemma apply_fill_frame:
  assumes "apply_fill A p f = Some p'" and "as_symbol a \<noteq> as_symbol (f_asset f)"
  shows "position p' a = position p a" and "avg_cost p' a = avg_cost p a"
proof -
  show "position p' a = position p a"
    using assms(2) by (subst position_def, subst apply_fill_shape(1) [OF assms(1)])
      (simp add: position_def)
  show "avg_cost p' a = avg_cost p a"
    using assms(2) apply_fill_shape(2) [OF assms(1)] by (simp add: avg_cost_def)
qed

lemma apply_fill_buy_exact:
  assumes "f_side f = Buy"
  shows "apply_fill exact_arith p f =
    (let symb = as_symbol (f_asset f); q = position p (f_asset f);
         c = unwrap_or 0 (pf_avg_cost p symb)
     in Some (p\<lparr>pf_cash := pf_cash p - (f_qty f * f_price f + f_fee f),
          pf_positions := AList.update symb (q + f_qty f) (pf_positions p),
          pf_avg_cost := (if q + f_qty f = 0 then pf_avg_cost p
             else (pf_avg_cost p)(symb \<mapsto> (q * c + f_qty f * f_price f) / (q + f_qty f)))\<rparr>))"
  using assms by (simp add: apply_fill_def cash_delta_exact position_def Let_def)

lemma apply_fill_sell_exact:
  assumes "f_side f = Sell"
  shows "apply_fill exact_arith p f =
    (let symb = as_symbol (f_asset f); q = position p (f_asset f);
         c = unwrap_or 0 (pf_avg_cost p symb)
     in Some (p\<lparr>pf_cash := pf_cash p + (f_qty f * f_price f - f_fee f),
          pf_realized_pnl := pf_realized_pnl p
             + (min (f_qty f) (max q 0) * (f_price f - c) - f_fee f),
          pf_positions := AList.update symb (q - f_qty f) (pf_positions p),
          pf_avg_cost := (if q = f_qty f then (pf_avg_cost p)(symb := None)
             else pf_avg_cost p)\<rparr>))"
  using assms by (simp add: apply_fill_def cash_delta_exact position_def Let_def)

lemma position_update [simp]:
  "position (p\<lparr>pf_cash := c, pf_positions := AList.update s q (pf_positions p), pf_avg_cost := m\<rparr>) a
     = (if as_symbol a = s then q else position p a)"
  "position (p\<lparr>pf_cash := c, pf_realized_pnl := r,
      pf_positions := AList.update s q (pf_positions p), pf_avg_cost := m\<rparr>) a
     = (if as_symbol a = s then q else position p a)"
  by (simp_all add: position_def)

lemma apply_fill_exact_total: "\<exists>p'. apply_fill exact_arith p f = Some p'"
  by (cases "f_side f")
     (simp_all add: apply_fill_buy_exact apply_fill_sell_exact Let_def)

section \<open>The ledger balances\<close>

text \<open>Sums over the positions, and how one insertion changes them.\<close>

definition positions_sum :: "(string \<Rightarrow> dec \<Rightarrow> dec) \<Rightarrow> (string \<times> dec) list \<Rightarrow> dec" where
  "positions_sum h ps = (\<Sum>(s, q)\<leftarrow>ps. h s q)"

lemma positions_sum_simps [simp]:
  "positions_sum h [] = 0"
  "positions_sum h ((s, q) # ps) = h s q + positions_sum h ps"
  by (simp_all add: positions_sum_def)

lemma positions_sum_cong:
  "(\<And>s q. (s, q) \<in> set ps \<Longrightarrow> h s q = g s q) \<Longrightarrow> positions_sum h ps = positions_sum g ps"
  by (induction ps) auto

lemma positions_sum_update:
  assumes "alist_wf ps" and "\<And>s q. s \<noteq> k \<Longrightarrow> g s q = h s q"
  shows "positions_sum g (AList.update k v ps) =
    positions_sum h ps - (case map_of ps k of None \<Rightarrow> 0 | Some q \<Rightarrow> h k q) + g k v"
  using assms(1)
proof (induction ps)
  case Nil
  then show ?case by simp
next
  case (Cons x ps)
  obtain s q where x: "x = (s, q)" by fastforce
  show ?case
  proof (cases "s = k")
    case True
    with Cons.prems x have "\<And>t r. (t, r) \<in> set ps \<Longrightarrow> t \<noteq> k"
      by (force simp: alist_wf_def)
    then have "positions_sum g ps = positions_sum h ps"
      using assms(2) by (intro positions_sum_cong) blast
    with True x show ?thesis by simp
  next
    case False
    with Cons x assms(2) show ?thesis by (simp add: alist_wf_def)
  qed
qed

lemma positions_sum_perm:
  assumes "alist_wf ps" "alist_wf qs" "map_of ps = map_of qs"
  shows "positions_sum h ps = positions_sum h qs"
proof -
  have "distinct ps" "distinct qs"
    using assms(1,2) by (auto simp: alist_wf_def distinct_map)
  moreover have "set ps = set qs"
    using assms map_of_inject_set [of ps qs] by (simp add: alist_wf_def)
  ultimately have "mset ps = mset qs"
    by (simp add: set_eq_iff_mset_eq_distinct)
  then have "mset (map (\<lambda>(s, q). h s q) ps) = mset (map (\<lambda>(s, q). h s q) qs)"
    by (metis mset_map)
  then show ?thesis
    unfolding positions_sum_def by (metis sum_mset_sum_list)
qed

lemma equity_loop_exact:
  "equity_loop exact_arith price_of ps t =
     Some (t + positions_sum (\<lambda>s q. case price_of s of None \<Rightarrow> 0 | Some px \<Rightarrow> q * px) ps)"
  by (induction ps arbitrary: t) (auto split: option.split)

lemma unrealized_loop_exact:
  "unrealized_loop exact_arith price_of costs ps t =
     Some (t + positions_sum (\<lambda>s q. case (price_of s, costs s) of
       (Some px, Some c) \<Rightarrow> q * (px - c) | _ \<Rightarrow> 0) ps)"
  by (induction ps arbitrary: t) (auto split: option.split)

lemma positions_sum_filter_nonzero:
  "(\<And>s. h s 0 = 0) \<Longrightarrow> positions_sum h (filter (\<lambda>(s, q). q \<noteq> 0) ps) = positions_sum h ps"
  by (induction ps) auto

lemma positions_sum_diff:
  "positions_sum (\<lambda>s q. h s q - g s q) ps = positions_sum h ps - positions_sum g ps"
  by (induction ps) auto

text \<open>
  Cost basis: what the positions held cost. The invariant says that no position is short,
  that what is held has a recorded cost, and that the books balance.
\<close>

definition cost_basis :: "portfolio \<Rightarrow> dec" where
  "cost_basis p = positions_sum (\<lambda>s q. q * unwrap_or 0 (pf_avg_cost p s)) (pf_positions p)"

definition long_only :: "portfolio \<Rightarrow> bool" where
  "long_only p = (\<forall>(s, q) \<in> set (pf_positions p).
     0 \<le> q \<and> (q \<noteq> 0 \<longrightarrow> pf_avg_cost p s \<noteq> None))"

definition ledger_inv :: "dec \<Rightarrow> dec \<Rightarrow> portfolio \<Rightarrow> bool" where
  "ledger_inv start fees p = (portfolio_wf p \<and> long_only p \<and>
     pf_cash p + cost_basis p = start + pf_realized_pnl p - fees)"

definition buy_fee :: "fill \<Rightarrow> dec" where
  "buy_fee f = (case f_side f of Buy \<Rightarrow> f_fee f | Sell \<Rightarrow> 0)"

text \<open>A fill no venue would refuse a long-only account: no negative size, no overselling.\<close>

definition covered_fill :: "portfolio \<Rightarrow> fill \<Rightarrow> bool" where
  "covered_fill p f = (0 \<le> f_qty f \<and> (f_side f = Sell \<longrightarrow> f_qty f \<le> position p (f_asset f)))"

fun covered_fills :: "portfolio \<Rightarrow> fill list \<Rightarrow> bool" where
  "covered_fills p [] = True"
| "covered_fills p (f # fs) = (covered_fill p f \<and>
     (case apply_fill exact_arith p f of None \<Rightarrow> False | Some p' \<Rightarrow> covered_fills p' fs))"

lemma ledger_inv_new: "ledger_inv c 0 (portfolio_new c)"
  by (simp add: ledger_inv_def cost_basis_def long_only_def)

lemma long_only_position:
  assumes "portfolio_wf p" and "long_only p"
  shows "0 \<le> position p a" and "position p a \<noteq> 0 \<Longrightarrow> pf_avg_cost p (as_symbol a) \<noteq> None"
proof -
  show "0 \<le> position p a"
    using assms(2) by (cases "map_of (pf_positions p) (as_symbol a)")
      (auto simp: position_def long_only_def dest: map_of_SomeD)
  show "position p a \<noteq> 0 \<Longrightarrow> pf_avg_cost p (as_symbol a) \<noteq> None"
    using assms(2) by (cases "map_of (pf_positions p) (as_symbol a)")
      (auto simp: position_def long_only_def dest: map_of_SomeD)
qed

lemma set_alist_update:
  "alist_wf ps \<Longrightarrow> (s, q) \<in> set (AList.update k v ps) \<Longrightarrow>
     (s = k \<and> q = v) \<or> (s \<noteq> k \<and> (s, q) \<in> set ps)"
proof -
  assume "alist_wf ps" and "(s, q) \<in> set (AList.update k v ps)"
  then have "map_of (AList.update k v ps) s = Some q"
    by (intro map_of_is_SomeI) (simp_all add: alist_wf_def distinct_update)
  then show ?thesis by (auto split: if_splits dest: map_of_SomeD)
qed

lemma cost_basis_update:
  assumes "portfolio_wf p" and "\<And>s. s \<noteq> k \<Longrightarrow> m s = pf_avg_cost p s"
  shows "positions_sum (\<lambda>s q. q * unwrap_or 0 (m s)) (AList.update k v (pf_positions p)) =
    cost_basis p
      - unwrap_or 0 (map_of (pf_positions p) k) * unwrap_or 0 (pf_avg_cost p k)
      + v * unwrap_or 0 (m k)"
  using assms
  by (auto simp: cost_basis_def portfolio_wf_def positions_sum_update [where
        h = "\<lambda>s q. q * unwrap_or 0 (pf_avg_cost p s)"] split: option.split)

lemma long_only_update:
  assumes "portfolio_wf p" "long_only p" "0 \<le> v" "v \<noteq> 0 \<Longrightarrow> m k \<noteq> None"
    and "\<And>s. s \<noteq> k \<Longrightarrow> m s = pf_avg_cost p s"
  shows "long_only (p\<lparr>pf_cash := c, pf_positions := AList.update k v (pf_positions p),
      pf_avg_cost := m\<rparr>)"
    and "long_only (p\<lparr>pf_cash := c, pf_realized_pnl := r,
      pf_positions := AList.update k v (pf_positions p), pf_avg_cost := m\<rparr>)"
  using assms
  by (auto simp: long_only_def portfolio_wf_def dest!: set_alist_update)

lemma buy_keeps_ledger:
  assumes inv: "ledger_inv start fees p" and f: "f_side f = Buy" "0 \<le> f_qty f"
    and app: "apply_fill exact_arith p f = Some p'"
  shows "ledger_inv start (fees + f_fee f) p'"
proof -
  let ?k = "as_symbol (f_asset f)" and ?q = "position p (f_asset f)"
  let ?c = "unwrap_or 0 (pf_avg_cost p ?k)" and ?n = "position p (f_asset f) + f_qty f"
  let ?m = "if ?n = 0 then pf_avg_cost p
    else (pf_avg_cost p)(?k \<mapsto> (?q * ?c + f_qty f * f_price f) / ?n)"
  from inv have wf: "portfolio_wf p" and long: "long_only p"
    and bal: "pf_cash p + cost_basis p = start + pf_realized_pnl p - fees"
    by (simp_all add: ledger_inv_def)
  from app f have p': "p' = p\<lparr>pf_cash := pf_cash p - (f_qty f * f_price f + f_fee f),
      pf_positions := AList.update ?k ?n (pf_positions p), pf_avg_cost := ?m\<rparr>"
    by (simp add: apply_fill_buy_exact Let_def)
  have q0: "0 \<le> ?q" using wf long by (rule long_only_position)
  have "?n * unwrap_or 0 (?m ?k) = ?q * ?c + f_qty f * f_price f"
    using q0 f(2) by (cases "?n = 0") (auto simp: add_nonneg_eq_0_iff)
  then have "cost_basis p' = cost_basis p + f_qty f * f_price f"
    using cost_basis_update [OF wf, of ?k ?m ?n]
    by (simp add: p' cost_basis_def position_def)
  moreover have "long_only p'"
    unfolding p' using wf long q0 f(2) by (intro long_only_update) auto
  ultimately show ?thesis
    using wf bal by (simp add: ledger_inv_def p' portfolio_wf_def)
qed

lemma sell_keeps_ledger:
  assumes inv: "ledger_inv start fees p" and f: "f_side f = Sell" "covered_fill p f"
    and app: "apply_fill exact_arith p f = Some p'"
  shows "ledger_inv start fees p'"
proof -
  let ?k = "as_symbol (f_asset f)" and ?q = "position p (f_asset f)"
  let ?c = "unwrap_or 0 (pf_avg_cost p ?k)" and ?n = "position p (f_asset f) - f_qty f"
  let ?m = "if ?q = f_qty f then (pf_avg_cost p)(?k := None) else pf_avg_cost p"
  from inv have wf: "portfolio_wf p" and long: "long_only p"
    and bal: "pf_cash p + cost_basis p = start + pf_realized_pnl p - fees"
    by (simp_all add: ledger_inv_def)
  from f have cov: "0 \<le> f_qty f" "f_qty f \<le> ?q" by (simp_all add: covered_fill_def)
  then have closed: "min (f_qty f) (max ?q 0) = f_qty f" by simp
  from app f(1) have p': "p' = p\<lparr>pf_cash := pf_cash p + (f_qty f * f_price f - f_fee f),
      pf_realized_pnl := pf_realized_pnl p + (f_qty f * (f_price f - ?c) - f_fee f),
      pf_positions := AList.update ?k ?n (pf_positions p), pf_avg_cost := ?m\<rparr>"
    by (simp add: apply_fill_sell_exact Let_def closed)
  have "?n * unwrap_or 0 (?m ?k) = ?q * ?c - f_qty f * ?c"
    by (simp add: left_diff_distrib)
  then have "cost_basis p' = cost_basis p - f_qty f * ?c"
    using cost_basis_update [OF wf, of ?k ?m ?n]
    by (simp add: p' cost_basis_def position_def)
  moreover have "long_only p'"
    unfolding p' using wf long cov long_only_position(2) [OF wf long, of "f_asset f"]
    by (intro long_only_update) auto
  ultimately show ?thesis
    using wf bal by (simp add: ledger_inv_def p' portfolio_wf_def right_diff_distrib)
qed

lemma apply_fill_keeps_ledger:
  assumes "ledger_inv start fees p" "covered_fill p f" "apply_fill exact_arith p f = Some p'"
  shows "ledger_inv start (fees + buy_fee f) p'"
  using assms buy_keeps_ledger sell_keeps_ledger
  by (cases "f_side f") (auto simp: buy_fee_def covered_fill_def)

lemma apply_fills_keep_ledger:
  assumes "ledger_inv start fees p" "covered_fills p fs" "apply_fills exact_arith p fs = Some p'"
  shows "ledger_inv start (fees + sum_list (map buy_fee fs)) p'"
  using assms
proof (induction fs arbitrary: p fees)
  case Nil
  then show ?case by simp
next
  case (Cons f fs)
  from Cons.prems(3) obtain q where q: "apply_fill exact_arith p f = Some q"
    and rest: "apply_fills exact_arith q fs = Some p'"
    by (auto simp: bind_Some_iff)
  from Cons.prems(2) q have "covered_fill p f" and cov: "covered_fills q fs" by auto
  then have "ledger_inv start (fees + buy_fee f) q"
    using Cons.prems(1) q by (intro apply_fill_keeps_ledger)
  from Cons.IH [OF this cov rest] show ?case by (simp add: add.assoc)
qed

lemma covered_fills_total: "covered_fills p fs \<Longrightarrow> \<exists>p'. apply_fills exact_arith p fs = Some p'"
  by (induction fs arbitrary: p) (auto split: option.splits)

lemma equity_split_exact:
  assumes "long_only p"
    and priced: "\<And>s q. (s, q) \<in> set (pf_positions p) \<Longrightarrow> q \<noteq> 0 \<Longrightarrow> price_of s \<noteq> None"
  shows "equity exact_arith p price_of =
    Some (pf_cash p + cost_basis p + the (unrealized_pnl exact_arith p price_of))"
proof -
  let ?v = "\<lambda>s q. case price_of s of None \<Rightarrow> 0 | Some px \<Rightarrow> q * px"
  let ?b = "\<lambda>s q. q * unwrap_or 0 (pf_avg_cost p s)"
  let ?u = "\<lambda>s q. case (price_of s, pf_avg_cost p s) of
       (Some px, Some c) \<Rightarrow> q * (px - c) | _ \<Rightarrow> 0"
  have "positions_sum ?u (pf_positions p) = positions_sum (\<lambda>s q. ?v s q - ?b s q) (pf_positions p)"
  proof (rule positions_sum_cong)
    fix s q
    assume sq: "(s, q) \<in> set (pf_positions p)"
    with assms(1) have c: "q \<noteq> 0 \<longrightarrow> pf_avg_cost p s \<noteq> None" by (auto simp: long_only_def)
    show "?u s q = ?v s q - ?b s q"
      using c priced [OF sq] by (cases "q = 0") (auto split: option.split simp: right_diff_distrib)
  qed
  also have "\<dots> = positions_sum ?v (pf_positions p) - cost_basis p"
    by (simp add: positions_sum_diff cost_basis_def)
  finally show ?thesis
    by (simp add: equity_def unrealized_pnl_def equity_loop_exact unrealized_loop_exact
        open_positions_def positions_sum_filter_nonzero split: option.split)
qed

section \<open>Properties\<close>


definition demo_fill :: "side \<Rightarrow> dec \<Rightarrow> dec \<Rightarrow> fill" where
  "demo_fill sd q px = \<lparr>f_order_id = ''t'', f_asset = asset_symbol ''ROAR'', f_side = sd,
     f_qty = q, f_price = px, f_fee = 1, f_venue = Paper, f_at = 0\<rparr>"


end
