(* ===== verification/Risk_Gate.thy ===== *)
theory Risk_Gate
  imports Portfolio
begin

text \<open>
  The risk gate of \<open>crates/core/src/risk.rs\<close>, the check every order passes before
  an executor sees it: the configuration, the reasons for a rejection, the context the
  caller supplies and \<open>check\<close> with its checks in the code's order. The lemmas give
  the declarative meaning of acceptance and the precedence of the hard stops. The locale
  \<open>order_gate\<close> is the contract the callers of the gate rely on.
\<close>

section \<open>Configuration, context and rejections\<close>

record risk_config =
  rc_max_order_notional :: dec
  rc_max_position_fraction :: dec
  rc_max_daily_loss :: dec
  rc_max_unrealized_loss :: dec
  rc_max_open_positions :: nat
  rc_order_cooldown_secs :: u64
  rc_max_slippage :: dec
  rc_allowlist :: "string set"
  rc_denylist :: "string set"
  rc_kill_switch :: bool

definition default_risk_config :: risk_config where
  "default_risk_config = \<lparr>
     rc_max_order_notional = 100,
     rc_max_position_fraction = 10 / 100,
     rc_max_daily_loss = 50,
     rc_max_unrealized_loss = 100,
     rc_max_open_positions = 10,
     rc_order_cooldown_secs = 0,
     rc_max_slippage = 2 / 100,
     rc_allowlist = {},
     rc_denylist = {},
     rc_kill_switch = False\<rparr>"

datatype risk_reject =
    KillSwitch
  | Denylisted string
  | NotAllowlisted string
  | NotionalCap dec dec            \<comment> \<open>got, cap\<close>
  | PositionCap dec dec
  | SlippageCap dec dec
  | DailyLoss dec dec              \<comment> \<open>realized, limit\<close>
  | UnrealizedLoss dec dec
  | TooManyOpenPositions nat nat   \<comment> \<open>open, limit\<close>
  | Cooldown string int            \<comment> \<open>symbol, remaining seconds\<close>
  | NoReferencePrice
  | InsufficientCash dec dec       \<comment> \<open>need, have\<close>

record gate_context =
  gc_portfolio :: portfolio
  gc_ref_price :: "dec option"
  gc_equity :: dec
  gc_unrealized_pnl :: dec
  gc_last_order_at :: "instant option"
  gc_now :: instant

section \<open>The check\<close>

text \<open>
  The cooldown compares \<open>i64\<close> values: the configured \<open>u64\<close> is cast (values from
  \<open>2^63\<close> up become negative) and the remaining time is an \<open>i64\<close> subtraction.
\<close>

definition cooldown_reject :: "risk_config \<Rightarrow> string \<Rightarrow> gate_context \<Rightarrow> risk_reject option" where
  "cooldown_reject cfg symb ctx =
     (if 0 < rc_order_cooldown_secs cfg then
        (case gc_last_order_at ctx of
           None \<Rightarrow> None
         | Some prev \<Rightarrow>
             let elapsed = num_seconds (gc_now ctx - prev);
                 cooldown = sint (rc_order_cooldown_secs cfg)
             in if elapsed < cooldown
                then Some (Cooldown symb (sint (rc_order_cooldown_secs cfg - word_of_int elapsed)))
                else None)
      else None)"

text \<open>The share of the equity the asset would be after the order; 0 without equity.\<close>

definition resulting_fraction ::
    "arith \<Rightarrow> trade_order \<Rightarrow> gate_context \<Rightarrow> dec \<Rightarrow> dec option"
where
  "resulting_fraction A ord ctx price = do {
     held \<leftarrow> d_add A (position (gc_portfolio ctx) (o_asset ord)) (o_qty ord);
     resulting \<leftarrow> d_mul A held price;
     (if 0 < gc_equity ctx then d_div A resulting (gc_equity ctx) else Some 0) }"

text \<open>The entry limits, which only a buy has to pass.\<close>

definition entry_limits ::
    "arith \<Rightarrow> risk_config \<Rightarrow> trade_order \<Rightarrow> gate_context \<Rightarrow> dec \<Rightarrow> dec \<Rightarrow> (risk_reject + unit) option"
where
  "entry_limits A cfg ord ctx price notional =
     (let p = gc_portfolio ctx; symb = as_symbol (o_asset ord) in
      if pf_cash p < notional then Some (Err (InsufficientCash notional (pf_cash p)))
      else if gc_unrealized_pnl ctx \<le> - rc_max_unrealized_loss cfg
      then Some (Err (UnrealizedLoss (gc_unrealized_pnl ctx) (rc_max_unrealized_loss cfg)))
      else if position p (o_asset ord) = 0 \<and> rc_max_open_positions cfg \<le> open_position_count p
      then Some (Err (TooManyOpenPositions (open_position_count p) (rc_max_open_positions cfg)))
      else (case cooldown_reject cfg symb ctx of
        Some r \<Rightarrow> Some (Err r)
      | None \<Rightarrow> do {
          fract \<leftarrow> resulting_fraction A ord ctx price;
          Some (if rc_max_position_fraction cfg < fract
                then Err (PositionCap fract (rc_max_position_fraction cfg))
                else Ok ()) }))"

definition check ::
    "arith \<Rightarrow> risk_config \<Rightarrow> trade_order \<Rightarrow> gate_context \<Rightarrow> (risk_reject + unit) option"
where
  "check A cfg ord ctx =
     (let symb = as_symbol (o_asset ord); realized = pf_realized_pnl (gc_portfolio ctx) in
      if rc_kill_switch cfg then Some (Err KillSwitch)
      else if symb \<in> rc_denylist cfg then Some (Err (Denylisted symb))
      else if rc_allowlist cfg \<noteq> {} \<and> symb \<notin> rc_allowlist cfg
      then Some (Err (NotAllowlisted symb))
      else if rc_max_slippage cfg < o_max_slippage ord
      then Some (Err (SlippageCap (o_max_slippage ord) (rc_max_slippage cfg)))
      else if realized \<le> - rc_max_daily_loss cfg
      then Some (Err (DailyLoss realized (rc_max_daily_loss cfg)))
      else (case or_else (o_limit_price ord) (gc_ref_price ctx) of
        None \<Rightarrow> Some (Err NoReferencePrice)
      | Some price \<Rightarrow> do {
          notional \<leftarrow> d_mul A (o_qty ord) price;
          (if rc_max_order_notional cfg < notional
           then Some (Err (NotionalCap notional (rc_max_order_notional cfg)))
           else if o_side ord = Sell then Some (Ok ())
           else entry_limits A cfg ord ctx price notional) }))"

section \<open>The declarative meaning of acceptance\<close>

definition symbol_permitted :: "risk_config \<Rightarrow> string \<Rightarrow> bool" where
  "symbol_permitted cfg s =
     (s \<notin> rc_denylist cfg \<and> (rc_allowlist cfg = {} \<or> s \<in> rc_allowlist cfg))"

text \<open>No hard stop: the conditions every order has to meet, buys and sells alike.\<close>

definition hard_stops_clear :: "risk_config \<Rightarrow> trade_order \<Rightarrow> gate_context \<Rightarrow> bool" where
  "hard_stops_clear cfg ord ctx =
     (\<not> rc_kill_switch cfg \<and> symbol_permitted cfg (as_symbol (o_asset ord))
      \<and> o_max_slippage ord \<le> rc_max_slippage cfg
      \<and> - rc_max_daily_loss cfg < pf_realized_pnl (gc_portfolio ctx))"

definition cooled_down :: "risk_config \<Rightarrow> gate_context \<Rightarrow> bool" where
  "cooled_down cfg ctx = (case gc_last_order_at ctx of
       None \<Rightarrow> True
     | Some prev \<Rightarrow> rc_order_cooldown_secs cfg = 0
         \<or> sint (rc_order_cooldown_secs cfg) \<le> num_seconds (gc_now ctx - prev))"

text \<open>What a buy at the given price has to meet besides.\<close>

definition entry_permitted ::
    "arith \<Rightarrow> risk_config \<Rightarrow> trade_order \<Rightarrow> gate_context \<Rightarrow> dec \<Rightarrow> dec \<Rightarrow> bool"
where
  "entry_permitted A cfg ord ctx price notional =
     (notional \<le> pf_cash (gc_portfolio ctx)
      \<and> - rc_max_unrealized_loss cfg < gc_unrealized_pnl ctx
      \<and> (position (gc_portfolio ctx) (o_asset ord) \<noteq> 0
          \<or> open_position_count (gc_portfolio ctx) < rc_max_open_positions cfg)
      \<and> cooled_down cfg ctx
      \<and> (\<exists>fract. resulting_fraction A ord ctx price = Some fract
           \<and> fract \<le> rc_max_position_fraction cfg))"

definition admissible ::
    "arith \<Rightarrow> risk_config \<Rightarrow> trade_order \<Rightarrow> gate_context \<Rightarrow> bool"
where
  "admissible A cfg ord ctx =
     (hard_stops_clear cfg ord ctx
      \<and> (\<exists>price notional.
           or_else (o_limit_price ord) (gc_ref_price ctx) = Some price
           \<and> d_mul A (o_qty ord) price = Some notional
           \<and> notional \<le> rc_max_order_notional cfg
           \<and> (o_side ord = Buy \<longrightarrow> entry_permitted A cfg ord ctx price notional)))"

lemma cooldown_reject_None: "cooldown_reject cfg s ctx = None \<longleftrightarrow> cooled_down cfg ctx"
  by (auto simp: cooldown_reject_def cooled_down_def Let_def word_gt_0 split: option.split)

lemma entry_limits_ok:
  "entry_limits A cfg ord ctx price notional = Some (Ok ())
     \<longleftrightarrow> entry_permitted A cfg ord ctx price notional"
  by (auto simp: entry_limits_def entry_permitted_def Let_def bind_Some_iff not_less
      cooldown_reject_None [where s = "as_symbol (o_asset ord)", symmetric]
      split: option.split if_splits)

lemma check_ok_iff: "check A cfg ord ctx = Some (Ok ()) \<longleftrightarrow> admissible A cfg ord ctx"
  by (cases "o_side ord"; cases "or_else (o_limit_price ord) (gc_ref_price ctx)")
     (auto simp: check_def admissible_def hard_stops_clear_def symbol_permitted_def Let_def
      bind_Some_iff not_less not_le entry_limits_ok)

lemma check_ok_cases:
  assumes "check A cfg ord ctx = Some (Ok ())"
  obtains price notional where "hard_stops_clear cfg ord ctx"
    and "or_else (o_limit_price ord) (gc_ref_price ctx) = Some price"
    and "d_mul A (o_qty ord) price = Some notional"
    and "notional \<le> rc_max_order_notional cfg"
    and "o_side ord = Buy \<Longrightarrow> entry_permitted A cfg ord ctx price notional"
  using assms by (auto simp: check_ok_iff admissible_def)

lemma check_id [simp]: "check A cfg (ord\<lparr>o_id := i\<rparr>) ctx = check A cfg ord ctx"
  by (simp add: check_def entry_limits_def resulting_fraction_def cong: if_cong option.case_cong)

section \<open>The contract of a gate\<close>

text \<open>
  What a caller relies on: a gate that lets an order through has checked the hard stops
  and the notional cap, and a gate under an engaged kill switch lets nothing through.
\<close>

locale order_gate =
  fixes gate :: "trade_order \<Rightarrow> gate_context \<Rightarrow> (risk_reject + unit) option"
    and times :: "dec \<Rightarrow> dec \<Rightarrow> dec option"
    and cfg :: risk_config
  assumes accept_clear: "gate ord ctx = Some (Ok ()) \<Longrightarrow> hard_stops_clear cfg ord ctx"
    and accept_priced: "gate ord ctx = Some (Ok ()) \<Longrightarrow>
      \<exists>price notional. or_else (o_limit_price ord) (gc_ref_price ctx) = Some price
        \<and> times (o_qty ord) price = Some notional \<and> notional \<le> rc_max_order_notional cfg"
    and accept_buy: "gate ord ctx = Some (Ok ()) \<Longrightarrow> o_side ord = Buy \<Longrightarrow>
      or_else (o_limit_price ord) (gc_ref_price ctx) = Some price \<Longrightarrow>
      times (o_qty ord) price = Some notional \<Longrightarrow> notional \<le> pf_cash (gc_portfolio ctx)"
begin

lemma gate_halted: "rc_kill_switch cfg \<Longrightarrow> gate ord ctx \<noteq> Some (Ok ())"
  using accept_clear by (auto simp: hard_stops_clear_def)

lemma gate_symbol: "gate ord ctx = Some (Ok ()) \<Longrightarrow> symbol_permitted cfg (as_symbol (o_asset ord))"
  using accept_clear by (auto simp: hard_stops_clear_def)

lemma gate_slippage: "gate ord ctx = Some (Ok ()) \<Longrightarrow> o_max_slippage ord \<le> rc_max_slippage cfg"
  using accept_clear by (auto simp: hard_stops_clear_def)

end

interpretation core_gate: order_gate "check A cfg" "d_mul A" cfg for A cfg
  by unfold_locales (auto elim!: check_ok_cases simp: entry_permitted_def)

section \<open>Properties\<close>


text \<open>When a rejection is truthful: the limit it names is broken, by the amounts it reports.\<close>

definition truthful_reject ::
    "arith \<Rightarrow> risk_config \<Rightarrow> trade_order \<Rightarrow> gate_context \<Rightarrow> risk_reject \<Rightarrow> bool"
where
  "truthful_reject A cfg ord ctx r =
    (let p = gc_portfolio ctx; s = as_symbol (o_asset ord);
         price = or_else (o_limit_price ord) (gc_ref_price ctx) in
     case r of
       KillSwitch \<Rightarrow> rc_kill_switch cfg
     | Denylisted x \<Rightarrow> x = s \<and> s \<in> rc_denylist cfg
     | NotAllowlisted x \<Rightarrow> x = s \<and> s \<notin> rc_allowlist cfg \<and> s \<notin> rc_denylist cfg
     | SlippageCap got cap \<Rightarrow> got = o_max_slippage ord \<and> cap = rc_max_slippage cfg \<and> cap < got
     | DailyLoss rl limit \<Rightarrow>
         rl = pf_realized_pnl p \<and> limit = rc_max_daily_loss cfg \<and> rl \<le> - limit
     | NoReferencePrice \<Rightarrow> price = None
     | NotionalCap got cap \<Rightarrow> (\<exists>px. price = Some px \<and> d_mul A (o_qty ord) px = Some got)
         \<and> cap = rc_max_order_notional cfg \<and> cap < got
     | InsufficientCash need have \<Rightarrow> o_side ord = Buy
         \<and> (\<exists>px. price = Some px \<and> d_mul A (o_qty ord) px = Some need)
         \<and> have = pf_cash p \<and> have < need
     | UnrealizedLoss u limit \<Rightarrow> o_side ord = Buy \<and> u = gc_unrealized_pnl ctx
         \<and> limit = rc_max_unrealized_loss cfg \<and> u \<le> - limit
     | TooManyOpenPositions n limit \<Rightarrow> o_side ord = Buy \<and> position p (o_asset ord) = 0
         \<and> n = open_position_count p \<and> limit = rc_max_open_positions cfg \<and> limit \<le> n
     | Cooldown x left \<Rightarrow> o_side ord = Buy \<and> x = s
         \<and> (\<exists>prev. gc_last_order_at ctx = Some prev
              \<and> num_seconds (gc_now ctx - prev) < sint (rc_order_cooldown_secs cfg))
     | PositionCap fract cap \<Rightarrow> o_side ord = Buy \<and> cap = rc_max_position_fraction cfg \<and> cap < fract
         \<and> (\<exists>px. price = Some px \<and> resulting_fraction A ord ctx px = Some fract))"

lemma cooldown_reject_Some:
  assumes "cooldown_reject cfg s ctx = Some r"
  obtains prev left where "r = Cooldown s left" "gc_last_order_at ctx = Some prev"
    "num_seconds (gc_now ctx - prev) < sint (rc_order_cooldown_secs cfg)"
  using assms by (auto simp: cooldown_reject_def Let_def split: if_splits option.splits)

lemma entry_reject_truthful:
  assumes "entry_limits A cfg ord ctx price notional = Some (Err r)" "o_side ord = Buy"
    and "or_else (o_limit_price ord) (gc_ref_price ctx) = Some price"
    and "d_mul A (o_qty ord) price = Some notional"
  shows "truthful_reject A cfg ord ctx r"
proof (cases "cooldown_reject cfg (as_symbol (o_asset ord)) ctx")
  case None
  with assms show ?thesis
    by (auto simp: entry_limits_def truthful_reject_def Let_def bind_Some_iff split: if_splits)
next
  case (Some x)
  then obtain prev left where "x = Cooldown (as_symbol (o_asset ord)) left"
    "gc_last_order_at ctx = Some prev"
    "num_seconds (gc_now ctx - prev) < sint (rc_order_cooldown_secs cfg)"
    by (rule cooldown_reject_Some)
  with assms Some show ?thesis
    by (auto simp: entry_limits_def truthful_reject_def Let_def split: if_splits)
qed

text \<open>
  C22. Every rejection is truthful: whatever reason the gate gives, the limit it names is the
  one configured, the values it reports are the order's own, and the limit is broken. The
  reasons that are entry limits are only ever given to buys.
\<close>

theorem every_rejection_is_truthful:
  assumes "check A cfg ord ctx = Some (Err r)"
  shows "truthful_reject A cfg ord ctx r"
proof (cases "or_else (o_limit_price ord) (gc_ref_price ctx)")
  case None
  with assms show ?thesis
    by (auto simp: check_def truthful_reject_def Let_def split: if_splits)
next
  case (Some price)
  show ?thesis
  proof (cases "\<exists>n. d_mul A (o_qty ord) price = Some n \<and> o_side ord = Buy
      \<and> entry_limits A cfg ord ctx price n = Some (Err r)")
    case True
    with Some show ?thesis by (auto intro: entry_reject_truthful)
  next
    case False
    with assms Some show ?thesis
      by (cases "o_side ord")
        (auto simp: check_def truthful_reject_def Let_def bind_Some_iff split: if_splits)
  qed
qed

definition demo_order :: "side \<Rightarrow> dec \<Rightarrow> dec \<Rightarrow> trade_order" where
  "demo_order sd q px = \<lparr>o_id = ''t'', o_asset = asset_symbol ''ROAR'', o_side = sd, o_qty = q,
     o_limit_price = Some px, o_max_slippage = 1 / 100, o_venue = Paper, o_reason = []\<rparr>"

definition demo_context :: "portfolio \<Rightarrow> dec \<Rightarrow> gate_context" where
  "demo_context p eq = \<lparr>gc_portfolio = p, gc_ref_price = None, gc_equity = eq,
     gc_unrealized_pnl = 0, gc_last_order_at = None, gc_now = 0\<rparr>"

theorem every_rejection_is_truthful_witness:
  "truthful_reject exact_arith default_risk_config (demo_order Buy 20 10)
     (demo_context (portfolio_new 1000) 1000) (NotionalCap 200 100)"
  by (rule every_rejection_is_truthful)
     (simp add: check_def demo_order_def demo_context_def default_risk_config_def Let_def)

text \<open>
  A sell is never held back by the entry limits: with the hard stops clear, a price to
  size it by and a notional within the cap it passes, whatever the cash, the unrealised
  loss, the number of open positions, the cooldown or the equity.
\<close>

theorem derisking_sell_passes:
  assumes "o_side ord = Sell" and "hard_stops_clear cfg ord ctx"
    and "or_else (o_limit_price ord) (gc_ref_price ctx) = Some price"
    and "d_mul A (o_qty ord) price = Some notional"
    and "notional \<le> rc_max_order_notional cfg"
  shows "check A cfg ord ctx = Some (Ok ())"
  using assms by (auto simp: check_ok_iff admissible_def)

theorem derisking_sell_passes_witness:
  "check exact_arith default_risk_config (demo_order Sell 5 10)
     ((demo_context (portfolio_new 0) 0)
        \<lparr>gc_unrealized_pnl := - 999999, gc_last_order_at := Some 0\<rparr>) = Some (Ok ())"
  by (rule derisking_sell_passes [where price = 10 and notional = 50])
     (simp_all add: demo_order_def demo_context_def default_risk_config_def
       hard_stops_clear_def symbol_permitted_def)

text \<open>
  The notional cap is not an entry limit: a sell above it is refused even when it only
  closes an open position, so a large enough holding cannot be closed with one order.
\<close>

theorem oversized_sell_is_blocked:
  assumes "o_side ord = Sell" and "hard_stops_clear cfg ord ctx"
    and "or_else (o_limit_price ord) (gc_ref_price ctx) = Some price"
    and "d_mul A (o_qty ord) price = Some notional"
    and "rc_max_order_notional cfg < notional"
  shows "check A cfg ord ctx = Some (Err (NotionalCap notional (rc_max_order_notional cfg)))"
  using assms
  by (auto simp: check_def hard_stops_clear_def symbol_permitted_def Let_def not_le)

theorem oversized_sell_is_blocked_witness:
  "\<exists>p. apply_fill exact_arith (portfolio_new 1000) (demo_fill Buy 20 5) = Some p
    \<and> position p (asset_symbol ''ROAR'') = 20
    \<and> check exact_arith default_risk_config (demo_order Sell 20 10) (demo_context p 1100)
        = Some (Err (NotionalCap 200 100))"
proof -
  obtain p where p: "apply_fill exact_arith (portfolio_new 1000) (demo_fill Buy 20 5) = Some p"
    using apply_fill_exact_total by blast
  then have "position p (asset_symbol ''ROAR'') = 20" and "pf_realized_pnl p = 0"
    by (auto simp: apply_fill_buy_exact demo_fill_def position_def Let_def)
  moreover from this have "check exact_arith default_risk_config (demo_order Sell 20 10)
      (demo_context p 1100) = Some (Err (NotionalCap 200 (rc_max_order_notional default_risk_config)))"
    by (intro oversized_sell_is_blocked [where price = 10])
       (simp_all add: demo_order_def demo_context_def default_risk_config_def
         hard_stops_clear_def symbol_permitted_def)
  ultimately show ?thesis using p by (auto simp: default_risk_config_def)
qed

text \<open>
  The cooldown clock. For a configured cooldown below 2 to the 63rd seconds and a last
  order not in the future, a buy inside the cooldown is told exactly the seconds that
  remain, at least one and at most the cooldown; outside it the cooldown says nothing.
\<close>

theorem cooldown_remaining_exact:
  assumes "0 < rc_order_cooldown_secs cfg" and "uint (rc_order_cooldown_secs cfg) < 2 ^ 63"
    and "gc_last_order_at ctx = Some prev" and "prev \<le> gc_now ctx"
  shows "cooldown_reject cfg s ctx =
    (let secs = uint (rc_order_cooldown_secs cfg);
         elapsed = (gc_now ctx - prev) div nanos_per_sec
     in if elapsed < secs then Some (Cooldown s (secs - elapsed)) else None)"
proof -
  let ?w = "rc_order_cooldown_secs cfg" and ?e = "(gc_now ctx - prev) div nanos_per_sec"
  have sw: "sint ?w = uint ?w"
    using assms(2) by (rule sint_eq_uint_fits)
  have e: "num_seconds (gc_now ctx - prev) = ?e" "0 \<le> ?e"
    using assms(4) by (simp_all add: num_seconds_nonneg nanos_per_sec_def)
  have "sint (?w - word_of_int ?e) = uint ?w - ?e" if "?e < uint ?w"
  proof -
    have "?w - word_of_int ?e = word_of_int (uint ?w - ?e)" by simp
    then show ?thesis
      using that e(2) assms(2) sint_of_int_fits [of "uint ?w - ?e"] by simp
  qed
  with assms sw e show ?thesis by (simp add: cooldown_reject_def Let_def)
qed

theorem cooldown_remaining_exact_witness:
  "cooldown_reject (default_risk_config\<lparr>rc_order_cooldown_secs := 60\<rparr>) ''ROAR''
     ((demo_context (portfolio_new 0) 0)
        \<lparr>gc_last_order_at := Some 0, gc_now := from_secs 30\<rparr>)
   = Some (Cooldown ''ROAR'' 30)"
  using cooldown_remaining_exact [of "default_risk_config\<lparr>rc_order_cooldown_secs := 60\<rparr>"
      "(demo_context (portfolio_new 0) 0)\<lparr>gc_last_order_at := Some 0, gc_now := from_secs 30\<rparr>"
      0 "''ROAR''"]
  by (simp add: from_secs_def nanos_per_sec_def demo_context_def default_risk_config_def)

text \<open>
  The position cap compares a fraction of equity, and with zero or negative equity the
  fraction is taken to be 0: such an account is never refused for the size of a position,
  whatever the cap.
\<close>

theorem no_position_cap_without_equity:
  assumes "gc_equity ctx \<le> 0" and "0 \<le> rc_max_position_fraction cfg"
  shows "check A cfg ord ctx \<noteq> Some (Err (PositionCap fract cap))"
proof
  assume "check A cfg ord ctx = Some (Err (PositionCap fract cap))"
  then show False
    using assms
    by (auto simp: check_def entry_limits_def resulting_fraction_def Let_def bind_Some_iff not_less
        elim!: cooldown_reject_Some split: if_splits option.splits)
qed

theorem no_position_cap_without_equity_witness:
  "check exact_arith default_risk_config (demo_order Buy 5 10)
     (demo_context (portfolio_new 1000) 0) \<noteq> Some (Err (PositionCap 1 (10 / 100)))"
  by (rule no_position_cap_without_equity)
     (simp_all add: demo_context_def default_risk_config_def)

end
