(* ===== verification/Text_Ops.thy ===== *)
theory Text_Ops
  imports Prelude
begin

text \<open>
  The string operations of the Rust standard library that the code uses. A string is the
  list of its UTF-8 bytes. The ASCII operations leave every byte of a multi-byte character
  alone; \<open>trim\<close> strips every character with the Unicode property White_Space, by its
  encoding.
\<close>

section \<open>ASCII case\<close>

definition ascii_upper :: "char \<Rightarrow> char" where
  "ascii_upper c = (let n = of_char c :: nat in
     if 97 \<le> n \<and> n \<le> 122 then char_of (n - 32) else c)"

definition ascii_lower :: "char \<Rightarrow> char" where
  "ascii_lower c = (let n = of_char c :: nat in
     if 65 \<le> n \<and> n \<le> 90 then char_of (n + 32) else c)"

definition to_ascii_uppercase :: "string \<Rightarrow> string" where
  "to_ascii_uppercase = map ascii_upper"

definition to_ascii_lowercase :: "string \<Rightarrow> string" where
  "to_ascii_lowercase = map ascii_lower"

definition eq_ignore_ascii_case :: "string \<Rightarrow> string \<Rightarrow> bool" where
  "eq_ignore_ascii_case a b = (to_ascii_lowercase a = to_ascii_lowercase b)"

lemma eq_ignore_ascii_case_refl [simp]: "eq_ignore_ascii_case s s"
  by (simp add: eq_ignore_ascii_case_def)

lemma eq_ignore_ascii_case_sym: "eq_ignore_ascii_case s t \<longleftrightarrow> eq_ignore_ascii_case t s"
  by (auto simp: eq_ignore_ascii_case_def)

lemma ascii_upper_idem [simp]: "ascii_upper (ascii_upper c) = ascii_upper c"
proof (cases "97 \<le> (of_char c :: nat) \<and> (of_char c :: nat) \<le> 122")
  case True
  then have "(of_char c :: nat) - 32 < 256" by linarith
  then have "of_char (char_of (of_char c - 32 :: nat) :: char) = (of_char c - 32 :: nat)"
    by (simp only: of_char_of mod_less)
  moreover have "\<not> 97 \<le> (of_char c :: nat) - 32" using True by linarith
  ultimately show ?thesis using True by (simp add: ascii_upper_def Let_def)
qed (auto simp: ascii_upper_def Let_def)

lemma to_ascii_uppercase_idem [simp]:
  "to_ascii_uppercase (to_ascii_uppercase s) = to_ascii_uppercase s"
  by (simp add: to_ascii_uppercase_def)

section \<open>Trimming\<close>

text \<open>The UTF-8 encodings of the White_Space characters.\<close>

definition ws_chars :: "string list" where
  "ws_chars = [
     [CHR 0x09], [CHR 0x0A], [CHR 0x0B], [CHR 0x0C], [CHR 0x0D], [CHR 0x20],
     [CHR 0xC2, CHR 0x85], [CHR 0xC2, CHR 0xA0], [CHR 0xE1, CHR 0x9A, CHR 0x80],
     [CHR 0xE2, CHR 0x80, CHR 0x80], [CHR 0xE2, CHR 0x80, CHR 0x81],
     [CHR 0xE2, CHR 0x80, CHR 0x82], [CHR 0xE2, CHR 0x80, CHR 0x83],
     [CHR 0xE2, CHR 0x80, CHR 0x84], [CHR 0xE2, CHR 0x80, CHR 0x85],
     [CHR 0xE2, CHR 0x80, CHR 0x86], [CHR 0xE2, CHR 0x80, CHR 0x87],
     [CHR 0xE2, CHR 0x80, CHR 0x88], [CHR 0xE2, CHR 0x80, CHR 0x89],
     [CHR 0xE2, CHR 0x80, CHR 0x8A], [CHR 0xE2, CHR 0x80, CHR 0xA8],
     [CHR 0xE2, CHR 0x80, CHR 0xA9], [CHR 0xE2, CHR 0x80, CHR 0xAF],
     [CHR 0xE2, CHR 0x81, CHR 0x9F], [CHR 0xE3, CHR 0x80, CHR 0x80]]"

definition starts_with :: "string \<Rightarrow> string \<Rightarrow> bool" where
  "starts_with s w = (take (length w) s = w)"

function strip_front :: "string list \<Rightarrow> string \<Rightarrow> string" where
  "strip_front ws s = (case find (\<lambda>w. w \<noteq> [] \<and> starts_with s w) ws of
       None \<Rightarrow> s
     | Some w \<Rightarrow> strip_front ws (drop (length w) s))"
  by pat_completeness auto
termination
proof (relation "measure (\<lambda>(ws, s). length s)")
  fix ws s w
  assume "find (\<lambda>w. w \<noteq> [] \<and> starts_with s w) ws = Some w"
  then have "w \<noteq> []" and "take (length w) s = w"
    by (auto simp: find_Some_iff starts_with_def)
  then have "s \<noteq> []" "0 < length w" by auto
  then show "((ws, drop (length w) s), ws, s) \<in> measure (\<lambda>(ws, s). length s)" by simp
qed simp

declare strip_front.simps [simp del]

definition trim_start :: "string \<Rightarrow> string" where
  "trim_start = strip_front ws_chars"

definition trim_end :: "string \<Rightarrow> string" where
  "trim_end s = rev (strip_front (map rev ws_chars) (rev s))"

definition trim :: "string \<Rightarrow> string" where
  "trim s = trim_end (trim_start s)"

lemma strip_front_stops: "w \<in> set ws \<Longrightarrow> w \<noteq> [] \<Longrightarrow> \<not> starts_with (strip_front ws s) w"
proof (induction ws s rule: strip_front.induct)
  case (1 ws s)
  then show ?case
    by (subst strip_front.simps) (auto simp: find_None_iff split: option.split)
qed

lemma strip_front_suffix: "\<exists>u. s = u @ strip_front ws s"
proof (induction ws s rule: strip_front.induct)
  case (1 ws s)
  show ?case
  proof (cases "find (\<lambda>w. w \<noteq> [] \<and> starts_with s w) ws")
    case None
    then show ?thesis by (subst strip_front.simps) simp
  next
    case (Some w)
    then obtain u where "drop (length w) s = u @ strip_front ws (drop (length w) s)"
      using "1.IH" by blast
    then have "s = (take (length w) s @ u) @ strip_front ws (drop (length w) s)"
      by (metis append.assoc append_take_drop_id)
    moreover from Some have "strip_front ws s = strip_front ws (drop (length w) s)"
      by (subst strip_front.simps) simp
    ultimately show ?thesis by metis
  qed
qed

text \<open>Removing one character at the front as long as it is there.\<close>

definition trim_start_matches :: "char \<Rightarrow> string \<Rightarrow> string" where
  "trim_start_matches c = dropWhile (\<lambda>x. x = c)"

section \<open>Printing integers\<close>

fun show_nat :: "nat \<Rightarrow> string" where
  "show_nat n = (if n < 10 then [char_of (48 + n)] else show_nat (n div 10) @ [char_of (48 + n mod 10)])"

declare show_nat.simps [simp del]

definition show_int :: "int \<Rightarrow> string" where
  "show_int i = (if i < 0 then CHR ''-'' # show_nat (nat (- i)) else show_nat (nat i))"

text \<open>Reading the digits back, which shows that printing loses nothing.\<close>

definition digits_value :: "string \<Rightarrow> nat" where
  "digits_value s = foldl (\<lambda>n c. 10 * n + (of_char c - 48)) 0 s"

lemma digits_value_show_nat: "digits_value (show_nat n) = n"
proof (induction n rule: show_nat.induct)
  case (1 n)
  then show ?case
    by (subst show_nat.simps) (auto simp: digits_value_def of_char_of)
qed

lemma show_nat_inject [simp]: "show_nat m = show_nat n \<longleftrightarrow> m = n"
  by (metis digits_value_show_nat)

lemma show_nat_digits: "c \<in> set (show_nat n) \<Longrightarrow> 48 \<le> (of_char c :: nat) \<and> (of_char c :: nat) \<le> 57"
proof (induction n rule: show_nat.induct)
  case (1 n)
  then show ?case
    by (subst (asm) (2) show_nat.simps) (auto simp: of_char_of split: if_splits)
qed

section \<open>Prefixes, substrings and truncation\<close>

definition strip_prefix :: "string \<Rightarrow> string \<Rightarrow> string option" where
  "strip_prefix w s = (if starts_with s w then Some (drop (length w) s) else None)"

definition strip_suffix :: "string \<Rightarrow> string \<Rightarrow> string option" where
  "strip_suffix w s = (if starts_with (rev s) (rev w) then Some (take (length s - length w) s) else None)"

fun contains_str :: "string \<Rightarrow> string \<Rightarrow> bool" where
  "contains_str [] w = (w = [])"
| "contains_str (c # cs) w = (starts_with (c # cs) w \<or> contains_str cs w)"

lemma contains_str_iff: "contains_str s w \<longleftrightarrow> (\<exists>u v. s = u @ w @ v)"
proof (induction s)
  case Nil
  then show ?case by auto
next
  case (Cons c cs)
  have "starts_with (c # cs) w \<longleftrightarrow> (\<exists>v. c # cs = w @ v)"
    by (metis append_eq_conv_conj append_take_drop_id starts_with_def)
  moreover have "(\<exists>u v. c # cs = u @ w @ v) \<longleftrightarrow> (\<exists>v. c # cs = w @ v) \<or> (\<exists>u v. cs = u @ w @ v)"
    by (auto simp: Cons_eq_append_conv)
  ultimately show ?case using Cons by simp
qed

text \<open>
  A continuation byte of UTF-8 starts with the bits 10. Truncating a string panics between
  two bytes of one character; taking characters keeps whole ones.
\<close>

definition continuation_byte :: "char \<Rightarrow> bool" where
  "continuation_byte c = (of_char c div 64 = (2 :: nat))"

definition is_char_boundary :: "string \<Rightarrow> nat \<Rightarrow> bool" where
  "is_char_boundary s n = (n = 0 \<or> n = length s \<or> (n < length s \<and> \<not> continuation_byte (s ! n)))"

definition truncate_str :: "nat \<Rightarrow> string \<Rightarrow> string option" where
  "truncate_str n s =
     (if n \<le> length s then (if is_char_boundary s n then Some (take n s) else None) else Some s)"

fun take_chars :: "nat \<Rightarrow> string \<Rightarrow> string" where
  "take_chars n [] = []"
| "take_chars n (c # cs) =
     (if continuation_byte c then c # take_chars n cs
      else if n = 0 then [] else c # take_chars (n - 1) cs)"

lemma truncate_str_ascii:
  assumes "\<forall>c \<in> set s. \<not> continuation_byte c"
  shows "truncate_str n s = Some (take n s)"
  using assms by (auto simp: truncate_str_def is_char_boundary_def)

lemma truncate_str_None:
  "truncate_str n s = None \<longleftrightarrow> 0 < n \<and> n < length s \<and> continuation_byte (s ! n)"
  by (auto simp: truncate_str_def is_char_boundary_def)

end
