(* ===== verification/Order_Parse.thy ===== *)
theory Order_Parse
  imports Core_Types Text_Ops
begin

text \<open>
  The order parser of \<open>crates/execution/src/order_parse.rs\<close>, which turns the
  arguments of an agent's tool call into the order the risk gate checks. Decimal::from_str is
  outside the repository and is the parameter \<open>from_str\<close>; the clock reading that
  numbers the order is the parameter \<open>now\<close>.
\<close>

section \<open>Definitions\<close>

datatype order_parse_error =
    NotAnObject
  | MissingField string
  | BadField string message
  | UnknownSide string
  | CannotSize

definition show_parse_error :: "order_parse_error \<Rightarrow> message" where
  "show_parse_error e = (case e of
       NotAnObject \<Rightarrow> [Lit ''arguments are not a JSON object'']
     | MissingField x \<Rightarrow> [Lit ''missing required field `'', Lit x, Lit ''`'']
     | BadField x d \<Rightarrow> [Lit ''field `'', Lit x, Lit ''` is invalid: ''] @ d
     | UnknownSide s \<Rightarrow> [Lit ''side `'', Lit s, Lit ''` is not `buy` or `sell`'']
     | CannotSize \<Rightarrow> [Lit ''cannot size the order: give `quantity`, or `notional` together with a price''])"

type_synonym json_object = "(string \<times> json) list"

definition value_to_decimal :: "(string \<Rightarrow> dec option) \<Rightarrow> json \<Rightarrow> dec option" where
  "value_to_decimal from_str v = (case v of
       JNum n \<Rightarrow> from_str n
     | JStr s \<Rightarrow> from_str (trim (filter (\<lambda>c. c \<noteq> CHR '','' \<and> c \<noteq> CHR ''_'')
                   (trim_start_matches (CHR ''$'') (trim s))))
     | _ \<Rightarrow> None)"

fun optional_decimal ::
    "(string \<Rightarrow> dec option) \<Rightarrow> json_object \<Rightarrow> string list \<Rightarrow> order_parse_error + dec option"
where
  "optional_decimal from_str obj [] = Ok None"
| "optional_decimal from_str obj (key # keys) =
     (case map_of obj key of
        None \<Rightarrow> optional_decimal from_str obj keys
      | Some v \<Rightarrow>
          if v = JNull then optional_decimal from_str obj keys
          else (case value_to_decimal from_str v of
            None \<Rightarrow> Err (BadField key [Lit ''not a number: '', ShowJson v])
          | Some d \<Rightarrow> Ok (Some d)))"

definition get_either :: "json_object \<Rightarrow> string \<Rightarrow> string \<Rightarrow> string option" where
  "get_either obj k1 k2 =
     Option.bind (or_else (map_of obj k1) (map_of obj k2)) as_str"

definition parse_symbol :: "json_object \<Rightarrow> order_parse_error + string" where
  "parse_symbol obj = (case map_option trim (get_either obj ''symbol'' ''ticker'') of
       None \<Rightarrow> Err (MissingField ''symbol'')
     | Some s \<Rightarrow> if s = [] then Err (MissingField ''symbol'') else Ok (to_ascii_uppercase s))"

definition parse_side :: "json_object \<Rightarrow> order_parse_error + side" where
  "parse_side obj = (case get_either obj ''side'' ''action'' of
       None \<Rightarrow> Err (MissingField ''side'')
     | Some s \<Rightarrow> (let t = to_ascii_lowercase (trim s) in
         if t = ''buy'' \<or> t = ''bought'' \<or> t = ''long'' then Ok Buy
         else if t = ''sell'' \<or> t = ''sold'' \<or> t = ''short'' then Ok Sell
         else Err (UnknownSide t)))"

definition size_order ::
    "arith \<Rightarrow> dec option \<Rightarrow> dec option \<Rightarrow> dec option \<Rightarrow> (order_parse_error + dec) option"
where
  "size_order A quantity notional limit_price = (case (quantity, notional, limit_price) of
       (Some q, _, _) \<Rightarrow> Some (Ok q)
     | (None, Some n, Some p) \<Rightarrow>
         if 0 < p then map_option Inr (d_div A n p) else Some (Err CannotSize)
     | (None, Some _, None) \<Rightarrow> Some (Err CannotSize)
     | (None, None, _) \<Rightarrow> Some (Err (MissingField ''quantity'')))"

definition next_id :: "instant \<Rightarrow> string" where
  "next_id now = ''hook-'' @ show_int (if - (2 ^ 63) \<le> now \<and> now < 2 ^ 63 then now else 0)"

definition parse_order ::
    "arith \<Rightarrow> (string \<Rightarrow> dec option) \<Rightarrow> instant \<Rightarrow> string \<Rightarrow> json \<Rightarrow> dec
      \<Rightarrow> (order_parse_error + trade_order) option"
where
  "parse_order A from_str now tool_name args default_max_slippage =
    attempt (Some (ok_or NotAnObject (as_object args))) (\<lambda>obj.
    attempt (Some (parse_symbol obj)) (\<lambda>symb.
    attempt (Some (parse_side obj)) (\<lambda>sd.
    attempt (Some (optional_decimal from_str obj [''limit_price'', ''price'', ''limit'']))
      (\<lambda>limit_price.
    attempt (Some (optional_decimal from_str obj [''quantity'', ''qty'', ''shares'', ''amount'']))
      (\<lambda>quantity.
    attempt (Some (optional_decimal from_str obj [''notional'', ''notional_value'', ''dollars'']))
      (\<lambda>notional.
    attempt (size_order A quantity notional limit_price) (\<lambda>qty.
    if qty \<le> 0
    then Some (Err (BadField ''quantity'' [Lit ''must be positive, got '', Show qty]))
    else
    attempt (Some (optional_decimal from_str obj [''max_slippage'', ''slippage''])) (\<lambda>slip.
    Some (Ok \<lparr>o_id = next_id now, o_asset = asset_symbol symb, o_side = sd, o_qty = qty,
      o_limit_price = limit_price,
      o_max_slippage = max (unwrap_or default_max_slippage slip) 0,
      o_venue = RobinhoodMcp, o_reason = [Lit ''agent tool call: '', Lit tool_name]\<rparr>)))))))))"

section \<open>Lemmas\<close>

lemma parse_order_Ok:
  assumes "parse_order A from_str now tool args dflt = Some (Ok ord)"
  obtains obj symb sd limit quantity notional qty slip where
    "args = JObj obj" "parse_symbol obj = Ok symb" "parse_side obj = Ok sd"
    "optional_decimal from_str obj [''limit_price'', ''price'', ''limit''] = Ok limit"
    "optional_decimal from_str obj [''quantity'', ''qty'', ''shares'', ''amount''] = Ok quantity"
    "optional_decimal from_str obj [''notional'', ''notional_value'', ''dollars''] = Ok notional"
    "size_order A quantity notional limit = Some (Ok qty)" "0 < qty"
    "optional_decimal from_str obj [''max_slippage'', ''slippage''] = Ok slip"
    "ord = \<lparr>o_id = next_id now, o_asset = asset_symbol symb, o_side = sd, o_qty = qty,
       o_limit_price = limit, o_max_slippage = max (unwrap_or dflt slip) 0,
       o_venue = RobinhoodMcp, o_reason = [Lit ''agent tool call: '', Lit tool]\<rparr>"
  using assms
  by (cases args)
     (auto simp: parse_order_def not_le attempt_Ok_iff ok_or_eq_Ok split: if_splits)

lemma parse_symbol_Ok:
  assumes "parse_symbol obj = Ok s"
  shows "s \<noteq> [] \<and> to_ascii_uppercase s = s"
  using assms by (auto simp: parse_symbol_def to_ascii_uppercase_def split: option.splits if_splits)

text \<open>Parsing again later gives the same order under another id.\<close>

lemma parse_order_again:
  "parse_order A from_str t2 tool args dflt
     = map_option (map_sum id (\<lambda>ord. ord\<lparr>o_id := next_id t2\<rparr>)) (parse_order A from_str t1 tool args dflt)"
  by (simp add: parse_order_def map_attempt Let_def if_distrib [of "map_option _"] cong: if_cong)

text \<open>A present field that is not a number is an error, whatever follows it.\<close>

lemma optional_decimal_bad:
  assumes "map_of obj k = Some v" "v \<noteq> JNull" "value_to_decimal from_str v = None"
    and "\<forall>k' \<in> set ks. map_of obj k' = None \<or> map_of obj k' = Some JNull"
  shows "optional_decimal from_str obj (ks @ k # ks')
    = Err (BadField k [Lit ''not a number: '', ShowJson v])"
  using assms by (induction ks) (auto split: option.split)

section \<open>Properties\<close>


definition demo_args :: json where
  "demo_args = JObj [(''symbol'', JStr '' nvda ''), (''side'', JStr ''Buy''),
     (''notional'', JStr ''$1,000''), (''price'', JNum ''50'')]"

definition demo_from_str :: "string \<Rightarrow> dec option" where
  "demo_from_str = map_of [(''1000'', 1000), (''50'', 50), (''1'', 1), (''1000000'', 1000000)]"

lemma demo_parse:
  "parse_order exact_arith demo_from_str 0 ''place'' demo_args 0 = Some (Ok
     \<lparr>o_id = ''hook-0'', o_asset = asset_symbol ''NVDA'', o_side = Buy, o_qty = 20,
       o_limit_price = Some 50, o_max_slippage = 0, o_venue = RobinhoodMcp,
       o_reason = [Lit ''agent tool call: '', Lit ''place'']\<rparr>)"
  by (simp add: parse_order_def demo_args_def demo_from_str_def parse_symbol_def parse_side_def
      get_either_def size_order_def next_id_def show_int_def value_to_decimal_def
      trim_def trim_end_def trim_start_def strip_front.simps ws_chars_def starts_with_def
      to_ascii_uppercase_def to_ascii_lowercase_def ascii_upper_def ascii_lower_def
      trim_start_matches_def show_nat.simps char_of_def Let_def bit_Suc_0_iff)



text \<open>
  A call that states both a quantity and a notional is not refused when the two
  disagree: the notional is parsed and then ignored, so the order that is risk-checked has
  the quantity alone, whatever notional the venue would read from the same arguments.
\<close>

theorem conflicting_size_is_accepted:
  assumes "as_object args = Some obj" and "parse_symbol obj = Ok symb" and "parse_side obj = Ok sd"
    and "optional_decimal from_str obj [''limit_price'', ''price'', ''limit''] = Ok limit"
    and "optional_decimal from_str obj [''quantity'', ''qty'', ''shares'', ''amount''] = Ok (Some q)"
    and "optional_decimal from_str obj [''notional'', ''notional_value'', ''dollars''] = Ok (Some n)"
    and "0 < q"
    and "optional_decimal from_str obj [''max_slippage'', ''slippage''] = Ok slip"
  shows "\<exists>ord. parse_order A from_str now tool args dflt = Some (Ok ord) \<and> o_qty ord = q"
  using assms by (simp add: parse_order_def size_order_def)

definition conflicting_args :: json where
  "conflicting_args = JObj [(''symbol'', JStr ''A''), (''side'', JStr ''buy''),
     (''quantity'', JNum ''1''), (''notional'', JNum ''1000000'')]"

theorem conflicting_size_is_accepted_witness:
  "\<exists>ord. parse_order exact_arith demo_from_str 0 ''place'' conflicting_args 0 = Some (Ok ord)
     \<and> o_qty ord = 1"
  by (rule conflicting_size_is_accepted [where n = 1000000 and limit = None and slip = None
        and symb = "''A''" and sd = Buy
        and obj = "[(''symbol'', JStr ''A''), (''side'', JStr ''buy''),
                    (''quantity'', JNum ''1''), (''notional'', JNum ''1000000'')]"])
     (simp_all add: conflicting_args_def demo_from_str_def parse_symbol_def parse_side_def
      get_either_def value_to_decimal_def
      trim_def trim_end_def trim_start_def strip_front.simps ws_chars_def starts_with_def
      to_ascii_uppercase_def to_ascii_lowercase_def ascii_upper_def ascii_lower_def char_of_def Let_def)

end
