(* ===== verification/Hook.thy ===== *)
theory Hook
  imports Risk_Gate Order_Parse
begin

text \<open>
  The \<open>PreToolUse\<close> hook of \<open>crates/execution/src/hook.rs\<close>: the allowlist of tools
  and their classes, and the decision to allow or deny one intercepted tool call. Parsing
  the hook's payload is serde_json's and is the parameter \<open>from_json\<close>.
\<close>

section \<open>Tools\<close>

record tool_call =
  tc_name :: string
  tc_arguments :: json

datatype tool_class = ReadOnly | PlaceOrder | CancelOrder

type_synonym tool_allowlist = "(string \<times> tool_class) list"

definition allowlist_new :: tool_allowlist where
  "allowlist_new = []"

definition allow :: "tool_allowlist \<Rightarrow> string \<Rightarrow> tool_class \<Rightarrow> tool_allowlist" where
  "allow al name cls = AList.update name cls al"

definition from_pairs :: "(string \<times> tool_class) list \<Rightarrow> tool_allowlist" where
  "from_pairs pairs = fold (\<lambda>(n, c) al. AList.update n c al) pairs []"

definition classify :: "tool_allowlist \<Rightarrow> string \<Rightarrow> tool_class option" where
  "classify al name = map_of al name"

definition allowlist_is_empty :: "tool_allowlist \<Rightarrow> bool" where
  "allowlist_is_empty al = (al = [])"

definition allowlist_len :: "tool_allowlist \<Rightarrow> nat" where
  "allowlist_len al = length al"

lemma classify_new [simp]: "classify allowlist_new n = None"
  by (simp add: classify_def allowlist_new_def)

lemma classify_allow [simp]:
  "classify (allow al n c) m = (if m = n then Some c else classify al m)"
  by (simp add: classify_def allow_def)

lemma classify_from_pairs: "classify (from_pairs pairs) n = map_of (rev pairs) n"
proof -
  have "map_of (fold (\<lambda>(n, c) al. AList.update n c al) pairs al) n
      = (map_of al ++ map_of (rev pairs)) n" for al
    by (induction pairs arbitrary: al) (auto simp: map_add_def split: option.split)
  then show ?thesis by (simp add: classify_def from_pairs_def)
qed

section \<open>The decision\<close>

datatype hook_outcome = Allow | Deny message

definition is_allowed :: "hook_outcome \<Rightarrow> bool" where
  "is_allowed out = (out = Allow)"

definition deny_reason :: "hook_outcome \<Rightarrow> message option" where
  "deny_reason out = (case out of Allow \<Rightarrow> None | Deny r \<Rightarrow> Some r)"

definition show_reject :: "risk_reject \<Rightarrow> message" where
  "show_reject r = (case r of
       KillSwitch \<Rightarrow> [Lit ''kill switch is engaged'']
     | Denylisted s \<Rightarrow> [Lit s, Lit '' is on the denylist'']
     | NotAllowlisted s \<Rightarrow> [Lit s, Lit '' is not on the allowlist'']
     | NotionalCap got cap \<Rightarrow> [Lit ''order notional '', Show got, Lit '' exceeds cap '', Show cap]
     | PositionCap got cap \<Rightarrow>
         [Lit ''resulting position fraction '', Show got, Lit '' exceeds cap '', Show cap]
     | SlippageCap got cap \<Rightarrow> [Lit ''order slippage '', Show got, Lit '' exceeds cap '', Show cap]
     | DailyLoss r l \<Rightarrow>
         [Lit ''daily loss limit hit (realized '', Show r, Lit '', limit '', Show l, Lit '')'']
     | UnrealizedLoss u l \<Rightarrow>
         [Lit ''unrealized loss limit hit ('', Show u, Lit '', limit '', Show l, Lit '')'']
     | TooManyOpenPositions n l \<Rightarrow>
         [Lit ''already holding '', ShowInt (int n), Lit '' positions (limit '', ShowInt (int l), Lit '')'']
     | Cooldown s n \<Rightarrow> [Lit s, Lit '' is in cooldown for another '', ShowInt n, Lit ''s'']
     | NoReferencePrice \<Rightarrow> [Lit ''cannot size order: no reference price available'']
     | InsufficientCash need have \<Rightarrow>
         [Lit ''insufficient cash: need '', Show need, Lit '', have '', Show have])"

record hook_gate =
  hg_allowlist :: tool_allowlist
  hg_gate :: risk_config
  hg_default_max_slippage :: dec

definition hook_gate_new :: "tool_allowlist \<Rightarrow> risk_config \<Rightarrow> hook_gate" where
  "hook_gate_new al cfg = \<lparr>hg_allowlist = al, hg_gate = cfg, hg_default_max_slippage = 0\<rparr>"

definition with_default_max_slippage :: "hook_gate \<Rightarrow> dec \<Rightarrow> hook_gate" where
  "with_default_max_slippage h s = h\<lparr>hg_default_max_slippage := s\<rparr>"

definition evaluate_order ::
    "arith \<Rightarrow> (string \<Rightarrow> dec option) \<Rightarrow> instant \<Rightarrow> hook_gate \<Rightarrow> tool_call \<Rightarrow> gate_context
      \<Rightarrow> hook_outcome option"
where
  "evaluate_order A from_str now h call ctx = do {
     r \<leftarrow> parse_order A from_str now (tc_name call) (tc_arguments call) (hg_default_max_slippage h);
     (case r of
        Inl e \<Rightarrow> Some (Deny (Lit ''rejected order tool call: '' # show_parse_error e))
      | Inr ord \<Rightarrow> do {
          g \<leftarrow> check A (hg_gate h) ord ctx;
          Some (case g of
            Inr _ \<Rightarrow> Allow
          | Inl reject \<Rightarrow> Deny (Lit ''risk gate: '' # show_reject reject)) }) }"

definition evaluate ::
    "arith \<Rightarrow> (string \<Rightarrow> dec option) \<Rightarrow> instant \<Rightarrow> hook_gate \<Rightarrow> tool_call \<Rightarrow> gate_context
      \<Rightarrow> hook_outcome option"
where
  "evaluate A from_str now h call ctx = (case classify (hg_allowlist h) (tc_name call) of
       None \<Rightarrow> Some (Deny [Lit ''tool `'', Lit (tc_name call), Lit ''` is not on the allowlist''])
     | Some ReadOnly \<Rightarrow> Some Allow
     | Some CancelOrder \<Rightarrow> Some Allow
     | Some PlaceOrder \<Rightarrow> evaluate_order A from_str now h call ctx)"

definition evaluate_payload ::
    "arith \<Rightarrow> (string \<Rightarrow> dec option) \<Rightarrow> (string \<Rightarrow> message + tool_call) \<Rightarrow> instant \<Rightarrow> string
      \<Rightarrow> tool_allowlist \<Rightarrow> risk_config \<Rightarrow> gate_context \<Rightarrow> hook_outcome option"
where
  "evaluate_payload A from_str from_json now payload al cfg ctx = (case from_json payload of
       Inr call \<Rightarrow> evaluate A from_str now (hook_gate_new al cfg) call ctx
     | Inl e \<Rightarrow> Some (Deny (Lit ''unparseable hook payload: '' # e)))"

lemma evaluate_order_Allow:
  "evaluate_order A from_str now h call ctx = Some Allow \<longleftrightarrow>
    (\<exists>ord. parse_order A from_str now (tc_name call) (tc_arguments call) (hg_default_max_slippage h)
             = Some (Ok ord)
       \<and> check A (hg_gate h) ord ctx = Some (Ok ()))"
  by (auto simp: evaluate_order_def bind_Some_iff split_sum_ex)

lemma evaluate_Allow:
  "evaluate A from_str now h call ctx = Some Allow \<longleftrightarrow>
    (case classify (hg_allowlist h) (tc_name call) of
       None \<Rightarrow> False
     | Some PlaceOrder \<Rightarrow> evaluate_order A from_str now h call ctx = Some Allow
     | Some _ \<Rightarrow> True)"
  by (auto simp: evaluate_def split: option.split tool_class.split)

section \<open>Properties\<close>

text \<open>
  C37. The hook fails closed. It allows a call exactly when the tool is on the allowlist and
  is a read or a cancel, or places an order whose arguments parse and which the risk gate
  accepts unchanged; every other call, malformed ones included, is not allowed.
\<close>

theorem hook_fails_closed:
  "evaluate A from_str now h call ctx = Some Allow \<longleftrightarrow>
     classify (hg_allowlist h) (tc_name call) \<in> {Some ReadOnly, Some CancelOrder}
   \<or> (classify (hg_allowlist h) (tc_name call) = Some PlaceOrder
       \<and> (\<exists>ord. parse_order A from_str now (tc_name call) (tc_arguments call)
                  (hg_default_max_slippage h) = Some (Ok ord)
            \<and> admissible A (hg_gate h) ord ctx))"
  by (auto simp: evaluate_Allow evaluate_order_Allow check_ok_iff split: option.splits tool_class.splits)

text \<open>
  The kill switch stops orders and nothing else: with it engaged no order-placing call
  is ever allowed, whatever its arguments, while every cancel and read on the allowlist
  still is; and a payload that does not parse is denied.
\<close>

theorem kill_switch_stops_orders_only:
  assumes "rc_kill_switch (hg_gate h)"
  shows "(classify (hg_allowlist h) (tc_name call) = Some PlaceOrder \<longrightarrow>
            evaluate A from_str now h call ctx \<noteq> Some Allow)
    \<and> (classify (hg_allowlist h) (tc_name call) \<in> {Some CancelOrder, Some ReadOnly} \<longrightarrow>
            evaluate A from_str now h call ctx = Some Allow)"
  using core_gate.gate_halted [OF assms]
  by (auto simp: evaluate_Allow evaluate_order_Allow)

definition demo_tools :: tool_allowlist where
  "demo_tools = from_pairs [(''place'', PlaceOrder), (''cancel'', CancelOrder)]"

theorem kill_switch_stops_orders_only_witness:
  "evaluate exact_arith demo_from_str 0
     (hook_gate_new demo_tools (default_risk_config\<lparr>rc_kill_switch := True\<rparr>))
     \<lparr>tc_name = ''place'', tc_arguments = demo_args\<rparr> (demo_context (portfolio_new 1000) 1000)
     \<noteq> Some Allow
   \<and> evaluate exact_arith demo_from_str 0
     (hook_gate_new demo_tools (default_risk_config\<lparr>rc_kill_switch := True\<rparr>))
     \<lparr>tc_name = ''cancel'', tc_arguments = JNull\<rparr> (demo_context (portfolio_new 1000) 1000)
     = Some Allow"
proof -
  let ?h = "hook_gate_new demo_tools (default_risk_config\<lparr>rc_kill_switch := True\<rparr>)"
  have k: "rc_kill_switch (hg_gate ?h)" by (simp add: hook_gate_new_def)
  show ?thesis
    using kill_switch_stops_orders_only [OF k, of "\<lparr>tc_name = ''place'', tc_arguments = demo_args\<rparr>"]
      kill_switch_stops_orders_only [OF k, of "\<lparr>tc_name = ''cancel'', tc_arguments = JNull\<rparr>"]
    by (simp add: hook_gate_new_def demo_tools_def classify_from_pairs)
qed

end
