(* ===== verification/Approvals.thy ===== *)
theory Approvals
  imports Core_Types Text_Ops
begin

text \<open>
  The approval queue of \<open>crates/server/src/approvals.rs\<close>: pending orders wait for the
  operator, who approves or denies them, or expire. The watch channel of an approval, which
  the waiting hook holds the other end of, is kept in a map that outlives the entry, as the
  receiver does. Clock readings are arguments.
\<close>

section \<open>State\<close>

datatype approval_state = Pending | Approved | Denied | Expired

definition is_terminal :: "approval_state \<Rightarrow> bool" where
  "is_terminal s = (s \<noteq> Pending)"

record order_summary =
  os_symbol :: string
  os_side :: string
  os_quantity :: dec
  os_limit_price :: "dec option"
  os_reason :: message

definition side_str :: "side \<Rightarrow> string" where
  "side_str s = (case s of Buy \<Rightarrow> ''buy'' | Sell \<Rightarrow> ''sell'')"

definition order_summary_of :: "trade_order \<Rightarrow> order_summary" where
  "order_summary_of ord = \<lparr>os_symbol = as_symbol (o_asset ord), os_side = side_str (o_side ord),
     os_quantity = o_qty ord, os_limit_price = o_limit_price ord, os_reason = o_reason ord\<rparr>"

record approval =
  ap_id :: string
  ap_state :: approval_state
  ap_tool :: string
  ap_order :: order_summary
  ap_created_at :: instant
  ap_decided_at :: "instant option"
  ap_decision_reason :: "string option"

text \<open>The timeout in nanoseconds.\<close>

record approval_store =
  aps_entries :: "approval list"
  aps_seq :: u64
  aps_channels :: "string \<rightharpoonup> approval_state"
  aps_timeout :: nat
  aps_retain :: nat

definition approval_store_new :: "nat \<Rightarrow> approval_store" where
  "approval_store_new timeout = \<lparr>aps_entries = [], aps_seq = 0, aps_channels = Map.empty,
     aps_timeout = timeout, aps_retain = 50\<rparr>"

section \<open>Operations\<close>

text \<open>
  What the waiting hook gets when it is woken: \<open>None\<close> is to go on waiting. The channel
  is read before the timer, and a channel whose sender is gone ends the wait.
\<close>

definition ticket_poll :: "bool \<Rightarrow> bool \<Rightarrow> approval_state \<Rightarrow> approval_state option" where
  "ticket_poll sender_gone timed_out cur =
     (if is_terminal cur then Some cur
      else if sender_gone then Some Expired
      else if timed_out then Some Expired
      else None)"

definition approval_id :: "instant \<Rightarrow> u64 \<Rightarrow> string" where
  "approval_id now n = ''apr-'' @ show_int (now div 1000000) @ ''-'' @ show_nat (unat n)"

definition enqueue ::
    "instant \<Rightarrow> instant \<Rightarrow> string \<Rightarrow> trade_order \<Rightarrow> approval_store \<Rightarrow> string \<times> approval_store"
where
  "enqueue now_id now_created tool ord st =
     (let n = aps_seq st + 1; i = approval_id now_id n in
      (i, st\<lparr>aps_seq := n,
             aps_entries := aps_entries st @ [\<lparr>ap_id = i, ap_state = Pending, ap_tool = tool,
               ap_order = order_summary_of ord, ap_created_at = now_created, ap_decided_at = None,
               ap_decision_reason = None\<rparr>],
             aps_channels := (aps_channels st)(i \<mapsto> Pending)\<rparr>))"

definition trim_entries :: "nat \<Rightarrow> approval list \<Rightarrow> approval list" where
  "trim_entries retain es =
     (let decided = filter (\<lambda>i. is_terminal (ap_state (es ! i))) [0..<length es] in
      if retain < length decided then
        (let gone = set (take (length decided - retain) decided) in
         map snd (filter (\<lambda>(i, e). i \<notin> gone) (enumerate 0 es)))
      else es)"

text \<open>The first entry with the id, changed in place.\<close>

fun update_first :: "('a \<Rightarrow> bool) \<Rightarrow> ('a \<Rightarrow> 'a) \<Rightarrow> 'a list \<Rightarrow> 'a list" where
  "update_first P f [] = []"
| "update_first P f (x # xs) = (if P x then f x # xs else x # update_first P f xs)"

definition decide ::
    "instant \<Rightarrow> string \<Rightarrow> approval_state \<Rightarrow> string option \<Rightarrow> approval_store
      \<Rightarrow> (string + bool) \<times> approval_store"
where
  "decide now i new reason st =
     (if \<not> is_terminal new then (Err ''decision state must be terminal'', st)
      else (case find (\<lambda>e. ap_id e = i) (aps_entries st) of
        None \<Rightarrow> (Ok False, st)
      | Some e \<Rightarrow>
          if is_terminal (ap_state e) then (Ok False, st)
          else (Ok True, st\<lparr>
            aps_entries := trim_entries (aps_retain st) (update_first (\<lambda>e. ap_id e = i)
              (\<lambda>e. e\<lparr>ap_state := new, ap_decided_at := Some now, ap_decision_reason := reason\<rparr>)
              (aps_entries st)),
            aps_channels := (aps_channels st)(i \<mapsto> new)\<rparr>)))"

text \<open>\<open>Duration::from_std\<close> fails beyond the milliseconds an \<open>i64\<close> holds.\<close>

definition cutoff_of :: "nat \<Rightarrow> int" where
  "cutoff_of timeout = (if int timeout \<le> (2 ^ 63 - 1) * 1000000 then int timeout else 0)"

definition overdue :: "instant \<Rightarrow> nat \<Rightarrow> approval \<Rightarrow> bool" where
  "overdue now timeout e =
     (ap_state e = Pending \<and> cutoff_of timeout < now - ap_created_at e)"

definition sweep_expired :: "instant \<Rightarrow> approval_store \<Rightarrow> approval_store" where
  "sweep_expired now st = st\<lparr>
     aps_entries := trim_entries (aps_retain st) (map (\<lambda>e.
       if overdue now (aps_timeout st) e
       then e\<lparr>ap_state := Expired, ap_decided_at := Some now\<rparr> else e) (aps_entries st)),
     aps_channels := fold (\<lambda>e ch. if overdue now (aps_timeout st) e then ch(ap_id e \<mapsto> Expired) else ch)
       (aps_entries st) (aps_channels st)\<rparr>"

definition list_approvals :: "approval_store \<Rightarrow> approval list" where
  "list_approvals st = sort_key (\<lambda>a. - ap_created_at a) (aps_entries st)"

definition pending_count :: "approval_store \<Rightarrow> nat" where
  "pending_count st = length (filter (\<lambda>e. ap_state e = Pending) (aps_entries st))"

datatype approval_mode = Auto | Manual

section \<open>Trimming\<close>

text \<open>What trimming computes: the list without its first so many decided entries.\<close>

fun drop_terminal :: "nat \<Rightarrow> approval list \<Rightarrow> approval list" where
  "drop_terminal 0 es = es"
| "drop_terminal (Suc n) [] = []"
| "drop_terminal (Suc n) (e # es) =
     (if is_terminal (ap_state e) then drop_terminal n es else e # drop_terminal (Suc n) es)"

definition terminal_count :: "approval list \<Rightarrow> nat" where
  "terminal_count es = length (filter (\<lambda>e. is_terminal (ap_state e)) es)"

lemma terminal_count_simps [simp]:
  "terminal_count [] = 0"
  "terminal_count (e # es) = (if is_terminal (ap_state e) then Suc (terminal_count es) else terminal_count es)"
  "terminal_count (es @ fs) = terminal_count es + terminal_count fs"
  by (simp_all add: terminal_count_def)

lemma filter_index_shift:
  "filter (\<lambda>i. is_terminal (ap_state ((e # es) ! (i - k)))) [Suc k..<Suc (k + n)]
     = filter (\<lambda>i. is_terminal (ap_state (es ! (i - Suc k)))) [Suc k..<Suc (k + n)]"
proof (rule filter_cong)
  fix i assume "i \<in> set [Suc k..<Suc (k + n)]"
  then have "i - k = Suc (i - Suc k)" by auto
  then show "is_terminal (ap_state ((e # es) ! (i - k))) = is_terminal (ap_state (es ! (i - Suc k)))"
    by simp
qed simp

lemma filter_enumerate_skip:
  "filter (\<lambda>(i, e). i \<noteq> k \<and> i \<notin> S) (enumerate (Suc k) es) = filter (\<lambda>(i, e). i \<notin> S) (enumerate (Suc k) es)"
  by (rule filter_cong) (auto simp: in_set_enumerate_eq)

lemma drop_terminal_by_index:
  "map snd (filter (\<lambda>(i, e). i \<notin> set (take n (filter (\<lambda>i. is_terminal (ap_state (es ! (i - k)))) [k..<k + length es])))
       (enumerate k es)) = drop_terminal n es"
proof (induction es arbitrary: k n)
  case Nil
  then show ?case by (cases n) simp_all
next
  case (Cons e es)
  have upt: "[k..<k + length (e # es)] = k # [Suc k..<Suc k + length es]"
    by (subst upt_conv_Cons) simp_all
  have low: "k \<notin> set (take m (filter Q [Suc k..<Suc k + length es]))" for m Q
    using set_take_subset by fastforce
  note IH = Cons.IH [of _ "Suc k"]
  show ?case
  proof (cases "is_terminal (ap_state e)")
    case True
    show ?thesis
    proof (cases n)
      case 0
      then show ?thesis by simp
    next
      case (Suc m)
      then show ?thesis
        using True IH [of m] unfolding upt
        by (simp add: filter_index_shift filter_enumerate_skip del: upt_Suc)
    qed
  next
    case False
    then show ?thesis
      using IH [of n] low unfolding upt
      by (cases n) (simp_all add: filter_index_shift del: upt_Suc)
  qed
qed

lemma trim_entries_eq: "trim_entries retain es = drop_terminal (terminal_count es - retain) es"
proof -
  have len: "length (filter (\<lambda>i. is_terminal (ap_state (es ! i))) [0..<length es]) = terminal_count es"
    unfolding terminal_count_def
    by (metis (no_types, lifting) comp_def filter_cong filter_map length_map map_nth)
  show ?thesis
    using drop_terminal_by_index [of _ es 0] len by (auto simp: trim_entries_def Let_def)
qed

lemma set_drop_terminal: "set (drop_terminal n es) \<subseteq> set es"
  by (induction n es rule: drop_terminal.induct) auto

lemma pending_kept: "e \<in> set es \<Longrightarrow> \<not> is_terminal (ap_state e) \<Longrightarrow> e \<in> set (drop_terminal n es)"
  by (induction n es rule: drop_terminal.induct) auto

lemma distinct_drop_terminal: "distinct (map ap_id es) \<Longrightarrow> distinct (map ap_id (drop_terminal n es))"
proof (induction n es rule: drop_terminal.induct)
  case (3 n e es)
  then show ?case using set_drop_terminal [of "Suc n" es] by auto
qed simp_all

lemma terminal_count_drop: "terminal_count (drop_terminal n es) = terminal_count es - n"
  by (induction n es rule: drop_terminal.induct) auto

lemma terminal_count_trim [simp]: "terminal_count (trim_entries r es) = min r (terminal_count es)"
  by (simp add: trim_entries_eq terminal_count_drop)

lemma set_trim: "set (trim_entries r es) \<subseteq> set es"
  by (metis trim_entries_eq set_drop_terminal)

lemma distinct_trim:
  "map ap_id fs = map ap_id es \<Longrightarrow> distinct (map ap_id es) \<Longrightarrow> distinct (map ap_id (trim_entries r fs))"
  by (metis trim_entries_eq distinct_drop_terminal)

lemma update_first_map:
  "distinct (map key es) \<Longrightarrow> update_first (\<lambda>e. key e = i) f es = map (\<lambda>e. if key e = i then f e else e) es"
proof (induction es)
  case Nil
  then show ?case by simp
next
  case (Cons e es)
  have "map (\<lambda>e. if key e = i then f e else e) es = es" if "key e = i"
    using Cons.prems that by (intro map_idI) (auto simp: image_iff)
  with Cons show ?case by simp
qed

section \<open>Runs of the queue\<close>

lemma no_dash: "CHR ''-'' \<notin> set (show_nat n)"
proof
  assume "CHR ''-'' \<in> set (show_nat n)"
  from show_nat_digits [OF this] show False by simp
qed

lemma approval_id_inj: "approval_id t m = approval_id u n \<Longrightarrow> m = n"
proof -
  have key: "takeWhile (\<lambda>c. c \<noteq> CHR ''-'') (rev (approval_id x k)) = rev (show_nat (unat k))" for x k
    using no_dash by (auto simp: approval_id_def takeWhile_append takeWhile_eq_all_conv)
  assume "approval_id t m = approval_id u n"
  then have "rev (show_nat (unat m)) = rev (show_nat (unat n))"
    using key [of t m] key [of u n] by simp
  then show "m = n" by (simp add: word_unat_eq_iff)
qed

datatype approval_op =
    Enqueue instant instant string trade_order
  | Decide instant string approval_state "string option"
  | Sweep instant

fun apply_op :: "approval_op \<Rightarrow> approval_store \<Rightarrow> approval_store" where
  "apply_op (Enqueue t1 t2 tool ord) st = snd (enqueue t1 t2 tool ord st)"
| "apply_op (Decide now i new reason) st = snd (decide now i new reason st)"
| "apply_op (Sweep now) st = sweep_expired now st"

text \<open>
  The stores a history of operations leads to. The sequence number does not wrap: it would
  take 2 to the 64th orders.
\<close>

inductive approvals_run :: "nat \<Rightarrow> approval_op list \<Rightarrow> approval_store \<Rightarrow> bool" for timeout where
  start: "approvals_run timeout [] (approval_store_new timeout)"
| step: "approvals_run timeout ops st \<Longrightarrow> aps_seq st < aps_seq st + 1 \<Longrightarrow>
    approvals_run timeout (ops @ [op]) (apply_op op st)"

inductive_cases approvals_run_snocE: "approvals_run timeout (ops @ [op]) st"

definition approvals_inv :: "approval_store \<Rightarrow> bool" where
  "approvals_inv st =
     (distinct (map ap_id (aps_entries st))
      \<and> (\<forall>e \<in> set (aps_entries st). aps_channels st (ap_id e) = Some (ap_state e))
      \<and> (\<forall>i. aps_channels st i = Some Pending \<longrightarrow> i \<in> ap_id ` set (aps_entries st))
      \<and> terminal_count (aps_entries st) \<le> aps_retain st
      \<and> (\<forall>i \<in> dom (aps_channels st). \<exists>t n. i = approval_id t n \<and> n \<le> aps_seq st))"

lemma approvals_inv_new: "approvals_inv (approval_store_new timeout)"
  by (simp add: approvals_inv_def approval_store_new_def)

lemma fresh_id:
  assumes "approvals_inv st" "aps_seq st < aps_seq st + 1"
  shows "approval_id t (aps_seq st + 1) \<notin> dom (aps_channels st)"
proof
  assume "approval_id t (aps_seq st + 1) \<in> dom (aps_channels st)"
  with assms(1) obtain u n where n: "approval_id t (aps_seq st + 1) = approval_id u n" "n \<le> aps_seq st"
    unfolding approvals_inv_def by blast
  from approval_id_inj [OF n(1)] n(2) assms(2) show False by simp
qed

lemma enqueue_inv:
  assumes "approvals_inv st" "aps_seq st < aps_seq st + 1"
  shows "approvals_inv (snd (enqueue t1 t2 tool ord st))"
proof -
  let ?i = "approval_id t1 (aps_seq st + 1)"
  from fresh_id [OF assms] have f: "?i \<notin> dom (aps_channels st)" .
  with assms(1) have g: "?i \<notin> ap_id ` set (aps_entries st)"
    by (auto simp: approvals_inv_def domIff)
  have ids: "\<exists>t n. i = approval_id t n \<and> n \<le> aps_seq st + 1" if "i \<in> dom (aps_channels st)" for i
    using assms that unfolding approvals_inv_def by (meson order_trans less_imp_le)
  show ?thesis
    using assms(1) f g ids
    by (auto simp: approvals_inv_def enqueue_def Let_def is_terminal_def dest: bspec)
qed

text \<open>The two outcomes of a decision on a well-formed store.\<close>

lemma decide_cases:
  assumes "approvals_inv st"
  obtains (refused) "snd (decide now i new reason st) = st" "fst (decide now i new reason st) \<noteq> Ok True"
  | (settled) e where "is_terminal new" "e \<in> set (aps_entries st)" "ap_id e = i" "ap_state e = Pending"
    "fst (decide now i new reason st) = Ok True"
    "snd (decide now i new reason st) = st\<lparr>
       aps_entries := trim_entries (aps_retain st) (map (\<lambda>e. if ap_id e = i then
         e\<lparr>ap_state := new, ap_decided_at := Some now, ap_decision_reason := reason\<rparr> else e)
         (aps_entries st)),
       aps_channels := (aps_channels st)(i \<mapsto> new)\<rparr>"
proof (cases "find (\<lambda>e. ap_id e = i) (aps_entries st)")
  case None
  then show ?thesis by (intro refused) (simp_all add: decide_def)
next
  case (Some e)
  then have e: "e \<in> set (aps_entries st)" "ap_id e = i" by (auto simp: find_Some_iff)
  have dist: "distinct (map ap_id (aps_entries st))" using assms by (simp add: approvals_inv_def)
  show ?thesis
  proof (cases "is_terminal new \<and> ap_state e = Pending")
    case True
    with Some e show ?thesis
      by (intro settled [of e]) (simp_all add: decide_def is_terminal_def update_first_map [OF dist])
  next
    case False
    with Some show ?thesis by (intro refused) (auto simp: decide_def is_terminal_def)
  qed
qed

text \<open>
  Both a decision and a sweep rewrite entries in place, trim the decided ones and set the
  channels. They keep the invariant as long as ids stay, the channels follow the entries, none
  is new and none becomes pending.
\<close>

lemma rewritten_inv:
  assumes inv: "approvals_inv st" and ids: "\<And>e. ap_id (f e) = ap_id e"
    and chan: "\<And>e. e \<in> set (aps_entries st) \<Longrightarrow> ch (ap_id e) = Some (ap_state (f e))"
    and old: "\<And>i. i \<in> dom ch \<Longrightarrow> i \<in> dom (aps_channels st)"
    and pending: "\<And>i. ch i = Some Pending \<Longrightarrow> aps_channels st i = Some Pending"
  shows "approvals_inv (st\<lparr>aps_entries := trim_entries (aps_retain st) (map f (aps_entries st)), aps_channels := ch\<rparr>)"
proof -
  let ?es = "map f (aps_entries st)" and ?kept = "trim_entries (aps_retain st) (map f (aps_entries st))"
  have dist: "distinct (map ap_id ?kept)"
    by (rule distinct_trim [of _ "aps_entries st"]) (use inv in \<open>simp_all add: approvals_inv_def comp_def ids\<close>)
  have follow: "ch (ap_id e) = Some (ap_state e)" if "e \<in> set ?kept" for e
    using that set_trim [of "aps_retain st" ?es] chan by (auto simp: ids)
  have waiting: "i \<in> ap_id ` set ?kept" if i: "ch i = Some Pending" for i
  proof -
    from inv pending [OF i] obtain e where e: "e \<in> set (aps_entries st)" "ap_id e = i"
      by (auto simp: approvals_inv_def)
    with chan i have "\<not> is_terminal (ap_state (f e))" by (auto simp: is_terminal_def)
    with e(1) have "f e \<in> set ?kept" unfolding trim_entries_eq by (intro pending_kept) simp_all
    with e(2) ids show ?thesis by (metis imageI)
  qed
  have known: "\<exists>t n. i = approval_id t n \<and> n \<le> aps_seq st" if "i \<in> dom ch" for i
    using inv old [OF that] by (simp add: approvals_inv_def)
  show ?thesis unfolding approvals_inv_def using dist follow waiting known by simp
qed

lemma decide_inv:
  assumes "approvals_inv st"
  shows "approvals_inv (snd (decide now i new reason st))"
  using assms
proof (cases rule: decide_cases [of st now i new reason])
  case refused
  with assms show ?thesis by simp
next
  case (settled e)
  show ?thesis
    unfolding settled(6)
    by (rule rewritten_inv) (use assms settled in \<open>auto simp: approvals_inv_def is_terminal_def split: if_splits\<close>)
qed

lemma sweep_channels:
  "distinct (map ap_id es) \<Longrightarrow>
     fold (\<lambda>e ch. if overdue now t e then ch(ap_id e \<mapsto> Expired) else ch) es ch i
     = (if \<exists>e \<in> set es. ap_id e = i \<and> overdue now t e then Some Expired else ch i)"
  by (induction es arbitrary: ch) auto

lemma sweep_inv:
  assumes "approvals_inv st"
  shows "approvals_inv (sweep_expired now st)"
proof -
  have inv: "distinct (map ap_id (aps_entries st))"
    "\<And>e. e \<in> set (aps_entries st) \<Longrightarrow> aps_channels st (ap_id e) = Some (ap_state e)"
    using assms by (auto simp: approvals_inv_def)
  have same: "e = e'" if "e \<in> set (aps_entries st)" "e' \<in> set (aps_entries st)" "ap_id e = ap_id e'" for e e'
    using inv(1) that by (auto simp: distinct_map inj_on_def)
  note ch = sweep_channels [OF inv(1), of now "aps_timeout st" "aps_channels st"]
  show ?thesis
    unfolding sweep_expired_def
  proof (rule rewritten_inv)
    show "fold (\<lambda>e ch. if overdue now (aps_timeout st) e then ch(ap_id e \<mapsto> Expired) else ch) (aps_entries st)
        (aps_channels st) (ap_id e)
      = Some (ap_state (if overdue now (aps_timeout st) e then e\<lparr>ap_state := Expired, ap_decided_at := Some now\<rparr> else e))"
      if "e \<in> set (aps_entries st)" for e
      using that same inv(2) by (auto simp: ch)
  qed (use assms inv(2) in \<open>auto simp: ch split: if_splits\<close>)
qed

lemma apply_op_inv: "approvals_inv st \<Longrightarrow> aps_seq st < aps_seq st + 1 \<Longrightarrow> approvals_inv (apply_op op st)"
  by (cases op) (simp_all add: enqueue_inv decide_inv sweep_inv)

lemma approvals_run_inv: "approvals_run timeout ops st \<Longrightarrow> approvals_inv st"
  by (induction rule: approvals_run.induct) (simp_all add: approvals_inv_new apply_op_inv)

text \<open>How one operation changes the channel of one approval.\<close>

lemma channel_step:
  assumes "approvals_inv st" "aps_channels (apply_op op st) i = Some s"
  shows "aps_channels st i = Some s \<or> s = Pending
    \<or> (\<exists>now r. op = Decide now i s r) \<or> (s = Expired \<and> (\<exists>now. op = Sweep now))"
proof (cases op)
  case (Enqueue t1 t2 tool ord)
  with assms(2) show ?thesis by (auto simp: enqueue_def Let_def split: if_splits)
next
  case (Decide now j new r)
  with assms show ?thesis
    by (cases rule: decide_cases [of st now j new r]) (auto split: if_splits)
next
  case (Sweep now)
  with assms show ?thesis
    by (auto simp: sweep_expired_def sweep_channels approvals_inv_def split: if_splits)
qed

lemma decided_channel_stays:
  assumes inv: "approvals_inv st" and "aps_seq st < aps_seq st + 1"
    and "aps_channels st i = Some s" "is_terminal s"
  shows "aps_channels (apply_op op st) i = Some s"
proof -
  have ent: "ap_state e = s" if "e \<in> set (aps_entries st)" "ap_id e = i" for e
    using inv that assms(3) unfolding approvals_inv_def by force
  show ?thesis
  proof (cases op)
    case (Enqueue t1 t2 tool ord)
    have "approval_id t1 (aps_seq st + 1) \<noteq> i"
      using fresh_id [OF assms(1,2), of t1] assms(3) by auto
    with Enqueue assms(3) show ?thesis by (simp add: enqueue_def Let_def)
  next
    case (Decide now j new r)
    with inv assms(3,4) ent show ?thesis
      by (cases rule: decide_cases [of st now j new r]) (auto simp: is_terminal_def)
  next
    case (Sweep now)
    have "\<not> (\<exists>e \<in> set (aps_entries st). ap_id e = i \<and> overdue now (aps_timeout st) e)"
      using ent assms(4) by (auto simp: overdue_def is_terminal_def)
    moreover have "distinct (map ap_id (aps_entries st))" using inv by (simp add: approvals_inv_def)
    ultimately show ?thesis
      using Sweep assms(3) by (auto simp: sweep_expired_def sweep_channels)
  qed
qed

text \<open>An approved channel got its value from a decision in the history.\<close>

lemma approved_was_decided:
  assumes "approvals_run timeout ops st" and "aps_channels st i = Some Approved"
  shows "\<exists>now reason. Decide now i Approved reason \<in> set ops"
  using assms
proof (induction rule: approvals_run.induct)
  case start
  then show ?case by (simp add: approval_store_new_def)
next
  case (step ops st op)
  from channel_step [OF approvals_run_inv [OF step.hyps(1)] step.prems] step.IH
  show ?case by auto
qed

lemma poll_Approved: "ticket_poll sender_gone timed_out cur = Some Approved \<Longrightarrow> cur = Approved"
  by (auto simp: ticket_poll_def split: if_splits)

section \<open>Properties\<close>

text \<open>
  No order is released without the operator. Whatever the history of the queue, if a
  waiting hook is told that its order is approved, then the history contains a decision
  that approved exactly this order; in particular no timeout, sweep or decision on another
  order releases it.
\<close>

theorem release_needs_an_approval:
  assumes "approvals_run timeout ops st"
    and "aps_channels st i = Some cur"
    and "ticket_poll sender_gone timed_out cur = Some Approved"
  shows "\<exists>now reason. Decide now i Approved reason \<in> set ops"
proof -
  from poll_Approved [OF assms(3)] assms(2) have "aps_channels st i = Some Approved" by simp
  with assms(1) show ?thesis by (rule approved_was_decided)
qed

definition demo_approval_order :: trade_order where
  "demo_approval_order = \<lparr>o_id = ''hook-1'', o_asset = asset_symbol ''ROAR'', o_side = Buy, o_qty = 1,
     o_limit_price = None, o_max_slippage = 0, o_venue = RobinhoodMcp, o_reason = []\<rparr>"

lemma demo_approvals_run:
  "approvals_run 60 [Enqueue 0 0 ''place_order'' demo_approval_order]
     (apply_op (Enqueue 0 0 ''place_order'' demo_approval_order) (approval_store_new 60))"
  using approvals_run.step [OF approvals_run.start, of 60 "Enqueue 0 0 ''place_order'' demo_approval_order"]
  by (simp add: approval_store_new_def)

lemmas demo_approval_simps = enqueue_def approval_store_new_def Let_def decide_def is_terminal_def
  trim_entries_eq

theorem release_needs_an_approval_witness:
  "\<exists>now reason. Decide now (approval_id 0 1) Approved reason
     \<in> set [Enqueue 0 0 ''place_order'' demo_approval_order, Decide 5 (approval_id 0 1) Approved None]"
proof -
  let ?st = "apply_op (Enqueue 0 0 ''place_order'' demo_approval_order) (approval_store_new 60)"
  have "approvals_run 60 ([Enqueue 0 0 ''place_order'' demo_approval_order]
      @ [Decide 5 (approval_id 0 1) Approved None]) (apply_op (Decide 5 (approval_id 0 1) Approved None) ?st)"
    by (rule approvals_run.step [OF demo_approvals_run])
      (simp add: demo_approval_simps word_less_nat_alt)
  then have run: "approvals_run 60 [Enqueue 0 0 ''place_order'' demo_approval_order,
      Decide 5 (approval_id 0 1) Approved None] (apply_op (Decide 5 (approval_id 0 1) Approved None) ?st)"
    by simp
  have ch: "aps_channels (apply_op (Decide 5 (approval_id 0 1) Approved None) ?st) (approval_id 0 1)
      = Some Approved"
    by (simp add: demo_approval_simps)
  have poll: "ticket_poll False False Approved = Some Approved"
    by (simp add: ticket_poll_def is_terminal_def)
  from release_needs_an_approval [OF run ch poll] show ?thesis .
qed

text \<open>
  A decision is final. Once an approval is approved, denied or expired, no operation
  changes what its hook is told, and a later decision on it is refused.
\<close>

theorem approval_decision_is_final:
  assumes "approvals_run timeout ops st" and "aps_seq st < aps_seq st + 1"
    and "aps_channels st i = Some s" and "is_terminal s"
  shows "aps_channels (apply_op op st) i = Some s
    \<and> (\<forall>now new reason. fst (decide now i new reason st) \<noteq> Ok True)"
proof
  note inv = approvals_run_inv [OF assms(1)]
  show "aps_channels (apply_op op st) i = Some s"
    by (rule decided_channel_stays [OF inv assms(2-4)])
  show "\<forall>now new reason. fst (decide now i new reason st) \<noteq> Ok True"
  proof (intro allI)
    fix now new reason
    show "fst (decide now i new reason st) \<noteq> Ok True"
      using inv
    proof (cases rule: decide_cases [of st now i new reason])
      case (settled e)
      with inv assms(3,4) show ?thesis
        unfolding approvals_inv_def is_terminal_def by force
    qed
  qed
qed

theorem approval_decision_is_final_witness:
  "fst (decide 9 (approval_id 0 1) Denied None
     (apply_op (Decide 5 (approval_id 0 1) Approved None)
       (apply_op (Enqueue 0 0 ''place_order'' demo_approval_order) (approval_store_new 60)))) \<noteq> Ok True"
proof -
  let ?st = "apply_op (Enqueue 0 0 ''place_order'' demo_approval_order) (approval_store_new 60)"
  let ?st2 = "apply_op (Decide 5 (approval_id 0 1) Approved None) ?st"
  have run: "approvals_run 60 ([Enqueue 0 0 ''place_order'' demo_approval_order]
      @ [Decide 5 (approval_id 0 1) Approved None]) ?st2"
    by (rule approvals_run.step [OF demo_approvals_run])
      (simp add: demo_approval_simps word_less_nat_alt)
  have "aps_seq ?st2 < aps_seq ?st2 + 1" "aps_channels ?st2 (approval_id 0 1) = Some Approved"
    "is_terminal Approved"
    by (simp_all add: demo_approval_simps word_less_nat_alt)
  from approval_decision_is_final [OF run this] show ?thesis by blast
qed

lemma approvals_run_retain: "approvals_run timeout ops st \<Longrightarrow> aps_retain st = 50"
proof (induction rule: approvals_run.induct)
  case start
  then show ?case by (simp add: approval_store_new_def)
next
  case (step ops st op)
  then show ?case
    by (cases op) (auto simp: enqueue_def Let_def decide_def sweep_expired_def split: option.split)
qed

text \<open>
  C35. The queue never loses a waiting order and never keeps more than fifty decided ones.
  Whatever its history, the ids of its entries are distinct, every approval whose hook still
  waits is in the list, pending, and at most fifty entries are decided.
\<close>

theorem queue_keeps_every_pending_order:
  assumes "approvals_run timeout ops st"
  shows "distinct (map ap_id (aps_entries st))
    \<and> {i. aps_channels st i = Some Pending} = {ap_id e | e. e \<in> set (aps_entries st) \<and> ap_state e = Pending}
    \<and> terminal_count (aps_entries st) \<le> 50"
proof -
  note inv = approvals_run_inv [OF assms, unfolded approvals_inv_def]
  have "{i. aps_channels st i = Some Pending} = {ap_id e | e. e \<in> set (aps_entries st) \<and> ap_state e = Pending}"
    using inv by force
  then show ?thesis using inv approvals_run_retain [OF assms] by simp
qed

theorem queue_keeps_every_pending_order_witness:
  "{i. aps_channels (apply_op (Enqueue 0 0 ''place_order'' demo_approval_order) (approval_store_new 60)) i
      = Some Pending} = {approval_id 0 1}
   \<and> terminal_count (aps_entries (apply_op (Enqueue 0 0 ''place_order'' demo_approval_order)
       (approval_store_new 60))) \<le> 50"
  using queue_keeps_every_pending_order [OF demo_approvals_run]
  by (simp add: demo_approval_simps)

text \<open>
  A decision can drop its own record. If the oldest entry is still pending while the
  queue already holds as many decided entries as it retains, all of them newer, then
  deciding it succeeds and removes it from the list at once: the operator's decision is
  delivered, and the list the server answers from no longer holds it.
\<close>

theorem late_decision_vanishes:
  assumes "aps_entries st = e # es" and "ap_state e = Pending" and "is_terminal new"
    and "terminal_count es = aps_retain st" and "ap_id e \<notin> ap_id ` set es"
  shows "fst (decide now (ap_id e) new reason st) = Ok True
    \<and> aps_channels (snd (decide now (ap_id e) new reason st)) (ap_id e) = Some new
    \<and> find (\<lambda>a. ap_id a = ap_id e) (list_approvals (snd (decide now (ap_id e) new reason st))) = None"
proof -
  let ?e = "e\<lparr>ap_state := new, ap_decided_at := Some now, ap_decision_reason := reason\<rparr>"
  have "trim_entries (aps_retain st) (?e # es) = es"
    using assms(3,4) by (simp add: trim_entries_eq)
  then have "decide now (ap_id e) new reason st
    = (Ok True, st\<lparr>aps_entries := es, aps_channels := (aps_channels st)(ap_id e \<mapsto> new)\<rparr>)"
    using assms(1-3) by (simp add: decide_def is_terminal_def)
  then show ?thesis
    using assms(5) by (simp add: list_approvals_def find_None_iff) (metis image_eqI)
qed

definition demo_entry :: "string \<Rightarrow> approval_state \<Rightarrow> approval" where
  "demo_entry i s = \<lparr>ap_id = i, ap_state = s, ap_tool = ''place_order'',
     ap_order = order_summary_of demo_approval_order, ap_created_at = 0, ap_decided_at = None,
     ap_decision_reason = None\<rparr>"

theorem late_decision_vanishes_witness:
  "find (\<lambda>a. ap_id a = ''old'') (list_approvals (snd (decide 9 ''old'' Approved None
     ((approval_store_new 60)\<lparr>aps_entries :=
        demo_entry ''old'' Pending # map (\<lambda>_. demo_entry ''new'' Denied) [0..<50]\<rparr>)))) = None"
proof -
  let ?es = "map (\<lambda>_. demo_entry ''new'' Denied) [0..<50::nat]"
  let ?st = "(approval_store_new 60)\<lparr>aps_entries := demo_entry ''old'' Pending # ?es\<rparr>"
  have count: "terminal_count (map (\<lambda>_. demo_entry ''new'' Denied) xs) = length xs" for xs :: "nat list"
    by (induction xs) (simp_all add: demo_entry_def is_terminal_def)
  have entries: "aps_entries ?st = demo_entry ''old'' Pending # ?es" by simp
  have old: "ap_state (demo_entry ''old'' Pending) = Pending" "ap_id (demo_entry ''old'' Pending) = ''old''"
    "is_terminal Approved"
    by (simp_all add: demo_entry_def is_terminal_def)
  have full: "terminal_count ?es = aps_retain ?st"
    unfolding count by (simp add: approval_store_new_def)
  have new: "ap_id (demo_entry ''old'' Pending) \<notin> ap_id ` set ?es"
    by (auto simp: demo_entry_def)
  from late_decision_vanishes [OF entries old(1,3) full new, of 9 None, unfolded old(2)]
  show ?thesis by (elim conjE)
qed

text \<open>
  The hook and the store can disagree for good. When the hook's own timer fires while
  the approval is still pending in the store, the hook reports it expired, which denies the
  order; an approval by the operator that arrives before the sweeper still succeeds, and
  from then on the store shows the order as approved.
\<close>

theorem hook_and_store_can_disagree:
  assumes "approvals_run timeout ops st" and "e \<in> set (aps_entries st)" and "ap_state e = Pending"
  shows "ticket_poll False True (ap_state e) = Some Expired
    \<and> fst (decide now (ap_id e) Approved reason st) = Ok True
    \<and> aps_channels (snd (decide now (ap_id e) Approved reason st)) (ap_id e) = Some Approved"
proof -
  note inv = approvals_run_inv [OF assms(1)]
  have find: "\<exists>e'. find (\<lambda>x. ap_id x = ap_id e) (aps_entries st) = Some e' \<and> ap_state e' = Pending"
  proof (cases "find (\<lambda>x. ap_id x = ap_id e) (aps_entries st)")
    case None
    with assms(2) show ?thesis by (auto simp: find_None_iff)
  next
    case (Some e')
    then have "e' \<in> set (aps_entries st)" "ap_id e' = ap_id e" by (auto simp: find_Some_iff)
    moreover have "aps_channels st (ap_id x) = Some (ap_state x)" if "x \<in> set (aps_entries st)" for x
      using inv that by (simp add: approvals_inv_def)
    ultimately have "ap_state e' = Pending"
      using assms(2,3) by (metis option.inject)
    with Some show ?thesis by simp
  qed
  then obtain e' where e': "find (\<lambda>x. ap_id x = ap_id e) (aps_entries st) = Some e'" "ap_state e' = Pending"
    by blast
  show ?thesis
    by (simp add: e' assms(3) decide_def ticket_poll_def is_terminal_def)
qed

theorem hook_and_store_can_disagree_witness:
  "ticket_poll False True Pending = Some Expired
   \<and> fst (decide 70 (approval_id 0 1) Approved None
       (apply_op (Enqueue 0 0 ''place_order'' demo_approval_order) (approval_store_new 60))) = Ok True"
proof -
  let ?st = "apply_op (Enqueue 0 0 ''place_order'' demo_approval_order) (approval_store_new 60)"
  let ?e = "hd (aps_entries ?st)"
  have e: "?e \<in> set (aps_entries ?st)" "ap_state ?e = Pending" "ap_id ?e = approval_id 0 1"
    by (simp_all add: demo_approval_simps)
  from hook_and_store_can_disagree [OF demo_approvals_run e(1,2), of 70 None] e(2,3)
  show ?thesis by simp
qed

end
