(* ===== verification/Budgets.thy ===== *)
theory Budgets
  imports Decimal
begin

text \<open>
  The two spend budgets, of a server session (\<open>crates/server/src/budget.rs\<close>) and of
  a wallet (\<open>crates/wallets/src/budget.rs\<close>): caps on the number of orders, their
  total notional and the wall-clock time, and a latch that a refusal sets and only a reset
  clears. The code has them twice; the locale \<open>latched_budget\<close> states the contract
  once, its lemmas say what a whole sequence of requests can get through, and both budgets
  are interpretations of it.

  A request reads the clock up to twice, for the comparison and for the report; both
  readings are arguments. \<open>Instant::elapsed\<close> is never negative.
\<close>

definition elapsed :: "instant \<Rightarrow> instant \<Rightarrow> int" where
  "elapsed started now = max 0 (now - started)"

definition as_secs :: "int \<Rightarrow> int" where
  "as_secs d = d div nanos_per_sec"

section \<open>The contract\<close>

lemma room_for_one_more:
  fixes used1 used2 cap :: u32
  assumes "used2 = used1 + 1" and "used1 < cap" and "k \<le> unat cap - unat used2"
  shows "Suc k \<le> unat cap - unat used1" and "used2 \<le> cap"
proof -
  have "unat used2 = unat used1 + 1" "unat used1 < unat cap"
    using assms(1,2) unat_succ_less [of used1 cap] by (simp_all add: word_less_nat_alt)
  with assms(3) show "Suc k \<le> unat cap - unat used1" "used2 \<le> cap" by (simp_all add: word_le_nat_alt)
qed

text \<open>Whether each of a list of requests was granted, and the state after the last.\<close>

fun run_requests ::
    "('s \<Rightarrow> instant \<Rightarrow> instant \<Rightarrow> dec \<Rightarrow> (('e + unit) \<times> 's) option) \<Rightarrow> 's
      \<Rightarrow> (instant \<times> instant \<times> dec) list \<Rightarrow> (bool list \<times> 's) option"
where
  "run_requests reserve st [] = Some ([], st)"
| "run_requests reserve st ((t1, t2, n) # rs) = do {
     (r, st1) \<leftarrow> reserve st t1 t2 n;
     (granted, st2) \<leftarrow> run_requests reserve st1 rs;
     Some (is_ok r # granted, st2) }"

fun granted_notional :: "bool list \<Rightarrow> (instant \<times> instant \<times> dec) list \<Rightarrow> dec" where
  "granted_notional (g # gs) ((t1, t2, n) # rs) = (if g then max n 0 else 0) + granted_notional gs rs"
| "granted_notional gs rs = 0"

locale latched_budget =
  fixes reserve :: "'s \<Rightarrow> instant \<Rightarrow> instant \<Rightarrow> dec \<Rightarrow> (('e + unit) \<times> 's) option"
    and plus :: "dec \<Rightarrow> dec \<Rightarrow> dec option"
    and used :: "'s \<Rightarrow> u32"
    and spent :: "'s \<Rightarrow> dec"
    and since :: "'s \<Rightarrow> instant"
    and latched :: "'s \<Rightarrow> bool"
    and max_count :: u32
    and max_spent :: dec
    and max_time :: int
  assumes refuses_when_latched:
      "latched st \<Longrightarrow> \<exists>e. reserve st t1 t2 n = Some (Inl e, st)"
    and refusal_latches: "reserve st t1 t2 n = Some (Inl e, st') \<Longrightarrow>
      latched st' \<and> used st' = used st \<and> spent st' = spent st \<and> since st' = since st"
    and grant: "reserve st t1 t2 n = Some (Inr u, st') \<Longrightarrow>
      \<not> latched st \<and> \<not> latched st' \<and> used st' = used st + 1 \<and> since st' = since st
      \<and> plus (spent st) (max n 0) = Some (spent st')
      \<and> (max_count = 0 \<or> used st < max_count) \<and> (max_spent \<le> 0 \<or> spent st' \<le> max_spent)
      \<and> (max_time = 0 \<or> elapsed (since st) t1 < max_time)"
begin

lemma latched_forever:
  assumes "latched st"
  shows "run_requests reserve st rs = Some (replicate (length rs) False, st)"
  using assms
proof (induction rs)
  case Nil
  then show ?case by simp
next
  case (Cons r rs)
  obtain t1 t2 n where r: "r = (t1, t2, n)" by (metis surj_pair)
  from refuses_when_latched [OF Cons.prems, of t1 t2 n] Cons r show ?case by auto
qed

text \<open>
  What a sequence of requests gets: some of them, then nothing any more; never more than the
  caps, counting what was used before.
\<close>

lemma granted_prefix:
  assumes "run_requests reserve st rs = Some (granted, st')"
  shows "\<exists>k. granted = replicate k True @ replicate (length rs - k) False \<and> k \<le> length rs
    \<and> used st' = used st + of_nat k
    \<and> (max_count = 0 \<or> used st \<le> max_count \<longrightarrow> k \<le> unat max_count - unat (used st) \<or> max_count = 0)
    \<and> (0 < k \<longrightarrow> max_spent \<le> 0 \<or> spent st' \<le> max_spent) \<and> (k = 0 \<longrightarrow> spent st' = spent st)
    \<and> since st' = since st
    \<and> (k < length rs \<longrightarrow> latched st')
    \<and> (\<forall>i < k. max_time = 0 \<or> elapsed (since st) (fst (rs ! i)) < max_time)"
  using assms
proof (induction rs arbitrary: st granted)
  case Nil
  then show ?case by auto
next
  case (Cons r rs)
  obtain t1 t2 n where r: "r = (t1, t2, n)" by (metis surj_pair)
  from Cons.prems r obtain res st1 gs where res: "reserve st t1 t2 n = Some (res, st1)"
    and rest: "run_requests reserve st1 rs = Some (gs, st')" and granted: "granted = is_ok res # gs"
    by (auto simp: bind_Some_iff split: prod.splits)
  show ?case
  proof (cases res)
    case (Inl e)
    from refusal_latches [OF res [unfolded Inl]]
    have l: "latched st1" "used st1 = used st" "spent st1 = spent st" "since st1 = since st" by auto
    from latched_forever [OF l(1), of rs] rest
    have "gs = replicate (length rs) False" "st' = st1" by simp_all
    with l granted Inl show ?thesis by (intro exI [of _ 0]) simp
  next
    case (Inr u)
    from grant [OF res [unfolded Inr]]
    have g: "used st1 = used st + 1" "max_count = 0 \<or> used st < max_count" "since st1 = since st"
      "max_spent \<le> 0 \<or> spent st1 \<le> max_spent"
      "max_time = 0 \<or> elapsed (since st) t1 < max_time" by auto
    from Cons.IH [OF rest] obtain k where
      k: "gs = replicate k True @ replicate (length rs - k) False" "k \<le> length rs"
      "used st' = used st1 + of_nat k"
      "max_count = 0 \<or> used st1 \<le> max_count \<longrightarrow> k \<le> unat max_count - unat (used st1) \<or> max_count = 0"
      "0 < k \<longrightarrow> max_spent \<le> 0 \<or> spent st' \<le> max_spent" "k = 0 \<longrightarrow> spent st' = spent st1"
      "since st' = since st1" "k < length rs \<longrightarrow> latched st'"
      "\<forall>i < k. max_time = 0 \<or> elapsed (since st1) (fst (rs ! i)) < max_time" by blast
    have count: "max_count = 0 \<or> used st \<le> max_count \<longrightarrow>
        Suc k \<le> unat max_count - unat (used st) \<or> max_count = 0"
      using room_for_one_more [OF g(1)] g(2) k(4) by blast
    have times: "\<forall>i < Suc k. max_time = 0 \<or> elapsed (since st) (fst ((r # rs) ! i)) < max_time"
      using k(9) g(3,5) r by (auto simp: less_Suc_eq_0_disj)
    have spent: "max_spent \<le> 0 \<or> spent st' \<le> max_spent"
      using k(5,6) g(4) by (cases "k = 0") auto
    show ?thesis
      using k count times spent granted Inr g(1,3) by (intro exI [of _ "Suc k"]) (simp add: add_ac)
  qed
qed

text \<open>In exact arithmetic the amount spent grows by what was granted.\<close>

lemma granted_total:
  assumes "\<And>a b. plus a b = Some (a + b)" and "run_requests reserve st rs = Some (granted, st')"
  shows "spent st' = spent st + granted_notional granted rs"
  using assms(2)
proof (induction rs arbitrary: st granted)
  case Nil
  then show ?case by simp
next
  case (Cons r rs)
  obtain t1 t2 n where r: "r = (t1, t2, n)" by (metis surj_pair)
  from Cons.prems r obtain res st1 gs where res: "reserve st t1 t2 n = Some (res, st1)"
    and rest: "run_requests reserve st1 rs = Some (gs, st')" and granted: "granted = is_ok res # gs"
    by (auto simp: bind_Some_iff split: prod.splits)
  have "spent st1 = spent st + (if is_ok res then max n 0 else 0)"
    using refusal_latches [of st t1 t2 n _ st1] grant [of st t1 t2 n _ st1] res assms(1)
    by (cases res) auto
  with Cons.IH [OF rest] granted r show ?case by simp
qed

end

section \<open>The session budget\<close>

record budget_caps =
  bc_max_orders :: u32
  bc_max_notional :: dec
  bc_max_duration :: nat

definition budget_caps_default :: budget_caps where
  "budget_caps_default = \<lparr>bc_max_orders = 0, bc_max_notional = 0, bc_max_duration = 0\<rparr>"

definition is_unlimited :: "budget_caps \<Rightarrow> bool" where
  "is_unlimited caps = (bc_max_orders caps = 0 \<and> bc_max_notional caps \<le> 0 \<and> bc_max_duration caps = 0)"

datatype budget_breach =
    OrderCount u32              \<comment> \<open>cap\<close>
  | SessionNotional dec dec        \<comment> \<open>would be, cap\<close>
  | SessionDuration int int        \<comment> \<open>elapsed and cap, in seconds\<close>

definition show_budget_breach :: "budget_breach \<Rightarrow> message" where
  "show_budget_breach b = (case b of
       OrderCount cap \<Rightarrow> [Lit ''session order limit reached ('', ShowInt (uint cap), Lit '')'']
     | SessionNotional w cap \<Rightarrow>
         [Lit ''session notional limit reached ('', Show w, Lit '' would exceed '', Show cap, Lit '')'']
     | SessionDuration e cap \<Rightarrow>
         [Lit ''session time limit reached ('', ShowInt e, Lit ''s of '', ShowInt cap, Lit ''s)''])"

record session_budget =
  sb_orders_used :: u32
  sb_notional_used :: dec
  sb_started :: instant
  sb_breached :: bool

definition session_budget_new :: "instant \<Rightarrow> session_budget" where
  "session_budget_new now = \<lparr>sb_orders_used = 0, sb_notional_used = 0, sb_started = now, sb_breached = False\<rparr>"

text \<open>The report under the latch, which looks at the caps again in another order.\<close>

definition session_first_breach :: "budget_caps \<Rightarrow> session_budget \<Rightarrow> instant \<Rightarrow> instant \<Rightarrow> budget_breach" where
  "session_first_breach caps st t1 t2 =
     (if 0 < bc_max_orders caps \<and> bc_max_orders caps \<le> sb_orders_used st
      then OrderCount (bc_max_orders caps)
      else if bc_max_duration caps \<noteq> 0 \<and> int (bc_max_duration caps) \<le> elapsed (sb_started st) t1
      then SessionDuration (as_secs (elapsed (sb_started st) t2)) (as_secs (int (bc_max_duration caps)))
      else SessionNotional (sb_notional_used st) (bc_max_notional caps))"

definition try_record ::
    "arith \<Rightarrow> budget_caps \<Rightarrow> session_budget \<Rightarrow> instant \<Rightarrow> instant \<Rightarrow> dec
      \<Rightarrow> ((budget_breach + unit) \<times> session_budget) option"
where
  "try_record A caps st t1 t2 notional =
     (if sb_breached st then Some (Err (session_first_breach caps st t1 t2), st)
      else if bc_max_duration caps \<noteq> 0 \<and> int (bc_max_duration caps) \<le> elapsed (sb_started st) t1
      then Some (Err (SessionDuration (as_secs (elapsed (sb_started st) t2)) (as_secs (int (bc_max_duration caps)))),
                 st\<lparr>sb_breached := True\<rparr>)
      else if 0 < bc_max_orders caps \<and> bc_max_orders caps \<le> sb_orders_used st
      then Some (Err (OrderCount (bc_max_orders caps)), st\<lparr>sb_breached := True\<rparr>)
      else do {
        would_be \<leftarrow> d_add A (sb_notional_used st) (max notional 0);
        Some (if 0 < bc_max_notional caps \<and> bc_max_notional caps < would_be
              then (Err (SessionNotional would_be (bc_max_notional caps)), st\<lparr>sb_breached := True\<rparr>)
              else (Ok (), st\<lparr>sb_orders_used := sb_orders_used st + 1, sb_notional_used := would_be\<rparr>)) })"

definition session_budget_reset :: "instant \<Rightarrow> session_budget \<Rightarrow> session_budget" where
  "session_budget_reset now st = st\<lparr>sb_orders_used := 0, sb_notional_used := 0, sb_started := now,
     sb_breached := False\<rparr>"

record budget_view =
  bv_orders_used :: u32
  bv_orders_cap :: u32
  bv_notional_used :: dec
  bv_notional_cap :: dec
  bv_elapsed_secs :: int
  bv_duration_cap_secs :: int
  bv_breached :: bool

definition session_budget_view :: "budget_caps \<Rightarrow> instant \<Rightarrow> session_budget \<Rightarrow> budget_view" where
  "session_budget_view caps now st = \<lparr>bv_orders_used = sb_orders_used st, bv_orders_cap = bc_max_orders caps,
     bv_notional_used = sb_notional_used st, bv_notional_cap = bc_max_notional caps,
     bv_elapsed_secs = as_secs (elapsed (sb_started st) now),
     bv_duration_cap_secs = as_secs (int (bc_max_duration caps)), bv_breached = sb_breached st\<rparr>"

interpretation session: latched_budget "try_record A caps" "d_add A" sb_orders_used sb_notional_used
    sb_started sb_breached "bc_max_orders caps" "bc_max_notional caps" "int (bc_max_duration caps)"
  for A caps
  by unfold_locales
    (auto simp: try_record_def bind_Some_iff word_gt_0 not_le not_less elapsed_def split: if_splits)

section \<open>The wallet budget\<close>

record wallet_limits =
  wl_max_tx_count :: u32
  wl_max_notional :: dec
  wl_max_duration :: nat

definition wallet_limits_default :: wallet_limits where
  "wallet_limits_default = \<lparr>wl_max_tx_count = 0, wl_max_notional = 0, wl_max_duration = 0\<rparr>"

datatype wallet_breach =
    TxCount u32              \<comment> \<open>cap\<close>
  | WalletNotional dec dec        \<comment> \<open>would be, cap\<close>
  | WalletDuration int int        \<comment> \<open>elapsed and cap, in seconds\<close>

definition show_wallet_breach :: "wallet_breach \<Rightarrow> message" where
  "show_wallet_breach b = (case b of
       TxCount cap \<Rightarrow> [Lit ''wallet transaction limit reached ('', ShowInt (uint cap), Lit '')'']
     | WalletNotional w cap \<Rightarrow>
         [Lit ''wallet notional limit reached ('', Show w, Lit '' would exceed '', Show cap, Lit '')'']
     | WalletDuration e cap \<Rightarrow>
         [Lit ''wallet time limit reached ('', ShowInt e, Lit ''s of '', ShowInt cap, Lit ''s)''])"

record wallet_budget =
  wb_tx_used :: u32
  wb_notional_used :: dec
  wb_started :: instant
  wb_breached :: bool

definition wallet_budget_new :: "instant \<Rightarrow> wallet_budget" where
  "wallet_budget_new now = \<lparr>wb_tx_used = 0, wb_notional_used = 0, wb_started = now, wb_breached = False\<rparr>"

text \<open>The report under the latch, which looks at the caps again in another order.\<close>

definition wallet_first_breach :: "wallet_limits \<Rightarrow> wallet_budget \<Rightarrow> instant \<Rightarrow> instant \<Rightarrow> wallet_breach" where
  "wallet_first_breach caps st t1 t2 =
     (if 0 < wl_max_tx_count caps \<and> wl_max_tx_count caps \<le> wb_tx_used st
      then TxCount (wl_max_tx_count caps)
      else if wl_max_duration caps \<noteq> 0 \<and> int (wl_max_duration caps) \<le> elapsed (wb_started st) t1
      then WalletDuration (as_secs (elapsed (wb_started st) t2)) (as_secs (int (wl_max_duration caps)))
      else WalletNotional (wb_notional_used st) (wl_max_notional caps))"

definition try_reserve ::
    "arith \<Rightarrow> wallet_limits \<Rightarrow> wallet_budget \<Rightarrow> instant \<Rightarrow> instant \<Rightarrow> dec
      \<Rightarrow> ((wallet_breach + unit) \<times> wallet_budget) option"
where
  "try_reserve A caps st t1 t2 notional =
     (if wb_breached st then Some (Err (wallet_first_breach caps st t1 t2), st)
      else if wl_max_duration caps \<noteq> 0 \<and> int (wl_max_duration caps) \<le> elapsed (wb_started st) t1
      then Some (Err (WalletDuration (as_secs (elapsed (wb_started st) t2)) (as_secs (int (wl_max_duration caps)))),
                 st\<lparr>wb_breached := True\<rparr>)
      else if 0 < wl_max_tx_count caps \<and> wl_max_tx_count caps \<le> wb_tx_used st
      then Some (Err (TxCount (wl_max_tx_count caps)), st\<lparr>wb_breached := True\<rparr>)
      else do {
        would_be \<leftarrow> d_add A (wb_notional_used st) (max notional 0);
        Some (if 0 < wl_max_notional caps \<and> wl_max_notional caps < would_be
              then (Err (WalletNotional would_be (wl_max_notional caps)), st\<lparr>wb_breached := True\<rparr>)
              else (Ok (), st\<lparr>wb_tx_used := wb_tx_used st + 1, wb_notional_used := would_be\<rparr>)) })"

definition wallet_budget_reset :: "instant \<Rightarrow> wallet_budget \<Rightarrow> wallet_budget" where
  "wallet_budget_reset now st = st\<lparr>wb_tx_used := 0, wb_notional_used := 0, wb_started := now,
     wb_breached := False\<rparr>"

record wallet_budget_view =
  wv_tx_used :: u32
  wv_tx_cap :: u32
  wv_notional_used :: dec
  wv_notional_cap :: dec
  wv_elapsed_secs :: int
  wv_duration_cap_secs :: int
  wv_breached :: bool

definition wallet_budget_view :: "wallet_limits \<Rightarrow> instant \<Rightarrow> wallet_budget \<Rightarrow> wallet_budget_view" where
  "wallet_budget_view caps now st = \<lparr>wv_tx_used = wb_tx_used st, wv_tx_cap = wl_max_tx_count caps,
     wv_notional_used = wb_notional_used st, wv_notional_cap = wl_max_notional caps,
     wv_elapsed_secs = as_secs (elapsed (wb_started st) now),
     wv_duration_cap_secs = as_secs (int (wl_max_duration caps)), wv_breached = wb_breached st\<rparr>"

interpretation wallet: latched_budget "try_reserve A caps" "d_add A" wb_tx_used wb_notional_used
    wb_started wb_breached "wl_max_tx_count caps" "wl_max_notional caps" "int (wl_max_duration caps)"
  for A caps
  by unfold_locales
    (auto simp: try_reserve_def bind_Some_iff word_gt_0 not_le not_less elapsed_def split: if_splits)

section \<open>Properties\<close>

text \<open>
  The session budget is a hard stop. From a fresh session, whatever is requested and
  whenever: the requests granted are the first k and none after; k is within the order cap,
  the recorded notional within the notional cap, every granted request came before the time
  was up; a refusal leaves the session latched; and in exact arithmetic the recorded
  notional is the total of what was granted, negative amounts counting as nothing.
\<close>

theorem session_budget_is_a_hard_stop:
  assumes "run_requests (try_record A caps) (session_budget_new t0) rs = Some (granted, st)"
  shows "\<exists>k. granted = replicate k True @ replicate (length rs - k) False \<and> k \<le> length rs
    \<and> (bc_max_orders caps = 0 \<or> k \<le> unat (bc_max_orders caps))
    \<and> (bc_max_notional caps \<le> 0 \<or> sb_notional_used st \<le> bc_max_notional caps)
    \<and> (\<forall>i < k. bc_max_duration caps = 0 \<or> elapsed t0 (fst (rs ! i)) < int (bc_max_duration caps))
    \<and> (k < length rs \<longrightarrow> sb_breached st)
    \<and> (A = exact_arith \<longrightarrow> sb_notional_used st = granted_notional granted rs)"
proof -
  from session.granted_prefix [OF assms] obtain k where
    k: "granted = replicate k True @ replicate (length rs - k) False" "k \<le> length rs"
    "bc_max_orders caps = 0 \<or> sb_orders_used (session_budget_new t0) \<le> bc_max_orders caps \<longrightarrow>
      k \<le> unat (bc_max_orders caps) - unat (sb_orders_used (session_budget_new t0))
        \<or> bc_max_orders caps = 0"
    "0 < k \<longrightarrow> bc_max_notional caps \<le> 0 \<or> sb_notional_used st \<le> bc_max_notional caps"
    "k = 0 \<longrightarrow> sb_notional_used st = sb_notional_used (session_budget_new t0)"
    "k < length rs \<longrightarrow> sb_breached st"
    "\<forall>i < k. int (bc_max_duration caps) = 0
      \<or> elapsed (sb_started (session_budget_new t0)) (fst (rs ! i)) < int (bc_max_duration caps)"
    by metis
  have "sb_notional_used st = granted_notional granted rs" if "A = exact_arith"
    using session.granted_total [OF _ assms] that by (simp add: session_budget_new_def)
  then show ?thesis
    using k by (intro exI [of _ k]) (auto simp: session_budget_new_def)
qed

theorem session_budget_is_a_hard_stop_witness:
  "\<exists>granted st. run_requests (try_record exact_arith (budget_caps_default\<lparr>bc_max_orders := 2\<rparr>))
      (session_budget_new 0) [(1, 1, 10), (2, 2, 20), (3, 3, 30)] = Some (granted, st)
    \<and> granted = [True, True, False] \<and> sb_notional_used st = 30"
proof -
  let ?caps = "budget_caps_default\<lparr>bc_max_orders := 2\<rparr>"
  obtain granted st where r: "run_requests (try_record exact_arith ?caps)
      (session_budget_new 0) [(1, 1, 10), (2, 2, 20), (3, 3, 30)] = Some (granted, st)"
    "granted = [True, True, False]"
    by (simp add: try_record_def session_budget_new_def budget_caps_default_def word_le_nat_alt)
  from session_budget_is_a_hard_stop [OF r(1)] r show ?thesis by auto
qed

text \<open>
  The wallet budget is the same hard stop for the transactions of one wallet.
\<close>

theorem wallet_budget_is_a_hard_stop:
  assumes "run_requests (try_reserve A lims) (wallet_budget_new t0) rs = Some (granted, st)"
  shows "\<exists>k. granted = replicate k True @ replicate (length rs - k) False \<and> k \<le> length rs
    \<and> (wl_max_tx_count lims = 0 \<or> k \<le> unat (wl_max_tx_count lims))
    \<and> (wl_max_notional lims \<le> 0 \<or> wb_notional_used st \<le> wl_max_notional lims)
    \<and> (\<forall>i < k. wl_max_duration lims = 0 \<or> elapsed t0 (fst (rs ! i)) < int (wl_max_duration lims))
    \<and> (k < length rs \<longrightarrow> wb_breached st)
    \<and> (A = exact_arith \<longrightarrow> wb_notional_used st = granted_notional granted rs)"
proof -
  from wallet.granted_prefix [OF assms] obtain k where
    k: "granted = replicate k True @ replicate (length rs - k) False" "k \<le> length rs"
    "wl_max_tx_count lims = 0 \<or> wb_tx_used (wallet_budget_new t0) \<le> wl_max_tx_count lims \<longrightarrow>
      k \<le> unat (wl_max_tx_count lims) - unat (wb_tx_used (wallet_budget_new t0))
        \<or> wl_max_tx_count lims = 0"
    "0 < k \<longrightarrow> wl_max_notional lims \<le> 0 \<or> wb_notional_used st \<le> wl_max_notional lims"
    "k = 0 \<longrightarrow> wb_notional_used st = wb_notional_used (wallet_budget_new t0)"
    "k < length rs \<longrightarrow> wb_breached st"
    "\<forall>i < k. int (wl_max_duration lims) = 0
      \<or> elapsed (wb_started (wallet_budget_new t0)) (fst (rs ! i)) < int (wl_max_duration lims)"
    by metis
  have "wb_notional_used st = granted_notional granted rs" if "A = exact_arith"
    using wallet.granted_total [OF _ assms] that by (simp add: wallet_budget_new_def)
  then show ?thesis
    using k by (intro exI [of _ k]) (auto simp: wallet_budget_new_def)
qed

theorem wallet_budget_is_a_hard_stop_witness:
  "\<exists>granted st. run_requests (try_reserve exact_arith (wallet_limits_default\<lparr>wl_max_notional := 25\<rparr>))
      (wallet_budget_new 0) [(1, 1, 10), (2, 2, - 5), (3, 3, 30), (4, 4, 1)] = Some (granted, st)
    \<and> granted = [True, True, False, False] \<and> wb_notional_used st = 10"
proof -
  let ?lims = "wallet_limits_default\<lparr>wl_max_notional := 25\<rparr>"
  obtain granted st where r: "run_requests (try_reserve exact_arith ?lims)
      (wallet_budget_new 0) [(1, 1, 10), (2, 2, - 5), (3, 3, 30), (4, 4, 1)] = Some (granted, st)"
    "granted = [True, True, False, False]"
    by (simp add: try_reserve_def wallet_budget_new_def wallet_limits_default_def)
  from wallet_budget_is_a_hard_stop [OF r(1)] r show ?thesis by auto
qed

text \<open>
  What a latched session reports. After an order was refused because the notional would
  exceed the cap, with the order count and the time not used up, every later order is
  refused with a report that names as the amount that would exceed the cap the notional
  already used, which is within the cap.
\<close>

theorem latched_report_names_used_notional:
  assumes "try_record A caps st t1 t2 n = Some (Err (SessionNotional w cap), st')"
    and "\<not> sb_breached st" and "sb_notional_used st \<le> bc_max_notional caps"
    and "bc_max_duration caps = 0 \<or> elapsed (sb_started st) t3 < int (bc_max_duration caps)"
  shows "try_record A caps st' t3 t4 m = Some (Err (SessionNotional (sb_notional_used st) cap), st')
    \<and> sb_notional_used st \<le> cap \<and> cap < w"
  using assms
  by (auto simp: try_record_def session_first_breach_def bind_Some_iff not_le word_gt_0
      split: if_splits)

theorem latched_report_names_used_notional_witness:
  "\<exists>st'. try_record exact_arith (budget_caps_default\<lparr>bc_max_notional := 25\<rparr>) (session_budget_new 0) 1 1 30
      = Some (Err (SessionNotional 30 25), st')
    \<and> try_record exact_arith (budget_caps_default\<lparr>bc_max_notional := 25\<rparr>) st' 2 2 1
      = Some (Err (SessionNotional 0 25), st')"
proof -
  let ?caps = "budget_caps_default\<lparr>bc_max_notional := 25\<rparr>"
  obtain st' where r: "try_record exact_arith ?caps (session_budget_new 0) 1 1 30
      = Some (Err (SessionNotional 30 25), st')"
    by (simp add: try_record_def session_budget_new_def budget_caps_default_def)
  from latched_report_names_used_notional [OF r, of 2 2 1] r show ?thesis
    by (auto simp: session_budget_new_def budget_caps_default_def)
qed

end
