(* ===== verification/Server_Auth.thy ===== *)
theory Server_Auth
  imports Decimal Text_Ops Budgets
begin

text \<open>
  The outer layers of the control-plane server: the error envelope
  (\<open>crates/server/src/error.rs\<close>), bearer tokens and roles (\<open>auth.rs\<close>), the
  fixed-window rate limit (\<open>limit.rs\<close>, \<open>mw.rs\<close>) and the request counters
  (\<open>metrics.rs\<close>).
\<close>

section \<open>Errors\<close>

datatype api_error =
    Unauthorized
  | Forbidden message
  | BadRequest message
  | NotFoundError message
  | Unprocessable message
  | TooManyRequests
  | Internal message

definition error_status :: "api_error \<Rightarrow> u16" where
  "error_status e = (case e of Unauthorized \<Rightarrow> 401 | Forbidden _ \<Rightarrow> 403 | BadRequest _ \<Rightarrow> 400
     | NotFoundError _ \<Rightarrow> 404 | Unprocessable _ \<Rightarrow> 422 | TooManyRequests \<Rightarrow> 429 | Internal _ \<Rightarrow> 500)"

definition error_code :: "api_error \<Rightarrow> string" where
  "error_code e = (case e of Unauthorized \<Rightarrow> ''unauthorized'' | Forbidden _ \<Rightarrow> ''forbidden''
     | BadRequest _ \<Rightarrow> ''bad_request'' | NotFoundError _ \<Rightarrow> ''not_found''
     | Unprocessable _ \<Rightarrow> ''unprocessable_entity'' | TooManyRequests \<Rightarrow> ''rate_limited''
     | Internal _ \<Rightarrow> ''internal'')"

definition error_display :: "api_error \<Rightarrow> message" where
  "error_display e = (case e of
       Unauthorized \<Rightarrow> [Lit ''missing or malformed Authorization header'']
     | Forbidden m \<Rightarrow> m | BadRequest m \<Rightarrow> m | NotFoundError m \<Rightarrow> m | Unprocessable m \<Rightarrow> m
     | TooManyRequests \<Rightarrow> [Lit (''rate limit exceeded '' @ em_dash @ '' slow down'')]
     | Internal _ \<Rightarrow> [Lit ''internal error''])"

text \<open>The body of an error response: the detail of an internal error stays inside.\<close>

record error_envelope =
  ee_status :: u16
  ee_code :: string
  ee_message :: message
  ee_correlation_id :: string

definition into_response :: "string \<Rightarrow> api_error \<Rightarrow> error_envelope" where
  "into_response cid e = \<lparr>ee_status = error_status e, ee_code = error_code e,
     ee_message = (case e of Internal _ \<Rightarrow> [Lit ''internal error''] | _ \<Rightarrow> error_display e),
     ee_correlation_id = cid\<rparr>"

section \<open>Roles\<close>

datatype role = Viewer | Operator | Admin

fun role_rank :: "role \<Rightarrow> nat" where
  "role_rank Viewer = 0"
| "role_rank Operator = 1"
| "role_rank Admin = 2"

instantiation role :: linorder
begin

definition less_eq_role :: "role \<Rightarrow> role \<Rightarrow> bool" where
  "less_eq_role a b = (role_rank a \<le> role_rank b)"

definition less_role :: "role \<Rightarrow> role \<Rightarrow> bool" where
  "less_role a b = (role_rank a < role_rank b)"

instance
proof
  fix x y z :: role
  show "x < y \<longleftrightarrow> x \<le> y \<and> \<not> y \<le> x"
    by (auto simp: less_role_def less_eq_role_def)
  show "x \<le> x" by (simp add: less_eq_role_def)
  show "x \<le> y \<Longrightarrow> y \<le> z \<Longrightarrow> x \<le> z" by (simp add: less_eq_role_def)
  show "x \<le> y \<Longrightarrow> y \<le> x \<Longrightarrow> x = y" by (cases x; cases y) (simp_all add: less_eq_role_def)
  show "x \<le> y \<or> y \<le> x" by (auto simp: less_eq_role_def)
qed

end

lemma Admin_le_iff [simp]: "Admin \<le> r \<longleftrightarrow> r = Admin"
  by (cases r) (simp_all add: less_eq_role_def)

lemma Viewer_le [simp]: "Viewer \<le> r"
  by (cases r) (simp_all add: less_eq_role_def)

lemma Operator_le_iff [simp]: "Operator \<le> r \<longleftrightarrow> r \<noteq> Viewer"
  by (cases r) (simp_all add: less_eq_role_def)

definition show_role :: "role \<Rightarrow> string" where
  "show_role r = (case r of Viewer \<Rightarrow> ''Viewer'' | Operator \<Rightarrow> ''Operator'' | Admin \<Rightarrow> ''Admin'')"

definition caller_require :: "role \<Rightarrow> role \<Rightarrow> api_error + unit" where
  "caller_require caller needed = (if needed \<le> caller then Ok ()
     else Err (Forbidden [Lit ''this action needs the `'', Lit (show_role needed), Lit ''` role'']))"

section \<open>Tokens\<close>

definition token_verify :: "string \<Rightarrow> string \<Rightarrow> bool" where
  "token_verify expected got = (if length expected \<noteq> length got then False else expected = got)"

record token_set =
  tk_admin :: string
  tk_operator :: "string option"
  tk_viewer :: "string option"

definition admin_only :: "string \<Rightarrow> token_set" where
  "admin_only t = \<lparr>tk_admin = t, tk_operator = None, tk_viewer = None\<rparr>"

definition is_some_and :: "'a option \<Rightarrow> ('a \<Rightarrow> bool) \<Rightarrow> bool" where
  "is_some_and m P = (case m of None \<Rightarrow> False | Some x \<Rightarrow> P x)"

definition role_for :: "token_set \<Rightarrow> string \<Rightarrow> role option" where
  "role_for ts got =
     (if token_verify (tk_admin ts) got then Some Admin
      else if is_some_and (tk_operator ts) (\<lambda>t. token_verify t got) then Some Operator
      else if is_some_and (tk_viewer ts) (\<lambda>t. token_verify t got) then Some Viewer
      else None)"

definition is_admin :: "token_set \<Rightarrow> string \<Rightarrow> bool" where
  "is_admin ts got = token_verify (tk_admin ts) got"

text \<open>The header value, when there is one and it is visible ASCII.\<close>

definition bearer :: "string option \<Rightarrow> string option" where
  "bearer header = (case header of
       None \<Rightarrow> None
     | Some v \<Rightarrow> if take 7 v = ''Bearer '' then Some (trim (drop 7 v)) else None)"

definition require_auth :: "token_set \<Rightarrow> string option \<Rightarrow> api_error + role" where
  "require_auth ts header =
     and_then (ok_or Unauthorized (bearer header)) (\<lambda>got. ok_or Unauthorized (role_for ts got))"

lemma token_verify_iff [simp]: "token_verify t got \<longleftrightarrow> got = t"
  by (auto simp: token_verify_def)

section \<open>The rate limit\<close>

record rate_limiter =
  rl_max :: u32
  rl_window :: nat
  rl_start :: instant
  rl_count :: u32

definition rate_limiter_new :: "u32 \<Rightarrow> nat \<Rightarrow> instant \<Rightarrow> rate_limiter" where
  "rate_limiter_new m w now = \<lparr>rl_max = m, rl_window = w, rl_start = now, rl_count = 0\<rparr>"

definition per_minute :: "u32 \<Rightarrow> instant \<Rightarrow> rate_limiter" where
  "per_minute m now = rate_limiter_new m (nat (from_secs 60)) now"

text \<open>The clock is read at \<open>t\<close>, and at \<open>t'\<close> when the window starts over.\<close>

definition limiter_check :: "instant \<Rightarrow> instant \<Rightarrow> rate_limiter \<Rightarrow> bool \<times> rate_limiter" where
  "limiter_check t t' rl =
     (if rl_max rl = 0 then (True, rl)
      else (let rl1 = (if int (rl_window rl) \<le> elapsed (rl_start rl) t
                       then rl\<lparr>rl_start := t', rl_count := 0\<rparr> else rl) in
        if rl_max rl1 \<le> rl_count rl1 then (False, rl1)
        else (True, rl1\<lparr>rl_count := rl_count rl1 + 1\<rparr>)))"

definition rate_limit :: "instant \<Rightarrow> instant \<Rightarrow> rate_limiter \<Rightarrow> (api_error + unit) \<times> rate_limiter" where
  "rate_limit t t' rl = (case limiter_check t t' rl of
       (True, rl') \<Rightarrow> (Ok (), rl')
     | (False, rl') \<Rightarrow> (Err TooManyRequests, rl'))"

section \<open>Request counters\<close>

record metrics =
  mt_requests_total :: u64
  mt_by_class :: "u64 list"       \<comment> \<open>six counters\<close>

definition metrics_default :: metrics where
  "metrics_default = \<lparr>mt_requests_total = 0, mt_by_class = replicate 6 0\<rparr>"

text \<open>
  The index wraps to the top for a status below 100, and everything from 5 up is the last
  counter.
\<close>

definition metrics_record :: "u16 \<Rightarrow> metrics \<Rightarrow> metrics" where
  "metrics_record status m =
     (let idx = min (unat (of_nat (unat status div 100) - 1 :: u64)) 5 in
      m\<lparr>mt_requests_total := mt_requests_total m + 1,
        mt_by_class := (mt_by_class m)[idx := mt_by_class m ! idx + 1]\<rparr>)"

section \<open>How much the rate limit lets through\<close>

fun run_limiter :: "(instant \<times> instant) list \<Rightarrow> rate_limiter \<Rightarrow> bool list \<times> rate_limiter" where
  "run_limiter [] rl = ([], rl)"
| "run_limiter ((t, t') # ts) rl =
     (let (ok, rl1) = limiter_check t t' rl; (oks, rl2) = run_limiter ts rl1 in (ok # oks, rl2))"

text \<open>Clock readings that do not go back, and the last of them.\<close>

fun readings_from :: "instant \<Rightarrow> (instant \<times> instant) list \<Rightarrow> bool" where
  "readings_from t0 [] = True"
| "readings_from t0 ((t, t') # ts) = (t0 \<le> t \<and> t \<le> t' \<and> readings_from t' ts)"

fun last_reading :: "instant \<Rightarrow> (instant \<times> instant) list \<Rightarrow> instant" where
  "last_reading t0 [] = t0"
| "last_reading t0 ((t, t') # ts) = last_reading t' ts"

definition accepted :: "bool list \<Rightarrow> nat" where
  "accepted oks = length (filter id oks)"

lemma accepted_simps [simp]:
  "accepted [] = 0" "accepted (True # oks) = Suc (accepted oks)" "accepted (False # oks) = accepted oks"
  by (simp_all add: accepted_def)

lemma last_reading_ge: "readings_from t0 ts \<Longrightarrow> t0 \<le> last_reading t0 ts"
  by (induction t0 ts rule: readings_from.induct) auto

lemma limiter_step:
  assumes "limiter_check t t' rl = (ok, rl')" "rl_max rl \<noteq> 0" "rl_count rl \<le> rl_max rl" "t \<le> t'"
    "rl_start rl \<le> t"
  obtains k where "(if ok then 1 else 0) + unat (rl_count rl) \<le> unat (rl_max rl) * k + unat (rl_count rl')"
    "rl_start rl + int k * int (rl_window rl) \<le> rl_start rl'" "rl_start rl' \<le> t'"
    "rl_count rl' \<le> rl_max rl'" "rl_max rl' = rl_max rl" "rl_window rl' = rl_window rl"
proof (cases "int (rl_window rl) \<le> elapsed (rl_start rl) t")
  case True
  have "unat (rl_count rl) \<le> unat (rl_max rl)" using assms(3) by (simp add: word_le_nat_alt)
  moreover have "\<not> rl_max rl \<le> 0" using assms(2) by simp
  moreover have "1 \<le> rl_max rl" using assms(2) by (simp add: word_le_nat_alt unat_gt_0 Suc_leI)
  moreover have "rl_start rl + int (rl_window rl) \<le> t'"
    using True assms(4,5) by (auto simp: elapsed_def max_def split: if_splits)
  moreover have "rl_start rl \<le> t'" using assms(4,5) by linarith
  ultimately show ?thesis
    using assms(1,2) True by (intro that [of 1]) (auto simp: limiter_check_def Let_def)
next
  case False
  have succ: "unat (rl_count rl + 1) = Suc (unat (rl_count rl)) \<and> rl_count rl + 1 \<le> rl_max rl"
    if "\<not> rl_max rl \<le> rl_count rl"
  proof -
    have "rl_count rl < rl_max rl" using that by simp
    from unat_succ_less [OF this] this show ?thesis
      by (simp add: word_le_nat_alt word_less_nat_alt)
  qed
  show ?thesis
    using assms False succ
    by (intro that [of 0]) (auto simp: limiter_check_def Let_def split: if_splits)
qed

lemma run_limiter_windows:
  assumes "run_limiter ts rl = (oks, rl')" "rl_max rl \<noteq> 0" "rl_count rl \<le> rl_max rl"
    "readings_from t0 ts" "rl_start rl \<le> t0"
  shows "\<exists>k. accepted oks + unat (rl_count rl) \<le> unat (rl_max rl) * k + unat (rl_count rl')
    \<and> rl_start rl + int k * int (rl_window rl) \<le> rl_start rl' \<and> rl_start rl' \<le> last_reading t0 ts
    \<and> rl_count rl' \<le> rl_max rl"
  using assms
proof (induction ts arbitrary: rl oks t0)
  case Nil
  then show ?case by (intro exI [of _ 0]) auto
next
  case (Cons x ts)
  obtain t t' where x: "x = (t, t')" by fastforce
  from Cons.prems(1) x obtain ok rl1 oks1 where step: "limiter_check t t' rl = (ok, rl1)"
    and rest: "run_limiter ts rl1 = (oks1, rl')" and oks: "oks = ok # oks1"
    by (auto simp: Let_def split: prod.splits)
  from Cons.prems(4,5) x have t: "t \<le> t'" "rl_start rl \<le> t" "readings_from t' ts" by auto
  from limiter_step [OF step Cons.prems(2,3) t(1,2)] obtain k where
    k: "(if ok then 1 else 0) + unat (rl_count rl) \<le> unat (rl_max rl) * k + unat (rl_count rl1)"
    "rl_start rl + int k * int (rl_window rl) \<le> rl_start rl1" "rl_start rl1 \<le> t'"
    "rl_count rl1 \<le> rl_max rl1" "rl_max rl1 = rl_max rl" "rl_window rl1 = rl_window rl" by blast
  from Cons.IH [OF rest _ k(4) t(3) k(3)] Cons.prems(2) k(5) obtain j where
    j: "accepted oks1 + unat (rl_count rl1) \<le> unat (rl_max rl) * j + unat (rl_count rl')"
    "rl_start rl1 + int j * int (rl_window rl) \<le> rl_start rl'" "rl_start rl' \<le> last_reading t' ts"
    "rl_count rl' \<le> rl_max rl"
    using k(6) by auto
  have "accepted oks + unat (rl_count rl) \<le> unat (rl_max rl) * (k + j) + unat (rl_count rl')"
    using k(1) j(1) oks by (cases ok) (auto simp: algebra_simps)
  moreover have "rl_start rl + int (k + j) * int (rl_window rl) \<le> rl_start rl'"
    using k(2) j(2) by (simp add: algebra_simps)
  ultimately show ?case
    using j(3,4) x by (intro exI [of _ "k + j"]) simp
qed

section \<open>Properties\<close>

text \<open>
  The rate limit holds. With a limit of at least one request and a window longer than
  zero, over any sequence of requests whose clock readings do not go back, the number
  accepted is at most the limit times the number of windows begun since the limiter started.
\<close>

theorem rate_limit_bounds_requests:
  assumes "run_limiter ts (rate_limiter_new m w t0) = (oks, rl')"
    and "m \<noteq> 0" and "0 < w" and "readings_from t0 ts"
  shows "accepted oks \<le> unat m * nat ((last_reading t0 ts - t0) div int w + 1)"
proof -
  from run_limiter_windows [OF assms(1) _ _ assms(4)] assms(2) obtain k where
    k: "accepted oks \<le> unat m * k + unat (rl_count rl')"
    "t0 + int k * int w \<le> last_reading t0 ts" "rl_count rl' \<le> m"
    by (fastforce simp: rate_limiter_new_def)
  have "int k \<le> (last_reading t0 ts - t0) div int w"
    using zdiv_mono1 [of "int k * int w" "last_reading t0 ts - t0" "int w"] k(2) assms(3) by simp
  then have "k + 1 \<le> nat ((last_reading t0 ts - t0) div int w + 1)" by linarith
  then have "unat m * (k + 1) \<le> unat m * nat ((last_reading t0 ts - t0) div int w + 1)"
    by (rule mult_le_mono2)
  moreover have "unat (rl_count rl') \<le> unat m" using k(3) by (simp add: word_le_nat_alt)
  ultimately show ?thesis using k(1) by simp
qed

theorem rate_limit_bounds_requests_witness:
  "accepted (fst (run_limiter [(0, 0), (1, 1), (2, 2), (11, 11)] (rate_limiter_new 2 10 0)))
     \<le> 2 * nat ((11 - 0) div 10 + 1)"
proof -
  obtain oks rl' where r: "run_limiter [(0, 0), (1, 1), (2, 2), (11, 11)] (rate_limiter_new 2 10 0) = (oks, rl')"
    by fastforce
  from rate_limit_bounds_requests [OF r] r show ?thesis by simp
qed

text \<open>
  Who gets in. A request is authenticated exactly when its header carries, after the
  scheme and trimmed, one of the configured tokens; the role is the highest one that token is
  configured for, and a handler that needs a role lets it pass exactly when the role is at
  least that.
\<close>

theorem auth_grants_the_highest_role:
  "(require_auth ts header = Ok r \<longleftrightarrow> (\<exists>got. bearer header = Some got \<and>
      ((got = tk_admin ts \<and> r = Admin)
       \<or> (got \<noteq> tk_admin ts \<and> tk_operator ts = Some got \<and> r = Operator)
       \<or> (got \<noteq> tk_admin ts \<and> tk_operator ts \<noteq> Some got \<and> tk_viewer ts = Some got \<and> r = Viewer))))
   \<and> (caller_require r needed = Ok () \<longleftrightarrow> needed \<le> r)"
proof
  show "require_auth ts header = Ok r \<longleftrightarrow> (\<exists>got. bearer header = Some got \<and>
      ((got = tk_admin ts \<and> r = Admin)
       \<or> (got \<noteq> tk_admin ts \<and> tk_operator ts = Some got \<and> r = Operator)
       \<or> (got \<noteq> tk_admin ts \<and> tk_operator ts \<noteq> Some got \<and> tk_viewer ts = Some got \<and> r = Viewer)))"
    by (cases "bearer header"; cases "tk_operator ts"; cases "tk_viewer ts")
       (auto simp: require_auth_def role_for_def is_some_and_def)
  show "caller_require r needed = Ok () \<longleftrightarrow> needed \<le> r"
    by (simp add: caller_require_def)
qed

end
