(* ===== verification/Venue_Router.thy ===== *)
theory Venue_Router
  imports Decimal
begin

text \<open>
  Venue selection (\<open>crates/router/src/lib.rs\<close>): an order goes to the AMM, or to an RFQ
  venue when one is available and the notional reaches the configured threshold.
\<close>

datatype route_venue = Amm | Rfq

definition route_venue_str :: "route_venue \<Rightarrow> string" where
  "route_venue_str v = (case v of Amm \<Rightarrow> ''AMM'' | Rfq \<Rightarrow> ''RFQ'')"

record route_choice =
  rt_venue :: route_venue
  rt_reason :: message

record router_config =
  rg_rfq_min_notional :: "dec option"
  rg_rfq_available :: bool

definition router_config_default :: router_config where
  "router_config_default = \<lparr>rg_rfq_min_notional = None, rg_rfq_available = False\<rparr>"

datatype router_error =
    NonPositiveThreshold dec
  | RfqAvailableWithoutThreshold
  | NonPositiveNotional dec

text \<open>A router is its validated configuration.\<close>

definition router_new :: "router_config \<Rightarrow> router_error + router_config" where
  "router_new cfg = (case rg_rfq_min_notional cfg of
       Some t \<Rightarrow> if t \<le> 0 then Err (NonPositiveThreshold t) else Ok cfg
     | None \<Rightarrow> if rg_rfq_available cfg then Err RfqAvailableWithoutThreshold else Ok cfg)"

definition amm_only :: router_config where
  "amm_only = router_config_default"

definition choose_venue :: "router_config \<Rightarrow> dec \<Rightarrow> router_error + route_choice" where
  "choose_venue cfg notional =
     (if notional \<le> 0 then Err (NonPositiveNotional notional)
      else (case rg_rfq_min_notional cfg of
        None \<Rightarrow> Ok \<lparr>rt_venue = Amm,
          rt_reason = [Lit (''no RFQ threshold configured '' @ em_dash @ '' AMM is the only route'')]\<rparr>
      | Some threshold \<Rightarrow>
          if \<not> rg_rfq_available cfg
          then Ok \<lparr>rt_venue = Amm, rt_reason = [Lit ''notional '', Show notional,
            Lit '' would route to RFQ (threshold '', Show threshold,
            Lit (''), but no RFQ venue is configured '' @ em_dash @ '' falling back to AMM'')]\<rparr>
          else if threshold \<le> notional
          then Ok \<lparr>rt_venue = Rfq, rt_reason = [Lit ''notional '', Show notional,
            Lit '' >= RFQ threshold '', Show threshold]\<rparr>
          else Ok \<lparr>rt_venue = Amm, rt_reason = [Lit ''notional '', Show notional,
            Lit '' < RFQ threshold '', Show threshold]\<rparr>))"

section \<open>Properties\<close>

text \<open>
  Where an order goes. A validated router answers every positive notional and refuses
  every other; it picks the RFQ venue exactly when one is available and the notional is at or
  above the threshold, and with a validated configuration available means that there is a
  threshold.
\<close>

theorem router_picks_rfq_exactly_when:
  assumes "router_new cfg = Ok r"
  shows "(is_ok (choose_venue r notional) \<longleftrightarrow> 0 < notional)
    \<and> (\<forall>c. choose_venue r notional = Ok c \<longrightarrow>
         (rt_venue c = Rfq \<longleftrightarrow> rg_rfq_available cfg \<and> the (rg_rfq_min_notional cfg) \<le> notional))
    \<and> (rg_rfq_available cfg \<longrightarrow> rg_rfq_min_notional cfg \<noteq> None)"
  using assms
  by (auto simp: router_new_def choose_venue_def split: option.splits if_splits)

theorem router_picks_rfq_exactly_when_witness:
  "router_new \<lparr>rg_rfq_min_notional = Some 100, rg_rfq_available = True\<rparr>
      = Ok \<lparr>rg_rfq_min_notional = Some 100, rg_rfq_available = True\<rparr>
   \<and> (\<exists>c. choose_venue \<lparr>rg_rfq_min_notional = Some 100, rg_rfq_available = True\<rparr> 100 = Ok c
        \<and> rt_venue c = Rfq)"
proof -
  let ?cfg = "\<lparr>rg_rfq_min_notional = Some 100, rg_rfq_available = True\<rparr>"
  have new: "router_new ?cfg = Ok ?cfg" by (simp add: router_new_def)
  note facts = router_picks_rfq_exactly_when [OF new, of 100]
  obtain c where "choose_venue ?cfg 100 = Ok c"
    using facts by (cases "choose_venue ?cfg 100") (simp_all add: is_ok_def)
  with facts new show ?thesis by auto
qed

text \<open>
  What the fallback says. With a threshold but no RFQ venue, every positive notional,
  also one below the threshold, goes to the AMM with a reason that says it would route to RFQ.
\<close>

theorem fallback_reason_ignores_the_threshold:
  assumes "rg_rfq_min_notional cfg = Some threshold" and "\<not> rg_rfq_available cfg"
    and "0 < notional" and "notional < threshold"
  shows "choose_venue cfg notional = Ok \<lparr>rt_venue = Amm, rt_reason = [Lit ''notional '', Show notional,
    Lit '' would route to RFQ (threshold '', Show threshold,
    Lit (''), but no RFQ venue is configured '' @ em_dash @ '' falling back to AMM'')]\<rparr>"
  using assms by (simp add: choose_venue_def)

theorem fallback_reason_ignores_the_threshold_witness:
  "choose_venue \<lparr>rg_rfq_min_notional = Some 10000, rg_rfq_available = False\<rparr> 1
   = Ok \<lparr>rt_venue = Amm, rt_reason = [Lit ''notional '', Show 1,
       Lit '' would route to RFQ (threshold '', Show 10000,
       Lit (''), but no RFQ venue is configured '' @ em_dash @ '' falling back to AMM'')]\<rparr>"
  by (rule fallback_reason_ignores_the_threshold) simp_all

end
