(* ===== verification/Events.thy ===== *)
theory Events
  imports Core_Types Text_Ops
begin

text \<open>
  The event vocabulary of \<open>crates/events/src/lib.rs\<close>: events, the envelope each one
  is published in and its correlation id. The broadcast channel is tokio's; a run is
  modelled by the list of the events it publishes, in order.
\<close>

datatype event =
    Decided u32 dec string            \<comment> \<open>tick, price, decision tag\<close>
  | OrderFilled fill
  | RiskRejected string string message  \<comment> \<open>order id, symbol, reason\<close>
  | RunEnded string bool dec dec      \<comment> \<open>label, interrupted, cash, realized\<close>

definition event_schema_version :: u16 where
  "event_schema_version = 1"

definition correlation_id :: "event \<Rightarrow> string" where
  "correlation_id e = (case e of
       OrderFilled f \<Rightarrow> f_order_id f
     | RiskRejected oid _ _ \<Rightarrow> oid
     | Decided t _ _ \<Rightarrow> ''tick-'' @ show_nat (unat t)
     | RunEnded label _ _ _ \<Rightarrow> ''run-'' @ label)"

definition event_kind :: "event \<Rightarrow> string" where
  "event_kind e = (case e of
       Decided _ _ _ \<Rightarrow> ''decided''
     | OrderFilled _ \<Rightarrow> ''order_filled''
     | RiskRejected _ _ _ \<Rightarrow> ''risk_rejected''
     | RunEnded _ _ _ _ \<Rightarrow> ''run_ended'')"

record envelope =
  en_version :: u16
  en_at :: instant
  en_correlation_id :: string
  en_event :: event

definition publish :: "instant \<Rightarrow> event \<Rightarrow> envelope" where
  "publish now e = \<lparr>en_version = event_schema_version, en_at = now,
     en_correlation_id = correlation_id e, en_event = e\<rparr>"

text \<open>The fills of a trail of events, in order.\<close>

fun fills_of :: "event list \<Rightarrow> fill list" where
  "fills_of [] = []"
| "fills_of (e # es) = (case e of OrderFilled f \<Rightarrow> f # fills_of es | _ \<Rightarrow> fills_of es)"

lemma fills_of_append [simp]: "fills_of (xs @ ys) = fills_of xs @ fills_of ys"
  by (induction xs) (auto split: event.split)

lemma fills_of_iff: "f \<in> set (fills_of es) \<longleftrightarrow> OrderFilled f \<in> set es"
  by (induction es) (auto split: event.splits)

end
