(* ===== verification/Store.thy ===== *)
theory Store
  imports Portfolio Events
begin

text \<open>
  The durable store of \<open>crates/store/src/lib.rs\<close>: portfolio snapshots, the fill
  history and the audit log, a hash chain. SQLite is outside the repository: a table is the
  list of its rows in insertion order, and a query that sorts is a sort of that list. SHA-256
  with its hexadecimal text, the printing and parsing of decimals and times, and the
  serialisation of JSON are outside too and are parameters: \<open>sha\<close>, \<open>codec\<close>.
\<close>

section \<open>Rows\<close>

record codec =
  cd_dec :: "dec \<Rightarrow> string"
  cd_parse_dec :: "string \<Rightarrow> dec option"
  cd_time :: "instant \<Rightarrow> string"
  cd_parse_time :: "string \<Rightarrow> instant option"
  cd_json :: "json \<Rightarrow> string"
  cd_parse_json :: "string \<Rightarrow> json option"
  cd_message :: "message \<Rightarrow> string"

record fill_row =
  fr_order_id :: string
  fr_symbol :: string
  fr_address :: "string option"
  fr_side :: string
  fr_qty :: string
  fr_price :: string
  fr_fee :: string
  fr_venue :: string
  fr_filled_at :: string

record audit_row =
  au_seq :: int
  au_at :: string
  au_kind :: string
  au_data :: string
  au_prev_hash :: string
  au_hash :: string

record store =
  st_snapshots :: "portfolio list"
  st_fills :: "fill_row list"
  st_audit :: "audit_row list"

definition store_empty :: store where
  "store_empty = \<lparr>st_snapshots = [], st_fills = [], st_audit = []\<rparr>"

section \<open>Snapshots and fills\<close>

definition save_portfolio :: "portfolio \<Rightarrow> store \<Rightarrow> store" where
  "save_portfolio p s = s\<lparr>st_snapshots := st_snapshots s @ [p]\<rparr>"

definition load_portfolio :: "store \<Rightarrow> portfolio option" where
  "load_portfolio s = (case rev (st_snapshots s) of [] \<Rightarrow> None | p # _ \<Rightarrow> Some p)"

definition store_side_str :: "side \<Rightarrow> string" where
  "store_side_str sd = (case sd of Buy \<Rightarrow> ''buy'' | Sell \<Rightarrow> ''sell'')"

definition store_parse_side :: "string \<Rightarrow> side option" where
  "store_parse_side s = (if s = ''buy'' then Some Buy else if s = ''sell'' then Some Sell else None)"

text \<open>The snake-case names serde gives the venues.\<close>

definition venue_str :: "venue \<Rightarrow> string" where
  "venue_str v = (case v of Paper \<Rightarrow> ''paper'' | RobinhoodMcp \<Rightarrow> ''robinhood_mcp''
     | DexRouter \<Rightarrow> ''dex_router'')"

definition parse_venue :: "string \<Rightarrow> venue option" where
  "parse_venue s = (if s = ''paper'' then Some Paper else if s = ''robinhood_mcp'' then Some RobinhoodMcp
     else if s = ''dex_router'' then Some DexRouter else None)"

definition fill_to_row :: "codec \<Rightarrow> fill \<Rightarrow> fill_row" where
  "fill_to_row c f = \<lparr>fr_order_id = f_order_id f, fr_symbol = as_symbol (f_asset f),
     fr_address = as_address (f_asset f), fr_side = store_side_str (f_side f),
     fr_qty = cd_dec c (f_qty f), fr_price = cd_dec c (f_price f), fr_fee = cd_dec c (f_fee f),
     fr_venue = venue_str (f_venue f), fr_filled_at = cd_time c (f_at f)\<rparr>"

definition append_fill :: "codec \<Rightarrow> fill \<Rightarrow> store \<Rightarrow> store" where
  "append_fill c f s = s\<lparr>st_fills := st_fills s @ [fill_to_row c f]\<rparr>"

text \<open>Reading one row back; \<open>None\<close> is the error of a corrupt row.\<close>

definition row_to_fill :: "codec \<Rightarrow> fill_row \<Rightarrow> fill option" where
  "row_to_fill c r = do {
     sd \<leftarrow> store_parse_side (fr_side r);
     q \<leftarrow> cd_parse_dec c (fr_qty r);
     px \<leftarrow> cd_parse_dec c (fr_price r);
     fee \<leftarrow> cd_parse_dec c (fr_fee r);
     v \<leftarrow> parse_venue (fr_venue r);
     t \<leftarrow> cd_parse_time c (fr_filled_at r);
     Some \<lparr>f_order_id = fr_order_id r,
       f_asset = (case fr_address r of Some a \<Rightarrow> asset_onchain (fr_symbol r) a
                                     | None \<Rightarrow> asset_symbol (fr_symbol r)),
       f_side = sd, f_qty = q, f_price = px, f_fee = fee, f_venue = v, f_at = t\<rparr> }"

fun rows_to_fills :: "codec \<Rightarrow> fill_row list \<Rightarrow> fill list option" where
  "rows_to_fills c [] = Some []"
| "rows_to_fills c (r # rs) = do { f \<leftarrow> row_to_fill c r; fs \<leftarrow> rows_to_fills c rs; Some (f # fs) }"

definition stored_fills :: "codec \<Rightarrow> store \<Rightarrow> fill list option" where
  "stored_fills c s = rows_to_fills c (st_fills s)"

section \<open>The audit chain\<close>

definition newline :: string where
  "newline = [CHR 0x0A]"

definition genesis_hash :: string where
  "genesis_hash = replicate 64 (CHR ''0'')"

definition audit_text :: "string \<Rightarrow> int \<Rightarrow> string \<Rightarrow> string \<Rightarrow> string \<Rightarrow> string" where
  "audit_text prev seq at_s kind data =
     concat (map (\<lambda>part. part @ newline) [prev, show_int seq, at_s, kind, data])"

definition audit_hash ::
    "(string \<Rightarrow> string) \<Rightarrow> string \<Rightarrow> int \<Rightarrow> string \<Rightarrow> string \<Rightarrow> string \<Rightarrow> string"
where
  "audit_hash sha prev seq at_s kind data = sha (audit_text prev seq at_s kind data)"

text \<open>The rows in the order of a query that sorts by sequence number.\<close>

definition audit_rows :: "store \<Rightarrow> audit_row list" where
  "audit_rows s = sort_key au_seq (st_audit s)"

definition append_audit ::
    "(string \<Rightarrow> string) \<Rightarrow> codec \<Rightarrow> instant \<Rightarrow> string \<Rightarrow> json \<Rightarrow> store \<Rightarrow> store"
where
  "append_audit sha c now kind data s =
     (let (seq, prev) = (case rev (audit_rows s) of
            [] \<Rightarrow> (1, genesis_hash)
          | r # _ \<Rightarrow> (au_seq r + 1, au_hash r));
          at_s = cd_time c now; text = cd_json c data
      in s\<lparr>st_audit := st_audit s @ [\<lparr>au_seq = seq, au_at = at_s, au_kind = kind, au_data = text,
            au_prev_hash = prev, au_hash = audit_hash sha prev seq at_s kind text\<rparr>]\<rparr>)"

record audit_event =
  ae_seq :: int
  ae_at :: instant
  ae_kind :: string
  ae_data :: json
  ae_prev_hash :: string
  ae_hash :: string

definition row_to_event :: "codec \<Rightarrow> audit_row \<Rightarrow> audit_event option" where
  "row_to_event c r = do {
     t \<leftarrow> cd_parse_time c (au_at r);
     data \<leftarrow> cd_parse_json c (au_data r);
     Some \<lparr>ae_seq = au_seq r, ae_at = t, ae_kind = au_kind r, ae_data = data,
       ae_prev_hash = au_prev_hash r, ae_hash = au_hash r\<rparr> }"

fun rows_to_events :: "codec \<Rightarrow> audit_row list \<Rightarrow> audit_event list option" where
  "rows_to_events c [] = Some []"
| "rows_to_events c (r # rs) = do { e \<leftarrow> row_to_event c r; es \<leftarrow> rows_to_events c rs; Some (e # es) }"

text \<open>The last rows, oldest first; a negative limit is no limit in SQLite.\<close>

definition audit_tail :: "codec \<Rightarrow> int \<Rightarrow> store \<Rightarrow> audit_event list option" where
  "audit_tail c n s = (let newest = rev (audit_rows s) in
     rows_to_events c (rev (if n < 0 then newest else take (nat n) newest)))"

datatype audit_verification =
    AuditOk int                      \<comment> \<open>entries\<close>
  | AuditBroken int string string    \<comment> \<open>at, expected, found\<close>

fun verify_loop ::
    "(string \<Rightarrow> string) \<Rightarrow> audit_row list \<Rightarrow> int \<Rightarrow> string \<Rightarrow> audit_verification"
where
  "verify_loop sha [] i expected_prev = AuditOk i"
| "verify_loop sha (r # rs) i expected_prev =
     (let want = i + 1; again = audit_hash sha (au_prev_hash r) (au_seq r) (au_at r) (au_kind r) (au_data r) in
      if au_seq r \<noteq> want
      then AuditBroken (au_seq r) (''seq '' @ show_int want) (''seq '' @ show_int (au_seq r))
      else if au_prev_hash r \<noteq> expected_prev
      then AuditBroken (au_seq r) expected_prev (au_prev_hash r)
      else if again \<noteq> au_hash r then AuditBroken (au_seq r) again (au_hash r)
      else verify_loop sha rs (i + 1) (au_hash r))"

definition verify_audit_chain :: "(string \<Rightarrow> string) \<Rightarrow> store \<Rightarrow> audit_verification" where
  "verify_audit_chain sha s = verify_loop sha (audit_rows s) 0 genesis_hash"

section \<open>The subscriber\<close>

text \<open>The audit row of an event, with the keys of its object in the order they serialise.\<close>

definition fill_data :: "codec \<Rightarrow> fill \<Rightarrow> (string \<times> json) list" where
  "fill_data c f = [(''fee'', JStr (cd_dec c (f_fee f))), (''order_id'', JStr (f_order_id f)),
     (''price'', JStr (cd_dec c (f_price f))), (''qty'', JStr (cd_dec c (f_qty f))),
     (''side'', JStr (store_side_str (f_side f))), (''symbol'', JStr (as_symbol (f_asset f)))]"

definition event_audit :: "codec \<Rightarrow> event \<Rightarrow> string \<times> json" where
  "event_audit c e = (case e of
       OrderFilled f \<Rightarrow> (''fill'', JObj (fill_data c f))
     | RiskRejected oid s reason \<Rightarrow> (''gate_reject'', JObj [(''order_id'', JStr oid),
         (''reason'', JStr (cd_message c reason)), (''symbol'', JStr s)])
     | Decided t px d \<Rightarrow> (''decision'', JObj [(''decision'', JStr d), (''price'', JStr (cd_dec c px)),
         (''tick'', JNum (show_nat (unat t)))])
     | RunEnded label interrupted cash rl \<Rightarrow> (''run_end'', JObj [(''cash'', JStr (cd_dec c cash)),
         (''label'', JStr label), (''realized_pnl'', JStr (cd_dec c rl)),
         (''state'', JStr (if interrupted then ''interrupted'' else ''done''))]))"

definition handle_event :: "(string \<Rightarrow> string) \<Rightarrow> codec \<Rightarrow> instant \<Rightarrow> event \<Rightarrow> store \<Rightarrow> store" where
  "handle_event sha c now e s =
     append_audit sha c now (fst (event_audit c e)) (snd (event_audit c e))
       (case e of OrderFilled f \<Rightarrow> append_fill c f s | _ \<Rightarrow> s)"

section \<open>What verification checks\<close>

fun linked :: "(string \<Rightarrow> string) \<Rightarrow> audit_row list \<Rightarrow> int \<Rightarrow> string \<Rightarrow> bool" where
  "linked sha [] i prev = True"
| "linked sha (r # rs) i prev = (au_seq r = i + 1 \<and> au_prev_hash r = prev
     \<and> au_hash r = audit_hash sha (au_prev_hash r) (au_seq r) (au_at r) (au_kind r) (au_data r)
     \<and> linked sha rs (i + 1) (au_hash r))"

fun chain_head :: "string \<Rightarrow> audit_row list \<Rightarrow> string" where
  "chain_head prev [] = prev"
| "chain_head prev (r # rs) = chain_head (au_hash r) rs"

lemma chain_head_append [simp]: "chain_head prev (rs @ [r]) = au_hash r"
  by (induction rs arbitrary: prev) auto

lemma verify_loop_ok:
  "verify_loop sha rs i prev = AuditOk n \<longleftrightarrow> linked sha rs i prev \<and> n = i + int (length rs)"
  by (induction rs arbitrary: i prev) (auto simp: Let_def)

lemma linked_append:
  "linked sha (rs @ [r]) i prev \<longleftrightarrow> linked sha rs i prev \<and> au_seq r = i + int (length rs) + 1
     \<and> au_prev_hash r = chain_head prev rs
     \<and> au_hash r = audit_hash sha (au_prev_hash r) (au_seq r) (au_at r) (au_kind r) (au_data r)"
  by (induction rs arbitrary: i prev) auto

lemma linked_take: "linked sha rs i prev \<Longrightarrow> linked sha (take k rs) i prev"
  by (induction rs arbitrary: i prev k) (auto simp: take_Cons' split: if_splits)

lemma linked_sorted: "linked sha rs i prev \<Longrightarrow> sorted (map au_seq rs) \<and> (\<forall>r \<in> set rs. i < au_seq r)"
  by (induction rs arbitrary: i prev) fastforce+

lemma linked_sort_id: "linked sha rs i prev \<Longrightarrow> sort_key au_seq rs = rs"
  using linked_sorted by (intro sort_key_id_if_sorted) blast

lemma audit_rows_linked: "linked sha (st_audit s) 0 genesis_hash \<Longrightarrow> audit_rows s = st_audit s"
  by (simp add: audit_rows_def linked_sort_id)

lemma verify_ok_iff:
  "verify_audit_chain sha s = AuditOk n \<longleftrightarrow>
     linked sha (audit_rows s) 0 genesis_hash \<and> n = int (length (audit_rows s))"
  by (simp add: verify_audit_chain_def verify_loop_ok)

lemma append_audit_row:
  assumes "linked sha (st_audit s) 0 genesis_hash"
  obtains row where "st_audit (append_audit sha c now kind data s) = st_audit s @ [row]"
    "au_seq row = int (length (st_audit s)) + 1" "au_prev_hash row = chain_head genesis_hash (st_audit s)"
    "au_hash row = audit_hash sha (au_prev_hash row) (au_seq row) (au_at row) (au_kind row) (au_data row)"
proof (cases "st_audit s" rule: rev_cases)
  case Nil
  with assms that show ?thesis by (simp add: append_audit_def audit_rows_def Let_def)
next
  case (snoc rs r)
  have "rev (audit_rows s) = r # rev rs" using audit_rows_linked [OF assms] snoc by simp
  moreover have "au_seq r = int (length rs) + 1" using assms snoc by (simp add: linked_append)
  ultimately show ?thesis using that snoc by (simp add: append_audit_def Let_def)
qed

lemma append_audit_linked:
  assumes "linked sha (st_audit s) 0 genesis_hash"
  shows "linked sha (st_audit (append_audit sha c now kind data s)) 0 genesis_hash
    \<and> length (st_audit (append_audit sha c now kind data s)) = Suc (length (st_audit s))"
proof -
  obtain row where row: "st_audit (append_audit sha c now kind data s) = st_audit s @ [row]"
    "au_seq row = int (length (st_audit s)) + 1" "au_prev_hash row = chain_head genesis_hash (st_audit s)"
    "au_hash row = audit_hash sha (au_prev_hash row) (au_seq row) (au_at row) (au_kind row) (au_data row)"
    using append_audit_row [OF assms] by blast
  show ?thesis unfolding row(1) using assms row(2-4) by (simp add: linked_append)
qed

lemma append_audit_frame [simp]:
  "st_fills (append_audit sha c now kind data s) = st_fills s"
  "st_snapshots (append_audit sha c now kind data s) = st_snapshots s"
  by (simp_all add: append_audit_def Let_def split: prod.split list.split)

lemma append_fill_frame [simp]:
  "st_audit (append_fill c f s) = st_audit s" "st_snapshots (append_fill c f s) = st_snapshots s"
  by (simp_all add: append_fill_def)

section \<open>Persisting a trail\<close>

definition handle_all :: "(string \<Rightarrow> string) \<Rightarrow> codec \<Rightarrow> (instant \<times> event) list \<Rightarrow> store \<Rightarrow> store" where
  "handle_all sha c evs s = fold (\<lambda>(now, e). handle_event sha c now e) evs s"

lemma handle_all_simps [simp]:
  "handle_all sha c [] s = s"
  "handle_all sha c ((now, e) # evs) s = handle_all sha c evs (handle_event sha c now e s)"
  by (simp_all add: handle_all_def)

lemma handle_event_linked:
  assumes "linked sha (st_audit s) 0 genesis_hash"
  shows "linked sha (st_audit (handle_event sha c now e s)) 0 genesis_hash
    \<and> length (st_audit (handle_event sha c now e s)) = Suc (length (st_audit s))"
  using append_audit_linked [of sha "case e of OrderFilled f \<Rightarrow> append_fill c f s | _ \<Rightarrow> s"] assms
  by (simp add: handle_event_def split: event.split)

lemma handle_event_fills:
  "st_fills (handle_event sha c now e s) = st_fills s @ map (fill_to_row c) (fills_of [e])"
  by (simp add: handle_event_def append_fill_def split: event.split)

lemma handle_all_audit:
  "linked sha (st_audit s) 0 genesis_hash \<Longrightarrow>
     linked sha (st_audit (handle_all sha c evs s)) 0 genesis_hash
     \<and> length (st_audit (handle_all sha c evs s)) = length (st_audit s) + length evs"
proof (induction evs arbitrary: s)
  case Nil
  then show ?case by simp
next
  case (Cons x evs)
  obtain now e where x: "x = (now, e)" by fastforce
  from handle_event_linked [OF Cons.prems, of c now e] Cons.IH [of "handle_event sha c now e s"]
  show ?case by (simp add: x)
qed

lemma handle_all_fills:
  "st_fills (handle_all sha c evs s) = st_fills s @ map (fill_to_row c) (fills_of (map snd evs))"
  by (induction evs arbitrary: s) (auto simp: handle_event_fills split: event.split)

text \<open>The codec reads back what it wrote for one fill.\<close>

definition codec_reads :: "codec \<Rightarrow> fill \<Rightarrow> bool" where
  "codec_reads c f =
     (cd_parse_dec c (cd_dec c (f_qty f)) = Some (f_qty f)
      \<and> cd_parse_dec c (cd_dec c (f_price f)) = Some (f_price f)
      \<and> cd_parse_dec c (cd_dec c (f_fee f)) = Some (f_fee f)
      \<and> cd_parse_time c (cd_time c (f_at f)) = Some (f_at f))"

lemma parse_side_str [simp]: "store_parse_side (store_side_str sd) = Some sd"
  by (cases sd) (simp_all add: store_parse_side_def store_side_str_def)

lemma parse_venue_str [simp]: "parse_venue (venue_str v) = Some v"
  by (cases v) (simp_all add: parse_venue_def venue_str_def)

lemma fill_row_roundtrip: "codec_reads c f \<Longrightarrow> row_to_fill c (fill_to_row c f) = Some f"
  by (auto simp: row_to_fill_def fill_to_row_def codec_reads_def asset_onchain_def asset_symbol_def
      split: option.split)

lemma rows_roundtrip: "\<forall>f \<in> set fs. codec_reads c f \<Longrightarrow> rows_to_fills c (map (fill_to_row c) fs) = Some fs"
  by (induction fs) (simp_all add: fill_row_roundtrip)

section \<open>Tampering\<close>

definition line_free :: "string \<Rightarrow> bool" where
  "line_free s = (CHR 0x0A \<notin> set s)"

definition clean_row :: "audit_row \<Rightarrow> bool" where
  "clean_row r = (line_free (au_prev_hash r) \<and> line_free (au_at r) \<and> line_free (au_kind r)
     \<and> line_free (au_data r))"

lemma line_free_show_nat: "line_free (show_nat n)"
  unfolding line_free_def using show_nat_digits by fastforce

lemma line_free_show_int: "line_free (show_int i)"
  using line_free_show_nat by (auto simp: show_int_def line_free_def)

text \<open>Lines without a newline inside are told apart by their concatenation.\<close>

definition newlines :: "string \<Rightarrow> nat" where
  "newlines s = length (filter (\<lambda>c. c = CHR 0x0A) s)"

lemma newline_count_lines:
  "newlines (concat (map (\<lambda>p. p @ newline) ps)) = length ps + sum_list (map newlines ps)"
  by (induction ps) (simp_all add: newlines_def newline_def)

lemma line_free_count: "line_free p \<longleftrightarrow> newlines p = 0"
  by (auto simp: line_free_def newlines_def filter_empty_conv)

lemma line_split:
  assumes "line_free p" "line_free q" "p @ newline @ xs = q @ newline @ ys"
  shows "p = q \<and> xs = ys"
proof -
  have key: "takeWhile (\<lambda>c. c \<noteq> CHR 0x0A) (r @ newline @ zs) = r" if "line_free r" for r zs
    using that by (auto simp: newline_def line_free_def takeWhile_append takeWhile_eq_all_conv)
  have "p = q" using key [OF assms(1), of xs] key [OF assms(2), of ys] assms(3) by simp
  with assms(3) show ?thesis by simp
qed

lemma lines_inject_free:
  assumes "\<forall>p \<in> set ps. line_free p" "\<forall>q \<in> set qs. line_free q" "length ps = length qs"
    and "concat (map (\<lambda>p. p @ newline) ps) = concat (map (\<lambda>p. p @ newline) qs)"
  shows "ps = qs"
  using assms(3,1,2,4)
proof (induction ps qs rule: list_induct2)
  case Nil
  then show ?case by simp
next
  case (Cons p ps q qs)
  from Cons.prems have "p = q \<and> concat (map (\<lambda>p. p @ newline) ps) = concat (map (\<lambda>p. p @ newline) qs)"
    by (intro line_split) simp_all
  with Cons show ?case by simp
qed

lemma lines_inject:
  assumes "\<forall>p \<in> set ps. line_free p" "length ps = length qs"
    and eq: "concat (map (\<lambda>p. p @ newline) ps) = concat (map (\<lambda>p. p @ newline) qs)"
  shows "ps = qs"
proof -
  have "sum_list (map newlines ps) = 0"
    using assms(1) by (simp add: line_free_count)
  moreover have "length ps + sum_list (map newlines ps) = length qs + sum_list (map newlines qs)"
    using eq by (metis newline_count_lines)
  ultimately have "sum_list (map newlines qs) = 0"
    using assms(2) by linarith
  then have "\<forall>q \<in> set qs. line_free q" by (auto simp: line_free_count)
  with assms show ?thesis by (intro lines_inject_free)
qed

definition row_text :: "audit_row \<Rightarrow> string" where
  "row_text r = audit_text (au_prev_hash r) (au_seq r) (au_at r) (au_kind r) (au_data r)"

text \<open>Two rows of the two logs whose different texts have the same hash.\<close>

definition log_collision :: "(string \<Rightarrow> string) \<Rightarrow> audit_row list \<Rightarrow> audit_row list \<Rightarrow> bool" where
  "log_collision sha rs rs' =
     (\<exists>r \<in> set rs. \<exists>r' \<in> set rs'. row_text r \<noteq> row_text r' \<and> sha (row_text r) = sha (row_text r'))"

lemma audit_text_inject:
  assumes "clean_row r" and "row_text r = row_text r'"
  shows "au_prev_hash r = au_prev_hash r' \<and> au_at r = au_at r' \<and> au_kind r = au_kind r'
    \<and> au_data r = au_data r'"
proof -
  have "[au_prev_hash r, show_int (au_seq r), au_at r, au_kind r, au_data r]
      = [au_prev_hash r', show_int (au_seq r'), au_at r', au_kind r', au_data r']"
  proof (rule lines_inject)
    show "\<forall>p \<in> set [au_prev_hash r, show_int (au_seq r), au_at r, au_kind r, au_data r]. line_free p"
      using assms(1) by (simp add: clean_row_def line_free_show_int)
  qed (use assms(2) in \<open>simp_all only: row_text_def audit_text_def list.size\<close>)
  then show ?thesis by simp
qed

lemma linked_unique:
  assumes "\<not> log_collision sha rs rs'"
    and "length rs = length rs'" "\<forall>r \<in> set rs. clean_row r"
    and "linked sha rs i prev" "linked sha rs' i prev'" "chain_head prev rs = chain_head prev' rs'"
    and "rs \<noteq> []"
  shows "rs = rs' \<and> prev = prev'"
  using assms
proof (induction rs arbitrary: rs' rule: rev_induct)
  case Nil
  then show ?case by simp
next
  case (snoc r rs)
  obtain qs q where q: "rs' = qs @ [q]" using snoc.prems(2) by (cases rs' rule: rev_cases) auto
  from snoc.prems(4,5,6) q have l: "linked sha rs i prev" "linked sha qs i prev'"
    "au_prev_hash r = chain_head prev rs" "au_prev_hash q = chain_head prev' qs"
    "au_hash r = sha (row_text r)" "au_hash q = sha (row_text q)" "au_hash r = au_hash q"
    by (simp_all add: linked_append audit_hash_def row_text_def)
  have seq: "au_seq r = au_seq q"
    using snoc.prems(2,4,5) q by (simp add: linked_append)
  have free: "\<not> log_collision sha rs qs" "row_text r = row_text q"
    using snoc.prems(1) l(5-7) q by (auto simp: log_collision_def)
  with snoc.prems(3) have f: "au_prev_hash r = au_prev_hash q" "au_at r = au_at q"
    "au_kind r = au_kind q" "au_data r = au_data q"
    using audit_text_inject [of r q] by simp_all
  have "r = q" using seq l(7) f by (intro audit_row.equality) simp_all
  moreover have "rs = qs \<and> prev = prev'"
  proof (cases "rs = []")
    case True
    with snoc.prems(2) q f(1) l(3,4) show ?thesis by simp
  next
    case False
    show ?thesis
      using snoc.IH [of qs] free(1) snoc.prems(2,3) q l(1-4) f(1) False by simp
  qed
  ultimately show ?case using q by simp
qed

section \<open>Properties\<close>


definition demo_codec :: codec where
  "demo_codec = \<lparr>cd_dec = (\<lambda>d. ''1''), cd_parse_dec = (\<lambda>s. Some 1),
     cd_time = (\<lambda>t. ''t''), cd_parse_time = (\<lambda>s. Some 0), cd_json = (\<lambda>_. ''{}''), cd_parse_json = (\<lambda>_. Some (JObj [])), cd_message = (\<lambda>_. [])\<rparr>"



definition demo_log :: "string \<Rightarrow> store" where
  "demo_log kind = append_audit (\<lambda>x. x) demo_codec 0 kind JNull store_empty"


text \<open>
  Cutting off the end does not show. Any log that verifies still verifies after its last
  rows are deleted, with the smaller count: verification knows no head to compare with.
\<close>

theorem truncated_log_still_verifies:
  assumes "verify_audit_chain sha s = AuditOk n" and "k \<le> length (audit_rows s)"
  shows "verify_audit_chain sha (s\<lparr>st_audit := take k (audit_rows s)\<rparr>) = AuditOk (int k)"
proof -
  have "linked sha (take k (audit_rows s)) 0 genesis_hash"
    using assms(1) by (simp add: verify_ok_iff linked_take)
  moreover from this have "audit_rows (s\<lparr>st_audit := take k (audit_rows s)\<rparr>) = take k (audit_rows s)"
    by (simp add: audit_rows_def linked_sort_id)
  ultimately show ?thesis using assms(2) by (simp add: verify_ok_iff)
qed

theorem truncated_log_still_verifies_witness:
  "verify_audit_chain (\<lambda>x. x) (demo_log ''fill'') = AuditOk 1
   \<and> verify_audit_chain (\<lambda>x. x) ((demo_log ''fill'')\<lparr>st_audit := take 0 (audit_rows (demo_log ''fill''))\<rparr>)
      = AuditOk (int 0)"
proof -
  have ok: "verify_audit_chain (\<lambda>x. x) (demo_log ''fill'') = AuditOk 1"
    by (simp add: demo_log_def append_audit_def audit_rows_def store_empty_def verify_audit_chain_def Let_def)
  from truncated_log_still_verifies [OF ok, of 0] ok show ?thesis by simp
qed

end
