(* ===== verification/Reconcile.thy ===== *)
theory Reconcile
  imports Store
begin

text \<open>
  Reconciling a transaction the operator broadcast (\<open>crates/reconcile/src/lib.rs\<close>) and
  recording its fill in the store (\<open>crates/cli/src/reconcile_cmd.rs\<close> and
  \<open>record_reconciled_fill\<close> of \<open>crates/server/src/routes.rs\<close>). What the chain
  answers and whether a database call succeeds are parameters.
\<close>

record tx_receipt =
  rx_tx_hash :: string
  rx_status_ok :: bool
  rx_block_number :: u64
  rx_gas_used :: u64
  rx_to :: "string option"

record expected_trade =
  ex_symbol :: string
  ex_side :: side
  ex_qty :: dec
  ex_price :: dec
  ex_fee :: dec

datatype reconcile_outcome =
    NotFound
  | Reverted tx_receipt
  | Confirmed tx_receipt fill

definition reconcile_fill :: "expected_trade \<Rightarrow> tx_receipt \<Rightarrow> instant \<Rightarrow> fill" where
  "reconcile_fill t rx now = \<lparr>f_order_id = ''reconcile-'' @ rx_tx_hash rx,
     f_asset = asset_symbol (ex_symbol t), f_side = ex_side t, f_qty = ex_qty t,
     f_price = ex_price t, f_fee = ex_fee t, f_venue = DexRouter, f_at = now\<rparr>"

definition reconcile ::
    "'e + tx_receipt option \<Rightarrow> expected_trade \<Rightarrow> instant \<Rightarrow> 'e + reconcile_outcome"
where
  "reconcile answer t now = and_then answer (\<lambda>rx. case rx of
       None \<Rightarrow> Ok NotFound
     | Some r \<Rightarrow> if \<not> rx_status_ok r then Ok (Reverted r) else Ok (Confirmed r (reconcile_fill t r now)))"

text \<open>
  Polling, over the answers the chain gives at the successive polls and the clock's reading
  after each; \<open>None\<close> when the answers run out while it would go on waiting.
\<close>

fun wait_and_reconcile ::
    "('e + tx_receipt option) list \<Rightarrow> instant list \<Rightarrow> expected_trade \<Rightarrow> instant \<Rightarrow> instant
      \<Rightarrow> ('e + reconcile_outcome) option"
where
  "wait_and_reconcile (answer # answers) (t # ts) trade now deadline =
     (case reconcile answer trade now of
        Inl e \<Rightarrow> Some (Inl e)
      | Inr NotFound \<Rightarrow>
          if t < deadline then wait_and_reconcile answers ts trade now deadline
          else Some (Inr NotFound)
      | Inr out \<Rightarrow> Some (Inr out))"
| "wait_and_reconcile _ _ _ _ _ = None"

section \<open>Recording\<close>

definition reconcile_audit :: "codec \<Rightarrow> fill \<Rightarrow> json" where
  "reconcile_audit c f = JObj [(''fee'', JStr (cd_dec c (f_fee f))),
     (''order_id'', JStr (f_order_id f)), (''price'', JStr (cd_dec c (f_price f))),
     (''qty'', JStr (cd_dec c (f_qty f))), (''side'', JStr (store_side_str (f_side f))),
     (''source'', JStr ''reconcile''), (''symbol'', JStr (as_symbol (f_asset f)))]"

text \<open>The calls to the database; \<open>db call\<close> is the error a call ends with, if any.\<close>

datatype store_call = LoadPortfolio | AppendFill | SavePortfolio | AppendAudit

definition db_error :: "string \<Rightarrow> string \<Rightarrow> message" where
  "db_error what e = [Lit what, Lit '': '', Lit e]"

text \<open>The server's version, which books nothing without a snapshot to book on.\<close>

definition record_reconciled_fill ::
    "arith \<Rightarrow> (string \<Rightarrow> string) \<Rightarrow> codec \<Rightarrow> (store_call \<Rightarrow> string option) \<Rightarrow> instant \<Rightarrow> fill \<Rightarrow> store
      \<Rightarrow> ((message + bool) \<times> store) option"
where
  "record_reconciled_fill A sha c db now f s = (case db LoadPortfolio of
       Some e \<Rightarrow> Some (Err (db_error ''loading the portfolio'' e), s)
     | None \<Rightarrow> (case load_portfolio s of
         None \<Rightarrow> Some (Ok False, s)
       | Some p \<Rightarrow> (case db AppendFill of
           Some e \<Rightarrow> Some (Err (db_error ''appending fill'' e), s)
         | None \<Rightarrow> do {
             p' \<leftarrow> apply_fill A p f;
             let s1 = append_fill c f s;
             (case db SavePortfolio of
               Some e \<Rightarrow> Some (Err (db_error ''saving the portfolio'' e), s1)
             | None \<Rightarrow> (let s2 = save_portfolio p' s1 in (case db AppendAudit of
                 Some e \<Rightarrow> Some (Err (db_error ''appending the audit row'' e), s2)
               | None \<Rightarrow> Some (Ok True, append_audit sha c now ''fill'' (reconcile_audit c f) s2)))) })))"

text \<open>The command line's version, which starts a ledger when there is none.\<close>

definition record_fill ::
    "arith \<Rightarrow> (string \<Rightarrow> string) \<Rightarrow> codec \<Rightarrow> (store_call \<Rightarrow> string option) \<Rightarrow> instant \<Rightarrow> dec \<Rightarrow> fill
      \<Rightarrow> store \<Rightarrow> ((message + unit) \<times> store) option"
where
  "record_fill A sha c db now starting_cash f s = (case db AppendFill of
       Some e \<Rightarrow> Some (Err (db_error ''appending fill'' e), s)
     | None \<Rightarrow> (let s1 = append_fill c f s in (case db LoadPortfolio of
         Some e \<Rightarrow> Some (Err (db_error ''loading the portfolio snapshot'' e), s1)
       | None \<Rightarrow> do {
           p' \<leftarrow> apply_fill A (unwrap_or (portfolio_new starting_cash) (load_portfolio s1)) f;
           (case db SavePortfolio of
             Some e \<Rightarrow> Some (Err (db_error ''saving the portfolio snapshot'' e), s1)
           | None \<Rightarrow> (let s2 = save_portfolio p' s1 in (case db AppendAudit of
               Some e \<Rightarrow> Some (Err (db_error ''appending the audit row'' e), s2)
             | None \<Rightarrow> Some (Ok (), append_audit sha c now ''fill'' (reconcile_audit c f) s2)))) })))"

lemma load_save [simp]: "load_portfolio (save_portfolio p s) = Some p"
  by (simp add: load_portfolio_def save_portfolio_def)

lemma load_frame [simp]:
  "load_portfolio (append_fill c f s) = load_portfolio s"
  "load_portfolio (append_audit sha c now kind data s) = load_portfolio s"
  by (simp_all add: load_portfolio_def)

lemma save_frame [simp]:
  "st_fills (save_portfolio p s) = st_fills s" "st_audit (save_portfolio p s) = st_audit s"
  by (simp_all add: save_portfolio_def)

lemma record_reconciled_fill_Ok:
  assumes "record_reconciled_fill A sha c db now f s = Some (Ok True, s')"
  obtains p p' where "load_portfolio s = Some p" "apply_fill A p f = Some p'"
    "s' = append_audit sha c now ''fill'' (reconcile_audit c f) (save_portfolio p' (append_fill c f s))"
  using assms
  by (auto simp: record_reconciled_fill_def Let_def bind_Some_iff split: option.splits)

section \<open>Properties\<close>

text \<open>
  Recording a reconciled fill. If the server reports the fill as recorded, then the
  snapshot that is loaded next is the previous one with the fill applied, the history has the
  fill once more, and a verifying audit chain is one row longer and verifies; if it reports
  that there is nothing to record on, the store is untouched.
\<close>

theorem reconciled_fill_is_booked:
  assumes "record_reconciled_fill A sha c db now f s = Some (Ok booked, s')"
  shows "(booked \<longrightarrow> (\<exists>p p'. load_portfolio s = Some p \<and> apply_fill A p f = Some p'
        \<and> load_portfolio s' = Some p' \<and> st_fills s' = st_fills s @ [fill_to_row c f]
        \<and> (linked sha (st_audit s) 0 genesis_hash \<longrightarrow>
             linked sha (st_audit s') 0 genesis_hash \<and> length (st_audit s') = Suc (length (st_audit s)))))
    \<and> (\<not> booked \<longrightarrow> s' = s \<and> load_portfolio s = None)"
proof (cases booked)
  case True
  with assms obtain p p' where r: "load_portfolio s = Some p" "apply_fill A p f = Some p'"
    "s' = append_audit sha c now ''fill'' (reconcile_audit c f) (save_portfolio p' (append_fill c f s))"
    using record_reconciled_fill_Ok by metis
  have "linked sha (st_audit s') 0 genesis_hash \<and> length (st_audit s') = Suc (length (st_audit s))"
    if "linked sha (st_audit s) 0 genesis_hash"
    using append_audit_linked [of sha "save_portfolio p' (append_fill c f s)"] that by (simp add: r(3))
  then show ?thesis
    using True r by (auto simp: append_fill_def)
next
  case False
  with assms show ?thesis
    by (auto simp: record_reconciled_fill_def Let_def bind_Some_iff split: option.splits)
qed

definition demo_store :: store where
  "demo_store = save_portfolio (portfolio_new 500) store_empty"

theorem reconciled_fill_is_booked_witness:
  "\<exists>s'. record_reconciled_fill exact_arith (\<lambda>x. x) demo_codec (\<lambda>_. None) 0 (demo_fill Buy 1 200) demo_store
      = Some (Ok True, s')
    \<and> st_fills s' = [fill_to_row demo_codec (demo_fill Buy 1 200)]"
proof -
  have "\<exists>s'. record_reconciled_fill exact_arith (\<lambda>x. x) demo_codec (\<lambda>_. None) 0 (demo_fill Buy 1 200)
      demo_store = Some (Ok True, s')"
    by (simp add: record_reconciled_fill_def demo_store_def apply_fill_buy_exact demo_fill_def Let_def)
  then obtain s' where r: "record_reconciled_fill exact_arith (\<lambda>x. x) demo_codec (\<lambda>_. None) 0
      (demo_fill Buy 1 200) demo_store = Some (Ok True, s')" by blast
  from reconciled_fill_is_booked [OF r] r show ?thesis
    by (auto simp: demo_store_def store_empty_def)
qed

text \<open>
  A transaction reconciled twice is booked twice. Nothing compares the order id, which is
  made of the transaction hash, with the fills already stored: recording the same confirmed
  buy twice takes its cost from the cash twice and adds its quantity twice.
\<close>

theorem reconciled_twice_is_booked_twice:
  assumes "reconcile answer t now1 = Ok (Confirmed rx f1)" and "reconcile answer t now2 = Ok (Confirmed rx f2)"
    and "ex_side t = Buy" and "load_portfolio s = Some p"
    and "record_reconciled_fill exact_arith sha c db now3 f1 s = Some (Ok True, s1)"
    and "record_reconciled_fill exact_arith sha c db now4 f2 s1 = Some (Ok True, s2)"
  shows "f_order_id f1 = f_order_id f2
    \<and> (\<exists>p2. load_portfolio s2 = Some p2
         \<and> position p2 (asset_symbol (ex_symbol t)) = position p (asset_symbol (ex_symbol t)) + 2 * ex_qty t
         \<and> pf_cash p2 = pf_cash p - 2 * (ex_qty t * ex_price t + ex_fee t))"
proof -
  have f: "f1 = reconcile_fill t rx now1" "f2 = reconcile_fill t rx now2"
    using assms(1,2) by (auto simp: reconcile_def and_then_eq_Ok split: option.splits if_splits)
  from assms(5) obtain q where q: "apply_fill exact_arith p f1 = Some q" "load_portfolio s1 = Some q"
    using assms(4) by (elim record_reconciled_fill_Ok) simp
  from assms(6) obtain r where r: "apply_fill exact_arith q f2 = Some r" "load_portfolio s2 = Some r"
    using q(2) by (elim record_reconciled_fill_Ok) simp
  have "pf_cash q = pf_cash p - (ex_qty t * ex_price t + ex_fee t)"
    "position q (asset_symbol (ex_symbol t)) = position p (asset_symbol (ex_symbol t)) + ex_qty t"
    using q(1) assms(3) by (auto simp: f(1) reconcile_fill_def apply_fill_buy_exact Let_def)
  moreover have "pf_cash r = pf_cash q - (ex_qty t * ex_price t + ex_fee t)"
    "position r (asset_symbol (ex_symbol t)) = position q (asset_symbol (ex_symbol t)) + ex_qty t"
    using r(1) assms(3) by (auto simp: f(2) reconcile_fill_def apply_fill_buy_exact Let_def)
  ultimately show ?thesis
    using r(2) by (simp add: f reconcile_fill_def)
qed

definition demo_receipt :: tx_receipt where
  "demo_receipt = \<lparr>rx_tx_hash = ''0xabc'', rx_status_ok = True, rx_block_number = 1, rx_gas_used = 21000,
     rx_to = None\<rparr>"

definition demo_expected :: expected_trade where
  "demo_expected = \<lparr>ex_symbol = ''NVDA'', ex_side = Buy, ex_qty = 1, ex_price = 200, ex_fee = 0\<rparr>"

theorem reconciled_twice_is_booked_twice_witness:
  "\<exists>s1 s2 p2. record_reconciled_fill exact_arith (\<lambda>x. x) demo_codec (\<lambda>_. None) 0
        (reconcile_fill demo_expected demo_receipt 0) demo_store = Some (Ok True, s1)
     \<and> record_reconciled_fill exact_arith (\<lambda>x. x) demo_codec (\<lambda>_. None) 0
        (reconcile_fill demo_expected demo_receipt 1) s1 = Some (Ok True, s2)
     \<and> load_portfolio s2 = Some p2 \<and> pf_cash p2 = 100"
proof -
  let ?f = "reconcile_fill demo_expected demo_receipt"
  have conf: "reconcile (Inr (Some demo_receipt) :: unit + tx_receipt option) demo_expected t
      = Ok (Confirmed demo_receipt (?f t))" for t
    by (simp add: reconcile_def demo_receipt_def)
  have total: "\<exists>s'. record_reconciled_fill exact_arith (\<lambda>x. x) demo_codec (\<lambda>_. None) 0 (?f t) s = Some (Ok True, s')"
    if "load_portfolio s = Some p" for t s p
    using apply_fill_exact_total [of p "?f t"] that
    by (auto simp: record_reconciled_fill_def Let_def)
  have start: "load_portfolio demo_store = Some (portfolio_new 500)" by (simp add: demo_store_def)
  from total [OF start, of 0] obtain s1 where s1: "record_reconciled_fill exact_arith (\<lambda>x. x) demo_codec
      (\<lambda>_. None) 0 (?f 0) demo_store = Some (Ok True, s1)" by blast
  then obtain q where "load_portfolio s1 = Some q" by (elim record_reconciled_fill_Ok) simp
  from total [OF this, of 1] obtain s2 where s2: "record_reconciled_fill exact_arith (\<lambda>x. x) demo_codec
      (\<lambda>_. None) 0 (?f 1) s1 = Some (Ok True, s2)" by blast
  from reconciled_twice_is_booked_twice [OF conf [of 0] conf [of 1] _ start s1 s2] s1 s2 show ?thesis
    by (auto simp: demo_expected_def)
qed

text \<open>
  The server and the command line book alike. Over a database that works and has a snapshot
  they give the same store, panics included; without a snapshot the server leaves the store as
  it is and says so, and the command books on a fresh ledger with the starting cash.
\<close>

theorem command_and_server_book_alike:
  "case load_portfolio s of
     Some p \<Rightarrow> record_fill A sha c (\<lambda>_. None) now cash f s
       = map_option (map_prod (\<lambda>_. Ok ()) id) (record_reconciled_fill A sha c (\<lambda>_. None) now f s)
   | None \<Rightarrow> record_reconciled_fill A sha c (\<lambda>_. None) now f s = Some (Ok False, s)
       \<and> record_fill A sha c (\<lambda>_. None) now cash f s
         = map_option (\<lambda>p. (Ok (), append_audit sha c now ''fill'' (reconcile_audit c f) (save_portfolio p (append_fill c f s))))
             (apply_fill A (portfolio_new cash) f)"
  by (cases "load_portfolio s")
     (simp_all add: record_fill_def record_reconciled_fill_def Let_def map_option_bind comp_def map_conv_bind_option)

text \<open>
  Half a booking. A fill whose snapshot cannot be saved is reported as an error and is in the
  history all the same, while the ledger and the audit log are as before; the two no longer
  agree, and reconciling again adds the fill a second time.
\<close>

theorem failed_save_keeps_the_fill:
  assumes "db LoadPortfolio = None" "db AppendFill = None" "db SavePortfolio = Some e"
    and "load_portfolio s = Some p" "apply_fill A p f = Some p'"
  shows "record_reconciled_fill A sha c db now f s
      = Some (Err (db_error ''saving the portfolio'' e), append_fill c f s)
    \<and> load_portfolio (append_fill c f s) = Some p \<and> st_fills (append_fill c f s) = st_fills s @ [fill_to_row c f]
    \<and> st_audit (append_fill c f s) = st_audit s"
  using assms by (simp add: record_reconciled_fill_def append_fill_def load_portfolio_def Let_def)

theorem failed_save_keeps_the_fill_witness:
  "\<exists>s'. record_reconciled_fill exact_arith (\<lambda>x. x) demo_codec (\<lambda>k. if k = SavePortfolio then Some ''disk'' else None) 0
       (demo_fill Buy 1 200) demo_store = Some (Err (db_error ''saving the portfolio'' ''disk''), s')
     \<and> length (st_fills s') = 1 \<and> load_portfolio s' = load_portfolio demo_store"
proof -
  have start: "load_portfolio demo_store = Some (portfolio_new 500)" "st_fills demo_store = []"
    by (simp_all add: demo_store_def store_empty_def)
  obtain p' where "apply_fill exact_arith (portfolio_new 500) (demo_fill Buy 1 200) = Some p'"
    by (simp add: apply_fill_buy_exact demo_fill_def Let_def)
  from failed_save_keeps_the_fill [OF _ _ _ start(1) this, of "\<lambda>k. if k = SavePortfolio then Some ''disk'' else None" "''disk''"] start
  show ?thesis by simp
qed

end
