(* ===== verification/Control_Plane.thy ===== *)
theory Control_Plane
  imports Hook Approvals Budgets Server_Auth Venue_Router Reconcile "HOL-Library.List_Lexorder" "HOL-Library.Char_ord"
begin

text \<open>
  The state and the handlers of the control-plane server (\<open>crates/server/src/state.rs\<close>,
  \<open>routes.rs\<close>). A handler takes the caller's role, its request and the state and gives
  its answer and the state after; the ones that wait for the operator are two steps, up to the
  wait and from it on. What the handlers call outside the repository or through a trait object
  is an argument: the decoding of a body, the result of the pre-flight, of the reloader, of
  the chain reader and of a write to the file, and every clock reading.
\<close>

section \<open>State\<close>

datatype server_mode = PaperMode | LiveMode

definition server_mode_str :: "server_mode \<Rightarrow> string" where
  "server_mode_str m = (case m of PaperMode \<Rightarrow> ''paper'' | LiveMode \<Rightarrow> ''live'')"

record control =
  ct_mode :: server_mode
  ct_risk :: risk_config
  ct_allowlist :: tool_allowlist
  ct_approval_mode :: approval_mode

definition kill_switch :: "control \<Rightarrow> bool" where
  "kill_switch c = rc_kill_switch (ct_risk c)"

record reloaded =
  rd_risk :: risk_config
  rd_allowlist :: tool_allowlist
  rd_approval_mode :: approval_mode

record server_opts =
  so_allow_live :: bool
  so_rate_limit_per_min :: u32
  so_cors_origins :: "string list"
  so_static_dir :: "string option"
  so_approval_mode :: approval_mode
  so_approval_timeout :: nat
  so_budget_caps :: budget_caps
  so_router_config :: router_config

definition server_opts_default :: server_opts where
  "server_opts_default = \<lparr>so_allow_live = False, so_rate_limit_per_min = 300, so_cors_origins = [],
     so_static_dir = None, so_approval_mode = Auto, so_approval_timeout = nat (from_secs 60), so_budget_caps = budget_caps_default,
     so_router_config = router_config_default\<rparr>"

text \<open>
  The optional parts that are trait objects are kept as whether they are wired up, and the
  configuration file as its text when editing is.
\<close>

record app_state =
  sv_tokens :: token_set
  sv_control :: control
  sv_metrics :: metrics
  sv_limiter :: rate_limiter
  sv_store :: "store option"
  sv_allow_live :: bool
  sv_cors_origins :: "string list"
  sv_static_dir :: "string option"
  sv_approvals :: approval_store
  sv_caps :: budget_caps
  sv_budget :: session_budget
  sv_has_reloader :: bool
  sv_has_preflight :: bool
  sv_router :: router_config
  sv_has_dex_simulator :: bool
  sv_has_reconciler :: bool
  sv_config_file :: "string option"
  sv_started_at :: instant

definition app_state_new ::
    "instant \<Rightarrow> token_set \<Rightarrow> risk_config \<Rightarrow> tool_allowlist \<Rightarrow> server_opts \<Rightarrow> store option \<Rightarrow> app_state"
where
  "app_state_new now tokens risk al opts st = \<lparr>
     sv_tokens = tokens,
     sv_control = \<lparr>ct_mode = PaperMode, ct_risk = risk, ct_allowlist = al,
       ct_approval_mode = so_approval_mode opts\<rparr>,
     sv_metrics = metrics_default, sv_limiter = per_minute (so_rate_limit_per_min opts) now,
     sv_store = st, sv_allow_live = so_allow_live opts,
     sv_cors_origins = so_cors_origins opts, sv_static_dir = so_static_dir opts,
     sv_approvals = approval_store_new (so_approval_timeout opts), sv_caps = so_budget_caps opts,
     sv_budget = session_budget_new now, sv_has_reloader = False, sv_has_preflight = False,
     sv_router = so_router_config opts, sv_has_dex_simulator = False, sv_has_reconciler = False, sv_config_file = None,
     sv_started_at = now\<rparr>"

definition with_reloader :: "app_state \<Rightarrow> app_state" where
  "with_reloader st = st\<lparr>sv_has_reloader := True\<rparr>"

definition with_live_preflight :: "app_state \<Rightarrow> app_state" where
  "with_live_preflight st = st\<lparr>sv_has_preflight := True\<rparr>"

definition with_dex_simulator :: "app_state \<Rightarrow> app_state" where
  "with_dex_simulator st = st\<lparr>sv_has_dex_simulator := True\<rparr>"

definition with_reconciler :: "app_state \<Rightarrow> app_state" where
  "with_reconciler st = st\<lparr>sv_has_reconciler := True\<rparr>"

definition with_config_store :: "string \<Rightarrow> app_state \<Rightarrow> app_state" where
  "with_config_store contents st = st\<lparr>sv_config_file := Some contents\<rparr>"

definition uptime_secs :: "instant \<Rightarrow> app_state \<Rightarrow> int" where
  "uptime_secs now st = max 0 (num_seconds (now - sv_started_at st))"

section \<open>Reading the state\<close>

definition get_store :: "app_state \<Rightarrow> api_error + store" where
  "get_store st = ok_or (NotFoundError [Lit ''no state_path is configured; nothing to read'']) (sv_store st)"

record health_view =
  hv_mode :: string
  hv_kill_switch :: bool
  hv_uptime_secs :: int

definition health :: "instant \<Rightarrow> app_state \<Rightarrow> health_view" where
  "health now st = \<lparr>hv_mode = server_mode_str (ct_mode (sv_control st)),
     hv_kill_switch = kill_switch (sv_control st), hv_uptime_secs = uptime_secs now st\<rparr>"

record control_view =
  cv_mode :: server_mode
  cv_kill_switch :: bool

definition control_view_of :: "control \<Rightarrow> control_view" where
  "control_view_of c = \<lparr>cv_mode = ct_mode c, cv_kill_switch = kill_switch c\<rparr>"

definition get_control :: "role \<Rightarrow> app_state \<Rightarrow> api_error + control_view" where
  "get_control caller st =
     and_then (caller_require caller Viewer) (\<lambda>_. Ok (control_view_of (sv_control st)))"

record position_view =
  pv_symbol :: string
  pv_quantity :: dec
  pv_avg_cost :: "dec option"

record portfolio_view =
  fv_cash :: dec
  fv_realized_pnl :: dec
  fv_open_positions :: nat
  fv_positions :: "position_view list"

definition get_portfolio :: "role \<Rightarrow> app_state \<Rightarrow> api_error + portfolio_view" where
  "get_portfolio caller st =
     and_then (caller_require caller Viewer) (\<lambda>_.
     and_then (get_store st) (\<lambda>s.
     and_then (ok_or (NotFoundError [Lit ''no portfolio snapshot has been written yet'']) (load_portfolio s)) (\<lambda>pf.
     Ok \<lparr>fv_cash = pf_cash pf, fv_realized_pnl = pf_realized_pnl pf,
        fv_open_positions = open_position_count pf,
        fv_positions = sort_key pv_symbol (map (\<lambda>(s, q). \<lparr>pv_symbol = s, pv_quantity = q,
          pv_avg_cost = avg_cost pf (asset_symbol s)\<rparr>) (open_positions pf))\<rparr>)))"

record audit_verify_view =
  vv_ok :: bool
  vv_entries :: "int option"
  vv_broken_at :: "int option"

definition get_audit_verify :: "(string \<Rightarrow> string) \<Rightarrow> role \<Rightarrow> app_state \<Rightarrow> api_error + audit_verify_view" where
  "get_audit_verify sha caller st =
     and_then (caller_require caller Viewer) (\<lambda>_.
     and_then (get_store st) (\<lambda>s. Ok (case verify_audit_chain sha s of
         AuditOk n \<Rightarrow> \<lparr>vv_ok = True, vv_entries = Some n, vv_broken_at = None\<rparr>
       | AuditBroken at_seq _ _ \<Rightarrow> \<lparr>vv_ok = False, vv_entries = None, vv_broken_at = Some at_seq\<rparr>)))"

record approvals_view =
  av_mode :: approval_mode
  av_pending :: nat
  av_approvals :: "approval list"

definition get_approvals :: "role \<Rightarrow> app_state \<Rightarrow> api_error + approvals_view" where
  "get_approvals caller st =
     and_then (caller_require caller Viewer) (\<lambda>_. Ok \<lparr>av_mode = ct_approval_mode (sv_control st),
       av_pending = pending_count (sv_approvals st), av_approvals = list_approvals (sv_approvals st)\<rparr>)"

definition get_session :: "instant \<Rightarrow> role \<Rightarrow> app_state \<Rightarrow> api_error + budget_view" where
  "get_session now caller st =
     and_then (caller_require caller Viewer) (\<lambda>_. Ok (session_budget_view (sv_caps st) now (sv_budget st)))"

definition get_config :: "(string \<Rightarrow> message + string) \<Rightarrow> role \<Rightarrow> app_state \<Rightarrow> api_error + string" where
  "get_config read caller st =
     and_then (caller_require caller Admin) (\<lambda>_.
     and_then (ok_or (NotFoundError [Lit ''config editing is not available for this server''])
         (sv_config_file st)) (\<lambda>contents.
     (case read contents of Inl e \<Rightarrow> Err (Internal e) | Inr x \<Rightarrow> Ok x)))"

record route_view =
  rw_venue :: string
  rw_reason :: message

definition show_router_error :: "router_error \<Rightarrow> message" where
  "show_router_error e = (case e of
       NonPositiveThreshold t \<Rightarrow> [Lit ''rfq_min_notional must be > 0, got '', Show t]
     | RfqAvailableWithoutThreshold \<Rightarrow> [Lit (''rfq_available is set but rfq_min_notional is not '' @ em_dash
         @ '' RFQ could never be selected'')]
     | NonPositiveNotional n \<Rightarrow> [Lit ''order notional must be > 0, got '', Show n])"

definition post_route :: "role \<Rightarrow> dec \<Rightarrow> app_state \<Rightarrow> api_error + route_view" where
  "post_route caller notional st =
     and_then (caller_require caller Operator) (\<lambda>_.
     (case router_new (sv_router st) of
        Inl e \<Rightarrow> Err (Internal (Lit ''[router] config: '' # show_router_error e))
      | Inr router \<Rightarrow> (case choose_venue router notional of
          Inl e \<Rightarrow> Err (BadRequest (show_router_error e))
        | Inr c \<Rightarrow> Ok \<lparr>rw_venue = to_ascii_lowercase (route_venue_str (rt_venue c)),
            rw_reason = rt_reason c\<rparr>)))"

section \<open>The privileged toggles\<close>

definition check_reauth :: "app_state \<Rightarrow> string \<Rightarrow> api_error + unit" where
  "check_reauth st reauth = (if is_admin (sv_tokens st) reauth then Ok ()
     else Err (Forbidden [Lit ''re-authentication failed: `reauth` must be the admin token'']))"

definition privileged :: "role \<Rightarrow> string \<Rightarrow> app_state \<Rightarrow> api_error + unit" where
  "privileged caller reauth st = and_then (caller_require caller Admin) (\<lambda>_. check_reauth st reauth)"

text \<open>Arming live mode; \<open>preflight\<close> is what the pre-flight answers when it is asked.\<close>

definition arm_check :: "server_mode \<Rightarrow> string + unit \<Rightarrow> app_state \<Rightarrow> api_error + unit" where
  "arm_check mode preflight st =
     (if mode = LiveMode then
        (if \<not> sv_allow_live st
         then Err (Forbidden [Lit ''live mode is disabled in config (`[server] allow_live = false`)''])
         else if \<not> sv_has_preflight st
         then Err (Forbidden [Lit (''live mode has no pre-flight configured (ADR-0006) '' @ em_dash
           @ '' refusing to arm'')])
         else (case preflight of
           Inl reason \<Rightarrow> Err (Forbidden [Lit ''live pre-flight failed: '', Lit reason])
         | Inr _ \<Rightarrow> Ok ()))
      else Ok ())"

definition set_control :: "(control \<Rightarrow> control) \<Rightarrow> app_state \<Rightarrow> app_state" where
  "set_control f st = st\<lparr>sv_control := f (sv_control st)\<rparr>"

definition post_mode ::
    "role \<Rightarrow> server_mode \<Rightarrow> string \<Rightarrow> string + unit \<Rightarrow> app_state \<Rightarrow> (api_error + control_view) \<times> app_state"
where
  "post_mode caller mode reauth preflight st =
     (case and_then (privileged caller reauth st) (\<lambda>_. arm_check mode preflight st) of
        Inl e \<Rightarrow> (Err e, st)
      | Inr _ \<Rightarrow> (let st' = (if ct_mode (sv_control st) \<noteq> mode
                            then set_control (\<lambda>c. c\<lparr>ct_mode := mode\<rparr>) st else st)
                in (Ok (control_view_of (sv_control st')), st')))"

definition set_kill :: "bool \<Rightarrow> control \<Rightarrow> control" where
  "set_kill b c = c\<lparr>ct_risk := (ct_risk c)\<lparr>rc_kill_switch := b\<rparr>\<rparr>"

definition post_kill ::
    "role \<Rightarrow> bool \<Rightarrow> string \<Rightarrow> app_state \<Rightarrow> (api_error + control_view) \<times> app_state"
where
  "post_kill caller engage reauth st =
     (case privileged caller reauth st of
        Inl e \<Rightarrow> (Err e, st)
      | Inr _ \<Rightarrow> (let st' = set_control (set_kill engage) st
                in (Ok (control_view_of (sv_control st')), st')))"

record reload_view =
  lv_reloaded :: bool
  lv_approval_mode :: approval_mode
  lv_allowlisted_tools :: nat
  lv_kill_switch :: bool
  lv_note :: string

text \<open>\<open>fresh\<close> is what the reloader returns when it is called.\<close>

definition reload_control :: "reloaded \<Rightarrow> control \<Rightarrow> control" where
  "reload_control fresh c =
     (let c1 = c\<lparr>ct_risk := rd_risk fresh\<rparr>;
          c2 = (if kill_switch c then set_kill True c1 else c1)
      in c2\<lparr>ct_allowlist := rd_allowlist fresh, ct_approval_mode := rd_approval_mode fresh\<rparr>)"

definition apply_reload :: "message + reloaded \<Rightarrow> app_state \<Rightarrow> (api_error + reload_view) \<times> app_state" where
  "apply_reload fresh st =
     (if \<not> sv_has_reloader st
      then (Err (Unprocessable [Lit ''config reload is not available for this server'']), st)
      else (case fresh of
        Inl e \<Rightarrow> (Err (Unprocessable e), st)
      | Inr r \<Rightarrow> (let st' = set_control (reload_control r) st; c = sv_control st' in
          (Ok \<lparr>lv_reloaded = True, lv_approval_mode = ct_approval_mode c,
             lv_allowlisted_tools = allowlist_len (ct_allowlist c), lv_kill_switch = kill_switch c,
             lv_note = ''bind, tokens, CORS, static_dir and the session-budget caps still require a restart''\<rparr>,
           st'))))"

definition post_config_reload ::
    "role \<Rightarrow> string \<Rightarrow> message + reloaded \<Rightarrow> app_state \<Rightarrow> (api_error + reload_view) \<times> app_state"
where
  "post_config_reload caller reauth fresh st =
     (case privileged caller reauth st of
        Inl e \<Rightarrow> (Err e, st)
      | Inr _ \<Rightarrow> apply_reload fresh st)"

text \<open>
  Replacing the configuration file: \<open>parse\<close> and \<open>validate\<close> check the new text,
  \<open>written\<close> is the error of the write, if any.
\<close>

definition post_config ::
    "(string \<Rightarrow> message + 'cfg) \<Rightarrow> ('cfg \<Rightarrow> message + unit) \<Rightarrow> message option \<Rightarrow> message + reloaded
      \<Rightarrow> role \<Rightarrow> string \<Rightarrow> string \<Rightarrow> app_state \<Rightarrow> (api_error + reload_view) \<times> app_state"
where
  "post_config parse validate written fresh caller reauth toml st =
     (case privileged caller reauth st of
        Inl e \<Rightarrow> (Err e, st)
      | Inr _ \<Rightarrow> (case sv_config_file st of
          None \<Rightarrow> (Err (NotFoundError [Lit ''config editing is not available for this server'']), st)
        | Some _ \<Rightarrow> (case parse toml of
            Inl e \<Rightarrow> (Err (BadRequest (Lit ''invalid TOML: '' # e)), st)
          | Inr cfg \<Rightarrow> (case validate cfg of
              Inl e \<Rightarrow> (Err (Unprocessable (Lit ''invalid config: '' # e)), st)
            | Inr _ \<Rightarrow> (case written of
                Some e \<Rightarrow> (Err (Internal e), st)
              | None \<Rightarrow> apply_reload fresh (st\<lparr>sv_config_file := Some toml\<rparr>))))))"

definition post_session_reset ::
    "role \<Rightarrow> string \<Rightarrow> instant \<Rightarrow> instant \<Rightarrow> app_state \<Rightarrow> (api_error + budget_view) \<times> app_state"
where
  "post_session_reset caller reauth now now_view st =
     (case privileged caller reauth st of
        Inl e \<Rightarrow> (Err e, st)
      | Inr _ \<Rightarrow> (let st' = st\<lparr>sv_budget := session_budget_reset now (sv_budget st)\<rparr>
                in (Ok (session_budget_view (sv_caps st') now_view (sv_budget st')), st')))"

section \<open>Deciding an approval\<close>

definition decision_target :: "string \<Rightarrow> api_error + approval_state" where
  "decision_target d = (if d = ''approve'' then Ok Approved else if d = ''deny'' then Ok Denied
     else Err (BadRequest [Lit ''decision must be \"approve\" or \"deny\", got '', ShowDebug d]))"

definition post_approval ::
    "role \<Rightarrow> string \<Rightarrow> string \<Rightarrow> string option \<Rightarrow> instant \<Rightarrow> app_state \<Rightarrow> (api_error + approval) \<times> app_state"
where
  "post_approval caller i d reason now st =
     (case and_then (caller_require caller Operator) (\<lambda>_. decision_target d) of
        Inl e \<Rightarrow> (Err e, st)
      | Inr target \<Rightarrow> (case decide now i target reason (sv_approvals st) of
          (Inl e, _) \<Rightarrow> (Err (BadRequest [Lit e]), st)
        | (Inr False, aps) \<Rightarrow> (Err (NotFoundError [Lit ''approval '', Lit i,
            Lit '' is unknown or already decided'']), st\<lparr>sv_approvals := aps\<rparr>)
        | (Inr True, aps) \<Rightarrow> (ok_or (Internal [Lit ''approval vanished after decision''])
            (find (\<lambda>a. ap_id a = i) (list_approvals aps)), st\<lparr>sv_approvals := aps\<rparr>)))"

section \<open>The order gate\<close>

record hook_request =
  hr_call :: tool_call
  hr_portfolio :: portfolio
  hr_ref_price :: "dec option"
  hr_equity :: dec
  hr_unrealized_pnl :: dec
  hr_last_order_at :: "instant option"

text \<open>The readings of the clock while a request is handled.\<close>

record hook_clock =
  hc_gate :: instant
  hc_gate_id :: instant
  hc_order_id :: instant
  hc_approval_id :: instant
  hc_approval_at :: instant
  hc_budget :: instant
  hc_budget_report :: instant

definition hook_context :: "hook_request \<Rightarrow> instant \<Rightarrow> gate_context" where
  "hook_context req now = \<lparr>gc_portfolio = hr_portfolio req, gc_ref_price = hr_ref_price req,
     gc_equity = hr_equity req, gc_unrealized_pnl = hr_unrealized_pnl req,
     gc_last_order_at = hr_last_order_at req, gc_now = now\<rparr>"

text \<open>What is left to do once an order is released: the session budget.\<close>

definition hook_finish ::
    "arith \<Rightarrow> trade_order \<Rightarrow> dec option \<Rightarrow> instant \<Rightarrow> instant \<Rightarrow> app_state \<Rightarrow> (hook_outcome \<times> app_state) option"
where
  "hook_finish A ord ref_price t1 t2 st = do {
     notional \<leftarrow> (case or_else (o_limit_price ord) ref_price of
        None \<Rightarrow> Some 0 | Some p \<Rightarrow> d_mul A (o_qty ord) p);
     (r, b) \<leftarrow> try_record A (sv_caps st) (sv_budget st) t1 t2 notional;
     Some (case r of
         Inl breach \<Rightarrow> Deny (Lit ''session budget: '' # show_budget_breach breach)
       | Inr _ \<Rightarrow> Allow, st\<lparr>sv_budget := b\<rparr>) }"

datatype hook_progress =
    Answered "api_error + hook_outcome"
  | Held string trade_order "dec option"    \<comment> \<open>approval, order, reference price\<close>

definition hook_begin ::
    "arith \<Rightarrow> (string \<Rightarrow> dec option) \<Rightarrow> (json \<Rightarrow> message + hook_request) \<Rightarrow> role \<Rightarrow> json \<Rightarrow> hook_clock
      \<Rightarrow> app_state \<Rightarrow> (hook_progress \<times> app_state) option"
where
  "hook_begin A from_str from_value caller body clk st =
     (case caller_require caller Operator of
        Inl e \<Rightarrow> Some (Answered (Err e), st)
      | Inr _ \<Rightarrow> (case from_value body of
          Inl e \<Rightarrow> Some (Answered (Err (BadRequest (Lit ''invalid hook request: '' # e))), st)
        | Inr req \<Rightarrow> do {
            let c = sv_control st; let name = tc_name (hr_call req);
            outcome \<leftarrow> evaluate A from_str (hc_gate_id clk) (hook_gate_new (ct_allowlist c) (ct_risk c))
              (hr_call req) (hook_context req (hc_gate clk));
            (if outcome \<noteq> Allow \<or> classify (ct_allowlist c) name \<noteq> Some PlaceOrder
             then Some (Answered (Ok outcome), st)
             else do {
               parsed \<leftarrow> parse_order A from_str (hc_order_id clk) name (tc_arguments (hr_call req)) 0;
               (case parsed of
                  Inl _ \<Rightarrow> Some (Answered (Ok outcome), st)
                | Inr ord \<Rightarrow>
                    if ct_approval_mode c = Manual
                    then (let (i, aps) = enqueue (hc_approval_id clk) (hc_approval_at clk) name ord
                            (sv_approvals st)
                          in Some (Held i ord (hr_ref_price req), st\<lparr>sv_approvals := aps\<rparr>))
                    else do {
                      (out, st') \<leftarrow> hook_finish A ord (hr_ref_price req) (hc_budget clk)
                        (hc_budget_report clk) st;
                      Some (Answered (Ok out), st') }) }) }))"

text \<open>From the operator's decision on.\<close>

definition hook_resume ::
    "arith \<Rightarrow> trade_order \<Rightarrow> dec option \<Rightarrow> approval_state \<Rightarrow> instant \<Rightarrow> instant \<Rightarrow> app_state
      \<Rightarrow> (hook_outcome \<times> app_state) option"
where
  "hook_resume A ord ref_price s t1 t2 st = (case s of
       Approved \<Rightarrow> hook_finish A ord ref_price t1 t2 st
     | Denied \<Rightarrow> Some (Deny [Lit ''operator denied the order''], st)
     | _ \<Rightarrow> Some (Deny [Lit ''approval timed out''], st))"

section \<open>Reconciling\<close>

record reconcile_view =
  ov_status :: string
  ov_block_number :: "u64 option"
  ov_gas_used :: "u64 option"
  ov_recorded :: bool
  ov_note :: "message option"

definition post_reconcile ::
    "arith \<Rightarrow> (string \<Rightarrow> string) \<Rightarrow> codec \<Rightarrow> (store_call \<Rightarrow> string option) \<Rightarrow> instant
      \<Rightarrow> message + reconcile_outcome \<Rightarrow> role \<Rightarrow> app_state \<Rightarrow> ((api_error + reconcile_view) \<times> app_state) option"
where
  "post_reconcile A sha c db now answer caller st =
     (case caller_require caller Operator of
        Inl e \<Rightarrow> Some (Err e, st)
      | Inr _ \<Rightarrow>
        if \<not> sv_has_reconciler st
        then Some (Err (NotFoundError [Lit ''reconcile is not configured on this server (no [chain] endpoint)'']), st)
        else (case answer of
          Inl e \<Rightarrow> Some (Err (BadRequest e), st)
        | Inr NotFound \<Rightarrow> Some (Ok \<lparr>ov_status = ''not_found'', ov_block_number = None, ov_gas_used = None,
            ov_recorded = False, ov_note = Some [Lit (''no receipt yet '' @ em_dash
              @ '' it may still confirm; retry later with the same tx_hash'')]\<rparr>, st)
        | Inr (Reverted rx) \<Rightarrow> Some (Ok \<lparr>ov_status = ''reverted'', ov_block_number = Some (rx_block_number rx),
            ov_gas_used = Some (rx_gas_used rx), ov_recorded = False,
            ov_note = Some [Lit (''mined but reverted '' @ em_dash
              @ '' gas was spent, nothing to record'')]\<rparr>, st)
        | Inr (Confirmed rx f) \<Rightarrow> (let view = (\<lambda>recorded note. \<lparr>ov_status = ''confirmed'',
              ov_block_number = Some (rx_block_number rx), ov_gas_used = Some (rx_gas_used rx),
              ov_recorded = recorded, ov_note = note\<rparr>) in
            (case sv_store st of
               None \<Rightarrow> Some (Ok (view False (Some [Lit (''no [general] state_path configured ''
                 @ em_dash @ '' not recorded'')])), st)
             | Some s \<Rightarrow> do {
                 (r, s') \<leftarrow> record_reconciled_fill A sha c db now f s;
                 Some (case r of
                     Inl e \<Rightarrow> Err (Internal e)
                   | Inr recorded \<Rightarrow> Ok (view recorded (if recorded then None
                       else Some [Lit (''no portfolio snapshot yet '' @ em_dash @ '' run `sherwood run` at ''
                         @ ''least once, or reconcile from the CLI, which can bootstrap one'')])),
                   st\<lparr>sv_store := Some s'\<rparr>) }))))"

end
