(* ===== verification/Server_Run.thy ===== *)
theory Server_Run
  imports Control_Plane
begin

text \<open>
  The control-plane server as a state machine: the requests that change its state, the waiting
  hooks and the sweeper, interleaved in any order. Reachability is the inductive relation
  \<open>server_run\<close>; the properties are what no interleaving breaks, and one that an
  interleaving does.
\<close>

section \<open>Steps\<close>

text \<open>The orders whose hooks wait, by the id of their approval.\<close>

record server =
  sr_app :: app_state
  sr_waiting :: "string \<rightharpoonup> trade_order \<times> dec option"

datatype server_event =
    EvMode role server_mode string "string + unit"
  | EvKill role bool string
  | EvReload role string "message + reloaded"
  | EvConfig role string string "message + (message + unit)" "message option" "message + reloaded"
  | EvReset role string instant instant
  | EvApproval role string string "string option" instant
  | EvHook role json hook_clock
  | EvResume string bool instant instant
  | EvSweep instant

definition sweep :: "instant \<Rightarrow> app_state \<Rightarrow> app_state" where
  "sweep now st = st\<lparr>sv_approvals := sweep_expired now (sv_approvals st)\<rparr>"

text \<open>A waiting hook that is woken up; the sender is gone when its entry was trimmed.\<close>

definition resume_hook ::
    "arith \<Rightarrow> string \<Rightarrow> bool \<Rightarrow> instant \<Rightarrow> instant \<Rightarrow> server \<Rightarrow> (hook_outcome option \<times> server) option"
where
  "resume_hook A i timed_out t1 t2 s =
     (let aps = sv_approvals (sr_app s) in
      case (sr_waiting s i, aps_channels aps i) of
        (Some (ord, ref_price), Some cur) \<Rightarrow>
          (case ticket_poll (i \<notin> ap_id ` set (aps_entries aps)) timed_out cur of
             None \<Rightarrow> Some (None, s)
           | Some verdict \<Rightarrow> do {
               (out, st) \<leftarrow> hook_resume A ord ref_price verdict t1 t2 (sr_app s);
               Some (Some out, s\<lparr>sr_app := st, sr_waiting := (sr_waiting s)(i := None)\<rparr>) })
      | _ \<Rightarrow> Some (None, s))"

fun server_step ::
    "arith \<Rightarrow> (string \<Rightarrow> dec option) \<Rightarrow> (json \<Rightarrow> message + hook_request) \<Rightarrow> server_event \<Rightarrow> server
      \<Rightarrow> server option"
where
  "server_step A fs fv (EvMode caller mode reauth preflight) s =
     Some (s\<lparr>sr_app := snd (post_mode caller mode reauth preflight (sr_app s))\<rparr>)"
| "server_step A fs fv (EvKill caller engage reauth) s =
     Some (s\<lparr>sr_app := snd (post_kill caller engage reauth (sr_app s))\<rparr>)"
| "server_step A fs fv (EvReload caller reauth fresh) s =
     Some (s\<lparr>sr_app := snd (post_config_reload caller reauth fresh (sr_app s))\<rparr>)"
| "server_step A fs fv (EvConfig caller reauth toml parsed written fresh) s =
     Some (s\<lparr>sr_app := snd (post_config (\<lambda>_. parsed) (\<lambda>v. v) written fresh caller reauth toml (sr_app s))\<rparr>)"
| "server_step A fs fv (EvReset caller reauth t1 t2) s =
     Some (s\<lparr>sr_app := snd (post_session_reset caller reauth t1 t2 (sr_app s))\<rparr>)"
| "server_step A fs fv (EvApproval caller i d reason now) s =
     Some (s\<lparr>sr_app := snd (post_approval caller i d reason now (sr_app s))\<rparr>)"
| "server_step A fs fv (EvHook caller body clk) s = do {
     (progress, st) \<leftarrow> hook_begin A fs fv caller body clk (sr_app s);
     Some (case progress of
         Answered _ \<Rightarrow> s\<lparr>sr_app := st\<rparr>
       | Held i ord ref_price \<Rightarrow>
           s\<lparr>sr_app := st, sr_waiting := (sr_waiting s)(i \<mapsto> (ord, ref_price))\<rparr>) }"
| "server_step A fs fv (EvResume i timed_out t1 t2) s =
     map_option snd (resume_hook A i timed_out t1 t2 s)"
| "server_step A fs fv (EvSweep now) s = Some (s\<lparr>sr_app := sweep now (sr_app s)\<rparr>)"

text \<open>
  The histories of requests. As in the queue's own histories, the sequence number of the
  approvals does not wrap.
\<close>

inductive server_run ::
    "arith \<Rightarrow> (string \<Rightarrow> dec option) \<Rightarrow> (json \<Rightarrow> message + hook_request) \<Rightarrow> server
      \<Rightarrow> server_event list \<Rightarrow> server \<Rightarrow> bool"
  for A fs fv s0 where
  start: "server_run A fs fv s0 [] s0"
| step: "server_run A fs fv s0 es s \<Longrightarrow>
    aps_seq (sv_approvals (sr_app s)) < aps_seq (sv_approvals (sr_app s)) + 1 \<Longrightarrow>
    server_step A fs fv e s = Some s' \<Longrightarrow> server_run A fs fv s0 (es @ [e]) s'"

inductive_cases server_run_snocE: "server_run A fs fv s0 (es @ [e]) s"

section \<open>What each handler leaves alone\<close>

lemma set_control_frame [simp]:
  "sv_tokens (set_control f st) = sv_tokens st" "sv_allow_live (set_control f st) = sv_allow_live st"
  "sv_has_preflight (set_control f st) = sv_has_preflight st"
  "sv_approvals (set_control f st) = sv_approvals st" "sv_caps (set_control f st) = sv_caps st"
  "sv_budget (set_control f st) = sv_budget st" "sv_has_reloader (set_control f st) = sv_has_reloader st"
  "sv_control (set_control f st) = f (sv_control st)"
  by (simp_all add: set_control_def)

lemma privileged_Ok:
  "privileged caller reauth st = Ok u \<longleftrightarrow> caller = Admin \<and> reauth = tk_admin (sv_tokens st)"
  by (auto simp: privileged_def caller_require_def check_reauth_def is_admin_def and_then_eq_Ok
      split: if_splits)

lemma kill_set [simp]: "kill_switch (set_kill b c) = b" "ct_mode (set_kill b c) = ct_mode c"
  by (simp_all add: kill_switch_def set_kill_def)

lemma reload_control_facts:
  "ct_mode (reload_control r c) = ct_mode c"
  "kill_switch c \<Longrightarrow> kill_switch (reload_control r c)"
  by (simp_all add: reload_control_def Let_def kill_switch_def set_kill_def)

text \<open>The fixed part of the state, which no request changes.\<close>

definition fixed_part :: "app_state \<Rightarrow> token_set \<times> bool \<times> bool \<times> budget_caps" where
  "fixed_part st = (sv_tokens st, sv_allow_live st, sv_has_preflight st, sv_caps st)"

lemma hook_finish_frame:
  assumes "hook_finish A ord r t1 t2 st = Some (out, st')"
  shows "sv_control st' = sv_control st \<and> sv_approvals st' = sv_approvals st \<and> fixed_part st' = fixed_part st"
  using assms by (auto simp: hook_finish_def bind_Some_iff fixed_part_def split: prod.splits)

lemma hook_resume_frame:
  assumes "hook_resume A ord r v t1 t2 st = Some (out, st')"
  shows "sv_control st' = sv_control st \<and> sv_approvals st' = sv_approvals st \<and> fixed_part st' = fixed_part st"
  using assms hook_finish_frame
  by (auto simp: hook_resume_def split: approval_state.splits)

lemma apply_reload_frame:
  "fixed_part (snd (apply_reload fresh st)) = fixed_part st"
  "sv_approvals (snd (apply_reload fresh st)) = sv_approvals st"
  "ct_mode (sv_control (snd (apply_reload fresh st))) = ct_mode (sv_control st)"
  "kill_switch (sv_control st) \<Longrightarrow> kill_switch (sv_control (snd (apply_reload fresh st)))"
  by (auto simp: apply_reload_def fixed_part_def Let_def reload_control_facts split: sum.split)

text \<open>The three ways a hook request ends: answered as it is, held, or finished with the budget.\<close>

lemma hook_begin_cases:
  assumes "hook_begin A fs fv caller body clk st = Some (progress, st')"
  obtains (answered) r where "progress = Answered r" "st' = st"
  | (held) i tool ord r aps where "progress = Held i ord r" "st' = st\<lparr>sv_approvals := aps\<rparr>"
      "enqueue (hc_approval_id clk) (hc_approval_at clk) tool ord (sv_approvals st) = (i, aps)"
  | (finished) ord r out where "progress = Answered (Ok out)"
      "hook_finish A ord r (hc_budget clk) (hc_budget_report clk) st = Some (out, st')"
proof (cases "caller_require caller Operator"; cases "fv body")
  fix u req
  assume ok: "caller_require caller Operator = Ok u" "fv body = Ok req"
  let ?c = "sv_control st" and ?name = "tc_name (hr_call req)"
  from assms ok obtain outcome where
    rest: "(if outcome \<noteq> Allow \<or> classify (ct_allowlist ?c) ?name \<noteq> Some PlaceOrder
           then Some (Answered (Ok outcome), st)
           else do {
             parsed \<leftarrow> parse_order A fs (hc_order_id clk) ?name (tc_arguments (hr_call req)) 0;
             (case parsed of
                Inl _ \<Rightarrow> Some (Answered (Ok outcome), st)
              | Inr ord \<Rightarrow>
                  if ct_approval_mode ?c = Manual
                  then (let (i, aps) = enqueue (hc_approval_id clk) (hc_approval_at clk) ?name ord (sv_approvals st)
                        in Some (Held i ord (hr_ref_price req), st\<lparr>sv_approvals := aps\<rparr>))
                  else do {
                    (out, st') \<leftarrow> hook_finish A ord (hr_ref_price req) (hc_budget clk) (hc_budget_report clk) st;
                    Some (Answered (Ok out), st') }) }) = Some (progress, st')"
    by (auto simp: hook_begin_def Let_def bind_Some_iff)
  show ?thesis
  proof (cases "outcome \<noteq> Allow \<or> classify (ct_allowlist ?c) ?name \<noteq> Some PlaceOrder")
    case True
    with rest show ?thesis by (intro answered) auto
  next
    case False
    with rest obtain parsed where
      "parse_order A fs (hc_order_id clk) ?name (tc_arguments (hr_call req)) 0 = Some parsed" by (auto simp: bind_Some_iff)
    with rest False show ?thesis
      by (cases parsed) (auto simp: bind_Some_iff split: if_splits prod.splits intro: answered held finished)
  qed
qed (use assms in \<open>auto simp: hook_begin_def intro: answered\<close>)

lemma hook_begin_effect:
  assumes "hook_begin A fs fv caller body clk st = Some (progress, st')"
  shows "sv_control st' = sv_control st \<and> fixed_part st' = fixed_part st
    \<and> (case progress of
         Answered _ \<Rightarrow> sv_approvals st' = sv_approvals st
       | Held i ord r \<Rightarrow> \<exists>tool. (i, sv_approvals st')
           = enqueue (hc_approval_id clk) (hc_approval_at clk) tool ord (sv_approvals st))"
  using assms
proof (cases rule: hook_begin_cases)
  case (held i tool ord r aps)
  then show ?thesis by (auto simp: fixed_part_def intro: exI [of _ tool])
next
  case (finished ord r out)
  then show ?thesis using hook_finish_frame by fastforce
qed simp

lemma post_approval_effect:
  "sv_approvals (snd (post_approval caller i d reason now st)) = sv_approvals st
   \<or> (\<exists>target. caller \<noteq> Viewer \<and> decision_target d = Ok target
        \<and> sv_approvals (snd (post_approval caller i d reason now st))
          = snd (decide now i target reason (sv_approvals st)))"
  by (auto simp: post_approval_def and_then_def caller_require_def
      split: sum.split prod.split bool.split if_splits)

lemma post_approval_frame:
  "sv_control (snd (post_approval caller i d reason now st)) = sv_control st"
  "fixed_part (snd (post_approval caller i d reason now st)) = fixed_part st"
  by (auto simp: post_approval_def fixed_part_def split: sum.split prod.split bool.split)

lemma resume_hook_frame:
  assumes "resume_hook A i timed_out t1 t2 s = Some (out, s')"
  shows "sv_control (sr_app s') = sv_control (sr_app s) \<and> sv_approvals (sr_app s') = sv_approvals (sr_app s)
    \<and> fixed_part (sr_app s') = fixed_part (sr_app s)"
  using assms
  by (auto simp: resume_hook_def Let_def bind_Some_iff dest!: hook_resume_frame
      split: option.splits prod.splits)

lemma hook_step_cases:
  assumes "server_step A fs fv (EvHook caller body clk) s = Some s'"
  obtains (answered) ans st where "hook_begin A fs fv caller body clk (sr_app s) = Some (Answered ans, st)"
      "s' = s\<lparr>sr_app := st\<rparr>"
    | (held) i ord r st where "hook_begin A fs fv caller body clk (sr_app s) = Some (Held i ord r, st)"
      "s' = s\<lparr>sr_app := st, sr_waiting := (sr_waiting s)(i \<mapsto> (ord, r))\<rparr>"
  using assms by (auto simp: bind_Some_iff split: prod.splits hook_progress.splits) (metis hook_progress.exhaust)+

lemma resume_step_cases:
  assumes "server_step A fs fv (EvResume i timed_out t1 t2) s = Some s'"
  obtains out where "resume_hook A i timed_out t1 t2 s = Some (out, s')"
  using assms by auto

text \<open>The configured part never changes.\<close>

lemma server_step_fixed:
  assumes "server_step A fs fv e s = Some s'"
  shows "fixed_part (sr_app s') = fixed_part (sr_app s)"
proof (cases e)
  case (EvMode caller mode reauth preflight)
  with assms show ?thesis
    by (cases "ct_mode (sv_control (sr_app s)) = mode")
      (auto simp: post_mode_def fixed_part_def Let_def set_control_def split: sum.splits)
next
  case (EvKill caller engage reauth)
  with assms show ?thesis
    by (auto simp: post_kill_def fixed_part_def Let_def set_control_def split: sum.splits)
next
  case (EvReload caller reauth fresh)
  with assms show ?thesis
    by (auto simp: post_config_reload_def apply_reload_frame split: sum.splits)
next
  case (EvConfig caller reauth toml parsed written fresh)
  have "fixed_part (st\<lparr>sv_config_file := x\<rparr>) = fixed_part st" for st x by (simp add: fixed_part_def)
  with EvConfig assms show ?thesis
    by (auto simp: post_config_def apply_reload_frame split: sum.splits option.splits)
next
  case (EvReset caller reauth t1 t2)
  with assms show ?thesis
    by (auto simp: post_session_reset_def fixed_part_def Let_def split: sum.splits)
next
  case (EvApproval caller i d reason now)
  with assms show ?thesis by (auto simp: post_approval_frame)
next
  case (EvHook caller body clk)
  note h = assms [unfolded EvHook]
  from h show ?thesis
  proof (cases rule: hook_step_cases)
    case (answered ans st)
    with hook_begin_effect [OF answered(1)] show ?thesis by simp
  next
    case (held i ord r st)
    with hook_begin_effect [OF held(1)] show ?thesis by simp
  qed
next
  case (EvResume i timed_out t1 t2)
  with assms show ?thesis by (auto dest: resume_hook_frame)
next
  case (EvSweep now)
  with assms show ?thesis by (auto simp: sweep_def fixed_part_def)
qed

lemma server_run_fixed: "server_run A fs fv s0 es s \<Longrightarrow> fixed_part (sr_app s) = fixed_part (sr_app s0)"
  by (induction rule: server_run.induct) (simp_all add: server_step_fixed)

section \<open>The control and the queue under every request\<close>

lemma post_mode_control:
  "kill_switch (sv_control (snd (post_mode caller mode reauth preflight st))) = kill_switch (sv_control st)"
  "sv_approvals (snd (post_mode caller mode reauth preflight st)) = sv_approvals st"
  by (cases "ct_mode (sv_control st) = mode";
      auto simp: post_mode_def Let_def kill_switch_def split: sum.split)+

lemma post_kill_control:
  "ct_mode (sv_control (snd (post_kill caller engage reauth st))) = ct_mode (sv_control st)"
  "sv_approvals (snd (post_kill caller engage reauth st)) = sv_approvals st"
  by (auto simp: post_kill_def Let_def split: sum.split)

lemma post_config_reload_control:
  "ct_mode (sv_control (snd (post_config_reload caller reauth fresh st))) = ct_mode (sv_control st)"
  "kill_switch (sv_control st) \<Longrightarrow> kill_switch (sv_control (snd (post_config_reload caller reauth fresh st)))"
  "sv_approvals (snd (post_config_reload caller reauth fresh st)) = sv_approvals st"
  by (auto simp: post_config_reload_def apply_reload_frame split: sum.split)

lemma post_config_control:
  "ct_mode (sv_control (snd (post_config p v w fresh caller reauth toml st))) = ct_mode (sv_control st)"
  "kill_switch (sv_control st) \<Longrightarrow> kill_switch (sv_control (snd (post_config p v w fresh caller reauth toml st)))"
  "sv_approvals (snd (post_config p v w fresh caller reauth toml st)) = sv_approvals st"
  by (auto simp: post_config_def apply_reload_frame split: sum.split option.split)

lemma post_session_reset_frame:
  "sv_control (snd (post_session_reset caller reauth t1 t2 st)) = sv_control st"
  "sv_approvals (snd (post_session_reset caller reauth t1 t2 st)) = sv_approvals st"
  by (auto simp: post_session_reset_def Let_def split: sum.split)

lemma sweep_frame [simp]:
  "sv_control (sweep now st) = sv_control st"
  "sv_approvals (sweep now st) = sweep_expired now (sv_approvals st)"
  by (simp_all add: sweep_def)

lemma hook_step_control:
  assumes "server_step A fs fv (EvHook caller body clk) s = Some s'"
  shows "sv_control (sr_app s') = sv_control (sr_app s)"
  using assms
proof (cases rule: hook_step_cases)
  case (answered ans st)
  with hook_begin_effect [OF answered(1)] show ?thesis by simp
next
  case (held i ord r st)
  with hook_begin_effect [OF held(1)] show ?thesis by simp
qed

text \<open>The kill switch is released by an administrator's request and by nothing else.\<close>

lemma server_step_kill:
  assumes step: "server_step A fs fv e s = Some s'" and on: "kill_switch (sv_control (sr_app s))"
    and off: "\<not> kill_switch (sv_control (sr_app s'))"
  shows "e = EvKill Admin False (tk_admin (sv_tokens (sr_app s)))"
proof (cases e)
  case (EvKill caller engage reauth)
  show ?thesis
  proof (cases "privileged caller reauth (sr_app s)")
    case (Inl err)
    with EvKill step on off show ?thesis by (auto simp: post_kill_def)
  next
    case (Inr u)
    with EvKill step off have "\<not> engage" by (auto simp: post_kill_def Let_def)
    with Inr EvKill show ?thesis by (simp add: privileged_Ok)
  qed
next
  case (EvApproval caller i d reason now)
  with assms show ?thesis by (auto simp: post_approval_frame)
next
  case (EvHook caller body clk)
  with step have "sv_control (sr_app s') = sv_control (sr_app s)" by (blast intro: hook_step_control)
  with on off show ?thesis by simp
next
  case (EvResume i timed_out t1 t2)
  with step have "sv_control (sr_app s') = sv_control (sr_app s)" by (auto dest: resume_hook_frame)
  with on off show ?thesis by simp
qed (use assms in \<open>auto simp: post_mode_control post_config_reload_control post_config_control
      post_session_reset_frame\<close>)

text \<open>Live mode is armed by an administrator's request that passes every check.\<close>

lemma post_mode_arms:
  assumes "ct_mode (sv_control (snd (post_mode caller mode reauth preflight st))) = LiveMode"
    and "ct_mode (sv_control st) \<noteq> LiveMode"
  shows "caller = Admin \<and> mode = LiveMode \<and> reauth = tk_admin (sv_tokens st) \<and> preflight = Inr ()
    \<and> sv_allow_live st \<and> sv_has_preflight st"
proof (cases "and_then (privileged caller reauth st) (\<lambda>_. arm_check mode preflight st)")
  case (Inl e)
  with assms show ?thesis by (simp add: post_mode_def)
next
  case (Inr u)
  then have ok: "caller = Admin" "reauth = tk_admin (sv_tokens st)" "arm_check mode preflight st = Ok ()"
    by (auto simp: and_then_eq_Ok privileged_Ok)
  from assms Inr have "mode = LiveMode"
    by (cases "ct_mode (sv_control st) = mode") (auto simp: post_mode_def Let_def)
  with ok show ?thesis by (auto simp: arm_check_def split: if_splits sum.splits)
qed

lemma server_step_mode:
  assumes step: "server_step A fs fv e s = Some s'" and "ct_mode (sv_control (sr_app s)) \<noteq> LiveMode"
    and "ct_mode (sv_control (sr_app s')) = LiveMode"
  shows "e = EvMode Admin LiveMode (tk_admin (sv_tokens (sr_app s))) (Inr ())
    \<and> sv_allow_live (sr_app s) \<and> sv_has_preflight (sr_app s)"
proof (cases e)
  case (EvMode caller mode reauth preflight)
  with assms post_mode_arms [of caller mode reauth preflight "sr_app s"] show ?thesis by auto
next
  case (EvApproval caller i d reason now)
  with assms show ?thesis by (auto simp: post_approval_frame)
next
  case (EvHook caller body clk)
  with step have "sv_control (sr_app s') = sv_control (sr_app s)" by (blast intro: hook_step_control)
  with assms show ?thesis by simp
next
  case (EvResume i timed_out t1 t2)
  with step have "sv_control (sr_app s') = sv_control (sr_app s)" by (auto dest: resume_hook_frame)
  with assms show ?thesis by simp
qed (use assms in \<open>auto simp: post_kill_control post_config_reload_control post_config_control
      post_session_reset_frame\<close>)

text \<open>What a step does to the queue is nothing or one operation of it.\<close>

lemma decision_target_Approved: "decision_target d = Ok Approved \<Longrightarrow> d = ''approve''"
  by (auto simp: decision_target_def split: if_splits)

lemma server_step_queue:
  assumes step: "server_step A fs fv e s = Some s'"
  shows "sv_approvals (sr_app s') = sv_approvals (sr_app s)
    \<or> (\<exists>op. sv_approvals (sr_app s') = apply_op op (sv_approvals (sr_app s))
        \<and> (\<forall>now i reason. op = Decide now i Approved reason \<longrightarrow>
             (\<exists>caller. caller \<noteq> Viewer \<and> e = EvApproval caller i ''approve'' reason now)))"
proof (cases e)
  case (EvApproval caller i d reason now)
  from post_approval_effect [of caller i d reason now "sr_app s"] show ?thesis
  proof
    assume "sv_approvals (snd (post_approval caller i d reason now (sr_app s))) = sv_approvals (sr_app s)"
    with step EvApproval show ?thesis by auto
  next
    assume "\<exists>target. caller \<noteq> Viewer \<and> decision_target d = Ok target
        \<and> sv_approvals (snd (post_approval caller i d reason now (sr_app s)))
          = snd (decide now i target reason (sv_approvals (sr_app s)))"
    then obtain target where "caller \<noteq> Viewer" "decision_target d = Ok target"
      "sv_approvals (snd (post_approval caller i d reason now (sr_app s)))
          = apply_op (Decide now i target reason) (sv_approvals (sr_app s))"
      by auto
    with step EvApproval show ?thesis
      by (intro disjI2 exI [of _ "Decide now i target reason"]) (auto dest: decision_target_Approved)
  qed
next
  case (EvHook caller body clk)
  note h = step [unfolded EvHook]
  from h show ?thesis
  proof (cases rule: hook_step_cases)
    case (answered ans st)
    with hook_begin_effect [OF answered(1)] show ?thesis by simp
  next
    case (held i ord r st)
    with hook_begin_effect [OF held(1)] obtain tool where
      "(i, sv_approvals st) = enqueue (hc_approval_id clk) (hc_approval_at clk) tool ord (sv_approvals (sr_app s))"
      by auto
    then have "sv_approvals st
        = apply_op (Enqueue (hc_approval_id clk) (hc_approval_at clk) tool ord) (sv_approvals (sr_app s))"
      by (metis apply_op.simps(1) snd_conv)
    with held show ?thesis
      by (intro disjI2 exI [of _ "Enqueue (hc_approval_id clk) (hc_approval_at clk) tool ord"]) simp
  qed
next
  case (EvResume i timed_out t1 t2)
  with step show ?thesis by (auto dest: resume_hook_frame)
next
  case (EvSweep now)
  with step show ?thesis by (intro disjI2 exI [of _ "Sweep now"]) auto
qed (use step in \<open>auto simp: post_mode_control post_kill_control post_config_reload_control
      post_config_control post_session_reset_frame\<close>)

lemma server_run_queue:
  assumes "server_run A fs fv s0 es s" and "sv_approvals (sr_app s0) = approval_store_new timeout"
  shows "\<exists>ops. approvals_run timeout ops (sv_approvals (sr_app s))
    \<and> (\<forall>now i reason. Decide now i Approved reason \<in> set ops \<longrightarrow>
         (\<exists>caller. caller \<noteq> Viewer \<and> EvApproval caller i ''approve'' reason now \<in> set es))"
  using assms
proof (induction rule: server_run.induct)
  case start
  then show ?case using approvals_run.start by (intro exI [of _ "[]"]) simp
next
  case (step es s e s')
  from step.IH [OF step.prems] obtain ops where
    ops: "approvals_run timeout ops (sv_approvals (sr_app s))"
      "\<And>now i reason. Decide now i Approved reason \<in> set ops \<Longrightarrow>
         \<exists>caller. caller \<noteq> Viewer \<and> EvApproval caller i ''approve'' reason now \<in> set es"
    by blast
  from server_step_queue [OF step.hyps(3)] show ?case
  proof
    assume "sv_approvals (sr_app s') = sv_approvals (sr_app s)"
    with ops show ?case by (intro exI [of _ ops]) (metis Un_iff set_append)
  next
    assume "\<exists>op. sv_approvals (sr_app s') = apply_op op (sv_approvals (sr_app s))
        \<and> (\<forall>now i reason. op = Decide now i Approved reason \<longrightarrow>
             (\<exists>caller. caller \<noteq> Viewer \<and> e = EvApproval caller i ''approve'' reason now))"
    then obtain op where op: "sv_approvals (sr_app s') = apply_op op (sv_approvals (sr_app s))"
      "\<And>now i reason. op = Decide now i Approved reason \<Longrightarrow>
             \<exists>caller. caller \<noteq> Viewer \<and> e = EvApproval caller i ''approve'' reason now"
      by blast
    have "approvals_run timeout (ops @ [op]) (sv_approvals (sr_app s'))"
      unfolding op(1) by (rule approvals_run.step [OF ops(1) step.hyps(2)])
    moreover have "\<exists>caller. caller \<noteq> Viewer \<and> EvApproval caller i ''approve'' reason now \<in> set (es @ [e])"
      if "Decide now i Approved reason \<in> set (ops @ [op])" for now i reason
      using that ops(2) op(2) by fastforce
    ultimately show ?case by blast
  qed
qed

section \<open>The order gate of the server\<close>

text \<open>
  What has been checked when a call to a tool that places orders is let through or held for
  the operator: the gate accepted the order, under the configuration of that moment.
\<close>

lemma hook_begin_gated:
  assumes hook: "hook_begin A fs fv caller body clk st = Some (progress, st')"
    and req: "fv body = Ok req"
    and tool: "classify (ct_allowlist (sv_control st)) (tc_name (hr_call req)) = Some PlaceOrder"
    and passed: "progress = Answered (Ok Allow) \<or> (\<exists>i ord r. progress = Held i ord r)"
  obtains ord where "caller \<noteq> Viewer"
    "parse_order A fs (hc_order_id clk) (tc_name (hr_call req)) (tc_arguments (hr_call req)) 0 = Some (Ok ord)"
    "admissible A (ct_risk (sv_control st)) ord (hook_context req (hc_gate clk))"
    "case progress of
       Held i ord' r \<Rightarrow> ord' = ord \<and> r = hr_ref_price req \<and> ct_approval_mode (sv_control st) = Manual
     | Answered _ \<Rightarrow> ct_approval_mode (sv_control st) = Auto
         \<and> hook_finish A ord (hr_ref_price req) (hc_budget clk) (hc_budget_report clk) st = Some (Allow, st')"
proof -
  let ?c = "sv_control st" and ?name = "tc_name (hr_call req)" and ?args = "tc_arguments (hr_call req)"
  let ?h = "hook_gate_new (ct_allowlist ?c) (ct_risk ?c)" and ?ctx = "hook_context req (hc_gate clk)"
  have op: "caller \<noteq> Viewer" "caller_require caller Operator = Ok ()"
    using hook passed by (cases caller; auto simp: hook_begin_def caller_require_def)+
  from hook op(2) req obtain outcome where
    outcome: "evaluate A fs (hc_gate_id clk) ?h (hr_call req) ?ctx = Some outcome"
    by (auto simp: hook_begin_def Let_def bind_Some_iff)
  have allowed: "outcome = Allow"
    using hook op(2) req outcome passed tool by (auto simp: hook_begin_def Let_def split: if_splits)
  with outcome tool have "evaluate_order A fs (hc_gate_id clk) ?h (hr_call req) ?ctx = Some Allow"
    by (simp add: evaluate_def hook_gate_new_def)
  then obtain ord0 where ord0: "parse_order A fs (hc_gate_id clk) ?name ?args 0 = Some (Ok ord0)"
    "check A (ct_risk ?c) ord0 ?ctx = Some (Ok ())"
    by (auto simp: evaluate_order_Allow hook_gate_new_def)
  let ?ord = "ord0\<lparr>o_id := next_id (hc_order_id clk)\<rparr>"
  have parsed: "parse_order A fs (hc_order_id clk) ?name ?args 0 = Some (Ok ?ord)"
    by (simp add: parse_order_again [of A fs "hc_order_id clk" ?name ?args 0 "hc_gate_id clk"] ord0(1))
  have adm: "admissible A (ct_risk ?c) ?ord ?ctx"
    using ord0(2) by (simp add: check_ok_iff [symmetric])
  show thesis
  proof (rule that [OF op(1) parsed adm])
    show "case progress of
       Held i ord' r \<Rightarrow> ord' = ?ord \<and> r = hr_ref_price req \<and> ct_approval_mode ?c = Manual
     | Answered _ \<Rightarrow> ct_approval_mode ?c = Auto
         \<and> hook_finish A ?ord (hr_ref_price req) (hc_budget clk) (hc_budget_report clk) st = Some (Allow, st')"
      using hook op(2) req outcome allowed tool parsed passed
      by (cases "ct_approval_mode ?c")
        (auto simp: hook_begin_def Let_def bind_Some_iff split: prod.splits)
  qed
qed

lemma admissible_not_killed: "admissible A cfg ord ctx \<Longrightarrow> \<not> rc_kill_switch cfg"
  by (simp add: admissible_def hard_stops_clear_def)

text \<open>With the kill switch engaged no call to a tool that places orders gets through or is held.\<close>

lemma killed_hook:
  assumes "kill_switch (sv_control st)" "fv body = Ok req"
    and "classify (ct_allowlist (sv_control st)) (tc_name (hr_call req)) = Some PlaceOrder"
    and "hook_begin A fs fv caller body clk st = Some (progress, st')"
  shows "progress \<noteq> Answered (Ok Allow) \<and> (\<forall>i ord r. progress \<noteq> Held i ord r)"
  using hook_begin_gated [OF assms(4,2,3)] assms(1) admissible_not_killed
  by (auto simp: kill_switch_def) metis+

text \<open>What the budget has recorded when an order is let through.\<close>

lemma hook_finish_Allow:
  assumes "hook_finish A ord r t1 t2 st = Some (Allow, st')"
  shows "\<exists>notional. (case or_else (o_limit_price ord) r of None \<Rightarrow> notional = 0
        | Some p \<Rightarrow> d_mul A (o_qty ord) p = Some notional)
    \<and> try_record A (sv_caps st) (sv_budget st) t1 t2 notional = Some (Ok (), sv_budget st')"
proof -
  from assms obtain notional res b where
    n: "(case or_else (o_limit_price ord) r of None \<Rightarrow> Some 0 | Some p \<Rightarrow> d_mul A (o_qty ord) p) = Some notional"
    and t: "try_record A (sv_caps st) (sv_budget st) t1 t2 notional = Some (res, b)"
    and out: "(case res of Inl breach \<Rightarrow> Deny (Lit ''session budget: '' # show_budget_breach breach)
       | Inr _ \<Rightarrow> Allow) = Allow" "st' = st\<lparr>sv_budget := b\<rparr>"
    by (auto simp: hook_finish_def bind_Some_iff)
  from out have "res = Ok ()" "b = sv_budget st'" by (cases res; simp)+
  with n t show ?thesis by (intro exI [of _ notional]) (auto split: option.splits)
qed

lemma try_record_Ok:
  assumes "try_record A caps b t1 t2 notional = Some (Ok (), b')"
  shows "\<not> sb_breached b \<and> sb_orders_used b' = sb_orders_used b + 1
    \<and> d_add A (sb_notional_used b) (max notional 0) = Some (sb_notional_used b')
    \<and> (0 < bc_max_orders caps \<longrightarrow> sb_orders_used b' \<le> bc_max_orders caps)
    \<and> (0 < bc_max_notional caps \<longrightarrow> sb_notional_used b' \<le> bc_max_notional caps)"
proof -
  from assms have facts: "\<not> sb_breached b" "sb_orders_used b' = sb_orders_used b + 1"
    "d_add A (sb_notional_used b) (max notional 0) = Some (sb_notional_used b')"
    "0 < bc_max_orders caps \<Longrightarrow> sb_orders_used b < bc_max_orders caps"
    "0 < bc_max_notional caps \<Longrightarrow> sb_notional_used b' \<le> bc_max_notional caps"
    by (auto simp: try_record_def bind_Some_iff not_le not_less split: if_splits)
  moreover have "sb_orders_used b + 1 \<le> bc_max_orders caps" if "0 < bc_max_orders caps"
    using unat_succ_less [OF facts(4) [OF that]] facts(4) [OF that]
    by (simp add: word_le_nat_alt word_less_nat_alt)
  ultimately show ?thesis by simp
qed

section \<open>A server to try the properties on\<close>

definition demo_request :: hook_request where
  "demo_request = \<lparr>hr_call = \<lparr>tc_name = ''place'', tc_arguments = demo_args\<rparr>,
     hr_portfolio = portfolio_new 10000, hr_ref_price = None, hr_equity = 10000,
     hr_unrealized_pnl = 0, hr_last_order_at = None\<rparr>"

definition demo_clock :: hook_clock where
  "demo_clock = \<lparr>hc_gate = 0, hc_gate_id = 0, hc_order_id = 0, hc_approval_id = 0, hc_approval_at = 0,
     hc_budget = 0, hc_budget_report = 0\<rparr>"

definition demo_risk :: risk_config where
  "demo_risk = default_risk_config\<lparr>rc_max_order_notional := 1000\<rparr>"

definition demo_app :: "approval_mode \<Rightarrow> app_state" where
  "demo_app m = with_live_preflight (app_state_new 0 (admin_only ''secret'') demo_risk demo_tools
     (server_opts_default\<lparr>so_approval_mode := m, so_allow_live := True\<rparr>) None)"

definition demo_server :: "approval_mode \<Rightarrow> server" where
  "demo_server m = \<lparr>sr_app = demo_app m, sr_waiting = Map.empty\<rparr>"

abbreviation demo_step :: "server_event \<Rightarrow> server \<Rightarrow> server option" where
  "demo_step \<equiv> server_step exact_arith demo_from_str (\<lambda>_. Ok demo_request)"

abbreviation demo_runs :: "approval_mode \<Rightarrow> server_event list \<Rightarrow> server \<Rightarrow> bool" where
  "demo_runs m \<equiv> server_run exact_arith demo_from_str (\<lambda>_. Ok demo_request) (demo_server m)"

definition demo_buy :: trade_order where
  "demo_buy = \<lparr>o_id = ''hook-0'', o_asset = asset_symbol ''NVDA'', o_side = Buy, o_qty = 20,
     o_limit_price = Some 50, o_max_slippage = 0, o_venue = RobinhoodMcp,
     o_reason = [Lit ''agent tool call: '', Lit ''place'']\<rparr>"

text \<open>The order passes the gate of the demonstration server.\<close>

lemma demo_order_passes:
  "check exact_arith demo_risk demo_buy (hook_context demo_request 0) = Some (Ok ())"
  by (simp add: check_def demo_risk_def default_risk_config_def demo_buy_def hook_context_def
      demo_request_def entry_limits_def cooldown_reject_def resulting_fraction_def Let_def
      portfolio_new_def position_def open_position_count_def open_positions_def exact_arith_def)

lemma demo_evaluate:
  "evaluate exact_arith demo_from_str 0 (hook_gate_new demo_tools demo_risk)
     (hr_call demo_request) (hook_context demo_request 0) = Some Allow"
  using demo_order_passes
  by (simp add: evaluate_def evaluate_order_def hook_gate_new_def demo_tools_def classify_from_pairs
      demo_request_def demo_parse demo_buy_def [symmetric])

lemmas demo_server_simps = demo_app_def demo_server_def app_state_new_def with_live_preflight_def
  server_opts_default_def admin_only_def

lemma demo_hook_manual:
  assumes "ct_risk (sv_control st) = demo_risk" "ct_allowlist (sv_control st) = demo_tools"
    and "ct_approval_mode (sv_control st) = Manual"
  shows "hook_begin exact_arith demo_from_str (\<lambda>_. Ok demo_request) Operator body demo_clock st
    = (let (i, aps) = enqueue 0 0 ''place'' demo_buy (sv_approvals st)
       in Some (Held i demo_buy None, st\<lparr>sv_approvals := aps\<rparr>))"
  using assms demo_evaluate demo_parse
  by (simp add: hook_begin_def demo_clock_def caller_require_def Let_def classify_from_pairs demo_tools_def
      demo_request_def demo_buy_def)

lemma demo_hook_auto:
  assumes "ct_risk (sv_control st) = demo_risk" "ct_allowlist (sv_control st) = demo_tools"
    and "ct_approval_mode (sv_control st) = Auto"
    and "sv_caps st = budget_caps_default" "\<not> sb_breached (sv_budget st)"
  shows "\<exists>st'. hook_begin exact_arith demo_from_str (\<lambda>_. Ok demo_request) Operator body demo_clock st
    = Some (Answered (Ok Allow), st')"
  using assms demo_evaluate demo_parse
  by (simp add: hook_begin_def demo_clock_def caller_require_def Let_def classify_from_pairs demo_tools_def
      demo_request_def hook_finish_def try_record_def budget_caps_default_def exact_arith_def)

section \<open>Properties\<close>

text \<open>
  C12. What the server allows has been checked and counted. When the hook endpoint answers
  allow for a tool that places orders, the caller is at least an operator, approvals are
  automatic, the arguments parse to an order the risk gate admits in the configuration of
  that moment, and the session budget was not latched, has counted this order and is still
  within its caps.
\<close>

theorem allowed_order_is_gated_and_budgeted:
  assumes "hook_begin A fs fv caller body clk st = Some (Answered (Ok Allow), st')"
    and "fv body = Ok req"
    and "classify (ct_allowlist (sv_control st)) (tc_name (hr_call req)) = Some PlaceOrder"
  shows "caller \<noteq> Viewer \<and> ct_approval_mode (sv_control st) = Auto
    \<and> (\<exists>ord. parse_order A fs (hc_order_id clk) (tc_name (hr_call req)) (tc_arguments (hr_call req)) 0
              = Some (Ok ord)
         \<and> admissible A (ct_risk (sv_control st)) ord (hook_context req (hc_gate clk)))
    \<and> \<not> sb_breached (sv_budget st) \<and> sb_orders_used (sv_budget st') = sb_orders_used (sv_budget st) + 1
    \<and> (0 < bc_max_orders (sv_caps st) \<longrightarrow> sb_orders_used (sv_budget st') \<le> bc_max_orders (sv_caps st))
    \<and> (0 < bc_max_notional (sv_caps st) \<longrightarrow>
         sb_notional_used (sv_budget st') \<le> bc_max_notional (sv_caps st))"
proof -
  obtain ord where ord: "caller \<noteq> Viewer"
    "parse_order A fs (hc_order_id clk) (tc_name (hr_call req)) (tc_arguments (hr_call req)) 0 = Some (Ok ord)"
    "admissible A (ct_risk (sv_control st)) ord (hook_context req (hc_gate clk))"
    "ct_approval_mode (sv_control st) = Auto"
    "hook_finish A ord (hr_ref_price req) (hc_budget clk) (hc_budget_report clk) st = Some (Allow, st')"
    using hook_begin_gated [OF assms] by auto
  from hook_finish_Allow [OF ord(5)] obtain notional where
    "try_record A (sv_caps st) (sv_budget st) (hc_budget clk) (hc_budget_report clk) notional
       = Some (Ok (), sv_budget st')" by blast
  from try_record_Ok [OF this] ord show ?thesis by blast
qed

theorem allowed_order_is_gated_and_budgeted_witness:
  "\<exists>st'. hook_begin exact_arith demo_from_str (\<lambda>_. Ok demo_request) Operator JNull demo_clock (demo_app Auto)
      = Some (Answered (Ok Allow), st')
    \<and> sb_orders_used (sv_budget st') = 1"
proof -
  have "\<exists>st'. hook_begin exact_arith demo_from_str (\<lambda>_. Ok demo_request) Operator JNull demo_clock (demo_app Auto)
      = Some (Answered (Ok Allow), st')"
    by (rule demo_hook_auto) (simp_all add: demo_server_simps session_budget_new_def)
  then obtain st' where h: "hook_begin exact_arith demo_from_str (\<lambda>_. Ok demo_request) Operator JNull demo_clock
      (demo_app Auto) = Some (Answered (Ok Allow), st')" ..
  have "classify (ct_allowlist (sv_control (demo_app Auto))) (tc_name (hr_call demo_request)) = Some PlaceOrder"
    by (simp add: demo_server_simps demo_request_def demo_tools_def classify_from_pairs)
  from allowed_order_is_gated_and_budgeted [OF h refl this]
  have "sb_orders_used (sv_budget st') = 1" by (simp add: demo_server_simps session_budget_new_def)
  with h show ?thesis by blast
qed

lemma server_run_kill:
  assumes "server_run A fs fv s0 es s" and "kill_switch (sv_control (sr_app s0))"
    and "EvKill Admin False (tk_admin (sv_tokens (sr_app s0))) \<notin> set es"
  shows "kill_switch (sv_control (sr_app s))"
  using assms
proof (induction rule: server_run.induct)
  case start
  then show ?case by simp
next
  case (step es s e s')
  then have on: "kill_switch (sv_control (sr_app s))" by simp
  have "sv_tokens (sr_app s) = sv_tokens (sr_app s0)"
    using server_run_fixed [OF step.hyps(1)] by (simp add: fixed_part_def)
  with step.prems have "e \<noteq> EvKill Admin False (tk_admin (sv_tokens (sr_app s)))" by auto
  with server_step_kill [OF step.hyps(3) on] show ?case by blast
qed


lemma demo_run_step:
  assumes "demo_runs m es s" "aps_seq (sv_approvals (sr_app s)) < aps_seq (sv_approvals (sr_app s)) + 1"
    and "demo_step e s = Some s'"
  shows "demo_runs m (es @ [e]) s'"
  using server_run.step assms by blast


text \<open>
  Live mode is armed by nothing but a request that passes every check. A server that
  starts in paper mode is in live mode only after an administrator who re-authenticated
  asked for it and the pre-flight passed, on a server whose configuration allows live mode
  and has a pre-flight; no reload, hook or approval leads there.
\<close>

theorem live_mode_needs_every_check:
  assumes "server_run A fs fv s0 es s" and "ct_mode (sv_control (sr_app s0)) = PaperMode"
    and "ct_mode (sv_control (sr_app s)) = LiveMode"
  shows "EvMode Admin LiveMode (tk_admin (sv_tokens (sr_app s0))) (Inr ()) \<in> set es
    \<and> sv_allow_live (sr_app s0) \<and> sv_has_preflight (sr_app s0)"
  using assms
proof (induction rule: server_run.induct)
  case start
  then show ?case by simp
next
  case (step es s e s')
  show ?case
  proof (cases "ct_mode (sv_control (sr_app s)) = LiveMode")
    case True
    with step.IH step.prems show ?thesis by simp
  next
    case False
    from server_step_mode [OF step.hyps(3) False step.prems(2)] server_run_fixed [OF step.hyps(1)]
    show ?thesis by (simp add: fixed_part_def)
  qed
qed

theorem live_mode_needs_every_check_witness:
  "\<exists>s. demo_runs Auto [EvMode Admin LiveMode ''secret'' (Inr ())] s
     \<and> ct_mode (sv_control (sr_app s)) = LiveMode \<and> sv_allow_live (demo_app Auto)"
proof -
  obtain s where s: "demo_step (EvMode Admin LiveMode ''secret'' (Inr ())) (demo_server Auto) = Some s"
    by simp
  have priv: "privileged Admin ''secret'' (demo_app Auto) = Ok ()"
    by (simp add: privileged_Ok demo_server_simps)
  have arm: "arm_check LiveMode (Inr ()) (demo_app Auto) = Ok ()"
    by (simp add: arm_check_def demo_server_simps)
  have paper: "ct_mode (sv_control (sr_app (demo_server Auto))) = PaperMode" by (simp add: demo_server_simps)
  then have live: "ct_mode (sv_control (sr_app s)) = LiveMode"
    using s by (auto simp: demo_server_def post_mode_def and_then_def priv arm Let_def)
  have run: "demo_runs Auto [EvMode Admin LiveMode ''secret'' (Inr ())] s"
    using demo_run_step [OF server_run.start _ s]
    by (simp add: demo_server_simps approval_store_new_def word_less_nat_alt)
  from live_mode_needs_every_check [OF run paper live] run live show ?thesis
    by (auto simp: demo_server_def)
qed

lemma resume_hook_Allow:
  assumes "resume_hook A i timed_out t1 t2 s = Some (Some Allow, s')"
  obtains ord r where "aps_channels (sv_approvals (sr_app s)) i = Some Approved"
    "hook_finish A ord r t1 t2 (sr_app s) = Some (Allow, sr_app s')"
proof -
  from assms obtain ord r cur where
    cur: "aps_channels (sv_approvals (sr_app s)) i = Some cur"
      "ticket_poll (i \<notin> ap_id ` set (aps_entries (sv_approvals (sr_app s)))) timed_out cur = Some Approved"
    and "hook_finish A ord r t1 t2 (sr_app s) = Some (Allow, sr_app s')"
    by (auto simp: resume_hook_def Let_def bind_Some_iff hook_resume_def
        split: option.splits approval_state.splits)
  with that poll_Approved [OF cur(2)] show thesis by simp
qed

text \<open>
  C7. A held order is released only by the operator. Whatever requests a server has served
  since it started, a waiting hook that is answered with allow was approved by name, by a
  caller who is not a viewer, and the session budget has counted it within its caps;
  reloads, resets, the sweeper and timeouts release nothing.
\<close>

theorem held_order_needs_the_operator:
  assumes "server_run A fs fv s0 es s" and "sv_approvals (sr_app s0) = approval_store_new timeout"
    and "resume_hook A i timed_out t1 t2 s = Some (Some Allow, s')"
  shows "(\<exists>caller reason now. caller \<noteq> Viewer \<and> EvApproval caller i ''approve'' reason now \<in> set es)
    \<and> \<not> sb_breached (sv_budget (sr_app s))
    \<and> sb_orders_used (sv_budget (sr_app s')) = sb_orders_used (sv_budget (sr_app s)) + 1
    \<and> (0 < bc_max_orders (sv_caps (sr_app s)) \<longrightarrow>
         sb_orders_used (sv_budget (sr_app s')) \<le> bc_max_orders (sv_caps (sr_app s)))"
proof -
  from assms(3) obtain ord r where a: "aps_channels (sv_approvals (sr_app s)) i = Some Approved"
    "hook_finish A ord r t1 t2 (sr_app s) = Some (Allow, sr_app s')" by (rule resume_hook_Allow)
  from server_run_queue [OF assms(1,2)] obtain ops where
    ops: "approvals_run timeout ops (sv_approvals (sr_app s))"
      "\<forall>now i reason. Decide now i Approved reason \<in> set ops \<longrightarrow>
         (\<exists>caller. caller \<noteq> Viewer \<and> EvApproval caller i ''approve'' reason now \<in> set es)" by blast
  from approved_was_decided [OF ops(1) a(1)] ops(2)
  have "\<exists>caller reason now. caller \<noteq> Viewer \<and> EvApproval caller i ''approve'' reason now \<in> set es"
    by blast
  moreover from hook_finish_Allow [OF a(2)] obtain notional where
    "try_record A (sv_caps (sr_app s)) (sv_budget (sr_app s)) t1 t2 notional
       = Some (Ok (), sv_budget (sr_app s'))" by blast
  ultimately show ?thesis using try_record_Ok by blast
qed

text \<open>
  The release of a held order does not look at the control. Changing the control (the
  kill switch, the mode, the risk limits, the allowlist) while an order waits changes
  nothing of what its hook is answered or of what is recorded.
\<close>

theorem release_ignores_the_control:
  "resume_hook A i timed_out t1 t2 (s\<lparr>sr_app := set_control f (sr_app s)\<rparr>)
     = map_option (\<lambda>(out, s'). (out, s'\<lparr>sr_app := set_control f (sr_app s')\<rparr>))
         (resume_hook A i timed_out t1 t2 s)"
proof -
  have finish: "hook_finish A ord r t1 t2 (set_control f st)
      = map_option (\<lambda>(out, st'). (out, set_control f st')) (hook_finish A ord r t1 t2 st)" for ord r st
    by (cases "case or_else (o_limit_price ord) r of None \<Rightarrow> Some 0 | Some p \<Rightarrow> d_mul A (o_qty ord) p")
      (auto simp: hook_finish_def set_control_def option.map_comp comp_def map_option_bind
        split: prod.split intro!: bind_option_cong)
  have resume: "hook_resume A ord r v t1 t2 (set_control f st)
      = map_option (\<lambda>(out, st'). (out, set_control f st')) (hook_resume A ord r v t1 t2 st)" for ord r v st
    by (simp add: hook_resume_def finish split: approval_state.split)
  show ?thesis
    by (auto simp: resume_hook_def Let_def resume split: option.split Option.bind_split)
qed

text \<open>
  The history of the demonstration: a hook is held, the kill switch is engaged, and the
  operator approves the order.
\<close>

definition demo_id :: string where
  "demo_id = approval_id 0 1"

definition demo_held :: approval_store where
  "demo_held = snd (enqueue 0 0 ''place'' demo_buy (approval_store_new (so_approval_timeout server_opts_default)))"

definition demo_events :: "server_event list" where
  "demo_events = [EvHook Operator JNull demo_clock, EvKill Admin True ''secret'',
     EvApproval Operator demo_id ''approve'' None 5]"

definition demo_final :: server where
  "demo_final = \<lparr>sr_app = (set_control (set_kill True) (demo_app Manual))\<lparr>sv_approvals :=
       snd (decide 5 demo_id Approved None demo_held)\<rparr>, sr_waiting = [demo_id \<mapsto> (demo_buy, None)]\<rparr>"

lemma demo_held_enqueue:
  "enqueue 0 0 ''place'' demo_buy (sv_approvals (demo_app Manual)) = (demo_id, demo_held)"
  by (simp add: demo_held_def demo_id_def enqueue_def Let_def demo_server_simps approval_store_new_def)

lemma demo_decide:
  "\<exists>e. decide 5 demo_id Approved None demo_held = (Ok True, snd (decide 5 demo_id Approved None demo_held))
     \<and> aps_channels (snd (decide 5 demo_id Approved None demo_held)) demo_id = Some Approved
     \<and> find (\<lambda>a. ap_id a = demo_id) (list_approvals (snd (decide 5 demo_id Approved None demo_held))) = Some e"
  by (simp add: demo_held_def demo_id_def demo_approval_simps list_approvals_def terminal_count_def)

lemma demo_history: "demo_runs Manual demo_events demo_final"
proof -
  let ?app = "demo_app Manual"
  let ?s1 = "\<lparr>sr_app = ?app\<lparr>sv_approvals := demo_held\<rparr>, sr_waiting = [demo_id \<mapsto> (demo_buy, None)]\<rparr>"
  let ?s2 = "\<lparr>sr_app = (set_control (set_kill True) ?app)\<lparr>sv_approvals := demo_held\<rparr>,
    sr_waiting = [demo_id \<mapsto> (demo_buy, None)]\<rparr>"
  have ctl: "ct_risk (sv_control ?app) = demo_risk" "ct_allowlist (sv_control ?app) = demo_tools"
    "ct_approval_mode (sv_control ?app) = Manual" by (simp_all add: demo_server_simps)
  have seq: "aps_seq (sv_approvals ?app) = 0" "aps_seq demo_held = 1"
    by (simp_all add: demo_server_simps approval_store_new_def demo_held_def enqueue_def Let_def)
  have step1: "demo_step (EvHook Operator JNull demo_clock) (demo_server Manual) = Some ?s1"
    by (simp add: demo_server_def demo_hook_manual [OF ctl] demo_held_enqueue)
  have run1: "demo_runs Manual ([] @ [EvHook Operator JNull demo_clock]) ?s1"
    by (rule demo_run_step [OF server_run.start _ step1])
      (simp add: demo_server_def seq word_less_nat_alt)
  have priv: "privileged Admin ''secret'' (?app\<lparr>sv_approvals := demo_held\<rparr>) = Ok ()"
    by (simp add: privileged_Ok demo_server_simps)
  have step2: "demo_step (EvKill Admin True ''secret'') ?s1 = Some ?s2"
    by (simp add: post_kill_def priv Let_def set_control_def)
  have run2: "demo_runs Manual (([] @ [EvHook Operator JNull demo_clock]) @ [EvKill Admin True ''secret'']) ?s2"
    by (rule demo_run_step [OF run1 _ step2]) (simp add: seq word_less_nat_alt)
  have step3: "demo_step (EvApproval Operator demo_id ''approve'' None 5) ?s2 = Some demo_final"
  proof -
    from demo_decide obtain aps e where "decide 5 demo_id Approved None demo_held = (Ok True, aps)"
      "find (\<lambda>a. ap_id a = demo_id) (list_approvals aps) = Some e" by force
    then show ?thesis
      by (simp add: demo_final_def post_approval_def caller_require_def decision_target_def)
  qed
  have "demo_runs Manual ((([] @ [EvHook Operator JNull demo_clock]) @ [EvKill Admin True ''secret''])
      @ [EvApproval Operator demo_id ''approve'' None 5]) demo_final"
    by (rule demo_run_step [OF run2 _ step3]) (simp add: seq word_less_nat_alt)
  then show ?thesis by (simp add: demo_events_def)
qed

lemma demo_release:
  "\<exists>s'. resume_hook exact_arith demo_id False 6 6 demo_final = Some (Some Allow, s')"
  using demo_decide
  by (auto simp: resume_hook_def demo_final_def Let_def ticket_poll_def is_terminal_def hook_resume_def
      hook_finish_def try_record_def exact_arith_def demo_buy_def set_control_def demo_server_simps
      budget_caps_default_def session_budget_new_def)

theorem held_order_needs_the_operator_witness:
  "\<exists>s'. demo_runs Manual demo_events demo_final
    \<and> resume_hook exact_arith demo_id False 6 6 demo_final = Some (Some Allow, s')
    \<and> sb_orders_used (sv_budget (sr_app s')) = 1"
proof -
  from demo_release obtain s' where r: "resume_hook exact_arith demo_id False 6 6 demo_final = Some (Some Allow, s')" ..
  have "sv_approvals (sr_app (demo_server Manual)) = approval_store_new (so_approval_timeout server_opts_default)"
    by (simp add: demo_server_simps)
  from held_order_needs_the_operator [OF demo_history this r] demo_history r show ?thesis
    by (auto simp: demo_final_def demo_server_simps session_budget_new_def)
qed


text \<open>
  The kill switch does not stop an order that is already waiting for approval. There is
  a history in which the kill switch is engaged after a hook was held and before the operator
  approves its order, and the hook is answered with allow while the kill switch is engaged;
  the same call, sent again at that moment, is denied.
\<close>

theorem kill_switch_misses_a_held_order:
  "\<exists>s s'. demo_runs Manual
       [EvHook Operator JNull demo_clock, EvKill Admin True ''secret'',
        EvApproval Operator (approval_id 0 1) ''approve'' None 5] s
     \<and> kill_switch (sv_control (sr_app s))
     \<and> resume_hook exact_arith (approval_id 0 1) False 6 6 s = Some (Some Allow, s')
     \<and> hook_begin exact_arith demo_from_str (\<lambda>_. Ok demo_request) Operator JNull demo_clock (sr_app s)
         = Some (Answered (Ok (Deny [Lit ''risk gate: '', Lit ''kill switch is engaged''])), sr_app s)"
proof -
  from demo_release obtain s' where
    "resume_hook exact_arith (approval_id 0 1) False 6 6 demo_final = Some (Some Allow, s')"
    by (auto simp: demo_id_def)
  moreover have "kill_switch (sv_control (sr_app demo_final))"
    by (simp add: demo_final_def)
  moreover have "hook_begin exact_arith demo_from_str (\<lambda>_. Ok demo_request) Operator JNull demo_clock
      (sr_app demo_final)
    = Some (Answered (Ok (Deny [Lit ''risk gate: '', Lit ''kill switch is engaged''])), sr_app demo_final)"
    using demo_parse
    by (simp add: hook_begin_def caller_require_def demo_clock_def Let_def demo_final_def set_kill_def
        demo_server_simps evaluate_def hook_gate_new_def demo_tools_def classify_from_pairs
        demo_request_def evaluate_order_def check_def show_reject_def)
  ultimately show ?thesis
    using demo_history unfolding demo_events_def demo_id_def by blast
qed

end
