(* ===== verification/Server_Views.thy ===== *)
theory Server_Views
  imports Control_Plane
begin

text \<open>
  The handlers of \<open>crates/server/src/routes.rs\<close> that only look: the activity list, the
  event stream, the metrics page (with the text of \<open>metrics.rs\<close>) and the simulation of a
  swap, whose chain access is an argument, as are the errors of a store that cannot be read.
\<close>

section \<open>The trail\<close>

record activity_view =
  ac_recent :: "audit_event list"
  ac_fills :: nat

definition default_activity_limit :: int where
  "default_activity_limit = 50"

definition clamp :: "int \<Rightarrow> int \<Rightarrow> int \<Rightarrow> int" where
  "clamp lo hi x = (if x < lo then lo else if hi < x then hi else x)"

definition get_activity ::
    "codec \<Rightarrow> message \<Rightarrow> role \<Rightarrow> int option \<Rightarrow> app_state \<Rightarrow> api_error + activity_view"
where
  "get_activity c corrupt caller limit st =
     and_then (caller_require caller Viewer) (\<lambda>_.
     and_then (get_store st) (\<lambda>s.
     let limit = clamp 1 500 (unwrap_or default_activity_limit limit) in
     and_then (ok_or (Internal (Lit ''store: '' # corrupt)) (audit_tail c limit s)) (\<lambda>recent.
     and_then (ok_or (Internal (Lit ''store: '' # corrupt)) (stored_fills c s)) (\<lambda>fills.
     Ok \<lparr>ac_recent = recent, ac_fills = length fills\<rparr>))))"

text \<open>
  One tick of the event stream: the rows that are new since the last one sent, and the number
  of the last one sent after it. A store that is missing or cannot be read sends nothing.
\<close>

definition events_poll :: "codec \<Rightarrow> store option \<Rightarrow> int \<Rightarrow> audit_event list \<times> int" where
  "events_poll c st last_seq =
     (let rows = (case st of None \<Rightarrow> [] | Some s \<Rightarrow> unwrap_or [] (audit_tail c 200 s));
          fresh = filter (\<lambda>r. last_seq < ae_seq r) rows
      in (fresh, if fresh = [] then last_seq else Max (ae_seq ` set fresh)))"

text \<open>The ticks of a stream over the states of the store that they see.\<close>

fun events_stream :: "codec \<Rightarrow> store option list \<Rightarrow> int \<Rightarrow> audit_event list list" where
  "events_stream c [] last_seq = []"
| "events_stream c (s # ss) last_seq =
     (let (fresh, l) = events_poll c s last_seq in fresh # events_stream c ss l)"

definition get_events ::
    "codec \<Rightarrow> role \<Rightarrow> store option list \<Rightarrow> api_error + audit_event list list" where
  "get_events c caller ticks =
     and_then (caller_require caller Viewer) (\<lambda>_. Ok (events_stream c ticks 0))"

section \<open>The metrics page\<close>

definition page_line :: "message \<Rightarrow> message" where
  "page_line m = m @ [Lit newline]"

definition class_name :: "nat \<Rightarrow> string" where
  "class_name i = (if i = 0 then ''1xx'' else if i = 1 then ''2xx'' else if i = 2 then ''3xx''
     else if i = 3 then ''4xx'' else if i = 4 then ''5xx'' else ''other'')"

definition class_line :: "nat \<Rightarrow> u64 \<Rightarrow> message" where
  "class_line i n = page_line [Lit ''sherwood_responses_total{class=\"'', Lit (class_name i), Lit ''\"} '', ShowInt (uint n)]"

definition metrics_render :: "int \<Rightarrow> message \<Rightarrow> metrics \<Rightarrow> message" where
  "metrics_render uptime extra m =
     page_line [Lit ''# HELP sherwood_requests_total HTTP requests handled.'']
     @ page_line [Lit ''# TYPE sherwood_requests_total counter'']
     @ page_line [Lit ''sherwood_requests_total '', ShowInt (uint (mt_requests_total m))]
     @ page_line [Lit ''# HELP sherwood_responses_total HTTP responses by status class.'']
     @ page_line [Lit ''# TYPE sherwood_responses_total counter'']
     @ concat (map (\<lambda>(i, n). class_line i n) (enumerate 0 (mt_by_class m)))
     @ page_line [Lit ''# HELP sherwood_uptime_seconds Seconds since server start.'']
     @ page_line [Lit ''# TYPE sherwood_uptime_seconds gauge'']
     @ page_line [Lit ''sherwood_uptime_seconds '', ShowInt uptime]
     @ extra"

definition gauge :: "string \<Rightarrow> string \<Rightarrow> string \<Rightarrow> piece \<Rightarrow> message" where
  "gauge name help kind v =
     page_line [Lit (''# HELP '' @ name @ '' '' @ help)] @ page_line [Lit (''# TYPE '' @ name @ '' '' @ kind)]
     @ page_line [Lit (name @ '' ''), v]"

definition show_flag :: "bool \<Rightarrow> piece" where
  "show_flag b = ShowInt (if b then 1 else 0)"

definition metrics_page :: "int \<Rightarrow> instant \<Rightarrow> app_state \<Rightarrow> message" where
  "metrics_page uptime now st =
     (let c = sv_control st; b = session_budget_view (sv_caps st) now (sv_budget st) in
      metrics_render uptime
        (gauge ''sherwood_kill_switch'' ''1 if the kill switch is engaged.'' ''gauge'' (show_flag (kill_switch c))
         @ gauge ''sherwood_mode_live'' ''1 if the server is in LIVE mode.'' ''gauge'' (show_flag (ct_mode c = LiveMode))
         @ gauge ''sherwood_approvals_pending'' ''Orders currently awaiting operator approval.'' ''gauge''
             (ShowInt (int (pending_count (sv_approvals st))))
         @ gauge ''sherwood_session_orders_used'' ''Place-orders allowed this session.'' ''counter''
             (ShowInt (uint (bv_orders_used b)))
         @ gauge ''sherwood_session_notional_used'' ''Cumulative notional allowed this session.'' ''gauge''
             (Show (bv_notional_used b))
         @ gauge ''sherwood_session_budget_breached'' ''1 if a per-session budget cap has latched.'' ''gauge''
             (show_flag (bv_breached b)))
        (sv_metrics st))"

section \<open>Simulating a swap\<close>

record dex_request =
  dq_from :: string
  dq_token :: string
  dq_amount_in_raw :: string
  dq_denom :: "string option"
  dq_slippage_bps :: "u32 option"

record dex_outcome =
  dx_token_symbol :: string
  dx_denom_symbol :: string
  dx_pool_fee :: u32
  dx_pool_tick_spacing :: "32 word"
  dx_pool_liquidity :: string
  dx_amount_out_minimum :: string
  dx_calldata_hex :: string
  dx_ok :: bool
  dx_detail :: message

definition post_dex_simulate ::
    "message + dex_outcome \<Rightarrow> role \<Rightarrow> app_state \<Rightarrow> api_error + dex_outcome"
where
  "post_dex_simulate answer caller st =
     and_then (caller_require caller Operator) (\<lambda>_.
     if \<not> sv_has_dex_simulator st
     then Err (NotFoundError [Lit ''dex-simulate is not configured on this server (no [chain] endpoint)''])
     else (case answer of Inl e \<Rightarrow> Err (BadRequest e) | Inr out \<Rightarrow> Ok out))"

section \<open>Reconciling\<close>

record reconcile_request =
  rq_tx_hash :: string
  rq_symbol :: string
  rq_side :: string
  rq_qty :: dec
  rq_price :: dec
  rq_fee :: "dec option"

section \<open>The stream loses nothing that it can see\<close>

text \<open>Events numbered one by one from a base.\<close>

definition numbered :: "nat \<Rightarrow> audit_event list \<Rightarrow> bool" where
  "numbered base es \<longleftrightarrow> map ae_seq es = map int [base + 1 ..< base + 1 + length es]"

lemma numbered_Cons: "numbered base (e # es) \<longleftrightarrow> ae_seq e = int base + 1 \<and> numbered (base + 1) es"
  by (auto simp: numbered_def upt_conv_Cons simp del: upt_Suc)

lemma numbered_drop: "numbered base es \<Longrightarrow> numbered (base + a) (drop a es)"
proof (induction a arbitrary: base es)
  case (Suc a)
  then show ?case by (cases es) (auto simp: numbered_Cons numbered_def [of _ "[]"] dest: Suc.IH)
qed simp

lemma numbered_take: "numbered base es \<Longrightarrow> numbered base (take n es)"
proof (induction n arbitrary: base es)
  case (Suc n)
  then show ?case by (cases es) (auto simp: numbered_Cons)
qed (simp add: numbered_def)

lemma filter_numbered:
  "numbered base es \<Longrightarrow> filter (\<lambda>e. int p < ae_seq e) es = drop (p - base) es"
proof (induction es arbitrary: base)
  case (Cons e es)
  then have IH: "filter (\<lambda>e. int p < ae_seq e) es = drop (p - (base + 1)) es" and e: "ae_seq e = int base + 1"
    by (simp_all add: numbered_Cons)
  show ?case
  proof (cases "p \<le> base")
    case True
    with IH e show ?thesis by simp
  next
    case False
    then have "p - base = Suc (p - (base + 1))" by simp
    with IH e False show ?thesis by simp
  qed
qed simp

lemma Max_numbered:
  assumes "numbered base es" and "es \<noteq> []"
  shows "Max (ae_seq ` set es) = int (base + length es)"
proof -
  have "ae_seq ` set es = int ` {base + 1 ..< base + 1 + length es}"
    using arg_cong [OF assms(1) [unfolded numbered_def], of set] by (simp del: upt_Suc)
  moreover have "Max (int ` {base + 1 ..< base + 1 + length es}) = int (base + length es)"
    using assms(2) by (intro Max_eqI) (auto intro!: image_eqI [of _ _ "base + length es"] simp: Suc_le_eq)
  ultimately show ?thesis by simp
qed

lemma rows_to_events_append:
  "rows_to_events c (xs @ ys) = (case (rows_to_events c xs, rows_to_events c ys) of
     (Some a, Some b) \<Rightarrow> Some (a @ b) | _ \<Rightarrow> None)"
  by (induction xs) (auto simp: bind_eq_None_conv split: Option.bind_split option.split)

lemma rows_to_events_length: "rows_to_events c rows = Some es \<Longrightarrow> length es = length rows"
  by (induction rows arbitrary: es) (auto simp: bind_Some_iff)

lemma rows_to_events_take: "rows_to_events c rows = Some es \<Longrightarrow> rows_to_events c (take n rows) = Some (take n es)"
proof (induction n arbitrary: rows es)
  case (Suc n)
  then show ?case by (cases rows) (auto simp: bind_Some_iff)
qed simp

lemma rows_to_events_drop: "rows_to_events c rows = Some es \<Longrightarrow> rows_to_events c (drop n rows) = Some (drop n es)"
proof (induction n arbitrary: rows es)
  case (Suc n)
  then show ?case by (cases rows) (auto simp: bind_Some_iff)
qed simp

lemma audit_tail_prefix:
  assumes "audit_rows s = take n rows" and "n \<le> length rows" and "rows_to_events c rows = Some es"
  shows "audit_tail c (int k) s = Some (drop (n - k) (take n es))"
proof -
  have "rev (take k (rev (take n rows))) = drop (n - k) (take n rows)"
    using assms(2) rev_take [of k "rev (take n rows)"] by (simp add: min_absorb2)
  then show ?thesis
    using rows_to_events_drop [OF rows_to_events_take [OF assms(3)]] by (simp add: audit_tail_def assms(1) Let_def)
qed

lemma events_poll_new:
  assumes "audit_rows s = take n rows" and "n \<le> length rows" and "rows_to_events c rows = Some es"
    and "numbered 0 es" and "p \<le> n"
  shows "events_poll c (Some s) (int p) = (drop (max p (n - 200)) (take n es), int n)"
proof -
  have len: "length es = length rows" using rows_to_events_length [OF assms(3)] .
  have tail: "audit_tail c 200 s = Some (drop (n - 200) (take n es))"
    using audit_tail_prefix [OF assms(1-3), of 200] by simp
  have num: "numbered (n - 200) (drop (n - 200) (take n es))"
    using numbered_drop [OF numbered_take [OF assms(4)], of "n - 200" n] by simp
  have fresh: "filter (\<lambda>e. int p < ae_seq e) (drop (n - 200) (take n es)) = drop (max p (n - 200)) (take n es)"
    by (simp add: filter_numbered [OF num] max_def)
  show ?thesis
  proof (cases "drop (max p (n - 200)) (take n es) = []")
    case True
    then have "n = p" using assms(2,5) len by (auto simp: max_def split: if_splits)
    with True fresh show ?thesis by (simp add: events_poll_def tail unwrap_or_def Let_def)
  next
    case False
    have "numbered (max p (n - 200)) (drop (max p (n - 200)) (take n es))"
      using numbered_drop [OF numbered_take [OF assms(4)], of "max p (n - 200)" n] by simp
    from Max_numbered [OF this False]
    have "Max (ae_seq ` set (drop (max p (n - 200)) (take n es))) = int n"
      using assms(2,5) len by (simp add: max_def split: if_splits)
    with False fresh show ?thesis by (simp add: events_poll_def tail unwrap_or_def Let_def)
  qed
qed

lemma last_of_growing: "successively (\<lambda>m n :: nat. m \<le> n \<and> n \<le> m + 200) (n # ns) \<Longrightarrow> n \<le> List.last (n # ns)"
proof (induction ns arbitrary: n)
  case (Cons k ks)
  then show ?case by fastforce
qed simp

lemma drop_take_split:
  assumes "p \<le> m" and "m \<le> l" and "m \<le> length es"
  shows "drop p (take l es) = drop p (take m es) @ drop m (take l es)"
proof -
  have "take l es = take m es @ drop m (take l es)"
    using assms(2) append_take_drop_id [of m "take l es"] by (simp add: min_absorb1)
  moreover have "p \<le> length (take m es)" using assms by simp
  ultimately show ?thesis by (metis drop_append drop0 diff_is_0_eq)
qed

text \<open>
  C24. The event stream delivers every event once. While the log grows between the polls of a
  connection, by at most 200 rows each time, the events sent, one poll after the other, are the
  rows of the log from 200 before the first poll on, in order, none missing and none twice.
\<close>

theorem event_stream_is_gapless:
  assumes "rows_to_events c rows = Some es" and "numbered 0 es"
    and "list_all2 (\<lambda>s n. audit_rows s = take n rows \<and> n \<le> length rows) stores (n # ns)"
    and "successively (\<lambda>m n. m \<le> n \<and> n \<le> m + 200) (n # ns)"
  shows "concat (events_stream c (map Some stores) 0) = drop (n - 200) (take (List.last (n # ns)) es)"
proof -
  have later: "concat (events_stream c (map Some ss) (int p)) = drop p (take (List.last (p # ms)) es)"
    if "list_all2 (\<lambda>s n. audit_rows s = take n rows \<and> n \<le> length rows) ss ms"
      and "successively (\<lambda>m n. m \<le> n \<and> n \<le> m + 200) (p # ms)" for p ss ms
    using that
  proof (induction ms arbitrary: p ss rule: list.induct)
    case (Cons m ms)
    then obtain s ss' where ss: "ss = s # ss'" and s: "audit_rows s = take m rows" "m \<le> length rows"
      and rest: "list_all2 (\<lambda>s n. audit_rows s = take n rows \<and> n \<le> length rows) ss' ms"
      by (auto simp: list_all2_Cons2)
    from Cons.prems(2) have pm: "p \<le> m" "m \<le> p + 200"
      and succ: "successively (\<lambda>m n. m \<le> n \<and> n \<le> m + 200) (m # ms)" by auto
    have "max p (m - 200) = p" using pm by simp
    then have poll: "events_poll c (Some s) (int p) = (drop p (take m es), int m)"
      using events_poll_new [OF s assms(1,2) pm(1)] by simp
    have "m \<le> List.last (m # ms)" using succ by (rule last_of_growing)
    moreover have "m \<le> length es" using s(2) rows_to_events_length [OF assms(1)] by simp
    ultimately have "drop p (take (List.last (m # ms)) es) = drop p (take m es) @ drop m (take (List.last (m # ms)) es)"
      using pm(1) by (intro drop_take_split)
    with Cons.IH [OF rest succ] poll show ?case by (simp add: ss)
  qed (use rows_to_events_length [OF assms(1)] in simp)
  from assms(3) obtain s ss where stores: "stores = s # ss" and s: "audit_rows s = take n rows" "n \<le> length rows"
    and rest: "list_all2 (\<lambda>s n. audit_rows s = take n rows \<and> n \<le> length rows) ss ns"
    by (auto simp: list_all2_Cons2)
  from events_poll_new [OF s assms(1,2), of 0] have poll: "events_poll c (Some s) 0 = (drop (n - 200) (take n es), int n)"
    by simp
  have "n \<le> List.last (n # ns)" using assms(4) by (rule last_of_growing)
  moreover have "n \<le> length es" using s(2) rows_to_events_length [OF assms(1)] by simp
  ultimately have "drop (n - 200) (take (List.last (n # ns)) es)
      = drop (n - 200) (take n es) @ drop n (take (List.last (n # ns)) es)"
    by (intro drop_take_split) simp_all
  with later [OF rest assms(4)] poll show ?thesis by (simp add: stores)
qed

definition demo_row :: "int \<Rightarrow> audit_row" where
  "demo_row n = \<lparr>au_seq = n, au_at = [], au_kind = ''fill'', au_data = ''{}'', au_prev_hash = [], au_hash = []\<rparr>"

definition demo_log :: "audit_row list \<Rightarrow> store" where
  "demo_log rows = \<lparr>st_snapshots = [], st_fills = [], st_audit = rows\<rparr>"

theorem event_stream_is_gapless_witness:
  "map ae_seq (concat (events_stream demo_codec
     [Some (demo_log [demo_row 1]), Some (demo_log [demo_row 1, demo_row 2, demo_row 3])] 0)) = [1, 2, 3]"
proof -
  let ?rows = "[demo_row 1, demo_row 2, demo_row 3]"
  obtain es where es: "rows_to_events demo_codec ?rows = Some es" and seqs: "map ae_seq es = [1, 2, 3]" "length es = 3"
    by (simp add: row_to_event_def demo_codec_def demo_row_def)
  have num: "numbered 0 es" using seqs by (simp add: numbered_def numeral_eq_Suc)
  have "list_all2 (\<lambda>s n. audit_rows s = take n ?rows \<and> n \<le> length ?rows) [demo_log [demo_row 1], demo_log ?rows] [1, 3]"
    by (simp add: demo_log_def audit_rows_def demo_row_def numeral_eq_Suc)
  from event_stream_is_gapless [OF es num this] seqs show ?thesis by simp
qed

end
