(* ===== verification/Lines.thy ===== *)
theory Lines
  imports Text_Ops
begin

text \<open>
  Splitting texts into lines and fields, as the standard library does it, and the texts that
  trimming leaves alone.
\<close>

section \<open>Lines and fields\<close>

text \<open>\<open>str::lines\<close>: split at newlines, a final empty line dropped, a carriage return at the end cut.\<close>

fun split_on :: "char \<Rightarrow> string \<Rightarrow> string list" where
  "split_on c [] = [[]]"
| "split_on c (x # xs) = (if x = c then [] # split_on c xs
     else (case split_on c xs of [] \<Rightarrow> [[x]] | f # fs \<Rightarrow> (x # f) # fs))"

definition newline_char :: char where
  "newline_char = CHR 0x0A"

definition cut_return :: "string \<Rightarrow> string" where
  "cut_return s = (if s \<noteq> [] \<and> List.last s = CHR 0x0D then butlast s else s)"

definition text_lines :: "string \<Rightarrow> string list" where
  "text_lines s = (let ls = split_on newline_char s in
     map cut_return (if List.last ls = [] then butlast ls else ls))"

section \<open>Lemmas\<close>

lemma split_on_no: "c \<notin> set s \<Longrightarrow> split_on c s = [s]"
  by (induction s) auto

lemma split_on_append: "c \<notin> set a \<Longrightarrow> split_on c (a @ c # b) = a # split_on c b"
  by (induction a) auto

lemma split_on_not_Nil [simp]: "split_on c s \<noteq> []"
  by (induction s) (auto split: list.split)

lemma split_on_inject: "split_on c a = split_on c b \<Longrightarrow> a = b"
proof (induction a arbitrary: b)
  case Nil
  then have "split_on c b = [[]]" by simp
  then show ?case by (cases b) (auto split: if_splits list.splits)
next
  case (Cons x xs)
  have "split_on c (x # xs) \<noteq> [[]]" by (auto split: list.split)
  with Cons.prems obtain y ys where b: "b = y # ys" by (cases b) auto
  obtain f fs where xs: "split_on c xs = f # fs" using split_on_not_Nil by (cases "split_on c xs") blast+
  obtain g gs where ys: "split_on c ys = g # gs" using split_on_not_Nil by (cases "split_on c ys") blast+
  from Cons.prems b xs ys have "x = y \<and> split_on c xs = split_on c ys" by (auto split: if_splits)
  with Cons.IH b show ?case by blast
qed

lemma split_on_lines:
  "\<forall>r \<in> set rows. c \<notin> set r \<Longrightarrow> split_on c (concat (map (\<lambda>r. r @ [c]) rows)) = rows @ [[]]"
  by (induction rows) (simp_all add: split_on_append)

lemma text_lines_rows:
  assumes "\<forall>r \<in> set rows. newline_char \<notin> set r \<and> CHR 0x0D \<notin> set r"
  shows "text_lines (concat (map (\<lambda>r. r @ [newline_char]) rows)) = rows"
proof -
  have "cut_return r = r" if "r \<in> set rows" for r
  proof (cases "r = []")
    case False
    then have "List.last r \<noteq> CHR 0x0D" using assms that last_in_set [of r] by metis
    then show ?thesis by (simp add: cut_return_def)
  qed (simp add: cut_return_def)
  then have "map cut_return rows = rows" by (simp add: map_idI)
  with assms show ?thesis by (simp add: text_lines_def split_on_lines Let_def)
qed

text \<open>Trimming leaves a text alone that begins and ends with a visible ASCII character.\<close>

definition visible :: "char \<Rightarrow> bool" where
  "visible c \<longleftrightarrow> 33 \<le> (of_char c :: nat) \<and> (of_char c :: nat) < 127"

lemma ws_not_visible: "w \<in> set ws_chars \<Longrightarrow> w \<noteq> [] \<and> \<not> visible (hd w) \<and> \<not> visible (List.last w)"
  by (auto simp: ws_chars_def visible_def)

lemma strip_front_same:
  assumes "\<And>w. w \<in> set ws \<Longrightarrow> s \<noteq> [] \<Longrightarrow> w \<noteq> [] \<and> hd w \<noteq> hd s"
  shows "strip_front ws s = s"
proof -
  have "\<not> (w \<noteq> [] \<and> starts_with s w)" if "w \<in> set ws" for w
  proof (cases "s = []")
    case True
    then show ?thesis by (auto simp: starts_with_def)
  next
    case False
    with assms [OF that] show ?thesis
      by (cases w; cases s) (auto simp: starts_with_def)
  qed
  then have "find (\<lambda>w. w \<noteq> [] \<and> starts_with s w) ws = None" by (auto simp: find_None_iff)
  then show ?thesis by (subst strip_front.simps) simp
qed

lemma trim_visible:
  assumes "s = [] \<or> visible (hd s) \<and> visible (List.last s)"
  shows "trim s = s"
proof -
  have "strip_front ws_chars s = s"
    using assms ws_not_visible by (intro strip_front_same) metis
  moreover have "strip_front (map rev ws_chars) (rev s) = rev s"
  proof (rule strip_front_same)
    fix w assume "w \<in> set (map rev ws_chars)" "rev s \<noteq> []"
    then obtain v where "v \<in> set ws_chars" "w = rev v" "s \<noteq> []" by auto
    with assms ws_not_visible [of v] show "w \<noteq> [] \<and> hd w \<noteq> hd (rev s)" by (auto simp: hd_rev)
  qed
  ultimately show ?thesis by (simp add: trim_def trim_start_def trim_end_def)
qed

end
