(* ===== verification/Server_Http.thy ===== *)
theory Server_Http
  imports Server_Run Server_Views Lines "HOL-Library.Sublist"
begin

text \<open>
  The HTTP side of the control plane: \<open>router\<close> of \<open>crates/server/src/lib.rs\<close> with its
  layers (\<open>mw.rs\<close>, \<open>require_auth\<close> of \<open>auth.rs\<close>), from a request to the handler that
  answers it. The framework is outside: what it decodes from a body or refuses it with, what
  it answers when no route matches, and percent-decoding are arguments; it calls a GET handler
  for HEAD too, and its CORS layer answers OPTIONS itself. A path matches a route when the
  segments agree, a parameter standing for one that is not empty.
\<close>

section \<open>Routes\<close>

datatype http_method = GET | HEAD | POST | OPTIONS | OtherMethod string

datatype endpoint =
    EpHealth | EpMetrics | EpControl | EpPortfolio | EpActivity | EpAuditVerify | EpEvents
  | EpApprovals | EpApproval | EpSession | EpSessionReset | EpConfigReload | EpPreToolUse
  | EpMode | EpKill | EpRoute | EpDexSimulate | EpReconcile | EpGetConfig | EpPostConfig

type_synonym routes = "(string \<times> (http_method \<times> endpoint) list) list"

definition open_routes :: routes where
  "open_routes = [
     (''/v1/health'', [(GET, EpHealth)]),
     (''/v1/metrics'', [(GET, EpMetrics)])]"

definition protected_routes :: routes where
  "protected_routes = [
     (''/v1/control'', [(GET, EpControl)]),
     (''/v1/portfolio'', [(GET, EpPortfolio)]),
     (''/v1/activity'', [(GET, EpActivity)]),
     (''/v1/audit/verify'', [(GET, EpAuditVerify)]),
     (''/v1/events'', [(GET, EpEvents)]),
     (''/v1/approvals'', [(GET, EpApprovals)]),
     (''/v1/approvals/{id}'', [(POST, EpApproval)]),
     (''/v1/session'', [(GET, EpSession)]),
     (''/v1/session/reset'', [(POST, EpSessionReset)]),
     (''/v1/config/reload'', [(POST, EpConfigReload)]),
     (''/v1/hook/pretooluse'', [(POST, EpPreToolUse)]),
     (''/v1/mode'', [(POST, EpMode)]),
     (''/v1/kill'', [(POST, EpKill)]),
     (''/v1/route'', [(POST, EpRoute)]),
     (''/v1/dex/simulate'', [(POST, EpDexSimulate)]),
     (''/v1/reconcile'', [(POST, EpReconcile)]),
     (''/v1/config'', [(GET, EpGetConfig), (POST, EpPostConfig)])]"

definition is_param :: "string \<Rightarrow> bool" where
  "is_param seg = (take 1 seg = ''{'')"

fun match_segments :: "string list \<Rightarrow> string list \<Rightarrow> string list option" where
  "match_segments [] [] = Some []"
| "match_segments (p # ps) (x # xs) =
     (if is_param p then (if x = [] then None else map_option ((#) x) (match_segments ps xs))
      else if p = x then match_segments ps xs else None)"
| "match_segments _ _ = None"

definition match_path :: "string \<Rightarrow> string \<Rightarrow> string list option" where
  "match_path pattern path = match_segments (split_on CHR ''/'' pattern) (split_on CHR ''/'' path)"

definition method_serves :: "http_method \<Rightarrow> http_method \<Rightarrow> bool" where
  "method_serves m got = (got = m \<or> m = GET \<and> got = HEAD)"

text \<open>The first route whose path matches, with its handler for the method, if it has one.\<close>

fun lookup_route :: "routes \<Rightarrow> http_method \<Rightarrow> string \<Rightarrow> (endpoint \<times> string list) option" where
  "lookup_route [] m path = None"
| "lookup_route ((pattern, handlers) # rest) m path = (case match_path pattern path of
       Some params \<Rightarrow> map_option (\<lambda>h. (snd h, params)) (find (\<lambda>h. method_serves (fst h) m) handlers)
     | None \<Rightarrow> lookup_route rest m path)"

section \<open>Requests and responses\<close>

record http_request =
  hq_method :: http_method
  hq_path :: string
  hq_query :: string
  hq_authorization :: "string option"
  hq_body :: string

text \<open>What the framework makes of a body or a query; the left side is the status of its refusal.\<close>

record decoders =
  dc_query :: "string \<Rightarrow> u16 + int option"
  dc_json :: "string \<Rightarrow> u16 + json"
  dc_reauth :: "string \<Rightarrow> u16 + string"
  dc_mode :: "string \<Rightarrow> u16 + server_mode \<times> string"
  dc_kill :: "string \<Rightarrow> u16 + bool \<times> string"
  dc_config :: "string \<Rightarrow> u16 + string \<times> string"
  dc_decision :: "string \<Rightarrow> u16 + string \<times> string option"
  dc_route :: "string \<Rightarrow> u16 + dec"
  dc_dex :: "string \<Rightarrow> u16 + dex_request"
  dc_reconcile :: "string \<Rightarrow> u16 + reconcile_request"

datatype response_body =
    HealthBody health_view | PageBody message | ControlBody control_view | PortfolioBody portfolio_view
  | ActivityBody activity_view | AuditBody audit_verify_view | EventsBody "audit_event list list"
  | ApprovalsBody approvals_view | ApprovalBody approval | SessionBody budget_view | ReloadBody reload_view
  | WrittenBody reload_view | ConfigBody string | HookBody hook_outcome | RouteBody route_view
  | DexBody dex_outcome | ReconcileBody reconcile_view | ErrorBody api_error | FrameworkBody

record response =
  rs_status :: u16
  rs_body :: response_body

definition refusal :: "api_error \<Rightarrow> response" where
  "refusal e = \<lparr>rs_status = error_status e, rs_body = ErrorBody e\<rparr>"

definition framework_reply :: "u16 \<Rightarrow> response" where
  "framework_reply status = \<lparr>rs_status = status, rs_body = FrameworkBody\<rparr>"

definition respond :: "('a \<Rightarrow> response_body) \<Rightarrow> api_error + 'a \<Rightarrow> response" where
  "respond body r = (case r of Inl e \<Rightarrow> refusal e | Inr v \<Rightarrow> \<lparr>rs_status = 200, rs_body = body v\<rparr>)"

text \<open>The packages, and what the world answers while a request is handled.\<close>

record packages =
  pk_arith :: arith
  pk_sha :: "string \<Rightarrow> string"
  pk_codec :: codec
  pk_from_str :: "string \<Rightarrow> dec option"
  pk_hook_request :: "json \<Rightarrow> message + hook_request"
  pk_decoders :: decoders
  pk_percent_decode :: "string \<Rightarrow> string"
  pk_corrupt :: message

record world =
  wd_limit_at :: instant
  wd_limit_again :: instant
  wd_clock :: hook_clock
  wd_now :: instant
  wd_now_view :: instant
  wd_uptime :: int
  wd_preflight :: "string + unit"
  wd_fresh :: "message + reloaded"
  wd_config_read :: "string \<Rightarrow> message + string"
  wd_config_parsed :: "message + (message + unit)"
  wd_config_written :: "message option"
  wd_dex :: "dex_request \<Rightarrow> message + dex_outcome"
  wd_reconciled :: "reconcile_request \<Rightarrow> message + reconcile_outcome"
  wd_db :: "store_call \<Rightarrow> string option"
  wd_event_ticks :: "store option list"
  wd_fallback :: u16

section \<open>Handlers\<close>

text \<open>A handler is done with its response, or the hook waits for the operator.\<close>

datatype handled =
    Done response
  | Parked string trade_order "dec option"

type_synonym outcome = "(handled \<times> app_state) option"

definition answered :: "response \<Rightarrow> app_state \<Rightarrow> outcome" where
  "answered r st = Some (Done r, st)"

definition changed :: "('a \<Rightarrow> response_body) \<Rightarrow> (api_error + 'a) \<times> app_state \<Rightarrow> outcome" where
  "changed body r = Some (Done (respond body (fst r)), snd r)"

text \<open>The handler sees the decoded body, or the framework refuses it before.\<close>

definition with_body :: "u16 + 'a \<Rightarrow> app_state \<Rightarrow> ('a \<Rightarrow> outcome) \<Rightarrow> outcome" where
  "with_body decoded st k = (case decoded of
       Inl status \<Rightarrow> answered (framework_reply status) st
     | Inr v \<Rightarrow> k v)"

definition run_open :: "world \<Rightarrow> endpoint \<Rightarrow> app_state \<Rightarrow> response" where
  "run_open w ep st = (if ep = EpHealth then respond HealthBody (Ok (health (wd_now w) st))
     else respond PageBody (Ok (metrics_page (wd_uptime w) (wd_now w) st)))"

fun run_endpoint ::
    "packages \<Rightarrow> world \<Rightarrow> endpoint \<Rightarrow> role \<Rightarrow> string list \<Rightarrow> http_request \<Rightarrow> app_state \<Rightarrow> outcome"
where
  "run_endpoint P w EpControl caller ps rq st = answered (respond ControlBody (get_control caller st)) st"
| "run_endpoint P w EpPortfolio caller ps rq st = answered (respond PortfolioBody (get_portfolio caller st)) st"
| "run_endpoint P w EpActivity caller ps rq st =
     with_body (dc_query (pk_decoders P) (hq_query rq)) st (\<lambda>limit.
       answered (respond ActivityBody (get_activity (pk_codec P) (pk_corrupt P) caller limit st)) st)"
| "run_endpoint P w EpAuditVerify caller ps rq st =
     answered (respond AuditBody (get_audit_verify (pk_sha P) caller st)) st"
| "run_endpoint P w EpEvents caller ps rq st =
     answered (respond EventsBody (get_events (pk_codec P) caller (wd_event_ticks w))) st"
| "run_endpoint P w EpApprovals caller ps rq st = answered (respond ApprovalsBody (get_approvals caller st)) st"
| "run_endpoint P w EpApproval caller ps rq st =
     with_body (dc_decision (pk_decoders P) (hq_body rq)) st (\<lambda>(d, reason).
       changed ApprovalBody (post_approval caller (pk_percent_decode P (concat ps)) d reason (wd_now w) st))"
| "run_endpoint P w EpSession caller ps rq st = answered (respond SessionBody (get_session (wd_now w) caller st)) st"
| "run_endpoint P w EpSessionReset caller ps rq st =
     with_body (dc_reauth (pk_decoders P) (hq_body rq)) st (\<lambda>reauth.
       changed SessionBody (post_session_reset caller reauth (wd_now w) (wd_now_view w) st))"
| "run_endpoint P w EpConfigReload caller ps rq st =
     with_body (dc_reauth (pk_decoders P) (hq_body rq)) st (\<lambda>reauth.
       changed ReloadBody (post_config_reload caller reauth (wd_fresh w) st))"
| "run_endpoint P w EpPreToolUse caller ps rq st =
     with_body (dc_json (pk_decoders P) (hq_body rq)) st (\<lambda>body. do {
       (progress, st') \<leftarrow> hook_begin (pk_arith P) (pk_from_str P) (pk_hook_request P) caller body (wd_clock w) st;
       Some (case progress of
           Answered r \<Rightarrow> Done (respond HookBody r)
         | Held i ord ref_price \<Rightarrow> Parked i ord ref_price, st') })"
| "run_endpoint P w EpMode caller ps rq st =
     with_body (dc_mode (pk_decoders P) (hq_body rq)) st (\<lambda>(mode, reauth).
       changed ControlBody (post_mode caller mode reauth (wd_preflight w) st))"
| "run_endpoint P w EpKill caller ps rq st =
     with_body (dc_kill (pk_decoders P) (hq_body rq)) st (\<lambda>(engage, reauth).
       changed ControlBody (post_kill caller engage reauth st))"
| "run_endpoint P w EpRoute caller ps rq st =
     with_body (dc_route (pk_decoders P) (hq_body rq)) st (\<lambda>notional.
       answered (respond RouteBody (post_route caller notional st)) st)"
| "run_endpoint P w EpDexSimulate caller ps rq st =
     with_body (dc_dex (pk_decoders P) (hq_body rq)) st (\<lambda>q.
       answered (respond DexBody (post_dex_simulate (wd_dex w q) caller st)) st)"
| "run_endpoint P w EpReconcile caller ps rq st =
     with_body (dc_reconcile (pk_decoders P) (hq_body rq)) st (\<lambda>q. do {
       (r, st') \<leftarrow> post_reconcile (pk_arith P) (pk_sha P) (pk_codec P) (wd_db w) (wd_now w) (wd_reconciled w q) caller st;
       Some (Done (respond ReconcileBody r), st') })"
| "run_endpoint P w EpGetConfig caller ps rq st =
     answered (respond ConfigBody (get_config (wd_config_read w) caller st)) st"
| "run_endpoint P w EpPostConfig caller ps rq st =
     with_body (dc_config (pk_decoders P) (hq_body rq)) st (\<lambda>(toml, reauth).
       changed WrittenBody (post_config (\<lambda>_. wd_config_parsed w) (\<lambda>v. v) (wd_config_written w) (wd_fresh w)
         caller reauth toml st))"
| "run_endpoint P w ep caller ps rq st = answered (run_open w ep st) st"

section \<open>The layers\<close>

definition dispatch :: "packages \<Rightarrow> world \<Rightarrow> http_request \<Rightarrow> app_state \<Rightarrow> outcome" where
  "dispatch P w rq st =
     (case lookup_route open_routes (hq_method rq) (hq_path rq) of
        Some (ep, _) \<Rightarrow> answered (run_open w ep st) st
      | None \<Rightarrow> (case lookup_route protected_routes (hq_method rq) (hq_path rq) of
          None \<Rightarrow> answered (framework_reply (wd_fallback w)) st
        | Some (ep, ps) \<Rightarrow> (case require_auth (sv_tokens st) (hq_authorization rq) of
            Inl e \<Rightarrow> answered (refusal e) st
          | Inr caller \<Rightarrow> run_endpoint P w ep caller ps rq st)))"

definition record_response :: "response \<Rightarrow> app_state \<Rightarrow> app_state" where
  "record_response r st = st\<lparr>sv_metrics := metrics_record (rs_status r) (sv_metrics st)\<rparr>"

text \<open>
  The limit is outermost, then the CORS layer, then the counting of responses. A parked hook
  is counted when it answers.
\<close>

definition http_handle ::
    "packages \<Rightarrow> world \<Rightarrow> http_request \<Rightarrow> server \<Rightarrow> (response option \<times> server) option"
where
  "http_handle P w rq s =
     (let st = sr_app s; (verdict, rl) = rate_limit (wd_limit_at w) (wd_limit_again w) (sv_limiter st);
          st1 = st\<lparr>sv_limiter := rl\<rparr> in
      case verdict of
        Inl e \<Rightarrow> Some (Some (refusal e), s\<lparr>sr_app := st1\<rparr>)
      | Inr _ \<Rightarrow>
        if hq_method rq = OPTIONS then Some (Some (framework_reply 200), s\<lparr>sr_app := st1\<rparr>)
        else do {
          (h, st2) \<leftarrow> dispatch P w rq st1;
          Some (case h of
              Done r \<Rightarrow> (Some r, s\<lparr>sr_app := record_response r st2\<rparr>)
            | Parked i ord ref_price \<Rightarrow>
                (None, s\<lparr>sr_app := st2, sr_waiting := (sr_waiting s)(i \<mapsto> (ord, ref_price))\<rparr>)) })"

text \<open>A waiting hook that is woken up, and answers or goes on waiting.\<close>

definition http_resume ::
    "packages \<Rightarrow> string \<Rightarrow> bool \<Rightarrow> instant \<Rightarrow> instant \<Rightarrow> server \<Rightarrow> (response option \<times> server) option"
where
  "http_resume P i timed_out t1 t2 s = do {
     (out, s') \<leftarrow> resume_hook (pk_arith P) i timed_out t1 t2 s;
     Some (case out of
         None \<Rightarrow> (None, s')
       | Some v \<Rightarrow> (let r = respond HookBody (Ok v) in (Some r, s'\<lparr>sr_app := record_response r (sr_app s')\<rparr>))) }"

datatype http_event =
    Incoming world http_request
  | Wake string bool instant instant
  | Sweep instant

fun http_step :: "packages \<Rightarrow> http_event \<Rightarrow> server \<Rightarrow> (response option \<times> server) option" where
  "http_step P (Incoming w rq) s = http_handle P w rq s"
| "http_step P (Wake i timed_out t1 t2) s = http_resume P i timed_out t1 t2 s"
| "http_step P (Sweep now) s = Some (None, s\<lparr>sr_app := sweep now (sr_app s)\<rparr>)"

inductive http_run :: "packages \<Rightarrow> server \<Rightarrow> (http_event \<times> response option) list \<Rightarrow> server \<Rightarrow> bool"
  for P s0 where
  http_start: "http_run P s0 [] s0"
| http_next: "http_run P s0 es s \<Longrightarrow>
    aps_seq (sv_approvals (sr_app s)) < aps_seq (sv_approvals (sr_app s)) + 1 \<Longrightarrow>
    http_step P e s = Some (r, s') \<Longrightarrow> http_run P s0 (es @ [(e, r)]) s'"

section \<open>The layers around the state machine\<close>

text \<open>
  The limiter, the counters and the store are not read or written by the steps of
  \<open>Server_Run\<close>: a step commutes with replacing them.
\<close>

definition relayer :: "rate_limiter \<Rightarrow> metrics \<Rightarrow> store option \<Rightarrow> app_state \<Rightarrow> app_state" where
  "relayer l m x st = st\<lparr>sv_limiter := l, sv_metrics := m, sv_store := x\<rparr>"

lemma relayer_simps [simp]:
  "sv_tokens (relayer l m x st) = sv_tokens st" "sv_control (relayer l m x st) = sv_control st"
  "sv_allow_live (relayer l m x st) = sv_allow_live st" "sv_has_preflight (relayer l m x st) = sv_has_preflight st"
  "sv_has_reloader (relayer l m x st) = sv_has_reloader st" "sv_config_file (relayer l m x st) = sv_config_file st"
  "sv_approvals (relayer l m x st) = sv_approvals st" "sv_caps (relayer l m x st) = sv_caps st"
  "sv_budget (relayer l m x st) = sv_budget st" "relayer l m x (relayer l' m' x' st) = relayer l m x st"
  by (simp_all add: relayer_def)

lemma relayer_updates:
  "relayer l m x (st\<lparr>sv_limiter := a\<rparr>) = relayer l m x st" "relayer l m x (st\<lparr>sv_metrics := b\<rparr>) = relayer l m x st"
  "relayer l m x (st\<lparr>sv_store := c\<rparr>) = relayer l m x st"
  "relayer l m x (st\<lparr>sv_approvals := d\<rparr>) = (relayer l m x st)\<lparr>sv_approvals := d\<rparr>"
  "relayer l m x (st\<lparr>sv_budget := e\<rparr>) = (relayer l m x st)\<lparr>sv_budget := e\<rparr>"
  "relayer l m x (st\<lparr>sv_config_file := f\<rparr>) = (relayer l m x st)\<lparr>sv_config_file := f\<rparr>"
  "relayer l m x (set_control g st) = set_control g (relayer l m x st)"
  by (simp_all add: relayer_def set_control_def)

definition relayer_fst :: "rate_limiter \<Rightarrow> metrics \<Rightarrow> store option \<Rightarrow> 'a \<times> app_state \<Rightarrow> 'a \<times> app_state" where
  "relayer_fst l m x = map_prod id (relayer l m x)"

lemma relayer_fst_simps [simp]: "relayer_fst l m x (r, st) = (r, relayer l m x st)"
  by (simp add: relayer_fst_def)

lemma privileged_relayer [simp]: "privileged caller reauth (relayer l m x st) = privileged caller reauth st"
  by (simp add: privileged_def check_reauth_def)

lemma arm_check_relayer [simp]: "arm_check mode pre (relayer l m x st) = arm_check mode pre st"
  by (simp add: arm_check_def)

lemma post_mode_relayer: "post_mode caller mode reauth pre (relayer l m x st) = relayer_fst l m x (post_mode caller mode reauth pre st)"
  by (simp add: post_mode_def Let_def relayer_updates split: sum.split)

lemma post_kill_relayer: "post_kill caller engage reauth (relayer l m x st) = relayer_fst l m x (post_kill caller engage reauth st)"
  by (simp add: post_kill_def Let_def relayer_updates split: sum.split)

lemma apply_reload_relayer: "apply_reload fresh (relayer l m x st) = relayer_fst l m x (apply_reload fresh st)"
  by (simp add: apply_reload_def Let_def relayer_updates split: sum.split)

lemma post_config_reload_relayer:
  "post_config_reload caller reauth fresh (relayer l m x st) = relayer_fst l m x (post_config_reload caller reauth fresh st)"
  by (simp add: post_config_reload_def apply_reload_relayer split: sum.split)

lemma post_config_relayer:
  "post_config p v w fresh caller reauth toml (relayer l m x st) = relayer_fst l m x (post_config p v w fresh caller reauth toml st)"
  by (simp add: post_config_def apply_reload_relayer flip: relayer_updates split: sum.split option.split)

lemma post_session_reset_relayer:
  "post_session_reset caller reauth t1 t2 (relayer l m x st) = relayer_fst l m x (post_session_reset caller reauth t1 t2 st)"
  by (simp add: post_session_reset_def Let_def relayer_updates split: sum.split)

lemma post_approval_relayer:
  "post_approval caller i d reason now (relayer l m x st) = relayer_fst l m x (post_approval caller i d reason now st)"
  by (simp add: post_approval_def relayer_updates split: sum.split prod.split bool.split)

lemma hook_finish_relayer:
  "hook_finish A ord r t1 t2 (relayer l m x st) = map_option (relayer_fst l m x) (hook_finish A ord r t1 t2 st)"
  by (simp add: hook_finish_def relayer_updates split: option.split prod.split Option.bind_split)

lemma hook_begin_relayer:
  "hook_begin A fs fv caller body clk (relayer l m x st) = map_option (relayer_fst l m x) (hook_begin A fs fv caller body clk st)"
  by (simp add: hook_begin_def hook_finish_relayer relayer_updates Let_def
      split: option.split prod.split Option.bind_split sum.split)

lemma hook_resume_relayer:
  "hook_resume A ord r v t1 t2 (relayer l m x st) = map_option (relayer_fst l m x) (hook_resume A ord r v t1 t2 st)"
  by (simp add: hook_resume_def hook_finish_relayer split: approval_state.split)

text \<open>The same for a server.\<close>

definition relayer_server :: "rate_limiter \<Rightarrow> metrics \<Rightarrow> store option \<Rightarrow> server \<Rightarrow> server" where
  "relayer_server l m x s = s\<lparr>sr_app := relayer l m x (sr_app s)\<rparr>"

lemma relayer_server_simps [simp]:
  "sr_app (relayer_server l m x s) = relayer l m x (sr_app s)" "sr_waiting (relayer_server l m x s) = sr_waiting s"
  by (simp_all add: relayer_server_def)

lemma resume_hook_relayer:
  "resume_hook A i timed_out t1 t2 (relayer_server l m x s)
     = map_option (map_prod id (relayer_server l m x)) (resume_hook A i timed_out t1 t2 s)"
  by (simp add: resume_hook_def Let_def hook_resume_relayer relayer_server_def
      split: option.split prod.split Option.bind_split)

lemma server_step_relayer:
  "server_step A fs fv e (relayer_server l m x s) = map_option (relayer_server l m x) (server_step A fs fv e s)"
proof (cases e)
  case (EvMode caller mode reauth preflight)
  then show ?thesis by (simp add: relayer_server_def post_mode_relayer relayer_fst_def)
next
  case (EvKill caller engage reauth)
  then show ?thesis by (simp add: relayer_server_def post_kill_relayer relayer_fst_def)
next
  case (EvReload caller reauth fresh)
  then show ?thesis by (simp add: relayer_server_def post_config_reload_relayer relayer_fst_def)
next
  case (EvConfig caller reauth toml parsed written fresh)
  then show ?thesis by (simp add: relayer_server_def post_config_relayer relayer_fst_def)
next
  case (EvReset caller reauth t1 t2)
  then show ?thesis by (simp add: relayer_server_def post_session_reset_relayer relayer_fst_def)
next
  case (EvApproval caller i d reason now)
  then show ?thesis by (simp add: relayer_server_def post_approval_relayer relayer_fst_def)
next
  case (EvHook caller body clk)
  then show ?thesis
    by (simp add: relayer_server_def hook_begin_relayer
        split: prod.split Option.bind_split hook_progress.split)
next
  case (EvResume i timed_out t1 t2)
  then show ?thesis by (simp add: resume_hook_relayer option.map_comp comp_def)
next
  case (EvSweep now)
  then show ?thesis by (simp add: relayer_server_def sweep_def relayer_updates)
qed

section \<open>Requests as steps of the state machine\<close>

definition when_decoded :: "u16 + 'a \<Rightarrow> ('a \<Rightarrow> server_event) \<Rightarrow> server_event option" where
  "when_decoded d k = (case d of Inl _ \<Rightarrow> None | Inr v \<Rightarrow> Some (k v))"

fun endpoint_event :: "packages \<Rightarrow> world \<Rightarrow> endpoint \<Rightarrow> role \<Rightarrow> string list \<Rightarrow> http_request \<Rightarrow> server_event option" where
  "endpoint_event P w EpMode caller ps rq =
     when_decoded (dc_mode (pk_decoders P) (hq_body rq)) (\<lambda>(mode, reauth). EvMode caller mode reauth (wd_preflight w))"
| "endpoint_event P w EpKill caller ps rq =
     when_decoded (dc_kill (pk_decoders P) (hq_body rq)) (\<lambda>(engage, reauth). EvKill caller engage reauth)"
| "endpoint_event P w EpConfigReload caller ps rq =
     when_decoded (dc_reauth (pk_decoders P) (hq_body rq)) (\<lambda>reauth. EvReload caller reauth (wd_fresh w))"
| "endpoint_event P w EpPostConfig caller ps rq =
     when_decoded (dc_config (pk_decoders P) (hq_body rq)) (\<lambda>(toml, reauth).
       EvConfig caller reauth toml (wd_config_parsed w) (wd_config_written w) (wd_fresh w))"
| "endpoint_event P w EpSessionReset caller ps rq =
     when_decoded (dc_reauth (pk_decoders P) (hq_body rq)) (\<lambda>reauth. EvReset caller reauth (wd_now w) (wd_now_view w))"
| "endpoint_event P w EpApproval caller ps rq =
     when_decoded (dc_decision (pk_decoders P) (hq_body rq)) (\<lambda>(d, reason).
       EvApproval caller (pk_percent_decode P (concat ps)) d reason (wd_now w))"
| "endpoint_event P w EpPreToolUse caller ps rq =
     when_decoded (dc_json (pk_decoders P) (hq_body rq)) (\<lambda>body. EvHook caller body (wd_clock w))"
| "endpoint_event P w ep caller ps rq = None"

text \<open>The step that an event takes, if any, for the configured tokens.\<close>

fun as_event :: "packages \<Rightarrow> token_set \<Rightarrow> http_event \<Rightarrow> server_event option" where
  "as_event P ts (Incoming w rq) =
     (case (lookup_route open_routes (hq_method rq) (hq_path rq),
            lookup_route protected_routes (hq_method rq) (hq_path rq), require_auth ts (hq_authorization rq)) of
        (None, Some (ep, ps), Inr caller) \<Rightarrow> endpoint_event P w ep caller ps rq
      | _ \<Rightarrow> None)"
| "as_event P ts (Wake i timed_out t1 t2) = Some (EvResume i timed_out t1 t2)"
| "as_event P ts (Sweep now) = Some (EvSweep now)"

definition settle :: "handled \<Rightarrow> app_state \<Rightarrow> server \<Rightarrow> server" where
  "settle h st s = (case h of
       Done _ \<Rightarrow> s\<lparr>sr_app := st\<rparr>
     | Parked i ord ref_price \<Rightarrow> s\<lparr>sr_app := st, sr_waiting := (sr_waiting s)(i \<mapsto> (ord, ref_price))\<rparr>)"

lemma relayer_post_reconcile:
  assumes "post_reconcile A sha c db now answer caller st = Some (r, st')"
  shows "relayer l m x st' = relayer l m x st"
proof (cases "(\<exists>e. caller_require caller Operator = Inl e) \<or> \<not> sv_has_reconciler st \<or> sv_store st = None")
  case True
  with assms show ?thesis
    by (auto simp: post_reconcile_def Let_def split: sum.splits reconcile_outcome.splits if_splits)
next
  case False
  then obtain u s where ok: "caller_require caller Operator = Inr u" "sv_has_reconciler st" "sv_store st = Some s"
    by (cases "caller_require caller Operator") auto
  show ?thesis
  proof (cases "\<exists>rx f. answer = Inr (Confirmed rx f)")
    case True
    then obtain rx f where "answer = Inr (Confirmed rx f)" by blast
    with assms ok obtain b s' where "st' = st\<lparr>sv_store := Some s'\<rparr>"
      by (auto simp: post_reconcile_def Let_def bind_Some_iff)
    then show ?thesis by (simp add: relayer_updates)
  next
    case False
    with assms ok show ?thesis
      by (auto simp: post_reconcile_def split: sum.splits reconcile_outcome.splits)
  qed
qed

lemma with_body_cases:
  assumes "with_body d st k = Some (h, st')"
  obtains (refused) status where "d = Inl status" "h = Done (framework_reply status)" "st' = st"
    | (decoded) v where "d = Inr v" "k v = Some (h, st')"
  using assms by (cases d) (auto simp: with_body_def answered_def)

lemma run_endpoint_step:
  assumes "run_endpoint P w ep caller ps rq (sr_app s) = Some (h, st')"
  shows "case endpoint_event P w ep caller ps rq of
      None \<Rightarrow> relayer_server l m x (settle h st' s) = relayer_server l m x s
    | Some ev \<Rightarrow> server_step (pk_arith P) (pk_from_str P) (pk_hook_request P) ev s = Some (settle h st' s)"
proof (cases ep)
  case EpReconcile
  with assms obtain q where "with_body (dc_reconcile (pk_decoders P) (hq_body rq)) (sr_app s) q = Some (h, st')" by simp
  then show ?thesis
  proof (cases rule: with_body_cases)
    case (refused status)
    then show ?thesis using EpReconcile by (simp add: settle_def)
  next
    case (decoded v)
    with assms EpReconcile obtain r where "h = Done r" "relayer l m x st' = relayer l m x (sr_app s)"
      by (auto simp: with_body_def bind_Some_iff relayer_post_reconcile)
    then show ?thesis using EpReconcile by (simp add: settle_def relayer_server_def)
  qed
next
  case EpPreToolUse
  show ?thesis
  proof (cases "dc_json (pk_decoders P) (hq_body rq)")
    case (Inl status)
    with assms EpPreToolUse show ?thesis
      by (auto simp: with_body_def answered_def settle_def when_decoded_def relayer_server_def)
  next
    case (Inr body)
    with assms EpPreToolUse obtain progress where
      "hook_begin (pk_arith P) (pk_from_str P) (pk_hook_request P) caller body (wd_clock w) (sr_app s) = Some (progress, st')"
      "h = (case progress of Answered r \<Rightarrow> Done (respond HookBody r) | Held i ord ref_price \<Rightarrow> Parked i ord ref_price)"
      by (auto simp: with_body_def bind_Some_iff)
    with Inr EpPreToolUse show ?thesis by (cases progress) (simp_all add: when_decoded_def settle_def)
  qed
qed (use assms in \<open>auto simp: with_body_def answered_def changed_def settle_def when_decoded_def relayer_server_def
      split: sum.splits prod.splits\<close>)

lemma dispatch_step:
  assumes "dispatch P w rq (sr_app s) = Some (h, st')"
  shows "case as_event P (sv_tokens (sr_app s)) (Incoming w rq) of
      None \<Rightarrow> relayer_server l m x (settle h st' s) = relayer_server l m x s
    | Some ev \<Rightarrow> server_step (pk_arith P) (pk_from_str P) (pk_hook_request P) ev s = Some (settle h st' s)"
proof (cases "lookup_route open_routes (hq_method rq) (hq_path rq)")
  case (Some r)
  with assms show ?thesis
    by (auto simp: dispatch_def answered_def settle_def relayer_server_def split: prod.splits)
next
  case unopened: None
  show ?thesis
  proof (cases "lookup_route protected_routes (hq_method rq) (hq_path rq)")
    case None
    with assms unopened show ?thesis
      by (auto simp: dispatch_def answered_def settle_def relayer_server_def)
  next
    case (Some r)
    obtain ep ps where r: "r = (ep, ps)" by (cases r)
    show ?thesis
    proof (cases "require_auth (sv_tokens (sr_app s)) (hq_authorization rq)")
      case (Inl e)
      with assms unopened Some r show ?thesis
        by (auto simp: dispatch_def answered_def settle_def relayer_server_def)
    next
      case (Inr caller)
      with assms unopened Some r have "run_endpoint P w ep caller ps rq (sr_app s) = Some (h, st')"
        by (simp add: dispatch_def)
      from run_endpoint_step [OF this] show ?thesis using unopened Some r Inr by simp
    qed
  qed
qed

lemma http_handle_settles:
  assumes "http_handle P w rq s = Some (r, s')"
  obtains (stopped) rl where "s' = s\<lparr>sr_app := (sr_app s)\<lparr>sv_limiter := rl\<rparr>\<rparr>"
      "r = Some (refusal TooManyRequests) \<or> hq_method rq = OPTIONS \<and> r = Some (framework_reply 200)"
    | (handled) rl h st where "hq_method rq \<noteq> OPTIONS" "dispatch P w rq ((sr_app s)\<lparr>sv_limiter := rl\<rparr>) = Some (h, st)"
      "(case h of Done q \<Rightarrow> r = Some q \<and> s' = settle h (record_response q st) s
        | Parked i ord ref_price \<Rightarrow> r = None \<and> s' = settle h st s)"
proof -
  obtain verdict rl where lim: "rate_limit (wd_limit_at w) (wd_limit_again w) (sv_limiter (sr_app s)) = (verdict, rl)"
    by (rule prod.exhaust)
  show ?thesis
  proof (cases verdict)
    case (Inl e)
    then have "e = TooManyRequests" using lim by (auto simp: rate_limit_def split: prod.splits bool.splits)
    with Inl lim assms show ?thesis by (intro stopped [of rl]) (auto simp: http_handle_def Let_def)
  next
    case (Inr u)
    show ?thesis
    proof (cases "hq_method rq = OPTIONS")
      case True
      with Inr lim assms show ?thesis by (intro stopped [of rl]) (auto simp: http_handle_def Let_def)
    next
      case False
      with Inr lim assms obtain h st where "dispatch P w rq ((sr_app s)\<lparr>sv_limiter := rl\<rparr>) = Some (h, st)"
        "(r, s') = (case h of Done q \<Rightarrow> (Some q, s\<lparr>sr_app := record_response q st\<rparr>)
          | Parked i ord ref_price \<Rightarrow> (None, s\<lparr>sr_app := st, sr_waiting := (sr_waiting s)(i \<mapsto> (ord, ref_price))\<rparr>))"
        by (auto simp: http_handle_def Let_def bind_Some_iff)
      with False show ?thesis
        by (intro handled) (auto simp: settle_def split: handled.splits)
    qed
  qed
qed

lemma http_step_step:
  assumes "http_step P e s = Some (r, s')"
  shows "relayer_server l m x s' = relayer_server l m x s
    \<or> (\<exists>ev. as_event P (sv_tokens (sr_app s)) e = Some ev
        \<and> server_step (pk_arith P) (pk_from_str P) (pk_hook_request P) ev (relayer_server l m x s)
            = Some (relayer_server l m x s'))"
proof (cases e)
  case (Incoming w rq)
  with assms have "http_handle P w rq s = Some (r, s')" by simp
  then show ?thesis
  proof (cases rule: http_handle_settles)
    case (stopped rl)
    then show ?thesis by (simp add: relayer_server_def relayer_updates)
  next
    case (handled rl h st)
    let ?s = "s\<lparr>sr_app := (sr_app s)\<lparr>sv_limiter := rl\<rparr>\<rparr>"
    have same: "relayer_server l m x ?s = relayer_server l m x s" by (simp add: relayer_server_def relayer_updates)
    have s': "relayer_server l m x s' = relayer_server l m x (settle h st ?s)"
      using handled(3) by (cases h) (simp_all add: settle_def relayer_server_def record_response_def relayer_updates)
    have tok: "sv_tokens (sr_app ?s) = sv_tokens (sr_app s)" by simp
    from handled(2) have d: "dispatch P w rq (sr_app ?s) = Some (h, st)" by simp
    show ?thesis
    proof (cases "as_event P (sv_tokens (sr_app ?s)) (Incoming w rq)")
      case None
      with dispatch_step [OF d, of l m x] s' same show ?thesis by simp
    next
      case (Some ev)
      with dispatch_step [OF d, of l m x] have
        "server_step (pk_arith P) (pk_from_str P) (pk_hook_request P) ev ?s = Some (settle h st ?s)" by simp
      with server_step_relayer [of "pk_arith P" "pk_from_str P" "pk_hook_request P" ev l m x ?s] s' same Some Incoming tok
      show ?thesis by auto
    qed
  qed
next
  case (Wake i timed_out t1 t2)
  with assms obtain out s1 where woken: "resume_hook (pk_arith P) i timed_out t1 t2 s = Some (out, s1)"
    and "s' = (case out of None \<Rightarrow> s1 | Some v \<Rightarrow> s1\<lparr>sr_app := record_response (respond HookBody (Ok v)) (sr_app s1)\<rparr>)"
    by (auto simp: http_resume_def bind_Some_iff Let_def split: option.splits)
  then have "relayer_server l m x s' = relayer_server l m x s1"
    by (cases out) (simp_all add: relayer_server_def record_response_def relayer_updates)
  with woken Wake show ?thesis by (simp add: resume_hook_relayer)
next
  case (Sweep now)
  with assms show ?thesis by (auto simp: relayer_server_def sweep_def relayer_updates)
qed

text \<open>The server without its outer layers.\<close>

definition bare :: "server \<Rightarrow> server" where
  "bare = relayer_server (per_minute 0 0) metrics_default None"

lemma bare_simps [simp]:
  "sv_control (sr_app (bare s)) = sv_control (sr_app s)" "sv_tokens (sr_app (bare s)) = sv_tokens (sr_app s)"
  "sv_approvals (sr_app (bare s)) = sv_approvals (sr_app s)" "sv_allow_live (sr_app (bare s)) = sv_allow_live (sr_app s)"
  by (simp_all add: bare_def)

lemma http_run_events:
  assumes "http_run P s0 es s"
  shows "\<exists>evs. subseq evs (List.map_filter (as_event P (sv_tokens (sr_app s0))) (map fst es))
    \<and> server_run (pk_arith P) (pk_from_str P) (pk_hook_request P) (bare s0) evs (bare s)"
  using assms
proof (induction rule: http_run.induct)
  case http_start
  show ?case by (auto intro: server_run.start)
next
  case (http_next es s e r s')
  then obtain evs where evs: "subseq evs (List.map_filter (as_event P (sv_tokens (sr_app s0))) (map fst es))"
    and run: "server_run (pk_arith P) (pk_from_str P) (pk_hook_request P) (bare s0) evs (bare s)" by blast
  have tok: "sv_tokens (sr_app s) = sv_tokens (sr_app s0)"
    using server_run_fixed [OF run] by (simp add: fixed_part_def)
  let ?f = "as_event P (sv_tokens (sr_app s0))"
  have snoc: "List.map_filter ?f (map fst (es @ [(e, r)]))
      = List.map_filter ?f (map fst es) @ (case ?f e of None \<Rightarrow> [] | Some ev \<Rightarrow> [ev])"
    by (simp add: List.map_filter_def split: option.split)
  from http_step_step [OF http_next.hyps(3), of "per_minute 0 0" metrics_default None, folded bare_def] show ?case
  proof
    assume "bare s' = bare s"
    moreover have "subseq evs (List.map_filter ?f (map fst (es @ [(e, r)])))"
      using subseq_rev_drop_many [OF evs] snoc by metis
    ultimately show ?thesis using run by metis
  next
    assume "\<exists>ev. as_event P (sv_tokens (sr_app s)) e = Some ev
        \<and> server_step (pk_arith P) (pk_from_str P) (pk_hook_request P) ev (bare s) = Some (bare s')"
    then obtain ev where ev: "?f e = Some ev"
      and step: "server_step (pk_arith P) (pk_from_str P) (pk_hook_request P) ev (bare s) = Some (bare s')"
      using tok by auto
    have "aps_seq (sv_approvals (sr_app (bare s))) < aps_seq (sv_approvals (sr_app (bare s))) + 1"
      using http_next.hyps(2) by simp
    from server_run.step [OF run this step]
    have "server_run (pk_arith P) (pk_from_str P) (pk_hook_request P) (bare s0) (evs @ [ev]) (bare s')" .
    moreover have "subseq (evs @ [ev]) (List.map_filter ?f (map fst (es @ [(e, r)])))"
      using evs snoc ev by simp
    ultimately show ?thesis by blast
  qed
qed

section \<open>Which request reaches which handler\<close>

lemma match_fixed: "\<not> list_ex is_param ps \<Longrightarrow> match_segments ps xs = Some qs \<longleftrightarrow> xs = ps \<and> qs = []"
  by (induction ps xs arbitrary: qs rule: match_segments.induct) auto

lemma lookup_route_Some:
  "lookup_route rs m path = Some (ep, ps) \<Longrightarrow>
     \<exists>pattern handlers h. (pattern, handlers) \<in> set rs \<and> match_path pattern path = Some ps
       \<and> (h, ep) \<in> set handlers \<and> method_serves h m"
proof (induction rs m path rule: lookup_route.induct)
  case (2 pattern handlers rest m path)
  show ?case
  proof (cases "match_path pattern path")
    case None
    with 2 show ?thesis by (metis list.set_intros(2) lookup_route.simps(2) option.case(1))
  next
    case (Some params)
    with "2.prems" obtain h where h: "find (\<lambda>h. method_serves (fst h) m) handlers = Some h" "snd h = ep" "params = ps"
      by auto
    then have "(fst h, ep) \<in> set handlers" "method_serves (fst h) m" by (auto simp: find_Some_iff)
    with Some h(3) show ?thesis by auto
  qed
qed simp

lemma match_path_fixed:
  assumes "\<not> list_ex is_param (split_on CHR ''/'' pattern)"
  shows "match_path pattern path = Some ps \<longleftrightarrow> path = pattern \<and> ps = []"
  using split_on_inject [of "CHR ''/''" path pattern] by (auto simp: match_path_def match_fixed [OF assms])

lemma kill_route:
  assumes "lookup_route protected_routes m path = Some (EpKill, ps)"
  shows "m = POST \<and> path = ''/v1/kill''"
proof -
  have "\<not> list_ex is_param (split_on CHR ''/'' ''/v1/kill'')" by (simp add: is_param_def)
  with lookup_route_Some [OF assms] match_path_fixed [of "''/v1/kill''" path ps] show ?thesis
    by (auto simp: protected_routes_def method_serves_def)
qed

lemma as_event_Incoming:
  assumes "as_event P ts (Incoming w rq) = Some ev"
  obtains ep ps caller where "lookup_route protected_routes (hq_method rq) (hq_path rq) = Some (ep, ps)"
    "require_auth ts (hq_authorization rq) = Inr caller" "endpoint_event P w ep caller ps rq = Some ev"
  using assms by (auto split: option.splits prod.splits sum.splits)

lemma kill_event:
  assumes "as_event P ts e = Some (EvKill caller engage reauth)"
  obtains w rq ps where "e = Incoming w rq" "hq_method rq = POST" "hq_path rq = ''/v1/kill''"
    "require_auth ts (hq_authorization rq) = Inr caller" "dc_kill (pk_decoders P) (hq_body rq) = Inr (engage, reauth)"
proof (cases e)
  case (Incoming w rq)
  with assms obtain ep ps c where ep: "lookup_route protected_routes (hq_method rq) (hq_path rq) = Some (ep, ps)"
    "require_auth ts (hq_authorization rq) = Inr c" "endpoint_event P w ep c ps rq = Some (EvKill caller engage reauth)"
    using as_event_Incoming by blast
  from ep(3) have "ep = EpKill \<and> c = caller \<and> dc_kill (pk_decoders P) (hq_body rq) = Inr (engage, reauth)"
    by (cases ep) (auto simp: when_decoded_def split: sum.splits)
  with ep kill_route [of "hq_method rq" "hq_path rq" ps] that [OF Incoming] show ?thesis by auto
qed (use assms in auto)

lemma admin_authorized:
  "require_auth ts h = Inr Admin \<longleftrightarrow> bearer h = Some (tk_admin ts)"
  by (cases "bearer h") (auto simp: require_auth_def and_then_def role_for_def ok_or_def split: if_splits)

section \<open>Properties\<close>


text \<open>
  C10. The kill switch over HTTP. If it was engaged and is not at the end of a history of
  requests, then one of them was a POST to the kill route whose header and whose body both
  carried the administrator's token and whose body asked for the release.
\<close>

theorem kill_switch_is_released_by_the_admin_token:
  assumes "http_run P s0 es s" and "kill_switch (sv_control (sr_app s0))"
    and "\<not> kill_switch (sv_control (sr_app s))"
  shows "\<exists>w rq r. (Incoming w rq, r) \<in> set es \<and> hq_method rq = POST \<and> hq_path rq = ''/v1/kill''
    \<and> bearer (hq_authorization rq) = Some (tk_admin (sv_tokens (sr_app s0)))
    \<and> dc_kill (pk_decoders P) (hq_body rq) = Inr (False, tk_admin (sv_tokens (sr_app s0)))"
proof -
  let ?ts = "sv_tokens (sr_app s0)"
  from http_run_events [OF assms(1)] obtain evs where
    sub: "subseq evs (List.map_filter (as_event P ?ts) (map fst es))"
    and run: "server_run (pk_arith P) (pk_from_str P) (pk_hook_request P) (bare s0) evs (bare s)" by blast
  from server_run_kill [OF run] assms(2,3) have "EvKill Admin False (tk_admin ?ts) \<in> set evs" by auto
  from list_emb_set [OF sub this]
  have "EvKill Admin False (tk_admin ?ts) \<in> set (List.map_filter (as_event P ?ts) (map fst es))" by metis
  then obtain e r where e: "(e, r) \<in> set es" "as_event P ?ts e = Some (EvKill Admin False (tk_admin ?ts))"
    by (auto simp: List.map_filter_def)
  from kill_event [OF e(2)] obtain w rq where "e = Incoming w rq" "hq_method rq = POST" "hq_path rq = ''/v1/kill''"
    "require_auth ?ts (hq_authorization rq) = Inr Admin"
    "dc_kill (pk_decoders P) (hq_body rq) = Inr (False, tk_admin ?ts)" by metis
  with e(1) show ?thesis by (auto simp: admin_authorized)
qed

text \<open>The roles that the documentation of the routes lists, and which of them ask for the token again.\<close>

fun needed_role :: "endpoint \<Rightarrow> role" where
  "needed_role EpApproval = Operator"
| "needed_role EpSessionReset = Admin"
| "needed_role EpConfigReload = Admin"
| "needed_role EpPreToolUse = Operator"
| "needed_role EpMode = Admin"
| "needed_role EpKill = Admin"
| "needed_role EpRoute = Operator"
| "needed_role EpDexSimulate = Operator"
| "needed_role EpReconcile = Operator"
| "needed_role EpGetConfig = Admin"
| "needed_role EpPostConfig = Admin"
| "needed_role ep = Viewer"

definition turned_away :: "handled \<Rightarrow> bool" where
  "turned_away h = (case h of
       Done r \<Rightarrow> rs_status r = 403 \<or> rs_body r = FrameworkBody
     | Parked _ _ _ \<Rightarrow> False)"

lemma require_Err: "caller < r \<Longrightarrow> \<exists>m. caller_require caller r = Inl (Forbidden m)"
  by (simp add: caller_require_def)

lemma not_below_Viewer [simp]: "\<not> r < Viewer"
  by (simp add: not_less)

lemma below_role:
  assumes "caller < needed_role ep" and "run_endpoint P w ep caller ps rq st = Some (h, st')"
  shows "st' = st \<and> turned_away h"
proof -
  obtain m where m: "caller_require caller (needed_role ep) = Inl (Forbidden m)" using require_Err [OF assms(1)] by blast
  then have p: "privileged caller reauth st = Inl (Forbidden m)" if "needed_role ep = Admin" for reauth
    using that by (simp add: privileged_def)
  show ?thesis
    using assms m p
    by (cases ep) (auto simp: with_body_def answered_def changed_def respond_def refusal_def turned_away_def
        framework_reply_def error_status_def post_approval_def post_mode_def post_kill_def post_config_reload_def
        post_config_def post_session_reset_def hook_begin_def post_route_def post_dex_simulate_def post_reconcile_def
        get_config_def get_control_def get_portfolio_def get_activity_def get_audit_verify_def get_events_def
        get_approvals_def get_session_def run_open_def and_then_def split: sum.splits prod.splits)
qed

text \<open>The token that the body of an administrative request repeats.\<close>

fun repeated_token :: "packages \<Rightarrow> endpoint \<Rightarrow> string \<Rightarrow> (u16 + string) option" where
  "repeated_token P EpSessionReset body = Some (dc_reauth (pk_decoders P) body)"
| "repeated_token P EpConfigReload body = Some (dc_reauth (pk_decoders P) body)"
| "repeated_token P EpMode body = Some (map_sum id snd (dc_mode (pk_decoders P) body))"
| "repeated_token P EpKill body = Some (map_sum id snd (dc_kill (pk_decoders P) body))"
| "repeated_token P EpPostConfig body = Some (map_sum id snd (dc_config (pk_decoders P) body))"
| "repeated_token P ep body = None"

lemma wrong_repeat:
  assumes "run_endpoint P w ep caller ps rq st = Some (h, st')"
    and "repeated_token P ep (hq_body rq) = Some t" and "t \<noteq> Inr (tk_admin (sv_tokens st))"
  shows "st' = st \<and> turned_away h"
proof -
  have p: "\<exists>m. privileged caller reauth st = Inl (Forbidden m)" if "reauth \<noteq> tk_admin (sv_tokens st)" for reauth
    using that by (simp add: privileged_def check_reauth_def caller_require_def and_then_def is_admin_def)
  show ?thesis
  proof (cases ep)
    case EpMode
    with assms p show ?thesis
      by (fastforce simp: with_body_def answered_def changed_def respond_def refusal_def turned_away_def framework_reply_def
          error_status_def post_mode_def and_then_def split: sum.splits prod.splits)
  next
    case EpKill
    with assms p show ?thesis
      by (fastforce simp: with_body_def answered_def changed_def respond_def refusal_def turned_away_def framework_reply_def
          error_status_def post_kill_def split: sum.splits prod.splits)
  next
    case EpConfigReload
    with assms p show ?thesis
      by (fastforce simp: with_body_def answered_def changed_def respond_def refusal_def turned_away_def framework_reply_def
          error_status_def post_config_reload_def split: sum.splits prod.splits)
  next
    case EpPostConfig
    with assms p show ?thesis
      by (fastforce simp: with_body_def answered_def changed_def respond_def refusal_def turned_away_def framework_reply_def
          error_status_def post_config_def split: sum.splits prod.splits)
  next
    case EpSessionReset
    with assms p show ?thesis
      by (fastforce simp: with_body_def answered_def changed_def respond_def refusal_def turned_away_def framework_reply_def
          error_status_def post_session_reset_def split: sum.splits prod.splits)
  qed (use assms in auto)
qed

lemma protected_is_not_open:
  assumes "lookup_route protected_routes m path = Some r"
  shows "lookup_route open_routes m path = None"
proof (rule ccontr)
  assume "lookup_route open_routes m path \<noteq> None"
  then obtain ep ps where "lookup_route open_routes m path = Some (ep, ps)" by (cases "lookup_route open_routes m path") auto
  from lookup_route_Some [OF this] have "path = ''/v1/health'' \<or> path = ''/v1/metrics''"
    using match_path_fixed [of "''/v1/health''" path ps] match_path_fixed [of "''/v1/metrics''" path ps]
    by (auto simp: open_routes_def is_param_def)
  with assms show False by (auto simp: protected_routes_def match_path_def is_param_def)
qed

text \<open>
  C11. Every route keeps to its role. A request for one of the protected routes without a valid
  token is answered 401; with the token of a role below the documented one it is answered 403,
  or the framework refuses its body; and so is a request of an administrator to a route that
  asks for the token again when the body does not repeat it. In each case nothing changes.
\<close>

theorem routes_keep_to_their_roles:
  assumes "lookup_route protected_routes (hq_method rq) (hq_path rq) = Some (ep, ps)"
    and "dispatch P w rq st = Some (h, st')"
  shows "(case require_auth (sv_tokens st) (hq_authorization rq) of
      Inl e \<Rightarrow> st' = st \<and> h = Done (refusal Unauthorized)
    | Inr caller \<Rightarrow>
        (caller < needed_role ep \<or> (\<exists>t. repeated_token P ep (hq_body rq) = Some t \<and> t \<noteq> Inr (tk_admin (sv_tokens st)))
          \<longrightarrow> st' = st \<and> turned_away h))"
proof (cases "require_auth (sv_tokens st) (hq_authorization rq)")
  case (Inl e)
  then have "e = Unauthorized"
    by (auto simp: require_auth_def and_then_def ok_or_def split: option.splits sum.splits)
  with Inl assms protected_is_not_open [OF assms(1)] show ?thesis by (simp add: dispatch_def answered_def)
next
  case (Inr caller)
  with assms protected_is_not_open [OF assms(1)] have "run_endpoint P w ep caller ps rq st = Some (h, st')"
    by (simp add: dispatch_def)
  with Inr below_role [of caller ep P w ps rq st h st'] wrong_repeat [of P w ep caller ps rq st h st'] show ?thesis by auto
qed

section \<open>Counting\<close>

lemma unlimited_require [simp]: "caller_require caller r \<noteq> Inl TooManyRequests"
  by (simp add: caller_require_def)

lemma unlimited_reauth [simp]: "check_reauth st t \<noteq> Inl TooManyRequests"
  by (simp add: check_reauth_def)

lemma unlimited_privileged [simp]: "privileged caller t st \<noteq> Inl TooManyRequests"
  using unlimited_require [of caller Admin] by (auto simp: privileged_def and_then_def split: sum.split)

lemma unlimited_store [simp]: "get_store st \<noteq> Inl TooManyRequests"
  by (simp add: get_store_def ok_or_def split: option.split)

lemma unlimited_reload [simp]: "fst (apply_reload fresh st) \<noteq> Inl TooManyRequests"
  by (simp add: apply_reload_def Let_def split: sum.split)

lemma unlimited_changes [simp]:
  "fst (post_mode caller mode t pre st) \<noteq> Inl TooManyRequests" "fst (post_kill caller engage t st) \<noteq> Inl TooManyRequests"
  "fst (post_config_reload caller t fresh st) \<noteq> Inl TooManyRequests"
  "fst (post_config p v wr fresh caller t toml st) \<noteq> Inl TooManyRequests"
  "fst (post_session_reset caller t t1 t2 st) \<noteq> Inl TooManyRequests"
  "fst (post_approval caller i d reason now st) \<noteq> Inl TooManyRequests"
  by (auto simp: post_mode_def post_kill_def post_config_reload_def post_config_def post_session_reset_def post_approval_def
      and_then_def arm_check_def decision_target_def ok_or_def Let_def
      split: sum.split_asm option.split_asm prod.split_asm bool.split_asm if_split_asm)

lemma unlimited_views [simp]:
  "get_control caller st \<noteq> Inl TooManyRequests" "get_portfolio caller st \<noteq> Inl TooManyRequests"
  "get_activity c corrupt caller limit st \<noteq> Inl TooManyRequests" "get_audit_verify sha caller st \<noteq> Inl TooManyRequests"
  "get_events c caller ticks \<noteq> Inl TooManyRequests" "get_approvals caller st \<noteq> Inl TooManyRequests"
  "get_session now caller st \<noteq> Inl TooManyRequests" "get_config r caller st \<noteq> Inl TooManyRequests"
  "post_route caller notional st \<noteq> Inl TooManyRequests" "post_dex_simulate answer caller st \<noteq> Inl TooManyRequests"
  by (auto simp: get_control_def get_portfolio_def get_activity_def get_audit_verify_def get_events_def get_approvals_def
      get_session_def get_config_def post_route_def post_dex_simulate_def and_then_def ok_or_def Let_def
      split: sum.split_asm option.split_asm if_split_asm)

lemma unlimited_hook:
  assumes "hook_begin A fs fv caller body clk st = Some (Answered r, st')"
  shows "r \<noteq> Inl TooManyRequests"
proof (cases "caller_require caller Operator")
  case (Inl e)
  with assms show ?thesis by (auto simp: hook_begin_def)
next
  case ok: (Inr u)
  show ?thesis
  proof (cases "fv body")
    case (Inl e)
    with assms ok show ?thesis by (auto simp: hook_begin_def)
  next
    case (Inr req)
    with assms ok show ?thesis
      by (auto simp: hook_begin_def Let_def bind_Some_iff split: if_splits sum.splits prod.splits) (metis sum.exhaust)
  qed
qed

lemma unlimited_reconcile:
  assumes "post_reconcile A sha c db now answer caller st = Some (r, st')"
  shows "r \<noteq> Inl TooManyRequests"
  using assms
  by (auto simp: post_reconcile_def Let_def bind_Some_iff
      split: sum.splits reconcile_outcome.splits option.splits if_splits) (metis sum.exhaust)

lemma respond_limited: "rs_body (respond b r) = ErrorBody TooManyRequests \<longleftrightarrow>
    r = Inl TooManyRequests \<or> (\<exists>v. r = Inr v \<and> b v = ErrorBody TooManyRequests)"
  by (cases r) (simp_all add: respond_def refusal_def)

lemma run_endpoint_unlimited:
  assumes "run_endpoint P w ep caller ps rq st = Some (Done r, st')"
  shows "rs_body r \<noteq> ErrorBody TooManyRequests"
proof (cases ep)
  case EpPreToolUse
  show ?thesis
  proof (cases "dc_json (pk_decoders P) (hq_body rq)")
    case (Inl status)
    with assms EpPreToolUse show ?thesis by (auto simp: with_body_def answered_def framework_reply_def)
  next
    case (Inr body)
    with assms EpPreToolUse obtain progress where
      p: "hook_begin (pk_arith P) (pk_from_str P) (pk_hook_request P) caller body (wd_clock w) st = Some (progress, st')"
      "Done r = (case progress of Answered r \<Rightarrow> Done (respond HookBody r) | Held i ord ref_price \<Rightarrow> Parked i ord ref_price)"
      by (auto simp: with_body_def bind_Some_iff)
    then show ?thesis by (cases progress) (auto simp: respond_limited dest: unlimited_hook)
  qed
next
  case EpReconcile
  with assms show ?thesis
    by (auto simp: with_body_def answered_def framework_reply_def bind_Some_iff respond_limited
        split: sum.splits dest: unlimited_reconcile)
qed (use assms in \<open>auto simp: with_body_def answered_def changed_def framework_reply_def respond_limited run_open_def
      split: sum.splits prod.splits if_splits\<close>)

lemma relayer_own: "relayer (sv_limiter st) (sv_metrics st) (sv_store st) st = st"
  by (simp add: relayer_def)

lemma server_step_layers:
  assumes "server_step A fs fv ev s = Some s'"
  shows "sv_metrics (sr_app s') = sv_metrics (sr_app s) \<and> sv_store (sr_app s') = sv_store (sr_app s)"
proof -
  let ?st = "sr_app s"
  have "relayer_server (sv_limiter ?st) (sv_metrics ?st) (sv_store ?st) s = s"
    by (simp add: relayer_server_def relayer_own)
  with server_step_relayer [of A fs fv ev "sv_limiter ?st" "sv_metrics ?st" "sv_store ?st" s] assms
  have "s' = relayer_server (sv_limiter ?st) (sv_metrics ?st) (sv_store ?st) s'" by simp
  then have "sr_app s' = relayer (sv_limiter ?st) (sv_metrics ?st) (sv_store ?st) (sr_app s')"
    by (metis relayer_server_simps(1))
  then show ?thesis by (metis app_state.select_convs app_state.surjective relayer_def app_state.update_convs)
qed

lemma quiet_reconcile:
  assumes "post_reconcile A sha c db now answer caller st = Some (r, st')"
  shows "sv_metrics st' = sv_metrics st"
proof (cases "caller_require caller Operator")
  case (Inl e)
  with assms show ?thesis by (auto simp: post_reconcile_def)
next
  case (Inr u)
  with assms show ?thesis
    by (cases "sv_store st"; cases answer rule: sum.exhaust)
      (auto simp: post_reconcile_def Let_def bind_Some_iff split: if_splits reconcile_outcome.splits)
qed

lemma dispatch_metrics:
  assumes "dispatch P w rq st = Some (h, st')"
  shows "sv_metrics st' = sv_metrics st"
proof (cases "\<exists>ep ps caller. lookup_route open_routes (hq_method rq) (hq_path rq) = None
    \<and> lookup_route protected_routes (hq_method rq) (hq_path rq) = Some (ep, ps)
    \<and> require_auth (sv_tokens st) (hq_authorization rq) = Inr caller")
  case False
  with assms show ?thesis
    by (auto simp: dispatch_def answered_def split: option.splits sum.splits prod.splits)
next
  case True
  then obtain ep ps caller where run: "run_endpoint P w ep caller ps rq st = Some (h, st')"
    using assms by (auto simp: dispatch_def)
  show ?thesis
  proof (cases "endpoint_event P w ep caller ps rq")
    case None
    with run show ?thesis
      by (cases ep) (auto simp: with_body_def answered_def when_decoded_def bind_Some_iff quiet_reconcile
          split: sum.splits)
  next
    case (Some ev)
    let ?s = "\<lparr>sr_app = st, sr_waiting = Map.empty\<rparr>"
    from run have "run_endpoint P w ep caller ps rq (sr_app ?s) = Some (h, st')" by simp
    from run_endpoint_step [OF this] Some
    have "server_step (pk_arith P) (pk_from_str P) (pk_hook_request P) ev ?s = Some (settle h st' ?s)" by simp
    from server_step_layers [OF this] show ?thesis by (cases h) (simp_all add: settle_def)
  qed
qed

text \<open>The responses that pass the counters: not the refusals of the limiter, nor CORS answers.\<close>

definition counted :: "http_event \<Rightarrow> response \<Rightarrow> bool" where
  "counted e r = (rs_body r \<noteq> ErrorBody TooManyRequests
     \<and> (case e of Incoming w rq \<Rightarrow> hq_method rq \<noteq> OPTIONS | _ \<Rightarrow> True))"

fun counted_responses :: "(http_event \<times> response option) list \<Rightarrow> response list" where
  "counted_responses [] = []"
| "counted_responses ((e, r) # es) = (case r of
       Some q \<Rightarrow> if counted e q then q # counted_responses es else counted_responses es
     | None \<Rightarrow> counted_responses es)"

lemma counted_append: "counted_responses (es @ fs) = counted_responses es @ counted_responses fs"
  by (induction es rule: counted_responses.induct) (auto split: option.split)

definition status_class :: "u16 \<Rightarrow> nat" where
  "status_class s = (if 100 \<le> unat s \<and> unat s < 600 then unat s div 100 - 1 else 5)"

lemma class_index: "min (unat (of_nat (unat s div 100) - 1 :: u64)) 5 = status_class (s :: u16)"
proof -
  have s: "unat s < 2 ^ 16" using unsigned_less [of s, where ?'a = nat] by simp
  let ?n = "unat s div 100"
  have n: "?n < 2 ^ 16" using s by simp
  then have u: "unat (of_nat ?n :: u64) = ?n" by (simp add: unat_of_nat take_bit_nat_eq_self_iff)
  show ?thesis
  proof (cases "?n = 0")
    case True
    then have "unat s < 100" by simp
    with True show ?thesis by (simp add: status_class_def unsigned_minus_1_eq_mask mask_eq_exp_minus_1)
  next
    case False
    then have "1 \<le> (of_nat ?n :: u64)" using u by (simp add: word_le_nat_alt)
    then have "unat (of_nat ?n - 1 :: u64) = ?n - 1" using u by (simp add: unat_sub)
    with False show ?thesis by (auto simp: status_class_def)
  qed
qed

definition counts :: "response list \<Rightarrow> metrics \<Rightarrow> bool" where
  "counts rs m \<longleftrightarrow> mt_requests_total m = of_nat (length rs) \<and> length (mt_by_class m) = 6
     \<and> (\<forall>i < 6. mt_by_class m ! i = of_nat (length (filter (\<lambda>r. status_class (rs_status r) = i) rs)))"

lemma status_class_less: "status_class s < 6"
  by (auto simp: status_class_def)

lemma counts_snoc: "counts rs m \<Longrightarrow> counts (rs @ [r]) (metrics_record (rs_status r) m)"
  using status_class_less [of "rs_status r"]
  by (auto simp: counts_def metrics_record_def class_index Let_def nth_list_update)

lemma dispatch_unlimited:
  assumes "dispatch P w rq st = Some (Done r, st')"
  shows "rs_body r \<noteq> ErrorBody TooManyRequests"
  using assms run_endpoint_unlimited
  by (auto simp: dispatch_def answered_def framework_reply_def refusal_def respond_limited run_open_def require_auth_def
      and_then_def ok_or_def split: option.splits sum.splits prod.splits if_splits)

lemma http_step_counts:
  assumes "http_step P e s = Some (r, s')"
  shows "sv_metrics (sr_app s') = (case r of
      Some q \<Rightarrow> if counted e q then metrics_record (rs_status q) (sv_metrics (sr_app s)) else sv_metrics (sr_app s)
    | None \<Rightarrow> sv_metrics (sr_app s))"
proof (cases e)
  case (Incoming w rq)
  with assms have "http_handle P w rq s = Some (r, s')" by simp
  then show ?thesis
  proof (cases rule: http_handle_settles)
    case (stopped rl)
    then show ?thesis using Incoming by (auto simp: counted_def refusal_def)
  next
    case (handled rl h st)
    from dispatch_metrics [OF handled(2)] have m: "sv_metrics st = sv_metrics (sr_app s)" by simp
    show ?thesis
    proof (cases h)
      case (Done q)
      with handled dispatch_unlimited [of P w rq _ q st] m Incoming show ?thesis
        by (simp add: counted_def settle_def record_response_def)
    next
      case (Parked i ord ref_price)
      with handled m show ?thesis by (simp add: settle_def)
    qed
  qed
next
  case (Wake i timed_out t1 t2)
  with assms obtain out s1 where woken: "resume_hook (pk_arith P) i timed_out t1 t2 s = Some (out, s1)"
    and res: "(r, s') = (case out of None \<Rightarrow> (None, s1) | Some v \<Rightarrow> (Some (respond HookBody (Ok v)),
      s1\<lparr>sr_app := record_response (respond HookBody (Ok v)) (sr_app s1)\<rparr>))"
    by (auto simp: http_resume_def bind_Some_iff Let_def split: option.splits)
  have "server_step (pk_arith P) (pk_from_str P) (pk_hook_request P) (EvResume i timed_out t1 t2) s = Some s1"
    using woken by simp
  from server_step_layers [OF this] res Wake show ?thesis
    by (cases out) (auto simp: counted_def record_response_def respond_def)
next
  case (Sweep now)
  with assms show ?thesis by (auto simp: sweep_def)
qed

text \<open>
  The counters are true. After any history of requests, the number of responses and the
  number of each class of status that the metrics page shows are those of the responses given,
  to the 64 bits of the counters; refusals of the rate limit and CORS answers, which are made
  outside the counting layer, are not among them.
\<close>

theorem responses_are_counted:
  assumes "http_run P s0 es s" and "sv_metrics (sr_app s0) = metrics_default"
  shows "counts (counted_responses es) (sv_metrics (sr_app s))"
  using assms
proof (induction rule: http_run.induct)
  case http_start
  then show ?case by (simp add: counts_def metrics_default_def nth_Cons' numeral_eq_Suc)
next
  case (http_next es s e r s')
  then have "counts (counted_responses es) (sv_metrics (sr_app s))" by blast
  with http_step_counts [OF http_next.hyps(3)] counts_snoc show ?case
    by (auto simp: counted_append split: option.split)
qed

section \<open>Witnesses\<close>

definition demo_decoders :: decoders where
  "demo_decoders = \<lparr>dc_query = \<lambda>_. Inr None, dc_json = \<lambda>_. Inr JNull, dc_reauth = \<lambda>b. Inr b, dc_mode = \<lambda>b. Inr (LiveMode, b),
     dc_kill = \<lambda>b. Inr (b = ''on'', ''secret''), dc_config = \<lambda>b. Inr ([], b), dc_decision = \<lambda>b. Inr (b, None), dc_route = \<lambda>_. Inl 422,
     dc_dex = \<lambda>_. Inl 422, dc_reconcile = \<lambda>_. Inl 422\<rparr>"

definition demo_packages :: packages where
  "demo_packages = \<lparr>pk_arith = exact_arith, pk_sha = \<lambda>x. x, pk_codec = demo_codec, pk_from_str = demo_from_str,
     pk_hook_request = \<lambda>_. Ok demo_request, pk_decoders = demo_decoders, pk_percent_decode = \<lambda>x. x, pk_corrupt = []\<rparr>"

definition demo_world :: world where
  "demo_world = \<lparr>wd_limit_at = 0, wd_limit_again = 0, wd_clock = demo_clock, wd_now = 0, wd_now_view = 0, wd_uptime = 0,
     wd_preflight = Inr (), wd_fresh = Err [], wd_config_read = Ok, wd_config_parsed = Err [], wd_config_written = None,
     wd_dex = \<lambda>_. Err [], wd_reconciled = \<lambda>_. Err [], wd_db = \<lambda>_. None, wd_event_ticks = [], wd_fallback = 404\<rparr>"

definition demo_post :: "string \<Rightarrow> string \<Rightarrow> http_request" where
  "demo_post path body = \<lparr>hq_method = POST, hq_path = path, hq_query = [], hq_authorization = Some ''Bearer secret'', hq_body = body\<rparr>"

definition killed_server :: server where
  "killed_server = \<lparr>sr_app = set_control (set_kill True) (demo_app Auto), sr_waiting = Map.empty\<rparr>"

lemma demo_bearer: "require_auth (admin_only ''secret'') (Some ''Bearer secret'') = Inr Admin"
  by (simp add: admin_authorized bearer_def admin_only_def) code_simp

lemma kill_lookup:
  "lookup_route open_routes POST ''/v1/kill'' = None" "lookup_route protected_routes POST ''/v1/kill'' = Some (EpKill, [])"
  by (simp_all add: open_routes_def protected_routes_def match_path_def is_param_def method_serves_def)

lemma release_step:
  "\<exists>r s'. http_step demo_packages (Incoming demo_world (demo_post ''/v1/kill'' ''off'')) killed_server = Some (Some r, s')
     \<and> \<not> kill_switch (sv_control (sr_app s')) \<and> rs_status r = 200"
proof -
  have tok: "sv_tokens (demo_app Auto) = admin_only ''secret''" by (simp add: demo_server_simps)
  have lim: "rate_limit 0 0 (sv_limiter (demo_app Auto)) = (Ok (), (sv_limiter (demo_app Auto))\<lparr>rl_count := 1\<rparr>)"
    by (simp add: demo_server_simps rate_limit_def limiter_check_def per_minute_def rate_limiter_new_def elapsed_def from_secs_def
        nanos_per_sec_def Let_def)
  have keep: "sv_limiter (set_control f st) = sv_limiter st" for f st by (simp add: set_control_def)
  have priv: "privileged Admin ''secret'' st = Ok ()" if "sv_tokens st = admin_only ''secret''" for st
    using that by (simp add: privileged_Ok admin_only_def)
  show ?thesis
    by (simp add: http_handle_def killed_server_def demo_post_def demo_world_def keep lim dispatch_def kill_lookup tok demo_bearer
        demo_packages_def demo_decoders_def with_body_def changed_def post_kill_def priv respond_def Let_def
        record_response_def)
qed

lemma release_run:
  obtains r s' where "http_run demo_packages killed_server [(Incoming demo_world (demo_post ''/v1/kill'' ''off''), Some r)] s'"
    "\<not> kill_switch (sv_control (sr_app s'))" "rs_status r = 200"
proof -
  from release_step obtain r s' where
    step: "http_step demo_packages (Incoming demo_world (demo_post ''/v1/kill'' ''off'')) killed_server = Some (Some r, s')"
    "\<not> kill_switch (sv_control (sr_app s'))" "rs_status r = 200" by blast
  have "aps_seq (sv_approvals (sr_app killed_server)) < aps_seq (sv_approvals (sr_app killed_server)) + 1"
    by (simp add: killed_server_def demo_server_simps approval_store_new_def word_less_nat_alt)
  from http_run.http_next [OF http_run.http_start this step(1)] step(2,3) show ?thesis by (intro that) simp_all
qed


theorem kill_switch_is_released_by_the_admin_token_witness:
  "\<exists>r s'. http_run demo_packages killed_server [(Incoming demo_world (demo_post ''/v1/kill'' ''off''), Some r)] s'
     \<and> (\<exists>w rq. Incoming w rq = Incoming demo_world (demo_post ''/v1/kill'' ''off'') \<and> bearer (hq_authorization rq) = Some ''secret'')"
proof -
  obtain r s' where run: "http_run demo_packages killed_server [(Incoming demo_world (demo_post ''/v1/kill'' ''off''), Some r)] s'"
    and off: "\<not> kill_switch (sv_control (sr_app s'))" by (rule release_run)
  have on: "kill_switch (sv_control (sr_app killed_server))" by (simp add: killed_server_def)
  have tok: "tk_admin (sv_tokens (sr_app killed_server)) = ''secret''" by (simp add: killed_server_def demo_server_simps)
  from kill_switch_is_released_by_the_admin_token [OF run on off] run show ?thesis unfolding tok by auto
qed

theorem responses_are_counted_witness:
  "\<exists>r s'. http_run demo_packages killed_server [(Incoming demo_world (demo_post ''/v1/kill'' ''off''), Some r)] s'
     \<and> rs_status r = 200 \<and> counts (if counted (Incoming demo_world (demo_post ''/v1/kill'' ''off'')) r then [r] else []) (sv_metrics (sr_app s'))"
proof -
  obtain r s' where run: "http_run demo_packages killed_server [(Incoming demo_world (demo_post ''/v1/kill'' ''off''), Some r)] s'"
    and ok: "rs_status r = 200" by (rule release_run)
  have "sv_metrics (sr_app killed_server) = metrics_default" by (simp add: killed_server_def demo_server_simps set_control_def)
  from responses_are_counted [OF run this] run ok show ?thesis by (auto split: if_splits)
qed

text \<open>A viewer's token does not release the switch.\<close>

theorem routes_keep_to_their_roles_witness:
  "\<exists>h. dispatch demo_packages demo_world (demo_post ''/v1/kill'' ''off'')
       ((demo_app Auto)\<lparr>sv_tokens := \<lparr>tk_admin = ''root'', tk_operator = None, tk_viewer = Some ''secret''\<rparr>\<rparr>)
     = Some (h, (demo_app Auto)\<lparr>sv_tokens := \<lparr>tk_admin = ''root'', tk_operator = None, tk_viewer = Some ''secret''\<rparr>\<rparr>)
     \<and> turned_away h"
proof -
  let ?st = "(demo_app Auto)\<lparr>sv_tokens := \<lparr>tk_admin = ''root'', tk_operator = None, tk_viewer = Some ''secret''\<rparr>\<rparr>"
  have viewer: "require_auth (sv_tokens ?st) (hq_authorization (demo_post ''/v1/kill'' ''off'')) = Inr Viewer"
    by (simp add: demo_post_def require_auth_def role_for_def is_some_and_def) code_simp
  have look: "lookup_route protected_routes (hq_method (demo_post ''/v1/kill'' ''off'')) (hq_path (demo_post ''/v1/kill'' ''off''))
    = Some (EpKill, [])" by (simp add: demo_post_def kill_lookup)
  obtain h st' where d: "dispatch demo_packages demo_world (demo_post ''/v1/kill'' ''off'') ?st = Some (h, st')"
    using viewer kill_lookup
    by (simp add: dispatch_def demo_post_def demo_packages_def demo_decoders_def with_body_def changed_def)
  have "Viewer < needed_role EpKill" by (simp add: less_role_def)
  with routes_keep_to_their_roles [OF look d] viewer d show ?thesis by simp
qed

end
