(* ===== verification/Agent_Session.thy ===== *)
theory Agent_Session
  imports Server_Http
begin

text \<open>
  The promises of the control plane end to end, over the requests of its HTTP interface
  (\<open>crates/server/src/lib.rs\<close>, \<open>routes.rs\<close>, \<open>budget.rs\<close>): where an order that the agent
  is told to go ahead with comes from, and how much the agent can do in a session. Nothing is
  modelled here that \<open>Server_Http\<close> does not model; this theory says what a history means.
\<close>

section \<open>What a response means\<close>

text \<open>The call to a tool that places orders that a request to the hook carries, under the tools of that moment.\<close>

definition order_call :: "packages \<Rightarrow> http_request \<Rightarrow> app_state \<Rightarrow> hook_request option" where
  "order_call P rq st = (case dc_json (pk_decoders P) (hq_body rq) of
       Inl _ \<Rightarrow> None
     | Inr body \<Rightarrow> (case pk_hook_request P body of
         Inl _ \<Rightarrow> None
       | Inr req \<Rightarrow> if classify (ct_allowlist (sv_control st)) (tc_name (hr_call req)) = Some PlaceOrder
           then Some req else None))"

text \<open>The order, with the reference price, that a step decides about.\<close>

definition call_order :: "packages \<Rightarrow> world \<Rightarrow> hook_request \<Rightarrow> trade_order option" where
  "call_order P w req = (case parse_order (pk_arith P) (pk_from_str P) (hc_order_id (wd_clock w))
       (tc_name (hr_call req)) (tc_arguments (hr_call req)) 0 of Some (Inr ord) \<Rightarrow> Some ord | _ \<Rightarrow> None)"

fun order_asked :: "packages \<Rightarrow> server \<Rightarrow> http_event \<Rightarrow> (trade_order \<times> dec option) option" where
  "order_asked P s (Incoming w rq) = do {
     req \<leftarrow> order_call P rq (sr_app s);
     ord \<leftarrow> call_order P w req;
     Some (ord, hr_ref_price req) }"
| "order_asked P s (Wake i timed_out t1 t2) = sr_waiting s i"
| "order_asked P s (Sweep now) = None"

fun about_order :: "packages \<Rightarrow> server \<Rightarrow> http_event \<Rightarrow> bool" where
  "about_order P s (Incoming w rq) = (order_call P rq (sr_app s) \<noteq> None)"
| "about_order P s (Wake i timed_out t1 t2) = True"
| "about_order P s (Sweep now) = False"

text \<open>The agent is told to go ahead with an order.\<close>

definition let_go :: "packages \<Rightarrow> server \<Rightarrow> http_event \<Rightarrow> response option \<Rightarrow> bool" where
  "let_go P s e r \<longleftrightarrow> about_order P s e \<and> map_option rs_body r = Some (HookBody Allow)"

text \<open>
  A request that brought an order in: a post to the hook route with the token of an operator or
  an administrator, whose call parses to the order, and the order was admissible under the risk
  limits in force when the request came.
\<close>

definition gated_call :: "packages \<Rightarrow> server \<Rightarrow> world \<Rightarrow> http_request \<Rightarrow> trade_order \<Rightarrow> dec option \<Rightarrow> bool" where
  "gated_call P s w rq ord ref_price \<longleftrightarrow> hq_method rq = POST \<and> hq_path rq = ''/v1/hook/pretooluse''
     \<and> (\<exists>r. require_auth (sv_tokens (sr_app s)) (hq_authorization rq) = Inr r \<and> r \<noteq> Viewer)
     \<and> (\<exists>req. order_call P rq (sr_app s) = Some req \<and> call_order P w req = Some ord \<and> ref_price = hr_ref_price req
          \<and> admissible (pk_arith P) (ct_risk (sv_control (sr_app s))) ord (hook_context req (hc_gate (wd_clock w))))"

text \<open>A request that approved a waiting order by its id.\<close>

definition approving_request :: "packages \<Rightarrow> token_set \<Rightarrow> string \<Rightarrow> http_request \<Rightarrow> bool" where
  "approving_request P ts i rq \<longleftrightarrow> hq_method rq = POST
     \<and> (\<exists>ps. match_path ''/v1/approvals/{id}'' (hq_path rq) = Some ps \<and> pk_percent_decode P (concat ps) = i)
     \<and> (\<exists>reason. dc_decision (pk_decoders P) (hq_body rq) = Inr (''approve'', reason))
     \<and> (\<exists>r. require_auth ts (hq_authorization rq) = Inr r \<and> r \<noteq> Viewer)"

section \<open>Which request reaches the hook\<close>

lemma hook_route:
  assumes "lookup_route protected_routes m path = Some (EpPreToolUse, ps)"
  shows "m = POST \<and> path = ''/v1/hook/pretooluse''"
proof -
  have "\<not> list_ex is_param (split_on CHR ''/'' ''/v1/hook/pretooluse'')" by (simp add: is_param_def)
  with lookup_route_Some [OF assms] match_path_fixed [of "''/v1/hook/pretooluse''" path ps] show ?thesis
    by (auto simp: protected_routes_def method_serves_def)
qed

lemma reset_route:
  assumes "lookup_route protected_routes m path = Some (EpSessionReset, ps)"
  shows "path = ''/v1/session/reset''"
proof -
  have "\<not> list_ex is_param (split_on CHR ''/'' ''/v1/session/reset'')" by (simp add: is_param_def)
  with lookup_route_Some [OF assms] match_path_fixed [of "''/v1/session/reset''" path ps] show ?thesis
    by (auto simp: protected_routes_def method_serves_def)
qed

lemma approval_route:
  assumes "lookup_route protected_routes m path = Some (EpApproval, ps)"
  shows "m = POST \<and> match_path ''/v1/approvals/{id}'' path = Some ps"
  using lookup_route_Some [OF assms] by (auto simp: protected_routes_def method_serves_def)

lemma approval_event:
  assumes "as_event P ts e = Some (EvApproval caller i ''approve'' reason now)" and "caller \<noteq> Viewer"
  obtains w rq where "e = Incoming w rq" "approving_request P ts i rq"
proof (cases e)
  case (Incoming w rq)
  with assms(1) obtain ep ps c where ep: "lookup_route protected_routes (hq_method rq) (hq_path rq) = Some (ep, ps)"
    "require_auth ts (hq_authorization rq) = Inr c"
    "endpoint_event P w ep c ps rq = Some (EvApproval caller i ''approve'' reason now)"
    using as_event_Incoming by blast
  from ep(3) have "ep = EpApproval \<and> c = caller \<and> pk_percent_decode P (concat ps) = i
      \<and> dc_decision (pk_decoders P) (hq_body rq) = Inr (''approve'', reason)"
    by (cases ep) (auto simp: when_decoded_def split: sum.splits)
  with ep approval_route [of "hq_method rq" "hq_path rq" ps] assms(2) that [OF Incoming] show ?thesis
    by (auto simp: approving_request_def)
qed (use assms in auto)

lemma hook_responses [simp]:
  "rs_body (respond body r) = HookBody out \<longleftrightarrow> (\<exists>v. r = Inr v \<and> body v = HookBody out)"
  "rs_body (refusal e) \<noteq> HookBody out" "rs_body (framework_reply status) \<noteq> HookBody out"
  "rs_body (run_open w ep st) \<noteq> HookBody out"
  by (cases r) (simp_all add: respond_def refusal_def framework_reply_def run_open_def)

text \<open>Only the hook and the reset of the session touch the budget.\<close>

definition reset_request :: "token_set \<Rightarrow> http_request \<Rightarrow> bool" where
  "reset_request ts rq \<longleftrightarrow> hq_path rq = ''/v1/session/reset'' \<and> bearer (hq_authorization rq) = Some (tk_admin ts)"

definition never_reset :: "token_set \<Rightarrow> http_event list \<Rightarrow> bool" where
  "never_reset ts es = list_all (\<lambda>e. case e of Incoming w rq \<Rightarrow> \<not> reset_request ts rq | _ \<Rightarrow> True) es"

lemma server_step_budget:
  assumes "server_step A fs fv ev s = Some s'"
  shows "sv_budget (sr_app s') = sv_budget (sr_app s) \<or> (\<exists>caller reauth t1 t2. ev = EvReset caller reauth t1 t2 \<and> caller = Admin)
    \<or> (\<exists>caller body clk. ev = EvHook caller body clk) \<or> (\<exists>i timed_out t1 t2. ev = EvResume i timed_out t1 t2)"
  using assms
  by (cases ev) (auto simp: post_mode_def post_kill_def post_config_reload_def post_config_def post_session_reset_def
      post_approval_def apply_reload_def privileged_Ok Let_def sweep_def split: sum.splits option.splits prod.splits if_splits bool.splits)

lemma reset_event:
  assumes "as_event P ts e = Some (EvReset Admin reauth t1 t2)"
  obtains w rq where "e = Incoming w rq" "reset_request ts rq"
proof (cases e)
  case (Incoming w rq)
  with assms obtain ep ps c where ep: "lookup_route protected_routes (hq_method rq) (hq_path rq) = Some (ep, ps)"
    "require_auth ts (hq_authorization rq) = Inr c" "endpoint_event P w ep c ps rq = Some (EvReset Admin reauth t1 t2)"
    using as_event_Incoming by blast
  from ep(3) have "ep = EpSessionReset \<and> c = Admin"
    by (cases ep) (auto simp: when_decoded_def split: sum.splits)
  with ep reset_route [of "hq_method rq" "hq_path rq" ps] admin_authorized that [OF Incoming] show ?thesis
    by (auto simp: reset_request_def)
qed (use assms in auto)

text \<open>A response of the hook, and an order put into the queue, come from the hook route.\<close>

lemma dispatch_hook:
  assumes "dispatch P w rq st = Some (h, st')"
    and "(\<exists>i ord r. h = Parked i ord r) \<or> (\<exists>q out. h = Done q \<and> rs_body q = HookBody out)
      \<or> (\<exists>caller body clk. as_event P (sv_tokens st) (Incoming w rq) = Some (EvHook caller body clk))"
  obtains caller body progress where "hq_method rq = POST" "hq_path rq = ''/v1/hook/pretooluse''"
    "require_auth (sv_tokens st) (hq_authorization rq) = Inr caller" "dc_json (pk_decoders P) (hq_body rq) = Inr body"
    "hook_begin (pk_arith P) (pk_from_str P) (pk_hook_request P) caller body (wd_clock w) st = Some (progress, st')"
    "h = (case progress of Answered r \<Rightarrow> Done (respond HookBody r) | Held i ord r \<Rightarrow> Parked i ord r)"
proof -
  from assms obtain ep ps caller where ep: "lookup_route protected_routes (hq_method rq) (hq_path rq) = Some (ep, ps)"
    "require_auth (sv_tokens st) (hq_authorization rq) = Inr caller" "run_endpoint P w ep caller ps rq st = Some (h, st')"
    by (auto simp: dispatch_def answered_def split: option.splits prod.splits sum.splits)
  have "ep = EpPreToolUse \<and> (\<exists>body. dc_json (pk_decoders P) (hq_body rq) = Inr body)"
  proof (cases "\<exists>caller body clk. as_event P (sv_tokens st) (Incoming w rq) = Some (EvHook caller body clk)")
    case True
    then obtain clr body clk where "as_event P (sv_tokens st) (Incoming w rq) = Some (EvHook clr body clk)" by blast
    then obtain ep' ps' c where "lookup_route protected_routes (hq_method rq) (hq_path rq) = Some (ep', ps')"
      "endpoint_event P w ep' c ps' rq = Some (EvHook clr body clk)" by (rule as_event_Incoming)
    moreover from this ep(1) have "ep' = ep" by simp
    ultimately show ?thesis by (cases ep) (auto simp: when_decoded_def split: sum.splits)
  next
    case False
    with assms(2) have "(\<exists>i ord r. h = Parked i ord r) \<or> (\<exists>q out. h = Done q \<and> rs_body q = HookBody out)" by blast
    with ep(3) show ?thesis
      by (cases ep) (auto simp: with_body_def answered_def changed_def bind_Some_iff split: sum.splits prod.splits)
  qed
  then obtain body where hook: "ep = EpPreToolUse" "dc_json (pk_decoders P) (hq_body rq) = Inr body" by blast
  with ep(3) obtain progress where
    "hook_begin (pk_arith P) (pk_from_str P) (pk_hook_request P) caller body (wd_clock w) st = Some (progress, st')"
    "h = (case progress of Answered r \<Rightarrow> Done (respond HookBody r) | Held i ord r \<Rightarrow> Parked i ord r)"
    by (auto simp: with_body_def bind_Some_iff)
  with ep(1,2) hook hook_route that show thesis by blast
qed

lemma relayer_budget [simp]: "sv_budget (relayer l m x st) = sv_budget st" "sv_caps (relayer l m x st) = sv_caps st"
  by (simp_all add: relayer_def)

lemma as_event_no_resume [simp]: "as_event P ts (Incoming w rq) \<noteq> Some (EvResume i timed_out t1 t2)"
proof
  assume "as_event P ts (Incoming w rq) = Some (EvResume i timed_out t1 t2)"
  then obtain ep ps c where "endpoint_event P w ep c ps rq = Some (EvResume i timed_out t1 t2)"
    using as_event_Incoming by blast
  then show False by (cases ep) (auto simp: when_decoded_def split: sum.splits)
qed

lemma incoming_hook:
  assumes "http_step P (Incoming w rq) s = Some (r, s')"
  obtains (quiet) "sr_waiting s' = sr_waiting s" "\<And>out. map_option rs_body r \<noteq> Some (HookBody out)"
    "sv_budget (sr_app s') = sv_budget (sr_app s) \<or> reset_request (sv_tokens (sr_app s)) rq"
  | (hook) rl caller body progress st where "hq_method rq = POST" "hq_path rq = ''/v1/hook/pretooluse''"
    "require_auth (sv_tokens (sr_app s)) (hq_authorization rq) = Inr caller" "dc_json (pk_decoders P) (hq_body rq) = Inr body"
    "hook_begin (pk_arith P) (pk_from_str P) (pk_hook_request P) caller body (wd_clock w)
       ((sr_app s)\<lparr>sv_limiter := rl\<rparr>) = Some (progress, st)"
    "sv_budget (sr_app s') = sv_budget st"
    "case progress of
       Answered a \<Rightarrow> r = Some (respond HookBody a) \<and> sr_waiting s' = sr_waiting s
     | Held i ord ref_price \<Rightarrow> r = None \<and> sr_waiting s' = (sr_waiting s)(i \<mapsto> (ord, ref_price))"
proof -
  from assms have "http_handle P w rq s = Some (r, s')" by simp
  then show thesis
  proof (cases rule: http_handle_settles)
    case (stopped rl)
    then show thesis by (intro quiet) auto
  next
    case (handled rl h st)
    let ?s = "s\<lparr>sr_app := (sr_app s)\<lparr>sv_limiter := rl\<rparr>\<rparr>"
    from handled(2) have d: "dispatch P w rq (sr_app ?s) = Some (h, st)" by simp
    show thesis
    proof (cases "(\<exists>i ord r. h = Parked i ord r) \<or> (\<exists>q out. h = Done q \<and> rs_body q = HookBody out)
      \<or> (\<exists>caller body clk. as_event P (sv_tokens ((sr_app s)\<lparr>sv_limiter := rl\<rparr>)) (Incoming w rq) = Some (EvHook caller body clk))")
      case True
      from dispatch_hook [OF handled(2) True] obtain caller body progress where
        "hq_method rq = POST" "hq_path rq = ''/v1/hook/pretooluse''"
        "require_auth (sv_tokens (sr_app s)) (hq_authorization rq) = Inr caller" "dc_json (pk_decoders P) (hq_body rq) = Inr body"
        "hook_begin (pk_arith P) (pk_from_str P) (pk_hook_request P) caller body (wd_clock w)
           ((sr_app s)\<lparr>sv_limiter := rl\<rparr>) = Some (progress, st)"
        "h = (case progress of Answered r \<Rightarrow> Done (respond HookBody r) | Held i ord r \<Rightarrow> Parked i ord r)" by auto
      with handled(3) show thesis
        by (intro hook [of caller body rl progress st]) (auto simp: settle_def record_response_def split: hook_progress.splits)
    next
      case False
      have budget: "sv_budget st = sv_budget (sr_app s) \<or> reset_request (sv_tokens (sr_app s)) rq"
      proof (cases "as_event P (sv_tokens (sr_app ?s)) (Incoming w rq)")
        case None
        with dispatch_step [OF d, of "per_minute 0 0" metrics_default None]
        have "relayer_server (per_minute 0 0) metrics_default None (settle h st ?s)
          = relayer_server (per_minute 0 0) metrics_default None ?s" by simp
        then have "sv_budget (sr_app (settle h st ?s)) = sv_budget (sr_app ?s)"
          by (metis relayer_server_simps(1) relayer_budget)
        then show ?thesis by (cases h) (simp_all add: settle_def)
      next
        case (Some ev)
        with dispatch_step [OF d, of "per_minute 0 0" metrics_default None]
        have "server_step (pk_arith P) (pk_from_str P) (pk_hook_request P) ev ?s = Some (settle h st ?s)" by simp
        from server_step_budget [OF this] have "sv_budget (sr_app (settle h st ?s)) = sv_budget (sr_app s)
            \<or> (\<exists>reauth t1 t2. ev = EvReset Admin reauth t1 t2)"
          using Some False as_event_no_resume by (auto simp del: as_event.simps)
        moreover have "sv_budget (sr_app (settle h st ?s)) = sv_budget st" by (cases h) (simp_all add: settle_def)
        moreover have "reset_request (sv_tokens (sr_app s)) rq" if "ev = EvReset Admin reauth t1 t2" for reauth t1 t2
          by (rule reset_event [of P "sv_tokens (sr_app s)" "Incoming w rq" reauth t1 t2])
            (use Some that in \<open>simp_all del: as_event.simps\<close>)
        ultimately show ?thesis by metis
      qed
      from False handled(3) budget show thesis by (intro quiet) (auto simp: settle_def record_response_def split: handled.splits)
    qed
  qed
qed

section \<open>Where an order comes from\<close>

text \<open>A call that is held or allowed has been gated, and it is about the order that is held.\<close>

lemma hook_gates:
  assumes hook: "hook_begin (pk_arith P) (pk_from_str P) (pk_hook_request P) caller body (wd_clock w)
      ((sr_app s)\<lparr>sv_limiter := rl\<rparr>) = Some (progress, st)"
    and rq: "hq_method rq = POST" "hq_path rq = ''/v1/hook/pretooluse''"
      "require_auth (sv_tokens (sr_app s)) (hq_authorization rq) = Inr caller" "dc_json (pk_decoders P) (hq_body rq) = Inr body"
    and passed: "progress = Answered (Ok Allow) \<and> order_call P rq (sr_app s) \<noteq> None \<or> (\<exists>i ord r. progress = Held i ord r)"
  obtains ord ref_price where "gated_call P s w rq ord ref_price" "order_asked P s (Incoming w rq) = Some (ord, ref_price)"
    "case progress of
       Held i ord' r \<Rightarrow> ord' = ord \<and> r = ref_price
     | Answered _ \<Rightarrow> ct_approval_mode (sv_control (sr_app s)) = Auto
         \<and> hook_finish (pk_arith P) ord ref_price (hc_budget (wd_clock w)) (hc_budget_report (wd_clock w))
         ((sr_app s)\<lparr>sv_limiter := rl\<rparr>) = Some (Allow, st)"
proof -
  have "\<exists>req. pk_hook_request P body = Ok req
      \<and> classify (ct_allowlist (sv_control (sr_app s))) (tc_name (hr_call req)) = Some PlaceOrder"
    using hook passed rq(4)
    by (auto simp: order_call_def hook_begin_def Let_def bind_Some_iff split: sum.splits if_splits)
  then obtain req where req: "pk_hook_request P body = Ok req"
    "classify (ct_allowlist (sv_control ((sr_app s)\<lparr>sv_limiter := rl\<rparr>))) (tc_name (hr_call req)) = Some PlaceOrder" by auto
  from passed have "progress = Answered (Ok Allow) \<or> (\<exists>i ord r. progress = Held i ord r)" by blast
  then obtain ord where ord: "caller \<noteq> Viewer"
    "parse_order (pk_arith P) (pk_from_str P) (hc_order_id (wd_clock w)) (tc_name (hr_call req)) (tc_arguments (hr_call req)) 0
      = Some (Ok ord)"
    "admissible (pk_arith P) (ct_risk (sv_control ((sr_app s)\<lparr>sv_limiter := rl\<rparr>))) ord (hook_context req (hc_gate (wd_clock w)))"
    and out: "case progress of
       Held i ord' r \<Rightarrow> ord' = ord \<and> r = hr_ref_price req \<and> ct_approval_mode (sv_control ((sr_app s)\<lparr>sv_limiter := rl\<rparr>)) = Manual
     | Answered _ \<Rightarrow> ct_approval_mode (sv_control ((sr_app s)\<lparr>sv_limiter := rl\<rparr>)) = Auto
         \<and> hook_finish (pk_arith P) ord (hr_ref_price req) (hc_budget (wd_clock w)) (hc_budget_report (wd_clock w))
         ((sr_app s)\<lparr>sv_limiter := rl\<rparr>) = Some (Allow, st)"
    by (rule hook_begin_gated [OF hook req])
  from out have ord4: "case progress of
       Held i ord' r \<Rightarrow> ord' = ord \<and> r = hr_ref_price req
     | Answered _ \<Rightarrow> ct_approval_mode (sv_control (sr_app s)) = Auto
         \<and> hook_finish (pk_arith P) ord (hr_ref_price req) (hc_budget (wd_clock w)) (hc_budget_report (wd_clock w))
         ((sr_app s)\<lparr>sv_limiter := rl\<rparr>) = Some (Allow, st)"
    by (cases progress) simp_all
  have call: "order_call P rq (sr_app s) = Some req" "call_order P w req = Some ord"
    using rq(4) req ord(2) by (simp_all add: order_call_def call_order_def)
  show thesis
  proof (rule that [of ord "hr_ref_price req"])
    show "gated_call P s w rq ord (hr_ref_price req)"
      using rq ord(1,3) call by (auto simp: gated_call_def)
  qed (use call ord4 in simp_all)
qed

lemma waiting_was_gated:
  assumes "http_step P e s = Some (r, s')" and "sr_waiting s' i = Some (ord, ref_price)"
  shows "sr_waiting s i = Some (ord, ref_price) \<or> (\<exists>w rq. e = Incoming w rq \<and> gated_call P s w rq ord ref_price)"
proof (cases e)
  case (Incoming w rq)
  with assms(1) have "http_step P (Incoming w rq) s = Some (r, s')" by simp
  then show ?thesis
  proof (cases rule: incoming_hook)
    case quiet
    with assms(2) show ?thesis by simp
  next
    case (hook rl caller body progress st)
    show ?thesis
    proof (cases progress)
      case (Answered a)
      with hook(7) assms(2) show ?thesis by simp
    next
      case (Held j ord' r')
      with hook_gates [OF hook(5,1-4)] have "gated_call P s w rq ord' r'" by auto
      with hook(7) Held assms(2) Incoming show ?thesis by (auto split: if_splits)
    qed
  qed
next
  case (Wake j timed_out t1 t2)
  with assms show ?thesis
    by (auto simp: http_resume_def resume_hook_def Let_def bind_Some_iff split: option.splits prod.splits if_splits)
qed (use assms in auto)

lemma waiting_orders_were_gated:
  assumes "http_run P s0 es s" and "sr_waiting s0 = Map.empty" and "sr_waiting s i = Some (ord, ref_price)"
  shows "\<exists>es1 s1 w rq r. http_run P s0 es1 s1 \<and> prefix (es1 @ [(Incoming w rq, r)]) es \<and> gated_call P s1 w rq ord ref_price"
  using assms
proof (induction arbitrary: ord ref_price rule: http_run.induct)
  case (http_next es s e r s')
  from waiting_was_gated [OF http_next.hyps(3) http_next.prems(2)] show ?case
  proof
    assume "sr_waiting s i = Some (ord, ref_price)"
    with http_next.IH [OF http_next.prems(1)] show ?thesis by (metis prefix_prefix)
  next
    assume "\<exists>w rq. e = Incoming w rq \<and> gated_call P s w rq ord ref_price"
    with http_next.hyps(1) show ?thesis by blast
  qed
qed simp

text \<open>A waiting hook that is answered with allow: its order was approved and the budget granted it.\<close>

lemma woken_hook:
  assumes "http_step P (Wake i timed_out t1 t2) s = Some (r, s')"
  obtains (quiet) "sr_waiting s' = sr_waiting s \<or> sr_waiting s' = (sr_waiting s)(i := None)" "sv_budget (sr_app s') = sv_budget (sr_app s)"
    "map_option rs_body r \<noteq> Some (HookBody Allow)"
  | (finished) ord ref_price out st where "sr_waiting s i = Some (ord, ref_price)"
    "aps_channels (sv_approvals (sr_app s)) i = Some Approved"
    "hook_finish (pk_arith P) ord ref_price t1 t2 (sr_app s) = Some (out, st)"
    "sv_budget (sr_app s') = sv_budget st" "map_option rs_body r = Some (HookBody out)"
proof -
  from assms obtain out s1 where woken: "resume_hook (pk_arith P) i timed_out t1 t2 s = Some (out, s1)"
    and r: "case out of None \<Rightarrow> r = None \<and> s' = s1
      | Some v \<Rightarrow> map_option rs_body r = Some (HookBody v) \<and> sr_waiting s' = sr_waiting s1 \<and> sv_budget (sr_app s') = sv_budget (sr_app s1)"
    by (auto simp: http_resume_def bind_Some_iff Let_def record_response_def split: option.splits)
  show thesis
  proof (cases out)
    case None
    with woken have "s1 = s" by (auto simp: resume_hook_def Let_def bind_Some_iff split: option.splits)
    with r None show thesis by (intro quiet) simp_all
  next
    case (Some v)
    with woken obtain ord ref_price cur verdict st where
      cur: "sr_waiting s i = Some (ord, ref_price)" "aps_channels (sv_approvals (sr_app s)) i = Some cur"
        "ticket_poll (i \<notin> ap_id ` set (aps_entries (sv_approvals (sr_app s)))) timed_out cur = Some verdict"
      and st: "hook_resume (pk_arith P) ord ref_price verdict t1 t2 (sr_app s) = Some (v, st)"
        "s1 = s\<lparr>sr_app := st, sr_waiting := (sr_waiting s)(i := None)\<rparr>"
      by (auto simp: resume_hook_def Let_def bind_Some_iff split: option.splits)
    show thesis
    proof (cases "verdict = Approved")
      case True
      with cur poll_Approved [of "i \<notin> ap_id ` set (aps_entries (sv_approvals (sr_app s)))" timed_out cur] st r Some
      show thesis by (intro finished [of ord ref_price v st]) (auto simp: hook_resume_def)
    next
      case False
      with st r Some show thesis
        by (intro quiet) (auto simp: hook_resume_def split: approval_state.splits)
    qed
  qed
qed

text \<open>An approval in the queue of a server comes from a request.\<close>

lemma approved_by_request:
  assumes run: "http_run P s0 es s" and queue: "sv_approvals (sr_app s0) = approval_store_new timeout"
    and "aps_channels (sv_approvals (sr_app s)) i = Some Approved"
  shows "\<exists>w rq r. (Incoming w rq, r) \<in> set es \<and> approving_request P (sv_tokens (sr_app s0)) i rq"
proof -
  let ?ts = "sv_tokens (sr_app s0)"
  from http_run_events [OF run] obtain evs where
    sub: "subseq evs (List.map_filter (as_event P ?ts) (map fst es))"
    and srun: "server_run (pk_arith P) (pk_from_str P) (pk_hook_request P) (bare s0) evs (bare s)" by blast
  from queue have "sv_approvals (sr_app (bare s0)) = approval_store_new timeout" by simp
  from server_run_queue [OF srun this] obtain ops where
    ops: "approvals_run timeout ops (sv_approvals (sr_app (bare s)))"
      "\<And>now i reason. Decide now i Approved reason \<in> set ops \<Longrightarrow>
         \<exists>caller. caller \<noteq> Viewer \<and> EvApproval caller i ''approve'' reason now \<in> set evs" by blast
  from assms(3) have "aps_channels (sv_approvals (sr_app (bare s))) i = Some Approved" by simp
  from approved_was_decided [OF ops(1) this] ops(2) obtain caller reason now where
    caller: "caller \<noteq> Viewer" and ev: "EvApproval caller i ''approve'' reason now \<in> set evs" by blast
  from list_emb_set [OF sub ev] have "EvApproval caller i ''approve'' reason now \<in> set (List.map_filter (as_event P ?ts) (map fst es))"
    by metis
  then obtain e r where e: "(e, r) \<in> set es" "as_event P ?ts e = Some (EvApproval caller i ''approve'' reason now)"
    by (auto simp: List.map_filter_def split: option.splits)
  from approval_event [OF e(2) caller] e(1) show ?thesis by metis
qed

text \<open>What is known about a step that lets an order go, by the two ways it can come about.\<close>

lemma let_go_incoming:
  assumes "http_step P (Incoming w rq) s = Some (r, s')" and "let_go P s (Incoming w rq) r"
  obtains ord ref_price rl st where "gated_call P s w rq ord ref_price" "order_asked P s (Incoming w rq) = Some (ord, ref_price)"
    "ct_approval_mode (sv_control (sr_app s)) = Auto" "sv_budget (sr_app s') = sv_budget st"
    "hook_finish (pk_arith P) ord ref_price (hc_budget (wd_clock w)) (hc_budget_report (wd_clock w))
       ((sr_app s)\<lparr>sv_limiter := rl\<rparr>) = Some (Allow, st)"
  using assms(1)
proof (cases rule: incoming_hook)
  case quiet
  from assms(2) have "map_option rs_body r = Some (HookBody Allow)" by (simp only: let_go_def)
  with quiet(2) show ?thesis by (rule notE)
next
  case (hook rl caller body progress st)
  with assms(2) have prog: "progress = Answered (Ok Allow)" "order_call P rq (sr_app s) \<noteq> None"
    by (auto simp: let_go_def split: hook_progress.splits)
  then have "progress = Answered (Ok Allow) \<and> order_call P rq (sr_app s) \<noteq> None \<or> (\<exists>i ord r. progress = Held i ord r)" by simp
  then obtain ord ref_price where
    ord: "gated_call P s w rq ord ref_price" "order_asked P s (Incoming w rq) = Some (ord, ref_price)"
    and out: "case progress of
       Held i ord' r \<Rightarrow> ord' = ord \<and> r = ref_price
     | Answered _ \<Rightarrow> ct_approval_mode (sv_control (sr_app s)) = Auto
         \<and> hook_finish (pk_arith P) ord ref_price (hc_budget (wd_clock w)) (hc_budget_report (wd_clock w))
           ((sr_app s)\<lparr>sv_limiter := rl\<rparr>) = Some (Allow, st)"
    by (rule hook_gates [OF hook(5,1-4)])
  from out show ?thesis by (intro that [of ord ref_price st rl] ord hook(6)) (simp_all add: prog(1))
qed

lemma let_go_woken:
  assumes "http_step P (Wake i timed_out t1 t2) s = Some (r, s')" and "let_go P s (Wake i timed_out t1 t2) r"
  obtains ord ref_price st where "order_asked P s (Wake i timed_out t1 t2) = Some (ord, ref_price)"
    "aps_channels (sv_approvals (sr_app s)) i = Some Approved" "sv_budget (sr_app s') = sv_budget st"
    "hook_finish (pk_arith P) ord ref_price t1 t2 (sr_app s) = Some (Allow, st)"
  using assms(1)
proof (cases rule: woken_hook)
  case quiet
  with assms(2) show ?thesis by (simp add: let_go_def)
next
  case (finished ord ref_price out st)
  with assms(2) show ?thesis by (intro that [of ord ref_price st]) (simp_all add: let_go_def)
qed

text \<open>What an order is worth to the budget.\<close>

definition order_value :: "arith \<Rightarrow> trade_order \<Rightarrow> dec option \<Rightarrow> dec option" where
  "order_value A ord ref_price = (case or_else (o_limit_price ord) ref_price of
       None \<Rightarrow> Some 0 | Some p \<Rightarrow> d_mul A (o_qty ord) p)"

fun budget_reading :: "http_event \<Rightarrow> instant" where
  "budget_reading (Incoming w rq) = hc_budget (wd_clock w)"
| "budget_reading (Wake i timed_out t1 t2) = t1"
| "budget_reading (Sweep now) = now"

lemma hook_finish_records:
  assumes "hook_finish A ord ref_price t1 t2 st = Some (out, st')"
  obtains v res where "order_value A ord ref_price = Some v"
    "try_record A (sv_caps st) (sv_budget st) t1 t2 v = Some (res, sv_budget st')" "out = Allow \<longleftrightarrow> res = Ok ()"
proof -
  from assms obtain v res b where "order_value A ord ref_price = Some v"
    and t: "try_record A (sv_caps st) (sv_budget st) t1 t2 v = Some (res, b)"
    and out: "out = (case res of Inl breach \<Rightarrow> Deny (Lit ''session budget: '' # show_budget_breach breach) | Inr _ \<Rightarrow> Allow)"
    and "st' = st\<lparr>sv_budget := b\<rparr>"
    by (auto simp: hook_finish_def order_value_def bind_Some_iff)
  then show thesis by (intro that [of v res]) (auto split: sum.splits)
qed

lemma let_go_recorded:
  assumes "http_step P e s = Some (r, s')" and "let_go P s e r"
  obtains ord ref_price v t2 where "order_asked P s e = Some (ord, ref_price)" "order_value (pk_arith P) ord ref_price = Some v"
    "try_record (pk_arith P) (sv_caps (sr_app s)) (sv_budget (sr_app s)) (budget_reading e) t2 v = Some (Ok (), sv_budget (sr_app s'))"
proof (cases e)
  case (Incoming w rq)
  obtain ord ref_price rl st where ord: "order_asked P s (Incoming w rq) = Some (ord, ref_price)"
    and st: "sv_budget (sr_app s') = sv_budget st"
    and fin: "hook_finish (pk_arith P) ord ref_price (hc_budget (wd_clock w)) (hc_budget_report (wd_clock w))
       ((sr_app s)\<lparr>sv_limiter := rl\<rparr>) = Some (Allow, st)"
    by (rule let_go_incoming [OF assms(1,2) [unfolded Incoming]])
  from fin show thesis by (rule hook_finish_records) (use that [of ord ref_price] ord Incoming st in auto)
next
  case (Wake i timed_out t1 t2)
  obtain ord ref_price st where ord: "order_asked P s (Wake i timed_out t1 t2) = Some (ord, ref_price)"
    and st: "sv_budget (sr_app s') = sv_budget st"
    and fin: "hook_finish (pk_arith P) ord ref_price t1 t2 (sr_app s) = Some (Allow, st)"
    by (rule let_go_woken [OF assms(1,2) [unfolded Wake]])
  from fin show thesis by (rule hook_finish_records) (use that [of ord ref_price] ord Wake st in auto)
qed (use assms(2) in \<open>simp add: let_go_def\<close>)

section \<open>The budget over a history\<close>

text \<open>What an order that a step lets go counts for.\<close>

definition order_worth :: "packages \<Rightarrow> server \<Rightarrow> http_event \<Rightarrow> dec" where
  "order_worth P s e = (case order_asked P s e of
       None \<Rightarrow> 0
     | Some (ord, ref_price) \<Rightarrow> max (unwrap_or 0 (order_value (pk_arith P) ord ref_price)) 0)"

text \<open>A history of steps, each with the state it was taken in and its response.\<close>

fun http_trace ::
    "packages \<Rightarrow> http_event list \<Rightarrow> server \<Rightarrow> ((server \<times> http_event \<times> response option) list \<times> server) option" where
  "http_trace P [] s = Some ([], s)"
| "http_trace P (e # es) s = do {
     (r, s1) \<leftarrow> http_step P e s;
     (tr, s2) \<leftarrow> http_trace P es s1;
     Some ((s, e, r) # tr, s2) }"

definition orders_let_go ::
    "packages \<Rightarrow> (server \<times> http_event \<times> response option) list \<Rightarrow> (server \<times> http_event) list" where
  "orders_let_go P tr = map (\<lambda>(s, e, r). (s, e)) (filter (\<lambda>(s, e, r). let_go P s e r) tr)"

lemma fixed_relayer [simp]: "fixed_part (relayer l m x st) = fixed_part st"
  by (simp add: fixed_part_def relayer_def)

lemma http_step_fixed:
  assumes "http_step P e s = Some (r, s')"
  shows "fixed_part (sr_app s') = fixed_part (sr_app s)"
  using http_step_step [OF assms, of "per_minute 0 0" metrics_default None]
  by (metis fixed_relayer relayer_server_simps(1) server_step_fixed)

text \<open>A step leaves the budget alone, or it is one request to it, or it is a reset.\<close>

lemma http_step_budget:
  assumes step: "http_step P e s = Some (r, s')"
    and no_reset: "never_reset (sv_tokens (sr_app s)) [e]"
  shows "sv_budget (sr_app s') = sv_budget (sr_app s) \<and> \<not> let_go P s e r
    \<or> (\<exists>t2 v res. try_record (pk_arith P) (sv_caps (sr_app s)) (sv_budget (sr_app s)) (budget_reading e) t2 v
          = Some (res, sv_budget (sr_app s'))
        \<and> (let_go P s e r \<longrightarrow> res = Ok () \<and> order_worth P s e = max v 0))"
proof (cases "let_go P s e r")
  case True
  with step obtain ord ref_price v t2 where "order_asked P s e = Some (ord, ref_price)" "order_value (pk_arith P) ord ref_price = Some v"
    "try_record (pk_arith P) (sv_caps (sr_app s)) (sv_budget (sr_app s)) (budget_reading e) t2 v = Some (Ok (), sv_budget (sr_app s'))"
    by (rule let_go_recorded)
  then show ?thesis by (auto simp: order_worth_def unwrap_or_def)
next
  case kept: False
  show ?thesis
  proof (cases e)
    case (Incoming w rq)
    from step [unfolded Incoming] show ?thesis
    proof (cases rule: incoming_hook)
      case quiet
      with no_reset Incoming kept show ?thesis by (simp add: never_reset_def)
    next
      case (hook rl caller body progress st)
      from hook(5) show ?thesis
      proof (cases rule: hook_begin_cases)
        case (finished ord ref_price out)
        from finished(2) show ?thesis
          by (rule hook_finish_records) (use kept Incoming hook(6) in auto)
      qed (use kept hook(6) in simp_all)
    qed
  next
    case (Wake i timed_out t1 t2)
    from step [unfolded Wake] show ?thesis
    proof (cases rule: woken_hook)
      case quiet
      with kept show ?thesis by simp
    next
      case (finished ord ref_price out st)
      from finished(3) show ?thesis
        by (rule hook_finish_records) (use kept Wake finished(4) in auto)
    qed
  next
    case (Sweep now)
    with step kept show ?thesis by (auto simp: sweep_def)
  qed
qed

text \<open>What was granted of a list of requests.\<close>

definition granted_requests :: "bool list \<Rightarrow> (instant \<times> instant \<times> dec) list \<Rightarrow> (instant \<times> dec) list" where
  "granted_requests gs rs = map (\<lambda>(g, t1, t2, n). (t1, max n 0)) (filter fst (zip gs rs))"

lemma granted_notional_sum: "granted_notional gs rs = sum_list (map snd (granted_requests gs rs))"
  by (induction gs rs rule: granted_notional.induct) (auto simp: granted_requests_def)

lemma granted_requests_replicate:
  "k \<le> length rs \<Longrightarrow> granted_requests (replicate k True @ replicate (length rs - k) False) rs
     = map (\<lambda>(t1, t2, n). (t1, max n 0)) (take k rs)"
proof (induction rs arbitrary: k)
  case (Cons r rs)
  then show ?case by (cases k) (auto simp: granted_requests_def zip_replicate1 filter_False)
qed (simp add: granted_requests_def)

lemma subseq_sum_list:
  assumes "subseq xs ys" and "\<And>y. y \<in> set ys \<Longrightarrow> 0 \<le> (f y :: dec)"
  shows "sum_list (map f xs) \<le> sum_list (map f ys)"
  using assms
proof (induction rule: list_emb.induct)
  case (list_emb_Nil ys)
  then show ?case by (induction ys) simp_all
qed (auto intro: add_increasing)

text \<open>
  Without a reset, the budget of a server at the end of a history is what a list of requests
  makes of the budget at its start, and the orders that were let go are among those it granted.
\<close>

lemma history_requests:
  assumes "http_trace P es s = Some (tr, s')"
    and "never_reset (sv_tokens (sr_app s)) es"
  shows "\<exists>rs gs. run_requests (try_record (pk_arith P) (sv_caps (sr_app s))) (sv_budget (sr_app s)) rs
        = Some (gs, sv_budget (sr_app s'))
    \<and> subseq (map (\<lambda>(x, e). (budget_reading e, order_worth P x e)) (orders_let_go P tr)) (granted_requests gs rs)"
  using assms
proof (induction es arbitrary: s tr)
  case Nil
  then show ?case by (intro exI [of _ "[]"]) (simp add: orders_let_go_def granted_requests_def)
next
  case (Cons e es)
  from Cons.prems(1) obtain r s1 tr1 where step: "http_step P e s = Some (r, s1)"
    and rest: "http_trace P es s1 = Some (tr1, s')" and tr: "tr = (s, e, r) # tr1"
    by (auto simp: bind_Some_iff)
  from http_step_fixed [OF step] have same: "sv_tokens (sr_app s1) = sv_tokens (sr_app s)" "sv_caps (sr_app s1) = sv_caps (sr_app s)"
    by (simp_all add: fixed_part_def)
  from Cons.IH [OF rest] Cons.prems(2) [unfolded never_reset_def] same [symmetric] obtain rs gs where
    rs: "run_requests (try_record (pk_arith P) (sv_caps (sr_app s))) (sv_budget (sr_app s1)) rs = Some (gs, sv_budget (sr_app s'))"
    "subseq (map (\<lambda>(x, e). (budget_reading e, order_worth P x e)) (orders_let_go P tr1)) (granted_requests gs rs)" by (auto simp: never_reset_def)
  have "never_reset (sv_tokens (sr_app s)) [e]" using Cons.prems(2) by (simp add: never_reset_def)
  from http_step_budget [OF step this] show ?case
  proof
    assume "sv_budget (sr_app s1) = sv_budget (sr_app s) \<and> \<not> let_go P s e r"
    with rs tr show ?thesis by (intro exI [of _ rs] exI [of _ gs]) (simp add: orders_let_go_def)
  next
    assume "\<exists>t2 v res. try_record (pk_arith P) (sv_caps (sr_app s)) (sv_budget (sr_app s)) (budget_reading e) t2 v
          = Some (res, sv_budget (sr_app s1)) \<and> (let_go P s e r \<longrightarrow> res = Ok () \<and> order_worth P s e = max v 0)"
    then obtain t2 v res where rec: "try_record (pk_arith P) (sv_caps (sr_app s)) (sv_budget (sr_app s)) (budget_reading e) t2 v
          = Some (res, sv_budget (sr_app s1))" and go: "let_go P s e r \<Longrightarrow> res = Ok () \<and> order_worth P s e = max v 0" by blast
    show ?thesis
    proof (intro exI conjI)
      show "run_requests (try_record (pk_arith P) (sv_caps (sr_app s))) (sv_budget (sr_app s)) ((budget_reading e, t2, v) # rs)
        = Some (is_ok res # gs, sv_budget (sr_app s'))" using rec rs(1) by simp
      show "subseq (map (\<lambda>(x, e). (budget_reading e, order_worth P x e)) (orders_let_go P tr))
          (granted_requests (is_ok res # gs) ((budget_reading e, t2, v) # rs))"
        using rs(2) go by (auto simp: tr orders_let_go_def granted_requests_def)
    qed
  qed
qed

section \<open>Properties\<close>

text \<open>
  C2. What goes out was gated when it came in. Take any history of requests to a fresh server, and
  a step at its end that tells the agent to go ahead with an order. Then the step is about an
  order that a request of this history, or the step itself, brought in: a post to the hook with
  an operator's or administrator's token, whose order the risk limits of that moment admitted.
  The session was not latched, and it has counted the order. If the order had to wait, then
  another request of the history approved it by its id, with a token of such a caller.
\<close>

theorem order_goes_out_gated:
  assumes "http_run P s0 es s" and "sr_waiting s0 = Map.empty" and "sv_approvals (sr_app s0) = approval_store_new timeout"
    and "http_step P e s = Some (r, s')" and "let_go P s e r"
  shows "\<exists>ord ref_price. order_asked P s e = Some (ord, ref_price)
    \<and> (\<forall>w rq. e = Incoming w rq \<longrightarrow> ct_approval_mode (sv_control (sr_app s)) = Auto)
    \<and> (\<exists>es1 s1 w rq r1. http_run P s0 es1 s1 \<and> prefix (es1 @ [(Incoming w rq, r1)]) (es @ [(e, r)])
         \<and> gated_call P s1 w rq ord ref_price)
    \<and> \<not> sb_breached (sv_budget (sr_app s))
    \<and> sb_orders_used (sv_budget (sr_app s')) = sb_orders_used (sv_budget (sr_app s)) + 1
    \<and> (\<forall>i timed_out t1 t2. e = Wake i timed_out t1 t2 \<longrightarrow>
         (\<exists>w rq r. (Incoming w rq, r) \<in> set es \<and> approving_request P (sv_tokens (sr_app s0)) i rq))"
proof -
  from assms(4,5) obtain ord ref_price v t2 where ord: "order_asked P s e = Some (ord, ref_price)"
    and rec: "try_record (pk_arith P) (sv_caps (sr_app s)) (sv_budget (sr_app s)) (budget_reading e) t2 v
      = Some (Ok (), sv_budget (sr_app s'))" by (rule let_go_recorded)
  from try_record_Ok [OF rec] have counted: "\<not> sb_breached (sv_budget (sr_app s))"
    "sb_orders_used (sv_budget (sr_app s')) = sb_orders_used (sv_budget (sr_app s)) + 1" by simp_all
  have "(\<exists>es1 s1 w rq r1. http_run P s0 es1 s1 \<and> prefix (es1 @ [(Incoming w rq, r1)]) (es @ [(e, r)])
      \<and> gated_call P s1 w rq ord ref_price)
    \<and> (\<forall>w rq. e = Incoming w rq \<longrightarrow> ct_approval_mode (sv_control (sr_app s)) = Auto)
    \<and> (\<forall>i timed_out t1 t2. e = Wake i timed_out t1 t2 \<longrightarrow>
         (\<exists>w rq r. (Incoming w rq, r) \<in> set es \<and> approving_request P (sv_tokens (sr_app s0)) i rq))"
  proof (cases e)
    case (Incoming w rq)
    obtain ord' ref' rl st where "gated_call P s w rq ord' ref'" "order_asked P s (Incoming w rq) = Some (ord', ref')"
      "ct_approval_mode (sv_control (sr_app s)) = Auto"
      by (rule let_go_incoming [OF assms(4,5) [unfolded Incoming]])
    with ord have "gated_call P s w rq ord ref_price" "ct_approval_mode (sv_control (sr_app s)) = Auto"
      by (simp_all add: Incoming del: order_asked.simps)
    with assms(1) Incoming show ?thesis by blast
  next
    case (Wake i timed_out t1 t2)
    have "aps_channels (sv_approvals (sr_app s)) i = Some Approved"
      by (rule let_go_woken [OF assms(4,5) [unfolded Wake]])
    with approved_by_request [OF assms(1,3)] waiting_orders_were_gated [OF assms(1,2)] ord Wake show ?thesis
      by (auto simp: prefix_order.trans)
  qed (use assms(5) in \<open>simp add: let_go_def\<close>)
  with ord counted show ?thesis by auto
qed

text \<open>
  C3. The agent stays within its session. Take any history of requests to a server whose session
  budget is fresh, without a reset by the administrator's token, whatever else is asked, approved,
  reloaded or reconfigured. Then the orders that the agent is told to go ahead with are no more
  than the cap on orders, each goes out before the time is up, and their values, negative ones
  counting as nothing, add up to no more than the cap on notional if the arithmetic is exact.
\<close>

theorem agent_stays_within_the_session:
  assumes "http_trace P es s = Some (tr, s')" and "sv_budget (sr_app s) = session_budget_new t0"
    and "never_reset (sv_tokens (sr_app s)) es"
  shows "(bc_max_orders (sv_caps (sr_app s)) = 0 \<or> length (orders_let_go P tr) \<le> unat (bc_max_orders (sv_caps (sr_app s))))
    \<and> (bc_max_duration (sv_caps (sr_app s)) = 0 \<or>
         list_all (\<lambda>(x, e). elapsed t0 (budget_reading e) < int (bc_max_duration (sv_caps (sr_app s)))) (orders_let_go P tr))
    \<and> (pk_arith P = exact_arith \<longrightarrow> bc_max_notional (sv_caps (sr_app s)) \<le> 0 \<or>
         sum_list (map (\<lambda>(x, e). order_worth P x e) (orders_let_go P tr)) \<le> bc_max_notional (sv_caps (sr_app s)))"
proof -
  let ?caps = "sv_caps (sr_app s)" and ?gone = "map (\<lambda>(x, e). (budget_reading e, order_worth P x e)) (orders_let_go P tr)"
  from history_requests [OF assms(1,3)] assms(2) obtain rs gs where
    run: "run_requests (try_record (pk_arith P) ?caps) (session_budget_new t0) rs = Some (gs, sv_budget (sr_app s'))"
    and sub: "subseq ?gone (granted_requests gs rs)" by auto
  from session_budget_is_a_hard_stop [OF run] obtain k where
    k: "gs = replicate k True @ replicate (length rs - k) False" "k \<le> length rs"
      "bc_max_orders ?caps = 0 \<or> k \<le> unat (bc_max_orders ?caps)"
      "bc_max_notional ?caps \<le> 0 \<or> sb_notional_used (sv_budget (sr_app s')) \<le> bc_max_notional ?caps"
      "\<forall>i < k. bc_max_duration ?caps = 0 \<or> elapsed t0 (fst (rs ! i)) < int (bc_max_duration ?caps)"
      "pk_arith P = exact_arith \<longrightarrow> sb_notional_used (sv_budget (sr_app s')) = granted_notional gs rs" by blast
  have granted: "granted_requests gs rs = map (\<lambda>(t1, t2, n). (t1, max n 0)) (take k rs)"
    using granted_requests_replicate [OF k(2)] k(1) by simp
  have "length (orders_let_go P tr) \<le> k"
    using list_emb_length [OF sub] k(2) by (simp add: granted)
  moreover have "elapsed t0 t < int (bc_max_duration ?caps)" if gone: "(t, v) \<in> set ?gone" "bc_max_duration ?caps \<noteq> 0" for t v
  proof -
    from list_emb_set [OF sub gone(1)] have "(t, v) \<in> set (granted_requests gs rs)" by metis
    then have "t \<in> fst ` set (take k rs)" by (force simp: granted)
    then obtain i where "i < k" "t = fst (rs ! i)" using k(2) by (auto simp: in_set_conv_nth image_iff)
    with k(5) gone(2) show ?thesis by auto
  qed
  moreover have "sum_list (map snd ?gone) \<le> granted_notional gs rs"
    unfolding granted_notional_sum by (rule subseq_sum_list [OF sub]) (auto simp: granted_requests_def)
  ultimately show ?thesis using k(3,4,6) by (auto simp: list_all_iff comp_def split_def)
qed

section \<open>The properties at work\<close>

text \<open>A server whose session is one order of up to 1500, and the call that the demonstration order comes with.\<close>

definition session_server :: server where
  "session_server = \<lparr>sr_app = (demo_app Auto)\<lparr>sv_caps := budget_caps_default\<lparr>bc_max_orders := 1, bc_max_notional := 1500\<rparr>\<rparr>,
     sr_waiting = Map.empty\<rparr>"

definition session_call :: http_event where
  "session_call = Incoming demo_world (demo_post ''/v1/hook/pretooluse'' [])"

lemma hook_lookup:
  "lookup_route open_routes POST ''/v1/hook/pretooluse'' = None"
  "lookup_route protected_routes POST ''/v1/hook/pretooluse'' = Some (EpPreToolUse, [])"
  by (simp_all add: open_routes_def protected_routes_def match_path_def is_param_def method_serves_def)

lemma session_hook:
  assumes "ct_risk (sv_control st) = demo_risk" "ct_allowlist (sv_control st) = demo_tools" "ct_approval_mode (sv_control st) = Auto"
  shows "hook_begin exact_arith demo_from_str (\<lambda>_. Ok demo_request) Admin JNull demo_clock st
    = map_option (map_prod (\<lambda>out. Answered (Ok out)) id) (hook_finish exact_arith demo_buy None 0 0 st)"
  using assms demo_evaluate demo_parse
  by (cases "hook_finish exact_arith demo_buy None 0 0 st")
    (auto simp: hook_begin_def demo_clock_def caller_require_def Let_def classify_from_pairs demo_tools_def
      demo_request_def demo_buy_def map_prod_def split: prod.splits)

lemma session_step:
  "\<exists>r s'. http_step demo_packages session_call session_server = Some (r, s') \<and> let_go demo_packages session_server session_call r
     \<and> order_asked demo_packages session_server session_call = Some (demo_buy, None)
     \<and> sb_orders_used (sv_budget (sr_app s')) = 1"
proof -
  have tok: "sv_tokens (demo_app Auto) = admin_only ''secret''" by (simp add: demo_server_simps)
  have lim: "rate_limit 0 0 (sv_limiter (demo_app Auto)) = (Ok (), (sv_limiter (demo_app Auto))\<lparr>rl_count := 1\<rparr>)"
    by (simp add: demo_server_simps rate_limit_def limiter_check_def per_minute_def rate_limiter_new_def elapsed_def from_secs_def
        nanos_per_sec_def Let_def)
  have ctl: "ct_risk (sv_control (demo_app Auto)) = demo_risk" "ct_allowlist (sv_control (demo_app Auto)) = demo_tools"
    "ct_approval_mode (sv_control (demo_app Auto)) = Auto" "sv_budget (demo_app Auto) = session_budget_new 0"
    by (simp_all add: demo_server_simps)
  have order: "order_asked demo_packages session_server session_call = Some (demo_buy, None)"
    using demo_parse
    by (simp add: session_call_def session_server_def order_call_def call_order_def demo_packages_def demo_decoders_def demo_post_def
        demo_world_def demo_clock_def demo_request_def ctl demo_tools_def classify_from_pairs demo_buy_def)
  let ?st = "(demo_app Auto)\<lparr>sv_caps := budget_caps_default\<lparr>bc_max_orders := 1, bc_max_notional := 1500\<rparr>,
    sv_limiter := (sv_limiter (demo_app Auto))\<lparr>rl_count := 1\<rparr>\<rparr>"
  have fin: "hook_finish exact_arith demo_buy None 0 0 ?st
      = Some (Allow, ?st\<lparr>sv_budget := (session_budget_new 0)\<lparr>sb_orders_used := 1, sb_notional_used := 1000\<rparr>\<rparr>)"
    by (simp add: hook_finish_def ctl or_else_def demo_buy_def try_record_def session_budget_new_def budget_caps_default_def
        exact_arith_def)
  have call: "order_call demo_packages (demo_post ''/v1/hook/pretooluse'' []) (sr_app session_server) \<noteq> None"
    by (simp add: order_call_def session_server_def demo_packages_def demo_decoders_def ctl demo_request_def demo_tools_def
        classify_from_pairs)
  have served: "http_handle demo_packages demo_world (demo_post ''/v1/hook/pretooluse'' []) session_server
    = Some (Some (respond HookBody (Ok Allow)), session_server\<lparr>sr_app := record_response (respond HookBody (Ok Allow))
        (?st\<lparr>sv_budget := (session_budget_new 0)\<lparr>sb_orders_used := 1, sb_notional_used := 1000\<rparr>\<rparr>)\<rparr>)"
    by (simp add: http_handle_def session_server_def demo_post_def demo_world_def lim dispatch_def hook_lookup tok demo_bearer
        demo_packages_def demo_decoders_def with_body_def session_hook ctl fin Let_def)
  show ?thesis
    using order call served by (simp add: session_call_def let_go_def record_response_def del: order_asked.simps)
qed

theorem order_goes_out_gated_witness:
  "\<exists>r s'. http_step demo_packages session_call session_server = Some (r, s')
     \<and> (\<exists>w rq. gated_call demo_packages session_server w rq demo_buy None)"
proof -
  from session_step obtain r s' where step: "http_step demo_packages session_call session_server = Some (r, s')"
    "let_go demo_packages session_server session_call r"
    "order_asked demo_packages session_server session_call = Some (demo_buy, None)" by blast
  have start: "http_run demo_packages session_server [] session_server" by (rule http_run.http_start)
  have fresh: "sr_waiting session_server = Map.empty"
    "sv_approvals (sr_app session_server) = approval_store_new (so_approval_timeout server_opts_default)"
    by (simp_all add: session_server_def demo_server_simps)
  from order_goes_out_gated [OF start fresh step(1,2)] step(3) obtain es1 s1 w rq r1 where
    "http_run demo_packages session_server es1 s1" "prefix (es1 @ [(Incoming w rq, r1)]) ([] @ [(session_call, r)])"
    "gated_call demo_packages s1 w rq demo_buy None" by auto
  moreover from this(2) have "es1 = []" by (auto simp: prefix_def Cons_eq_append_conv append_eq_Cons_conv)
  moreover from \<open>http_run demo_packages session_server es1 s1\<close> \<open>es1 = []\<close> have "s1 = session_server"
    by (auto elim: http_run.cases)
  ultimately show ?thesis using step(1) by blast
qed

theorem agent_stays_within_the_session_witness:
  "\<exists>tr s'. http_trace demo_packages [session_call] session_server = Some (tr, s')
     \<and> length (orders_let_go demo_packages tr) = 1
     \<and> sum_list (map (\<lambda>(x, e). order_worth demo_packages x e) (orders_let_go demo_packages tr)) \<le> 1500"
proof -
  from session_step obtain r s' where step: "http_step demo_packages session_call session_server = Some (r, s')"
    "let_go demo_packages session_server session_call r" by blast
  then have tr: "http_trace demo_packages [session_call] session_server = Some ([(session_server, session_call, r)], s')" by simp
  have "sv_budget (sr_app session_server) = session_budget_new 0" by (simp add: session_server_def demo_server_simps)
  moreover have "never_reset (sv_tokens (sr_app session_server)) [session_call]"
    by (simp add: never_reset_def session_call_def demo_post_def reset_request_def)
  moreover have "sv_caps (sr_app session_server) = budget_caps_default\<lparr>bc_max_orders := 1, bc_max_notional := 1500\<rparr>"
    "pk_arith demo_packages = exact_arith" by (simp_all add: session_server_def demo_packages_def)
  ultimately show ?thesis
    using agent_stays_within_the_session [OF tr] tr step(2) by (simp add: orders_let_go_def)
qed

end
