(* ===== verification/Bytes.thy ===== *)
theory Bytes
  imports Prelude
begin

text \<open>
  Byte strings, the big-endian form of unsigned integers and reading it back. The integers
  of the code are at most 128 bits wide; the lemmas hold for every width.
\<close>

type_synonym bytes = "u8 list"

fun to_be :: "nat \<Rightarrow> nat \<Rightarrow> bytes" where
  "to_be 0 v = []"
| "to_be (Suc n) v = to_be n (v div 256) @ [of_nat (v mod 256)]"

definition from_be :: "bytes \<Rightarrow> nat" where
  "from_be bs = foldl (\<lambda>acc b. acc * 256 + unat b) 0 bs"

text \<open>The position of the first element that satisfies a predicate.\<close>

fun position_of :: "('a \<Rightarrow> bool) \<Rightarrow> 'a list \<Rightarrow> nat option" where
  "position_of P [] = None"
| "position_of P (x # xs) = (if P x then Some 0 else map_option Suc (position_of P xs))"

lemma position_of_Some:
  "position_of P xs = Some i \<longleftrightarrow> i < length xs \<and> P (xs ! i) \<and> (\<forall>j < i. \<not> P (xs ! j))"
proof (induction xs arbitrary: i)
  case Nil
  then show ?case by simp
next
  case (Cons x xs)
  show ?case
  proof (cases i)
    case 0
    then show ?thesis by auto
  next
    case (Suc k)
    then show ?thesis using Cons by (auto simp: less_Suc_eq_0_disj)
  qed
qed

lemma position_of_None: "position_of P xs = None \<longleftrightarrow> (\<forall>x \<in> set xs. \<not> P x)"
  by (induction xs) auto

lemma length_to_be [simp]: "length (to_be n v) = n"
  by (induction n arbitrary: v) simp_all

lemma from_be_Nil [simp]: "from_be [] = 0"
  by (simp add: from_be_def)

lemma from_be_snoc [simp]: "from_be (bs @ [b]) = from_be bs * 256 + unat b"
  by (simp add: from_be_def)

lemma from_be_append: "from_be (xs @ ys) = from_be xs * 256 ^ length ys + from_be ys"
proof (induction ys rule: rev_induct)
  case Nil
  then show ?case by simp
next
  case (snoc y ys)
  then show ?case by (simp add: algebra_simps flip: append_assoc)
qed

lemma from_be_Cons: "from_be (b # bs) = unat b * 256 ^ length bs + from_be bs"
  using from_be_append [of "[b]" bs] by (simp add: from_be_def)

lemma from_be_zeros [simp]: "from_be (replicate k 0) = 0"
  by (induction k) (simp_all add: from_be_Cons)

lemma unat_byte_less: "unat (b :: u8) < 256"
  using unsigned_less [of b, where ?'a = nat] by simp

lemma from_be_less: "from_be bs < 256 ^ length bs"
proof (induction bs rule: rev_induct)
  case Nil
  then show ?case by simp
next
  case (snoc b bs)
  from snoc unat_byte_less [of b] have "from_be bs * 256 + unat b < 256 ^ length bs * 256"
    by linarith
  then show ?case by simp
qed

lemma unat_of_nat_byte: "unat (of_nat (v mod 256) :: u8) = v mod 256"
  by (simp add: unat_of_nat)

lemma from_be_to_be: "from_be (to_be n v) = v mod 256 ^ n"
proof (induction n arbitrary: v)
  case 0
  then show ?case by simp
next
  case (Suc n)
  have "(v div 256) mod 256 ^ n * 256 + v mod 256 = v mod (256 * 256 ^ n)"
    by (simp add: mod_mult2_eq)
  with Suc show ?case by (simp add: unat_of_nat_byte)
qed

lemma from_be_to_be_id: "v < 256 ^ n \<Longrightarrow> from_be (to_be n v) = v"
  by (simp add: from_be_to_be)

lemma to_be_from_be: "length bs = n \<Longrightarrow> to_be n (from_be bs) = bs"
proof (induction n arbitrary: bs)
  case 0
  then show ?case by simp
next
  case (Suc n)
  then obtain cs b where bs: "bs = cs @ [b]" and cs: "length cs = n"
    by (metis length_Suc_conv_rev)
  have "(of_nat ((from_be cs * 256 + unat b) mod 256) :: u8) = b"
    using unat_byte_less [of b] by simp
  moreover have "(from_be cs * 256 + unat b) div 256 = from_be cs"
    using unat_byte_less [of b] by simp
  ultimately show ?case using Suc.IH [OF cs] by (simp add: bs)
qed

lemma from_be_inject: "length xs = length ys \<Longrightarrow> from_be xs = from_be ys \<longleftrightarrow> xs = ys"
  by (metis to_be_from_be)

lemma from_be_zero: "from_be bs = 0 \<longleftrightarrow> (\<forall>b \<in> set bs. b = 0)"
proof (induction bs)
  case Nil
  then show ?case by simp
next
  case (Cons b bs)
  then show ?case by (auto simp: from_be_Cons unat_eq_0)
qed

text \<open>The bytes of an unsigned integer type.\<close>

definition u128_be :: "u128 \<Rightarrow> bytes" where
  "u128_be v = to_be 16 (unat v)"

lemma unat_u128_less: "unat (v :: u128) < 256 ^ 16"
  using unsigned_less [of v, where ?'a = nat] by simp

lemma length_u128_be [simp]: "length (u128_be v) = 16"
  by (simp add: u128_be_def)

lemma from_be_u128_be [simp]: "from_be (u128_be v) = unat v"
  unfolding u128_be_def by (rule from_be_to_be_id) (rule unat_u128_less)

text \<open>A prefix of bytes, taken where it is there.\<close>

definition split_at :: "nat \<Rightarrow> 'a list \<Rightarrow> ('a list \<times> 'a list) option" where
  "split_at n xs = (if n \<le> length xs then Some (take n xs, drop n xs) else None)"

lemma split_at_append [simp]: "length xs = n \<Longrightarrow> split_at n (xs @ ys) = Some (xs, ys)"
  by (auto simp: split_at_def)

end
