(* ===== verification/Abi.thy ===== *)
theory Abi
  imports Bytes Text_Ops Decimal
begin

text \<open>
  The ABI words of \<open>crates/chain/src/abi.rs\<close> and the errors of \<open>crates/chain/src/lib.rs\<close>.
  Reading and writing hexadecimal is a package; it is the argument \<open>H\<close>. The lossy decoding
  of UTF-8 is the standard library's and is written out.
\<close>

section \<open>Errors and hexadecimal\<close>

datatype chain_error =
    ChTransport message
  | ChRpc int string                       \<comment> \<open>code, message\<close>
  | ChDecode message
  | ChReverted "string option" "string option"    \<comment> \<open>reason, data\<close>
  | ChNotFound message

type_synonym 'a chain_result = "chain_error + 'a"

record hex_codec =
  hx_encode :: "bytes \<Rightarrow> string"
  hx_decode :: "string \<Rightarrow> message + bytes"

text \<open>
  What the package documents: lower-case digits, two a byte, that decode to the bytes;
  decoding takes digits of either case.
\<close>

definition hex_ok :: "hex_codec \<Rightarrow> bool" where
  "hex_ok H \<longleftrightarrow> (\<forall>bs. hx_decode H (hx_encode H bs) = Ok bs \<and> length (hx_encode H bs) = 2 * length bs
     \<and> to_ascii_lowercase (hx_encode H bs) = hx_encode H bs)
   \<and> (\<forall>s bs. hx_decode H s = Ok bs \<longrightarrow> hx_decode H (to_ascii_lowercase s) = Ok bs)"

definition strip0x :: "string \<Rightarrow> string" where
  "strip0x s = unwrap_or s (or_else (strip_prefix ''0x'' s) (strip_prefix ''0X'' s))"

definition from_hex :: "hex_codec \<Rightarrow> string \<Rightarrow> bytes chain_result" where
  "from_hex H s = (case hx_decode H (strip0x s) of
       Inl e \<Rightarrow> Err (ChDecode (Lit ''bad hex: '' # e))
     | Inr bs \<Rightarrow> Ok bs)"

definition to_hex :: "hex_codec \<Rightarrow> bytes \<Rightarrow> string" where
  "to_hex H bs = ''0x'' @ hx_encode H bs"

section \<open>Words\<close>

text \<open>A word is 32 bytes.\<close>

definition address_word :: "hex_codec \<Rightarrow> string \<Rightarrow> bytes chain_result" where
  "address_word H addr =
     and_then (from_hex H addr) (\<lambda>raw.
     if length raw \<noteq> 20
     then Err (ChDecode [Lit ''address must be 20 bytes, got '', ShowInt (int (length raw))])
     else Ok (replicate 12 0 @ raw))"

definition uint_word :: "u128 \<Rightarrow> bytes" where
  "uint_word v = replicate 16 0 @ u128_be v"

text \<open>The argument is a 128-bit integer in two's complement.\<close>

definition int_word :: "128 word \<Rightarrow> bytes" where
  "int_word v = replicate 16 (if sint v < 0 then 0xff else 0) @ u128_be v"

definition word_error :: "bytes \<Rightarrow> chain_error" where
  "word_error ret = ChDecode [Lit ''expected a 32-byte word, got '', ShowInt (int (length ret)), Lit '' bytes'']"

definition decode_i32 :: "bytes \<Rightarrow> (32 word) chain_result" where
  "decode_i32 ret =
     (if length ret < 32 then Err (word_error ret)
      else Ok (of_nat (from_be (take 4 (drop 28 ret)))))"

definition calldata :: "hex_codec \<Rightarrow> bytes \<Rightarrow> bytes list \<Rightarrow> string" where
  "calldata H selector words = to_hex H (selector @ concat words)"

definition decode_u128 :: "bytes \<Rightarrow> u128 chain_result" where
  "decode_u128 ret =
     (if length ret < 32 then Err (word_error ret)
      else if \<exists>b \<in> set (take 16 ret). b \<noteq> 0
      then Err (ChDecode [Lit (''uint256 return exceeds u128 '' @ em_dash @ '' value too large for this reader'')])
      else Ok (of_nat (from_be (take 16 (drop 16 ret)))))"

definition decode_address :: "hex_codec \<Rightarrow> bytes \<Rightarrow> string chain_result" where
  "decode_address H ret =
     (if length ret < 32 then Err (ChDecode [Lit ''expected a 32-byte word for address''])
      else Ok (to_hex H (take 20 (drop 12 ret))))"

section \<open>Text\<close>

text \<open>
  The next chunk of a byte string that is meant to be UTF-8: whether it is a character, and
  how many bytes it takes. A chunk that is not is the longest start of a character there.
\<close>

definition second_ok :: "nat \<Rightarrow> nat \<Rightarrow> bool" where
  "second_ok b0 b1 = (
     if b0 = 0xE0 then 0xA0 \<le> b1 \<and> b1 \<le> 0xBF
     else if b0 = 0xED then 0x80 \<le> b1 \<and> b1 \<le> 0x9F
     else if b0 = 0xF0 then 0x90 \<le> b1 \<and> b1 \<le> 0xBF
     else if b0 = 0xF4 then 0x80 \<le> b1 \<and> b1 \<le> 0x8F
     else 0x80 \<le> b1 \<and> b1 \<le> 0xBF)"

text \<open>The byte at a place, 0 beyond the end, which continues nothing.\<close>

definition byte_at :: "bytes \<Rightarrow> nat \<Rightarrow> nat" where
  "byte_at bs i = (if i < length bs then unat (bs ! i) else 0)"

definition continues :: "nat \<Rightarrow> bool" where
  "continues b = (0x80 \<le> b \<and> b \<le> 0xBF)"

definition utf8_chunk :: "bytes \<Rightarrow> bool \<times> nat" where
  "utf8_chunk bs = (let b0 = byte_at bs 0; b1 = byte_at bs 1; b2 = byte_at bs 2; b3 = byte_at bs 3 in
     if b0 < 0x80 then (True, 1)
     else if 0xC2 \<le> b0 \<and> b0 \<le> 0xDF then (if continues b1 then (True, 2) else (False, 1))
     else if 0xE0 \<le> b0 \<and> b0 \<le> 0xEF then
       (if \<not> second_ok b0 b1 then (False, 1) else if \<not> continues b2 then (False, 2) else (True, 3))
     else if 0xF0 \<le> b0 \<and> b0 \<le> 0xF4 then
       (if \<not> second_ok b0 b1 then (False, 1) else if \<not> continues b2 then (False, 2)
        else if \<not> continues b3 then (False, 3) else (True, 4))
     else (False, 1))"

definition replacement_char :: string where
  "replacement_char = [CHR 0xEF, CHR 0xBF, CHR 0xBD]"

lemma utf8_chunk_positive: "0 < snd (utf8_chunk bs)"
  by (simp add: utf8_chunk_def Let_def)

definition chars_of :: "bytes \<Rightarrow> string" where
  "chars_of bs = map (\<lambda>b. char_of (unat b)) bs"

function utf8_lossy :: "bytes \<Rightarrow> string" where
  "utf8_lossy bs =
     (if bs = [] then []
      else (let (valid, n) = utf8_chunk bs
        in (if valid then chars_of (take n bs) else replacement_char) @ utf8_lossy (drop n bs)))"
  by pat_completeness auto
termination
proof (relation "measure length")
  fix bs x valid n
  assume "bs \<noteq> []" "x = utf8_chunk bs" "(valid, n) = x"
  then have "0 < n" using utf8_chunk_positive [of bs] by (metis snd_conv)
  with \<open>bs \<noteq> []\<close> show "(drop n bs, bs) \<in> measure length" by simp
qed simp

declare utf8_lossy.simps [simp del]

text \<open>
  A dynamic string, or the bytes up to the first zero. The length is cut to the 64 bits of
  an index; adding the offset to one near the top overflows, and a sum that wrapped would
  end the slice before its start: a panic either way.
\<close>

definition decode_string :: "bytes \<Rightarrow> (string chain_result) option" where
  "decode_string ret =
     (let fallback = Some (Ok (trim (utf8_lossy (takeWhile (\<lambda>b. b \<noteq> 0) ret)))) in
      if 96 \<le> length ret
      then attempt (Some (decode_u128 (take 32 (drop 32 ret)))) (\<lambda>v.
        let len = unat v mod 2 ^ 64 in
        if 0 < len \<and> 2 ^ 64 \<le> 64 + len then None
        else if 0 < len \<and> 64 + len \<le> length ret
        then Some (Ok (utf8_lossy (take len (drop 64 ret))))
        else fallback)
      else fallback)"

definition revert_selector :: "hex_codec \<Rightarrow> string option \<Rightarrow> string option" where
  "revert_selector H data = (case data of
       None \<Rightarrow> None
     | Some d \<Rightarrow> (case from_hex H d of
         Inl _ \<Rightarrow> None
       | Inr raw \<Rightarrow> if 4 \<le> length raw then Some (to_hex H (take 4 raw)) else None))"

section \<open>Lemmas\<close>

lemma length_uint_word [simp]: "length (uint_word v) = 32"
  by (simp add: uint_word_def)

lemma length_int_word [simp]: "length (int_word v) = 32"
  by (simp add: int_word_def)

lemma address_word_Ok:
  "address_word H addr = Ok w \<longleftrightarrow> (\<exists>raw. from_hex H addr = Ok raw \<and> length raw = 20 \<and> w = replicate 12 0 @ raw)"
  by (auto simp: address_word_def and_then_eq_Ok split: if_splits)

lemma length_address_word: "address_word H addr = Ok w \<Longrightarrow> length w = 32"
  by (auto simp: address_word_Ok)

lemma from_be_uint_word [simp]: "from_be (uint_word v) = unat v"
  by (simp add: uint_word_def from_be_append)

lemma decode_u128_uint_word: "decode_u128 (uint_word v @ rest) = Ok v"
proof -
  have "take 16 (uint_word v @ rest) = replicate 16 0" "take 16 (drop 16 (uint_word v @ rest)) = u128_be v"
    by (simp_all add: uint_word_def)
  then show ?thesis by (simp add: decode_u128_def)
qed

lemma from_hex_to_hex: "hex_ok H \<Longrightarrow> from_hex H (to_hex H bs) = Ok bs"
  by (simp add: hex_ok_def from_hex_def to_hex_def strip0x_def strip_prefix_def starts_with_def)

lemma of_char_ascii_lower:
  "(of_char (ascii_lower c) :: nat)
     = (let n = of_char c in if 65 \<le> n \<and> n \<le> 90 then n + 32 else n)"
  by (auto simp: ascii_lower_def Let_def of_char_of)

lemma ascii_lower_zero: "ascii_lower c = CHR ''0'' \<longleftrightarrow> c = CHR ''0''"
  by (simp add: of_char_ascii_lower Let_def flip: of_char_eq_iff [where ?'a = nat])

lemma ascii_lower_x: "ascii_lower c = CHR ''x'' \<longleftrightarrow> c = CHR ''x'' \<or> c = CHR ''X''"
  by (simp add: of_char_ascii_lower Let_def flip: of_char_eq_iff [where ?'a = nat]) linarith

lemma ascii_lower_X: "ascii_lower c \<noteq> CHR ''X''"
  by (simp add: of_char_ascii_lower Let_def flip: of_char_eq_iff [where ?'a = nat]) linarith

lemma strip0x_lower: "strip0x (to_ascii_lowercase s) = to_ascii_lowercase (strip0x s)"
proof (cases s)
  case (Cons c cs)
  show ?thesis
  proof (cases cs)
    case Nil
    then show ?thesis
      using Cons by (simp add: strip0x_def strip_prefix_def starts_with_def to_ascii_lowercase_def)
  next
    case (Cons d ds)
    have "ascii_lower c = CHR ''0'' \<longleftrightarrow> c = CHR ''0''" "ascii_lower d = CHR ''x'' \<longleftrightarrow> d = CHR ''x'' \<or> d = CHR ''X''"
      "ascii_lower d \<noteq> CHR ''X''"
      by (simp_all add: ascii_lower_zero ascii_lower_x ascii_lower_X)
    then show ?thesis
      using \<open>s = c # cs\<close> Cons by (auto simp: strip0x_def strip_prefix_def starts_with_def to_ascii_lowercase_def)
  qed
qed (simp add: strip0x_def strip_prefix_def starts_with_def to_ascii_lowercase_def)

lemma address_word_lower:
  assumes "hex_ok H" and "address_word H addr = Ok w"
  shows "address_word H (to_ascii_lowercase addr) = Ok w"
proof -
  from assms(2) obtain raw where "from_hex H addr = Ok raw" "length raw = 20" "w = replicate 12 0 @ raw"
    by (auto simp: address_word_Ok)
  moreover from this(1) have "hx_decode H (strip0x addr) = Ok raw"
    by (simp add: from_hex_def split: sum.splits)
  ultimately show ?thesis
    using assms(1) by (simp add: address_word_Ok from_hex_def strip0x_lower hex_ok_def)
qed

lemma utf8_lossy_ascii:
  assumes "\<forall>b \<in> set bs. unat b < 128"
  shows "utf8_lossy bs = chars_of bs"
  using assms
proof (induction bs)
  case Nil
  then show ?case by (simp add: utf8_lossy.simps chars_of_def)
next
  case (Cons b bs)
  then have "utf8_chunk (b # bs) = (True, 1)" by (simp add: utf8_chunk_def byte_at_def)
  with Cons show ?case by (subst utf8_lossy.simps) (simp add: chars_of_def)
qed

lemma from_be_drop: "k \<le> length bs \<Longrightarrow> from_be (drop k bs) = from_be bs mod 256 ^ (length bs - k)"
proof -
  assume k: "k \<le> length bs"
  have "from_be bs = from_be (take k bs) * 256 ^ (length bs - k) + from_be (drop k bs)"
    using from_be_append [of "take k bs" "drop k bs"] by simp
  moreover have "from_be (drop k bs) < 256 ^ (length bs - k)"
    using from_be_less [of "drop k bs"] by simp
  ultimately show ?thesis by simp
qed

lemma decode_i32_int_word: "decode_i32 (int_word (scast (i :: 32 word))) = Ok i"
proof -
  let ?v = "scast i :: 128 word"
  have "take 4 (drop 28 (int_word ?v)) = drop 12 (u128_be ?v)" by (simp add: int_word_def)
  then have "decode_i32 (int_word ?v) = Ok (of_nat (unat ?v mod 2 ^ 32))"
    using from_be_drop [of 12 "u128_be ?v"] by (simp add: decode_i32_def)
  moreover have "(of_nat (unat ?v mod 2 ^ 32) :: 32 word) = ucast ?v"
    by (simp add: word_unat_eq_iff unat_of_nat unsigned_ucast_eq take_bit_eq_mod)
  moreover have "(ucast ?v :: 32 word) = i"
    by (rule bit_word_eqI) (simp add: bit_simps)
  ultimately show ?thesis by simp
qed

section \<open>Properties\<close>

text \<open>
  ABI words read back. An unsigned word reads as its value, a signed 32-bit integer survives
  sign extension to a word, and the word of an address reads as the lower-case form of that
  address, whose word is the same again.
\<close>

theorem abi_words_read_back:
  assumes "hex_ok H"
  shows "decode_u128 (uint_word v) = Ok v \<and> decode_i32 (int_word (scast i)) = Ok i
    \<and> (address_word H addr = Ok w \<longrightarrow> (\<exists>lower. decode_address H w = Ok lower
         \<and> to_ascii_lowercase lower = lower \<and> address_word H lower = Ok w))"
proof (intro conjI impI)
  show "decode_u128 (uint_word v) = Ok v" using decode_u128_uint_word [of v "[]"] by simp
  show "decode_i32 (int_word (scast i)) = Ok i" by (rule decode_i32_int_word)
next
  assume "address_word H addr = Ok w"
  then obtain raw where raw: "from_hex H addr = Ok raw" "length raw = 20" "w = replicate 12 0 @ raw"
    by (auto simp: address_word_Ok)
  then have dec: "decode_address H w = Ok (to_hex H raw)" by (simp add: decode_address_def)
  have "to_ascii_lowercase (to_hex H raw) = to_hex H raw"
    using assms by (simp add: hex_ok_def to_hex_def to_ascii_lowercase_def ascii_lower_def Let_def)
  with dec raw from_hex_to_hex [OF assms, of raw]
  show "\<exists>lower. decode_address H w = Ok lower \<and> to_ascii_lowercase lower = lower \<and> address_word H lower = Ok w"
    by (auto simp: address_word_Ok)
qed

text \<open>A codec with the documented behaviour.\<close>

definition hex_digit :: "nat \<Rightarrow> char" where
  "hex_digit n = (if n < 10 then char_of (48 + n) else char_of (87 + n))"

definition hex_value :: "char \<Rightarrow> nat option" where
  "hex_value c = (let n = of_char c :: nat in
     if 48 \<le> n \<and> n \<le> 57 then Some (n - 48) else if 97 \<le> n \<and> n \<le> 102 then Some (n - 87)
     else if 65 \<le> n \<and> n \<le> 70 then Some (n - 55) else None)"

fun hex_bytes :: "string \<Rightarrow> message + bytes" where
  "hex_bytes [] = Ok []"
| "hex_bytes [c] = Err [Lit ''odd number of digits'']"
| "hex_bytes (c # d # cs) = (case (hex_value c, hex_value d) of
     (Some m, Some n) \<Rightarrow> and_then (hex_bytes cs) (\<lambda>bs. Ok (of_nat (16 * m + n) # bs))
   | _ \<Rightarrow> Err [Lit ''invalid character''])"

definition plain_hex :: hex_codec where
  "plain_hex = \<lparr>hx_encode = \<lambda>bs. concat (map (\<lambda>b. [hex_digit (unat b div 16), hex_digit (unat b mod 16)]) bs),
     hx_decode = hex_bytes\<rparr>"

lemma of_char_small: "n < 256 \<Longrightarrow> (of_char (char_of n :: char) :: nat) = n"
  by (simp add: of_char_of)

lemma hex_value_digit: "n < 16 \<Longrightarrow> hex_value (hex_digit n) = Some n"
  by (auto simp: hex_value_def hex_digit_def of_char_small Let_def)

lemma hex_digit_lower: "n < 16 \<Longrightarrow> ascii_lower (hex_digit n) = hex_digit n"
  by (auto simp: ascii_lower_def hex_digit_def of_char_small Let_def)

lemma hex_value_lower: "hex_value (ascii_lower c) = hex_value c"
  by (auto simp: hex_value_def of_char_ascii_lower Let_def)

lemma hex_bytes_lower: "hex_bytes s = Ok bs \<Longrightarrow> hex_bytes (to_ascii_lowercase s) = Ok bs"
  by (induction s arbitrary: bs rule: hex_bytes.induct)
    (auto simp: to_ascii_lowercase_def hex_value_lower and_then_eq_Ok split: option.splits)

lemma plain_hex_ok: "hex_ok plain_hex"
proof -
  have b: "unat (x :: u8) div 16 < 16" "unat x mod 16 < 16" for x
    using unat_byte_less [of x] by simp_all
  have "hex_bytes (hx_encode plain_hex bs) = Ok bs" for bs
    by (induction bs) (simp_all add: plain_hex_def hex_value_digit b and_then_def)
  moreover have "length (hx_encode plain_hex bs) = 2 * length bs" for bs
    by (induction bs) (simp_all add: plain_hex_def)
  moreover have "to_ascii_lowercase (hx_encode plain_hex bs) = hx_encode plain_hex bs" for bs
    by (induction bs) (simp_all add: plain_hex_def to_ascii_lowercase_def hex_digit_lower b)
  ultimately show ?thesis using hex_bytes_lower by (simp add: hex_ok_def plain_hex_def)
qed

theorem abi_words_read_back_witness:
  "decode_u128 (uint_word 1000000) = Ok 1000000
   \<and> decode_i32 (int_word (scast (- 60 :: 32 word))) = Ok (- 60)"
  using abi_words_read_back [OF plain_hex_ok, of 1000000 "- 60"] by blast

text \<open>
  A token's name is read as it was encoded: the ABI encoding of a non-empty ASCII string,
  an offset, its length, its bytes and any padding, decodes to that string.
\<close>

theorem encoded_string_decodes:
  assumes "s \<noteq> []" and "\<forall>b \<in> set s. unat b < 128" and "length s < 2 ^ 63"
    and "32 \<le> length s + length padding" and "length offset = 32"
  shows "decode_string (offset @ uint_word (of_nat (length s)) @ s @ padding) = Some (Ok (chars_of s))"
proof -
  have len: "unat (of_nat (length s) :: u128) = length s" using assms(3) by (simp add: unat_of_nat)
  have "0 < length s" using assms(1) by simp
  with assms(2-5) len decode_u128_uint_word [of "of_nat (length s)" "[]"] show ?thesis
    by (simp add: decode_string_def attempt_def utf8_lossy_ascii)
qed

theorem encoded_string_decodes_witness:
  "decode_string (replicate 31 0 @ [32] @ uint_word (of_nat (length [0x4e, 0x56, 0x44, 0x41 :: u8]))
     @ [0x4e, 0x56, 0x44, 0x41] @ replicate 28 0) = Some (Ok ''NVDA'')"
  using encoded_string_decodes [of "[0x4e, 0x56, 0x44, 0x41]" "replicate 28 0" "replicate 31 0 @ [32]"]
  by (simp add: chars_of_def char_of_def bit_Suc_0_iff)

text \<open>
  A token's name can panic the process. A return value of at least 96 bytes whose length
  word is within 64 of the largest index makes the decoder add past it.
\<close>

theorem hostile_string_panics:
  assumes "length offset = 32" and "2 ^ 64 - 64 \<le> unat len" and "unat len < 2 ^ 64" and "32 \<le> length body"
  shows "decode_string (offset @ uint_word len @ body) = None"
  using assms decode_u128_uint_word [of len "[]"]
  by (simp add: decode_string_def attempt_def)

theorem hostile_string_panics_witness:
  "decode_string (replicate 32 0 @ uint_word (2 ^ 64 - 1) @ replicate 32 0) = None"
  by (rule hostile_string_panics) simp_all

end
