(* ===== verification/Vault.thy ===== *)
theory Vault
  imports Abi Lines "HOL-Library.List_Lexorder" "HOL-Library.Char_ord"
begin

text \<open>
  The encrypted file of secrets of \<open>crates/secrets/src/lib.rs\<close>. The key derivation, the
  cipher, JSON and hexadecimal are packages and arguments; salt and nonce are what the
  random generator gave. The key has the length the cipher asks for, so setting the cipher up
  does not fail. The passphrase is the one read from the environment.
\<close>

datatype vault_error =
    VaultIo message
  | MissingPassphrase string
  | Malformed message
  | VaultDecrypt
  | VaultKdf message
  | VaultJson message

section \<open>A sorted map\<close>

type_synonym sorted_map = "(string \<times> string) list"

fun sm_insert :: "string \<Rightarrow> string \<Rightarrow> sorted_map \<Rightarrow> sorted_map" where
  "sm_insert k v [] = [(k, v)]"
| "sm_insert k v ((j, w) # m) =
     (if k = j then (k, v) # m else if k < j then (k, v) # (j, w) # m else (j, w) # sm_insert k v m)"

fun sm_remove :: "string \<Rightarrow> sorted_map \<Rightarrow> sorted_map" where
  "sm_remove k [] = []"
| "sm_remove k ((j, w) # m) = (if k = j then m else (j, w) # sm_remove k m)"

definition sm_wf :: "sorted_map \<Rightarrow> bool" where
  "sm_wf m \<longleftrightarrow> sorted (map fst m) \<and> distinct (map fst m)"

lemma sm_insert_keys: "fst ` set (sm_insert k v m) = insert k (fst ` set m)"
  by (induction k v m rule: sm_insert.induct) auto

lemma sm_remove_keys: "fst ` set (sm_remove k m) \<subseteq> fst ` set m"
  by (induction k m rule: sm_remove.induct) auto

lemma sm_wf_Cons: "sm_wf ((j, w) # m) \<longleftrightarrow> (\<forall>x \<in> fst ` set m. j < x) \<and> sm_wf m"
  by (auto simp: sm_wf_def less_le)

lemma sm_wf_insert: "sm_wf m \<Longrightarrow> sm_wf (sm_insert k v m)"
proof (induction k v m rule: sm_insert.induct)
  case (1 k v)
  show ?case by (simp add: sm_wf_def)
next
  case (2 k v j w m)
  have "k = j \<or> k < j \<or> j < k" by auto
  with 2 show ?case by (auto simp: sm_wf_Cons sm_insert_keys)
qed

lemma sm_wf_remove: "sm_wf m \<Longrightarrow> sm_wf (sm_remove k m)"
proof (induction k m rule: sm_remove.induct)
  case (2 k j w m)
  then have "sm_wf m" and less: "\<forall>x \<in> fst ` set m. j < x" by (simp_all add: sm_wf_Cons)
  moreover from less have "\<forall>x \<in> fst ` set (sm_remove k m). j < x" using sm_remove_keys [of k m] by blast
  ultimately show ?case using "2.IH" by (simp add: sm_wf_Cons)
qed simp

lemma map_of_sm_insert: "map_of (sm_insert k v m) = (map_of m)(k \<mapsto> v)"
  by (induction k v m rule: sm_insert.induct) auto

lemma map_of_sm_remove: "sm_wf m \<Longrightarrow> map_of (sm_remove k m) = (map_of m)(k := None)"
proof (induction k m rule: sm_remove.induct)
  case (2 k j w m)
  then have "j \<notin> fst ` set m" by (auto simp: sm_wf_Cons)
  then have "map_of m j = None" by (simp add: map_of_eq_None_iff)
  with 2 show ?case by (auto simp: sm_wf_Cons)
qed simp

section \<open>The vault\<close>

record vault_packages =
  vp_kdf :: "bytes \<Rightarrow> bytes \<Rightarrow> message + bytes"          \<comment> \<open>passphrase, salt\<close>
  vp_encrypt :: "bytes \<Rightarrow> bytes \<Rightarrow> bytes \<Rightarrow> bytes option"     \<comment> \<open>key, nonce, plaintext\<close>
  vp_decrypt :: "bytes \<Rightarrow> bytes \<Rightarrow> bytes \<Rightarrow> bytes option"
  vp_to_json :: "sorted_map \<Rightarrow> message + bytes"
  vp_from_json :: "bytes \<Rightarrow> message + sorted_map"
  vp_hex :: hex_codec

text \<open>The file: missing, there, or not readable.\<close>

datatype disk = NoFile | File string | Unreadable message

definition magic :: string where
  "magic = ''SHERWOOD-VAULT-1''"

text \<open>The next of the remaining lines as bytes.\<close>

definition vault_field :: "hex_codec \<Rightarrow> string \<Rightarrow> string list \<Rightarrow> vault_error + (bytes \<times> string list)" where
  "vault_field H what ls = (case ls of
       [] \<Rightarrow> Err (Malformed [Lit ''missing '', Lit what, Lit '' line''])
     | l # rest \<Rightarrow> (case hx_decode H (trim l) of
         Inl _ \<Rightarrow> Err (Malformed [Lit what, Lit '' is not hex''])
       | Inr bs \<Rightarrow> Ok (bs, rest)))"

definition load_map :: "vault_packages \<Rightarrow> bytes \<Rightarrow> disk \<Rightarrow> vault_error + sorted_map" where
  "load_map P passphrase d = (case d of
       NoFile \<Rightarrow> Ok []
     | Unreadable e \<Rightarrow> Err (VaultIo e)
     | File raw \<Rightarrow> (case text_lines raw of
         [] \<Rightarrow> Err (Malformed [Lit ''missing or wrong magic line''])
       | first # ls \<Rightarrow>
           if first \<noteq> magic then Err (Malformed [Lit ''missing or wrong magic line''])
           else and_then (vault_field (vp_hex P) ''salt'' ls) (\<lambda>(salt, ls).
             and_then (vault_field (vp_hex P) ''nonce'' ls) (\<lambda>(nonce, ls).
             and_then (vault_field (vp_hex P) ''ciphertext'' ls) (\<lambda>(ciphertext, ls).
             if length salt \<noteq> 16 \<or> length nonce \<noteq> 24
             then Err (Malformed [Lit ''salt or nonce has the wrong length''])
             else (case vp_kdf P passphrase salt of
                 Inl e \<Rightarrow> Err (VaultKdf e)
               | Inr key \<Rightarrow> (case vp_decrypt P key nonce ciphertext of
                   None \<Rightarrow> Err VaultDecrypt
                 | Some plaintext \<Rightarrow> (case vp_from_json P plaintext of
                     Inl e \<Rightarrow> Err (VaultJson e)
                   | Inr m \<Rightarrow> Ok m))))))))"

text \<open>What writing the file does: it is written, or it fails and leaves something.\<close>

datatype write_outcome = Written | WriteFailed message disk

definition vault_body :: "hex_codec \<Rightarrow> bytes \<Rightarrow> bytes \<Rightarrow> bytes \<Rightarrow> string" where
  "vault_body H salt nonce ciphertext = magic @ [newline_char] @ hx_encode H salt @ [newline_char]
     @ hx_encode H nonce @ [newline_char] @ hx_encode H ciphertext @ [newline_char]"

definition store_map ::
    "vault_packages \<Rightarrow> bytes \<Rightarrow> bytes \<Rightarrow> bytes \<Rightarrow> write_outcome \<Rightarrow> sorted_map \<Rightarrow> disk \<Rightarrow> (vault_error + unit) \<times> disk"
where
  "store_map P passphrase salt nonce w m d = (case vp_to_json P m of
       Inl e \<Rightarrow> (Err (VaultJson e), d)
     | Inr plaintext \<Rightarrow> (case vp_kdf P passphrase salt of
         Inl e \<Rightarrow> (Err (VaultKdf e), d)
       | Inr key \<Rightarrow> (case vp_encrypt P key nonce plaintext of
           None \<Rightarrow> (Err VaultDecrypt, d)
         | Some ciphertext \<Rightarrow> (case w of
             WriteFailed e d' \<Rightarrow> (Err (VaultIo e), d')
           | Written \<Rightarrow> (Ok (), File (vault_body (vp_hex P) salt nonce ciphertext))))))"

definition vault_get :: "vault_packages \<Rightarrow> bytes \<Rightarrow> disk \<Rightarrow> string \<Rightarrow> vault_error + string option" where
  "vault_get P passphrase d name = and_then (load_map P passphrase d) (\<lambda>m. Ok (map_of m name))"

definition vault_set ::
    "vault_packages \<Rightarrow> bytes \<Rightarrow> bytes \<Rightarrow> bytes \<Rightarrow> write_outcome \<Rightarrow> disk \<Rightarrow> string \<Rightarrow> string \<Rightarrow> (vault_error + unit) \<times> disk"
where
  "vault_set P passphrase salt nonce w d name v = (case load_map P passphrase d of
       Inl e \<Rightarrow> (Err e, d)
     | Inr m \<Rightarrow> store_map P passphrase salt nonce w (sm_insert name v m) d)"

definition vault_delete ::
    "vault_packages \<Rightarrow> bytes \<Rightarrow> bytes \<Rightarrow> bytes \<Rightarrow> write_outcome \<Rightarrow> disk \<Rightarrow> string \<Rightarrow> (vault_error + bool) \<times> disk"
where
  "vault_delete P passphrase salt nonce w d name = (case load_map P passphrase d of
       Inl e \<Rightarrow> (Err e, d)
     | Inr m \<Rightarrow>
         if map_of m name = None then (Ok False, d)
         else (let (r, d') = store_map P passphrase salt nonce w (sm_remove name m) d
           in (and_then r (\<lambda>_. Ok True), d')))"

definition vault_list :: "vault_packages \<Rightarrow> bytes \<Rightarrow> disk \<Rightarrow> vault_error + string list" where
  "vault_list P passphrase d = and_then (load_map P passphrase d) (\<lambda>m. Ok (map fst m))"

text \<open>A reference is looked up; any other text is the secret itself.\<close>

definition resolve_ref :: "string \<Rightarrow> (string \<Rightarrow> vault_error + string option) \<Rightarrow> vault_error + string option" where
  "resolve_ref v get = (case strip_prefix ''vault:'' v of
       Some name \<Rightarrow> get (trim name)
     | None \<Rightarrow> Ok (Some v))"

section \<open>Lemmas\<close>

text \<open>What the packages document, for one passphrase.\<close>

definition hex_digits :: "hex_codec \<Rightarrow> bool" where
  "hex_digits H \<longleftrightarrow> (\<forall>bs. \<forall>c \<in> set (hx_encode H bs). c \<in> set ''0123456789abcdef'')"

definition packages_ok :: "vault_packages \<Rightarrow> bytes \<Rightarrow> bool" where
  "packages_ok P passphrase \<longleftrightarrow> hex_ok (vp_hex P) \<and> hex_digits (vp_hex P)
     \<and> (\<forall>salt. \<exists>key. vp_kdf P passphrase salt = Ok key)
     \<and> (\<forall>key nonce p. \<exists>c. vp_encrypt P key nonce p = Some c \<and> vp_decrypt P key nonce c = Some p)
     \<and> (\<forall>m. sm_wf m \<longrightarrow> (\<exists>bs. vp_to_json P m = Ok bs \<and> vp_from_json P bs = Ok m))
     \<and> (\<forall>bs m. vp_from_json P bs = Ok m \<longrightarrow> sm_wf m)"

lemma digits_visible: "list_all visible ''0123456789abcdef''"
  by code_simp

lemma hex_visible: "hex_digits H \<Longrightarrow> c \<in> set (hx_encode H bs) \<Longrightarrow> visible c"
  using digits_visible unfolding hex_digits_def list_all_iff by blast

lemma visible_no_line: "visible c \<Longrightarrow> c \<noteq> newline_char \<and> c \<noteq> CHR 0x0D"
  by (auto simp: visible_def newline_char_def)

lemma vault_field_encoded:
  assumes "hex_ok H" and "hex_digits H"
  shows "vault_field H what (hx_encode H bs # rest) = Ok (bs, rest)"
proof -
  have "trim (hx_encode H bs) = hx_encode H bs"
    by (rule trim_visible) (metis hd_in_set last_in_set hex_visible [OF assms(2)])
  with assms(1) show ?thesis by (simp add: vault_field_def hex_ok_def)
qed

lemma text_lines_body:
  assumes "hex_digits H"
  shows "text_lines (vault_body H a b c) = [magic, hx_encode H a, hx_encode H b, hx_encode H c]"
proof -
  have "newline_char \<notin> set (hx_encode H bs) \<and> CHR 0x0D \<notin> set (hx_encode H bs)" for bs
    using hex_visible [OF assms, of _ bs] visible_no_line by metis
  then have "text_lines (concat (map (\<lambda>r. r @ [newline_char]) [magic, hx_encode H a, hx_encode H b, hx_encode H c]))
    = [magic, hx_encode H a, hx_encode H b, hx_encode H c]"
    by (intro text_lines_rows) (simp add: magic_def newline_char_def)
  then show ?thesis by (simp add: vault_body_def)
qed

lemma load_stored:
  assumes "packages_ok P passphrase" and "sm_wf m" and "length salt = 16" and "length nonce = 24"
  shows "\<exists>d'. store_map P passphrase salt nonce Written m d = (Ok (), d') \<and> load_map P passphrase d' = Ok m"
proof -
  note ok = assms(1) [unfolded packages_ok_def]
  obtain key where key: "vp_kdf P passphrase salt = Ok key" using ok by blast
  obtain bs where bs: "vp_to_json P m = Ok bs" "vp_from_json P bs = Ok m" using ok assms(2) by blast
  obtain c where c: "vp_encrypt P key nonce bs = Some c" "vp_decrypt P key nonce c = Some bs" using ok by blast
  have "load_map P passphrase (File (vault_body (vp_hex P) salt nonce c)) = Ok m"
    using ok key bs c assms(3,4)
    by (simp add: load_map_def text_lines_body vault_field_encoded and_then_def)
  with key bs c show ?thesis by (simp add: store_map_def)
qed

section \<open>Sequences of operations\<close>

text \<open>
  What a store of named secrets promises: each operation does to the map the store stands for
  what the operation says. A client that runs any operations has the map that they describe.
\<close>

locale secret_store =
  fixes step :: "'op \<Rightarrow> 's \<Rightarrow> 's"
    and spec :: "'op \<Rightarrow> (string \<rightharpoonup> string) \<Rightarrow> (string \<rightharpoonup> string)"
    and ready :: "'op \<Rightarrow> bool"
    and stands_for :: "'s \<Rightarrow> (string \<rightharpoonup> string) \<Rightarrow> bool"
  assumes step_simulates: "ready op \<Longrightarrow> stands_for s M \<Longrightarrow> stands_for (step op s) (spec op M)"
begin

lemma steps_simulate:
  "list_all ready ops \<Longrightarrow> stands_for s M \<Longrightarrow> stands_for (fold step ops s) (fold spec ops M)"
  by (induction ops arbitrary: s M) (simp_all add: step_simulates)

end

text \<open>Setting and deleting, each with the salt and the nonce it drew.\<close>

datatype vault_op =
    SetSecret bytes bytes string string
  | DeleteSecret bytes bytes string

primrec vault_step :: "vault_packages \<Rightarrow> bytes \<Rightarrow> vault_op \<Rightarrow> disk \<Rightarrow> disk" where
  "vault_step P passphrase (SetSecret salt nonce n v) d = snd (vault_set P passphrase salt nonce Written d n v)"
| "vault_step P passphrase (DeleteSecret salt nonce n) d = snd (vault_delete P passphrase salt nonce Written d n)"

primrec map_step :: "vault_op \<Rightarrow> (string \<rightharpoonup> string) \<Rightarrow> (string \<rightharpoonup> string)" where
  "map_step (SetSecret salt nonce n v) M = M(n \<mapsto> v)"
| "map_step (DeleteSecret salt nonce n) M = M(n := None)"

primrec well_drawn :: "vault_op \<Rightarrow> bool" where
  "well_drawn (SetSecret salt nonce n v) \<longleftrightarrow> length salt = 16 \<and> length nonce = 24"
| "well_drawn (DeleteSecret salt nonce n) \<longleftrightarrow> length salt = 16 \<and> length nonce = 24"

definition vault_holds :: "vault_packages \<Rightarrow> bytes \<Rightarrow> disk \<Rightarrow> (string \<rightharpoonup> string) \<Rightarrow> bool" where
  "vault_holds P passphrase d M \<longleftrightarrow> packages_ok P passphrase \<and> (\<exists>m. load_map P passphrase d = Ok m \<and> map_of m = M)"

lemma loaded_sorted: "packages_ok P passphrase \<Longrightarrow> load_map P passphrase d = Ok m \<Longrightarrow> sm_wf m"
  by (auto simp: load_map_def and_then_def packages_ok_def sm_wf_def Let_def
      split: disk.splits list.splits sum.splits option.splits if_splits)

lemma vault_set_holds:
  assumes "vault_holds P passphrase d M" and "length salt = 16" and "length nonce = 24"
  shows "fst (vault_set P passphrase salt nonce Written d n v) = Ok ()"
    and "vault_holds P passphrase (snd (vault_set P passphrase salt nonce Written d n v)) (M(n \<mapsto> v))"
proof -
  obtain m where ok: "packages_ok P passphrase" and m: "load_map P passphrase d = Ok m" "map_of m = M"
    using assms(1) by (auto simp: vault_holds_def)
  have "sm_wf (sm_insert n v m)" using loaded_sorted [OF ok m(1)] by (rule sm_wf_insert)
  then obtain d' where "store_map P passphrase salt nonce Written (sm_insert n v m) d = (Ok (), d')"
    and "load_map P passphrase d' = Ok (sm_insert n v m)"
    using load_stored [OF ok _ assms(2,3)] by blast
  with ok m show "fst (vault_set P passphrase salt nonce Written d n v) = Ok ()"
    and "vault_holds P passphrase (snd (vault_set P passphrase salt nonce Written d n v)) (M(n \<mapsto> v))"
    by (auto simp: vault_set_def vault_holds_def map_of_sm_insert)
qed

lemma vault_delete_holds:
  assumes "vault_holds P passphrase d M" and "length salt = 16" and "length nonce = 24"
  shows "fst (vault_delete P passphrase salt nonce Written d n) = Ok (M n \<noteq> None)"
    and "vault_holds P passphrase (snd (vault_delete P passphrase salt nonce Written d n)) (M(n := None))"
proof -
  obtain m where ok: "packages_ok P passphrase" and m: "load_map P passphrase d = Ok m" "map_of m = M"
    using assms(1) by (auto simp: vault_holds_def)
  have wf: "sm_wf m" by (rule loaded_sorted [OF ok m(1)])
  then have "sm_wf (sm_remove n m)" by (rule sm_wf_remove)
  then obtain d' where "store_map P passphrase salt nonce Written (sm_remove n m) d = (Ok (), d')"
    and "load_map P passphrase d' = Ok (sm_remove n m)"
    using load_stored [OF ok _ assms(2,3)] by blast
  moreover have "M n = None \<Longrightarrow> M(n := None) = M" by auto
  ultimately show "fst (vault_delete P passphrase salt nonce Written d n) = Ok (M n \<noteq> None)"
    and "vault_holds P passphrase (snd (vault_delete P passphrase salt nonce Written d n)) (M(n := None))"
    using ok m map_of_sm_remove [OF wf] by (auto simp: vault_delete_def vault_holds_def and_then_def)
qed

interpretation file_vault: secret_store "vault_step P passphrase" map_step well_drawn "vault_holds P passphrase"
  for P passphrase
proof unfold_locales
  fix op s M assume "well_drawn op" and "vault_holds P passphrase s M"
  then show "vault_holds P passphrase (vault_step P passphrase op s) (map_step op M)"
    by (cases op) (simp_all add: vault_set_holds vault_delete_holds)
qed

lemma vault_reads:
  assumes "vault_holds P passphrase d M"
  shows "vault_get P passphrase d n = Ok (M n)"
    and "\<exists>ks. vault_list P passphrase d = Ok ks \<and> sorted ks \<and> distinct ks \<and> set ks = dom M"
proof -
  obtain m where ok: "packages_ok P passphrase" and m: "load_map P passphrase d = Ok m" "map_of m = M"
    using assms by (auto simp: vault_holds_def)
  from m show "vault_get P passphrase d n = Ok (M n)" by (simp add: vault_get_def and_then_def)
  from m loaded_sorted [OF ok m(1)]
  show "\<exists>ks. vault_list P passphrase d = Ok ks \<and> sorted ks \<and> distinct ks \<and> set ks = dom M"
    by (simp add: vault_list_def and_then_def sm_wf_def dom_map_of_conv_image_fst flip: m(2))
qed

section \<open>Properties\<close>

text \<open>
  C17. The encrypted file is a map from names to secrets. Start from a file that opens with the
  passphrase (a missing one stands for the empty map) and set and delete any secrets, each
  time with a salt and a nonce of the right length and a write that succeeds. Then every name
  reads as the map these operations describe says, the listing is the sorted names without
  repetition, one more set succeeds, and one more delete reports whether the name was there.
\<close>

theorem vault_refines_a_map:
  assumes "vault_holds P passphrase d M" and "list_all well_drawn ops"
    and "length salt = 16" and "length nonce = 24"
  shows "vault_get P passphrase (fold (vault_step P passphrase) ops d) n = Ok (fold map_step ops M n)
    \<and> (\<exists>ks. vault_list P passphrase (fold (vault_step P passphrase) ops d) = Ok ks
         \<and> sorted ks \<and> distinct ks \<and> set ks = dom (fold map_step ops M))
    \<and> fst (vault_set P passphrase salt nonce Written (fold (vault_step P passphrase) ops d) n v) = Ok ()
    \<and> fst (vault_delete P passphrase salt nonce Written (fold (vault_step P passphrase) ops d) n)
        = Ok (fold map_step ops M n \<noteq> None)"
proof -
  have "vault_holds P passphrase (fold (vault_step P passphrase) ops d) (fold map_step ops M)"
    using assms(2,1) by (rule file_vault.steps_simulate)
  from vault_reads [OF this] vault_set_holds(1) [OF this assms(3,4)] vault_delete_holds(1) [OF this assms(3,4)]
  show ?thesis by blast
qed

text \<open>
  A write that is cut short leaves no vault: the file is truncated before it is written, so
  when nothing was written every later read of every secret fails, though the map was held.
\<close>

theorem failed_write_loses_the_vault:
  "vault_get P passphrase (File []) n = Err (Malformed [Lit ''missing or wrong magic line''])
   \<and> (vault_holds P passphrase d M \<longrightarrow>
       snd (vault_set P passphrase salt nonce (WriteFailed e (File [])) d n v) = File []
       \<and> fst (vault_set P passphrase salt nonce (WriteFailed e (File [])) d n v) = Err (VaultIo e))"
proof (intro conjI impI)
  show "vault_get P passphrase (File []) n = Err (Malformed [Lit ''missing or wrong magic line''])"
    by (simp add: vault_get_def load_map_def text_lines_def and_then_def)
next
  assume "vault_holds P passphrase d M"
  then obtain m where ok: "packages_ok P passphrase" and m: "load_map P passphrase d = Ok m"
    by (auto simp: vault_holds_def)
  have wf: "sm_wf (sm_insert n v m)" using loaded_sorted [OF ok m] by (rule sm_wf_insert)
  note parts = ok [unfolded packages_ok_def]
  obtain key where key: "vp_kdf P passphrase salt = Ok key" using parts by blast
  obtain bs where bs: "vp_to_json P (sm_insert n v m) = Ok bs" using parts wf by blast
  obtain c where "vp_encrypt P key nonce bs = Some c" using parts by blast
  with m key bs show "snd (vault_set P passphrase salt nonce (WriteFailed e (File [])) d n v) = File []"
    and "fst (vault_set P passphrase salt nonce (WriteFailed e (File [])) d n v) = Err (VaultIo e)"
    by (simp_all add: vault_set_def store_map_def)
qed

section \<open>Concrete packages\<close>

text \<open>A text as marked characters, and a map as its keys and values in turn.\<close>

fun strings_of :: "bytes \<Rightarrow> string list option" where
  "strings_of [] = Some []"
| "strings_of [b] = None"
| "strings_of (b # c # bs) = (case strings_of bs of
       None \<Rightarrow> None
     | Some ss \<Rightarrow> if b = 0 then Some ([] # ss)
         else (case ss of [] \<Rightarrow> None | s # ss \<Rightarrow> Some ((char_of (unat c) # s) # ss)))"

definition bytes_of_strings :: "string list \<Rightarrow> bytes" where
  "bytes_of_strings ss = concat (map (\<lambda>s. concat (map (\<lambda>c. [1, of_nat (of_char c)]) s) @ [0, 0]) ss)"

fun pairs_of :: "string list \<Rightarrow> sorted_map" where
  "pairs_of (k # v # ss) = (k, v) # pairs_of ss"
| "pairs_of ss = []"

definition plain_packages :: vault_packages where
  "plain_packages = \<lparr>vp_kdf = \<lambda>_ _. Ok [], vp_encrypt = \<lambda>_ _ p. Some p, vp_decrypt = \<lambda>_ _ c. Some c,
     vp_to_json = \<lambda>m. Ok (bytes_of_strings (concat (map (\<lambda>(k, v). [k, v]) m))),
     vp_from_json = \<lambda>bs. (case strings_of bs of
         None \<Rightarrow> Err []
       | Some ss \<Rightarrow> if sm_wf (pairs_of ss) then Ok (pairs_of ss) else Err []),
     vp_hex = plain_hex\<rparr>"

lemma char_byte: "char_of (unat (of_nat (of_char c) :: 8 word)) = (c :: char)"
proof -
  have "(of_char c :: nat) < 256" by (simp add: of_char_def)
  then show ?thesis by (simp add: unat_of_nat)
qed

lemma strings_of_text:
  "strings_of bs = Some ss \<Longrightarrow> strings_of (concat (map (\<lambda>c. [1, of_nat (of_char c)]) s) @ 0 # 0 # bs) = Some (s # ss)"
  by (induction s) (simp_all add: char_byte)

lemma strings_of_bytes: "strings_of (bytes_of_strings ss) = Some ss"
  unfolding bytes_of_strings_def by (induction ss) (simp_all add: strings_of_text)

lemma pairs_of_pairs: "pairs_of (concat (map (\<lambda>(k, v). [k, v]) m)) = m"
  by (induction m) auto

lemma plain_hex_digits: "hex_digits plain_hex"
proof -
  have "\<forall>n \<in> set [0..<16]. hex_digit n \<in> set ''0123456789abcdef''" by code_simp
  then have "hex_digit n \<in> set ''0123456789abcdef''" if "n < 16" for n using that by simp
  moreover have "unat b div 16 < 16" for b :: "8 word" using unsigned_less [of b, where ?'a = nat] by simp
  ultimately have "c \<in> set ''0123456789abcdef''" if "c \<in> set [hex_digit (unat b div 16), hex_digit (unat b mod 16)]"
    for c and b :: "8 word" using that by (metis empty_iff empty_set mod_less_divisor set_ConsD zero_less_numeral)
  then show ?thesis unfolding hex_digits_def plain_hex_def by (simp del: list.set)
qed

lemma plain_packages_ok: "packages_ok plain_packages passphrase"
  unfolding packages_ok_def
  by (auto simp: plain_packages_def plain_hex_ok plain_hex_digits strings_of_bytes pairs_of_pairs
      split: option.splits if_splits)

lemma vault_refines_a_map_witness:
  "vault_get plain_packages [] (fold (vault_step plain_packages [])
     [SetSecret (replicate 16 0) (replicate 24 1) ''groq'' ''g'', SetSecret (replicate 16 2) (replicate 24 3) ''alpha'' ''a'',
      DeleteSecret (replicate 16 0) (replicate 24 1) ''groq''] NoFile) ''alpha'' = Ok (Some ''a'')"
proof -
  have "vault_holds plain_packages [] NoFile Map.empty"
    by (simp add: vault_holds_def plain_packages_ok load_map_def)
  from vault_refines_a_map [OF this, of
    "[SetSecret (replicate 16 0) (replicate 24 1) ''groq'' ''g'', SetSecret (replicate 16 2) (replicate 24 3) ''alpha'' ''a'',
      DeleteSecret (replicate 16 0) (replicate 24 1) ''groq'']" "replicate 16 0" "replicate 24 0" "''alpha''" "[]"]
  show ?thesis by simp
qed

end
