(* ===== verification/Config.thy ===== *)
theory Config
  imports Venue_Router Hook "HOL-Library.List_Lexorder" "HOL-Library.Char_ord"
begin

text \<open>
  The configuration file of \<open>crates/config/src/lib.rs\<close>: its sections, their defaults and
  their validation. Reading TOML, the file system, and parsing a socket address are
  arguments. The sampling temperature, a float, is the decimal that the conversion gives, or
  \<open>None\<close> where there is none (not a number, infinite, or too large).
\<close>

section \<open>Errors and the range checks\<close>

datatype config_error =
    Bail message
  | SharedSymbols "string set"
  | RouterSectionError router_error
  | Foreign message
  | InContext message config_error

definition dec_max :: dec where
  "dec_max = 79228162514264337593543950335"

definition require_in_half_open :: "string \<Rightarrow> dec \<Rightarrow> dec \<Rightarrow> dec \<Rightarrow> config_error + unit" where
  "require_in_half_open name v low high =
     (if v \<le> low \<or> high < v
      then Err (Bail [Lit name, Lit '' must be in ('', Show low, Lit '', '', Show high, Lit ('']'' @ '' '' @ em_dash @ '' got ''), Show v])
      else Ok ())"

definition require_in_closed :: "string \<Rightarrow> dec \<Rightarrow> dec \<Rightarrow> dec \<Rightarrow> config_error + unit" where
  "require_in_closed name v low high =
     (if v < low \<or> high < v
      then Err (Bail [Lit name, Lit '' must be in ['', Show low, Lit '', '', Show high, Lit ('']'' @ '' '' @ em_dash @ '' got ''), Show v])
      else Ok ())"

definition require_at_least :: "string \<Rightarrow> dec \<Rightarrow> dec \<Rightarrow> config_error + unit" where
  "require_at_least name v low =
     (if v < low then Err (Bail [Lit name, Lit '' must be >= '', Show low, Lit ('' '' @ em_dash @ '' got ''), Show v])
      else Ok ())"

text \<open>A loop of checks, which stops at the first that fails.\<close>

fun check_each :: "('a \<Rightarrow> config_error + unit) \<Rightarrow> 'a list \<Rightarrow> config_error + unit" where
  "check_each f [] = Ok ()"
| "check_each f (x # xs) = and_then (f x) (\<lambda>_. check_each f xs)"

section \<open>The sections\<close>

record general_section =
  ge_starting_cash :: dec
  ge_mode :: string
  ge_state_path :: "string option"
  ge_feed_path :: "string option"
  ge_decider :: string

definition general_default :: general_section where
  "general_default = \<lparr>ge_starting_cash = 1000, ge_mode = ''paper'', ge_state_path = None, ge_feed_path = None,
     ge_decider = ''rule''\<rparr>"

record chain_section =
  ch_enabled :: bool
  ch_rpc_url :: string
  ch_symbols :: "string list"
  ch_denom :: string
  ch_poll_interval_secs :: u64

definition chain_default :: chain_section where
  "chain_default = \<lparr>ch_enabled = False, ch_rpc_url = ''https://rpc.mainnet.chain.robinhood.com'', ch_symbols = [],
     ch_denom = ''USDG'', ch_poll_interval_secs = 15\<rparr>"

definition chain_validate :: "chain_section \<Rightarrow> config_error + unit" where
  "chain_validate c =
     (if \<not> ch_enabled c then Ok ()
      else if ch_symbols c = [] then Err (Bail [Lit ''chain.enabled = true needs at least one symbol in chain.symbols''])
      else if ch_rpc_url c = [] then Err (Bail [Lit ''chain.rpc_url must not be empty''])
      else if ch_poll_interval_secs c = 0 then Err (Bail [Lit ''chain.poll_interval_secs must be > 0''])
      else Ok ())"

record ai_section =
  as_base_url :: string
  as_model :: string
  as_api_key :: string
  as_temperature :: "dec option"
  as_max_tokens :: u32
  as_max_calls_per_run :: u32
  as_request_timeout_secs :: u64
  as_universe :: "string list"

definition ai_section_default :: ai_section where
  "ai_section_default = \<lparr>as_base_url = [], as_model = [], as_api_key = [], as_temperature = Some (1 / 5),
     as_max_tokens = 300, as_max_calls_per_run = 50, as_request_timeout_secs = 20, as_universe = []\<rparr>"

definition ai_validate :: "ai_section \<Rightarrow> config_error + unit" where
  "ai_validate a =
     and_then (check_each (\<lambda>(name, v).
         if trim v = [] then Err (Bail [Lit name, Lit '' is required when general.decider = \"ai\"'']) else Ok ())
       [(''ai.base_url'', as_base_url a), (''ai.model'', as_model a), (''ai.api_key'', as_api_key a)]) (\<lambda>_.
     if \<not> starts_with (as_base_url a) ''http://'' \<and> \<not> starts_with (as_base_url a) ''https://''
     then Err (Bail [Lit (''ai.base_url must be an http(s) URL '' @ em_dash @ '' got ''), ShowDebug (as_base_url a)])
     else if \<not> starts_with (as_api_key a) ''vault:''
     then Err (Bail [Lit (''ai.api_key must be a vault reference like \"vault:nvidia\", never a literal key ''
       @ em_dash @ '' store the key with `sherwood secrets set`'')])
     else and_then (require_in_closed ''ai.temperature'' (unwrap_or 0 (as_temperature a)) 0 2) (\<lambda>_.
     if as_max_tokens a = 0 then Err (Bail [Lit ''ai.max_tokens must be at least 1''])
     else if as_request_timeout_secs a = 0 then Err (Bail [Lit ''ai.request_timeout_secs must be at least 1''])
     else Ok ()))"

record risk_section =
  rs_max_order_notional :: dec
  rs_max_position_fraction :: dec
  rs_max_daily_loss :: dec
  rs_max_unrealized_loss :: dec
  rs_max_open_positions :: nat
  rs_order_cooldown_secs :: u64
  rs_max_slippage :: dec
  rs_allowlist :: "string set"
  rs_denylist :: "string set"
  rs_kill_switch :: bool

definition risk_section_default :: risk_section where
  "risk_section_default = (let d = default_risk_config in
     \<lparr>rs_max_order_notional = rc_max_order_notional d, rs_max_position_fraction = rc_max_position_fraction d,
      rs_max_daily_loss = rc_max_daily_loss d, rs_max_unrealized_loss = rc_max_unrealized_loss d,
      rs_max_open_positions = rc_max_open_positions d, rs_order_cooldown_secs = rc_order_cooldown_secs d,
      rs_max_slippage = rc_max_slippage d, rs_allowlist = rc_allowlist d, rs_denylist = rc_denylist d,
      rs_kill_switch = rc_kill_switch d\<rparr>)"

definition risk_to_core :: "risk_section \<Rightarrow> risk_config" where
  "risk_to_core r =
     \<lparr>rc_max_order_notional = rs_max_order_notional r, rc_max_position_fraction = rs_max_position_fraction r,
      rc_max_daily_loss = rs_max_daily_loss r, rc_max_unrealized_loss = rs_max_unrealized_loss r,
      rc_max_open_positions = rs_max_open_positions r, rc_order_cooldown_secs = rs_order_cooldown_secs r,
      rc_max_slippage = rs_max_slippage r, rc_allowlist = rs_allowlist r, rc_denylist = rs_denylist r,
      rc_kill_switch = rs_kill_switch r\<rparr>"

definition risk_validate :: "risk_section \<Rightarrow> config_error + unit" where
  "risk_validate r =
     and_then (require_in_half_open ''risk.max_order_notional'' (rs_max_order_notional r) 0 dec_max) (\<lambda>_.
     and_then (require_in_half_open ''risk.max_position_fraction'' (rs_max_position_fraction r) 0 1) (\<lambda>_.
     and_then (require_at_least ''risk.max_daily_loss'' (rs_max_daily_loss r) 0) (\<lambda>_.
     and_then (require_at_least ''risk.max_unrealized_loss'' (rs_max_unrealized_loss r) 0) (\<lambda>_.
     if rs_max_open_positions r = 0 then Err (Bail [Lit ''risk.max_open_positions must be at least 1''])
     else and_then (require_in_closed ''risk.max_slippage'' (rs_max_slippage r) 0 1) (\<lambda>_.
     if rs_allowlist r \<inter> rs_denylist r \<noteq> {} then Err (SharedSymbols (rs_allowlist r \<inter> rs_denylist r))
     else Ok ())))))"

record copy_section =
  cs_leaders :: "string list"
  cs_fixed_fraction :: "dec option"
  cs_min_leader_notional :: "dec option"
  cs_max_mirror_notional :: "dec option"
  cs_slippage :: "dec option"

record sniper_section =
  ss_enabled :: bool
  ss_min_initial_liquidity :: "dec option"
  ss_entry_notional :: "dec option"

record server_section =
  sv_bind :: string
  sv_token_ref :: string
  sv_operator_token_ref :: "string option"
  sv_viewer_token_ref :: "string option"
  sv_allow_live :: bool
  sv_rate_limit_per_min :: u32
  sv_cors_origins :: "string list"
  sv_static_dir :: "string option"
  sv_approval_mode :: string
  sv_approval_timeout_secs :: u64
  sv_max_session_orders :: u32
  sv_max_session_notional :: dec
  sv_max_session_duration_secs :: u64

definition server_default :: server_section where
  "server_default = \<lparr>sv_bind = ''127.0.0.1:8787'', sv_token_ref = ''vault:api_token'', sv_operator_token_ref = None,
     sv_viewer_token_ref = None, sv_allow_live = False, sv_rate_limit_per_min = 300, sv_cors_origins = [],
     sv_static_dir = None, sv_approval_mode = ''auto'', sv_approval_timeout_secs = 60, sv_max_session_orders = 0,
     sv_max_session_notional = 0, sv_max_session_duration_secs = 0\<rparr>"

text \<open>An address and a port; an IPv4 address is loopback in 127/8, an IPv6 address at 1.\<close>

datatype ip_addr = V4 u8 u8 u8 u8 | V6 "128 word"

record socket_addr =
  so_ip :: ip_addr
  so_port :: u16

definition is_loopback :: "ip_addr \<Rightarrow> bool" where
  "is_loopback ip = (case ip of V4 a _ _ _ \<Rightarrow> a = 127 | V6 w \<Rightarrow> w = 1)"

text \<open>What the validation asks of the outside: whether a file exists in a directory, and an address.\<close>

record config_env =
  ce_has_file :: "string \<Rightarrow> string \<Rightarrow> bool"
  ce_read_addr :: "string \<Rightarrow> message + socket_addr"
  ce_show_addr :: "socket_addr \<Rightarrow> string"

definition server_validate :: "config_env \<Rightarrow> server_section \<Rightarrow> config_error + unit" where
  "server_validate E s =
     and_then (case sv_static_dir s of
         None \<Rightarrow> Ok ()
       | Some dir \<Rightarrow> if ce_has_file E dir ''index.html'' then Ok ()
           else Err (Bail [Lit ''server.static_dir '', ShowDebug dir,
             Lit ('' has no index.html '' @ em_dash @ '' point it at `frontend/dist` after `npm run build`'')])) (\<lambda>_.
     if sv_approval_mode s \<noteq> ''auto'' \<and> sv_approval_mode s \<noteq> ''manual''
     then Err (Bail [Lit ''server.approval_mode must be \"auto\" or \"manual\", got '', ShowDebug (sv_approval_mode s)])
     else (case ce_read_addr E (sv_bind s) of
         Inl e \<Rightarrow> Err (InContext [Lit ''server.bind '', ShowDebug (sv_bind s), Lit '' is not a valid ip:port''] (Foreign e))
       | Inr addr \<Rightarrow>
           if \<not> is_loopback (so_ip addr)
           then Err (Bail [Lit ''server.bind '', Lit (ce_show_addr E addr),
             Lit '' is not loopback; a public bind needs TLS and is refused''])
           else check_each (\<lambda>(name, r). case r of
                 None \<Rightarrow> Ok ()
               | Some r \<Rightarrow> if starts_with r ''vault:'' then Ok ()
                   else Err (Bail [Lit name, Lit '' must be a vault reference like \"vault:api_token\"'']))
             [(''server.token_ref'', Some (sv_token_ref s)), (''server.operator_token_ref'', sv_operator_token_ref s),
              (''server.viewer_token_ref'', sv_viewer_token_ref s)]))"

record hook_section =
  hs_read_tools :: "string list"
  hs_place_tools :: "string list"
  hs_cancel_tools :: "string list"

definition to_allowlist :: "hook_section \<Rightarrow> tool_allowlist" where
  "to_allowlist h =
     fold (\<lambda>t al. allow al t CancelOrder) (hs_cancel_tools h)
       (fold (\<lambda>t al. allow al t PlaceOrder) (hs_place_tools h)
         (fold (\<lambda>t al. allow al t ReadOnly) (hs_read_tools h) allowlist_new))"

record wallet_entry =
  we_name :: string
  we_key_ref :: string
  we_allowed_symbols :: "string list"
  we_max_tx_count :: u32
  we_max_notional :: dec
  we_max_duration_secs :: u64

definition wallet_validate :: "wallet_entry \<Rightarrow> config_error + unit" where
  "wallet_validate w =
     (if we_name w = [] then Err (Bail [Lit ''every [[wallets]] entry needs a name''])
      else if we_key_ref w = [] then Err (Bail [Lit ''wallets.'', Lit (we_name w), Lit '': key_ref must not be empty''])
      else require_at_least (''wallets.'' @ we_name w @ ''.max_notional'') (we_max_notional w) 0)"

record router_section =
  ro_rfq_min_notional :: "dec option"
  ro_rfq_available :: bool

definition router_to_core :: "router_section \<Rightarrow> router_config" where
  "router_to_core r = \<lparr>rg_rfq_min_notional = ro_rfq_min_notional r, rg_rfq_available = ro_rfq_available r\<rparr>"

definition router_validate :: "router_section \<Rightarrow> config_error + unit" where
  "router_validate r = (case router_new (router_to_core r) of
       Inl e \<Rightarrow> Err (RouterSectionError e) | Inr _ \<Rightarrow> Ok ())"

section \<open>The configuration\<close>

record app_config =
  ac_general :: general_section
  ac_risk :: risk_section
  ac_ai :: ai_section
  ac_copytrade :: copy_section
  ac_sniper :: sniper_section
  ac_server :: server_section
  ac_hook :: hook_section
  ac_chain :: chain_section
  ac_wallets :: "wallet_entry list"
  ac_router :: router_section

fun adjacent_equal :: "'a list \<Rightarrow> bool" where
  "adjacent_equal (x # y # ys) = (x = y \<or> adjacent_equal (y # ys))"
| "adjacent_equal _ = False"

definition optional :: "(dec \<Rightarrow> config_error + unit) \<Rightarrow> dec option \<Rightarrow> config_error + unit" where
  "optional f v = (case v of None \<Rightarrow> Ok () | Some v \<Rightarrow> f v)"

definition copy_validate :: "copy_section \<Rightarrow> config_error + unit" where
  "copy_validate c =
     (if cs_leaders c = [] then Ok ()
      else and_then (optional (\<lambda>f. require_in_half_open ''copytrade.fixed_fraction'' f 0 1) (cs_fixed_fraction c)) (\<lambda>_.
        and_then (check_each (\<lambda>(name, v). optional (\<lambda>v. require_at_least name v 0) v)
          [(''copytrade.min_leader_notional'', cs_min_leader_notional c),
           (''copytrade.max_mirror_notional'', cs_max_mirror_notional c)]) (\<lambda>_.
        optional (\<lambda>s. require_in_closed ''copytrade.slippage'' s 0 1) (cs_slippage c))))"

definition sniper_validate :: "sniper_section \<Rightarrow> config_error + unit" where
  "sniper_validate s =
     (if \<not> ss_enabled s then Ok ()
      else check_each (\<lambda>(name, v). optional (\<lambda>v. require_in_half_open name v 0 dec_max) v)
        [(''sniper.min_initial_liquidity'', ss_min_initial_liquidity s), (''sniper.entry_notional'', ss_entry_notional s)])"

definition validate :: "config_env \<Rightarrow> app_config \<Rightarrow> config_error + unit" where
  "validate E c =
     (if ge_mode (ac_general c) \<noteq> ''paper''
      then Err (Bail [Lit ''general.mode = '', ShowDebug (ge_mode (ac_general c)),
        Lit '' is not supported. This runner is paper-only; build your own binary with a real Executor for live trading.''])
      else
        and_then (require_in_half_open ''general.starting_cash'' (ge_starting_cash (ac_general c)) 0 dec_max) (\<lambda>_.
        and_then (if ge_decider (ac_general c) = ''rule'' then Ok ()
            else if ge_decider (ac_general c) = ''ai'' then ai_validate (ac_ai c)
            else Err (Bail [Lit ''general.decider = '', ShowDebug (ge_decider (ac_general c)),
              Lit '' is not \"rule\" or \"ai\"''])) (\<lambda>_.
        and_then (risk_validate (ac_risk c)) (\<lambda>_.
        and_then (server_validate E (ac_server c)) (\<lambda>_.
        and_then (chain_validate (ac_chain c)) (\<lambda>_.
        and_then (router_validate (ac_router c)) (\<lambda>_.
        and_then (check_each wallet_validate (ac_wallets c)) (\<lambda>_.
        if adjacent_equal (sort (map we_name (ac_wallets c)))
        then Err (Bail [Lit ''duplicate wallet name in [[wallets]]''])
        else and_then (copy_validate (ac_copytrade c)) (\<lambda>_. sniper_validate (ac_sniper c))))))))))"

definition load ::
    "config_env \<Rightarrow> (string \<Rightarrow> message + string) \<Rightarrow> (string \<Rightarrow> message + app_config) \<Rightarrow> string \<Rightarrow> config_error + app_config"
where
  "load E read_file from_toml path =
     (case read_file path of
        Inl e \<Rightarrow> Err (InContext [Lit ''reading config '', Lit path] (Foreign e))
      | Inr raw \<Rightarrow> (case from_toml raw of
          Inl e \<Rightarrow> Err (InContext [Lit ''parsing config TOML''] (Foreign e))
        | Inr cfg \<Rightarrow> (case validate E cfg of
            Inl e \<Rightarrow> Err (InContext [Lit ''invalid config '', Lit path] e)
          | Inr _ \<Rightarrow> Ok cfg)))"

section \<open>What is accepted\<close>

definition is_vault_ref :: "string \<Rightarrow> bool" where
  "is_vault_ref r = starts_with r ''vault:''"

definition valid_ai :: "ai_section \<Rightarrow> bool" where
  "valid_ai a \<longleftrightarrow> trim (as_base_url a) \<noteq> [] \<and> trim (as_model a) \<noteq> [] \<and> trim (as_api_key a) \<noteq> []
     \<and> (starts_with (as_base_url a) ''http://'' \<or> starts_with (as_base_url a) ''https://'')
     \<and> is_vault_ref (as_api_key a) \<and> 0 \<le> unwrap_or 0 (as_temperature a) \<and> unwrap_or 0 (as_temperature a) \<le> 2
     \<and> as_max_tokens a \<noteq> 0 \<and> as_request_timeout_secs a \<noteq> 0"

definition valid_risk :: "risk_section \<Rightarrow> bool" where
  "valid_risk r \<longleftrightarrow> 0 < rs_max_order_notional r \<and> rs_max_order_notional r \<le> dec_max
     \<and> 0 < rs_max_position_fraction r \<and> rs_max_position_fraction r \<le> 1
     \<and> 0 \<le> rs_max_daily_loss r \<and> 0 \<le> rs_max_unrealized_loss r \<and> rs_max_open_positions r \<noteq> 0
     \<and> 0 \<le> rs_max_slippage r \<and> rs_max_slippage r \<le> 1 \<and> rs_allowlist r \<inter> rs_denylist r = {}"

definition valid_server :: "config_env \<Rightarrow> server_section \<Rightarrow> bool" where
  "valid_server E s \<longleftrightarrow> (\<forall>dir. sv_static_dir s = Some dir \<longrightarrow> ce_has_file E dir ''index.html'')
     \<and> sv_approval_mode s \<in> {''auto'', ''manual''}
     \<and> (\<exists>addr. ce_read_addr E (sv_bind s) = Ok addr \<and> is_loopback (so_ip addr))
     \<and> is_vault_ref (sv_token_ref s) \<and> (\<forall>r. sv_operator_token_ref s = Some r \<longrightarrow> is_vault_ref r)
     \<and> (\<forall>r. sv_viewer_token_ref s = Some r \<longrightarrow> is_vault_ref r)"

definition valid_chain :: "chain_section \<Rightarrow> bool" where
  "valid_chain c \<longleftrightarrow> (ch_enabled c \<longrightarrow> ch_symbols c \<noteq> [] \<and> ch_rpc_url c \<noteq> [] \<and> ch_poll_interval_secs c \<noteq> 0)"

definition valid_wallet :: "wallet_entry \<Rightarrow> bool" where
  "valid_wallet w \<longleftrightarrow> we_name w \<noteq> [] \<and> we_key_ref w \<noteq> [] \<and> 0 \<le> we_max_notional w"

definition valid_copy :: "copy_section \<Rightarrow> bool" where
  "valid_copy c \<longleftrightarrow> (cs_leaders c \<noteq> [] \<longrightarrow>
     (\<forall>f. cs_fixed_fraction c = Some f \<longrightarrow> 0 < f \<and> f \<le> 1)
     \<and> (\<forall>v. cs_min_leader_notional c = Some v \<longrightarrow> 0 \<le> v) \<and> (\<forall>v. cs_max_mirror_notional c = Some v \<longrightarrow> 0 \<le> v)
     \<and> (\<forall>s. cs_slippage c = Some s \<longrightarrow> 0 \<le> s \<and> s \<le> 1))"

definition valid_sniper :: "sniper_section \<Rightarrow> bool" where
  "valid_sniper s \<longleftrightarrow> (ss_enabled s \<longrightarrow>
     (\<forall>v. ss_min_initial_liquidity s = Some v \<longrightarrow> 0 < v \<and> v \<le> dec_max)
     \<and> (\<forall>v. ss_entry_notional s = Some v \<longrightarrow> 0 < v \<and> v \<le> dec_max))"

definition valid_router :: "router_section \<Rightarrow> bool" where
  "valid_router r \<longleftrightarrow> (case ro_rfq_min_notional r of None \<Rightarrow> \<not> ro_rfq_available r | Some t \<Rightarrow> 0 < t)"

definition valid_config :: "config_env \<Rightarrow> app_config \<Rightarrow> bool" where
  "valid_config E c \<longleftrightarrow>
     ge_mode (ac_general c) = ''paper''
     \<and> 0 < ge_starting_cash (ac_general c) \<and> ge_starting_cash (ac_general c) \<le> dec_max
     \<and> (ge_decider (ac_general c) = ''rule'' \<or> ge_decider (ac_general c) = ''ai'' \<and> valid_ai (ac_ai c))
     \<and> valid_risk (ac_risk c) \<and> valid_server E (ac_server c) \<and> valid_chain (ac_chain c)
     \<and> valid_router (ac_router c)
     \<and> (\<forall>w \<in> set (ac_wallets c). valid_wallet w) \<and> distinct (map we_name (ac_wallets c))
     \<and> valid_copy (ac_copytrade c) \<and> valid_sniper (ac_sniper c)"

lemma adjacent_equal_sorted: "sorted xs \<Longrightarrow> adjacent_equal xs \<longleftrightarrow> \<not> distinct xs"
proof (induction xs rule: adjacent_equal.induct)
  case (1 x y ys)
  then have "x \<in> set (y # ys) \<longleftrightarrow> x = y" by (auto intro: order_antisym)
  with 1 show ?case by (auto simp del: set_simps)
qed auto

lemma require_Ok [simp]:
  "require_in_half_open n v low high = Ok u \<longleftrightarrow> low < v \<and> v \<le> high"
  "require_in_closed n v low high = Ok u \<longleftrightarrow> low \<le> v \<and> v \<le> high"
  "require_at_least n v low = Ok u \<longleftrightarrow> low \<le> v"
  by (auto simp: require_in_half_open_def require_in_closed_def require_at_least_def)

lemma optional_Ok [simp]: "optional f v = Ok u \<longleftrightarrow> (\<forall>x. v = Some x \<longrightarrow> f x = Ok u)"
  by (auto simp: optional_def split: option.split)

lemma check_each_Ok: "check_each f xs = Ok u \<longleftrightarrow> (\<forall>x \<in> set xs. f x = Ok ())"
  by (induction xs) (auto simp: and_then_eq_Ok)

lemma ai_validate_Ok: "ai_validate a = Ok u \<longleftrightarrow> valid_ai a"
  by (auto simp: ai_validate_def valid_ai_def and_then_eq_Ok is_vault_ref_def split: if_splits)

lemma risk_validate_Ok: "risk_validate r = Ok u \<longleftrightarrow> valid_risk r"
  by (auto simp: risk_validate_def valid_risk_def and_then_eq_Ok split: if_splits)

lemma server_validate_Ok: "server_validate E s = Ok u \<longleftrightarrow> valid_server E s"
  by (auto simp: server_validate_def valid_server_def and_then_eq_Ok is_vault_ref_def
      split: if_splits option.splits sum.splits)

lemma chain_validate_Ok: "chain_validate c = Ok u \<longleftrightarrow> valid_chain c"
  by (auto simp: chain_validate_def valid_chain_def)

lemma router_validate_Ok: "router_validate r = Ok u \<longleftrightarrow> valid_router r"
  by (auto simp: router_validate_def valid_router_def router_new_def router_to_core_def split: option.splits)

lemma wallet_validate_Ok: "wallet_validate w = Ok u \<longleftrightarrow> valid_wallet w"
  by (auto simp: wallet_validate_def valid_wallet_def)

lemma copy_validate_Ok: "copy_validate c = Ok u \<longleftrightarrow> valid_copy c"
  by (auto simp: copy_validate_def valid_copy_def and_then_eq_Ok)

lemma sniper_validate_Ok: "sniper_validate s = Ok u \<longleftrightarrow> valid_sniper s"
  by (auto simp: sniper_validate_def valid_sniper_def and_then_eq_Ok)

lemmas validate_Ok = ai_validate_Ok risk_validate_Ok server_validate_Ok chain_validate_Ok router_validate_Ok
  wallet_validate_Ok copy_validate_Ok sniper_validate_Ok check_each_Ok

lemma validate_iff: "validate E c = Ok () \<longleftrightarrow> valid_config E c"
proof -
  have "adjacent_equal (sort (map we_name (ac_wallets c))) \<longleftrightarrow> \<not> distinct (map we_name (ac_wallets c))"
    by (simp add: adjacent_equal_sorted)
  then show ?thesis
    by (auto simp: validate_def valid_config_def and_then_eq_Ok validate_Ok split: if_splits)
qed

section \<open>Properties\<close>


text \<open>
  A validated configuration can hold secrets. Whatever the key references of the wallets, as
  long as none is empty, and whatever the key of an unused model, the configuration stays
  valid: a literal private key passes.
\<close>

theorem literal_secrets_pass:
  assumes "validate E c = Ok ()" and "key \<noteq> []"
  shows "validate E (c\<lparr>ac_wallets := map (\<lambda>w. w\<lparr>we_key_ref := key\<rparr>) (ac_wallets c)\<rparr>) = Ok ()
    \<and> (ge_decider (ac_general c) = ''rule'' \<longrightarrow>
        validate E (c\<lparr>ac_ai := (ac_ai c)\<lparr>as_api_key := key\<rparr>\<rparr>) = Ok ())"
  using assms by (auto simp: validate_iff valid_config_def valid_wallet_def comp_def)

text \<open>
  The allowlist of the hook section gives a name in several lists the class of the weakest
  control: cancelling over placing, placing over reading. Names in no list are denied.
\<close>

theorem allowlist_precedence:
  "classify (to_allowlist h) t =
     (if t \<in> set (hs_cancel_tools h) then Some CancelOrder
      else if t \<in> set (hs_place_tools h) then Some PlaceOrder
      else if t \<in> set (hs_read_tools h) then Some ReadOnly else None)"
proof -
  have "classify (fold (\<lambda>t al. allow al t k) ts al) t = (if t \<in> set ts then Some k else classify al t)" for k ts al
    by (induction ts arbitrary: al) auto
  then show ?thesis by (simp add: to_allowlist_def)
qed

definition demo_env :: config_env where
  "demo_env = \<lparr>ce_has_file = \<lambda>_ _. False, ce_read_addr = \<lambda>_. Ok \<lparr>so_ip = V4 127 0 0 1, so_port = 8787\<rparr>,
     ce_show_addr = \<lambda>_. ''127.0.0.1:8787''\<rparr>"

definition demo_config :: app_config where
  "demo_config = \<lparr>ac_general = general_default, ac_risk = risk_section_default, ac_ai = ai_section_default,
     ac_copytrade = \<lparr>cs_leaders = [], cs_fixed_fraction = None, cs_min_leader_notional = None,
       cs_max_mirror_notional = None, cs_slippage = None\<rparr>,
     ac_sniper = \<lparr>ss_enabled = False, ss_min_initial_liquidity = None, ss_entry_notional = None\<rparr>,
     ac_server = server_default, ac_hook = \<lparr>hs_read_tools = [], hs_place_tools = [], hs_cancel_tools = []\<rparr>,
     ac_chain = chain_default,
     ac_wallets = [\<lparr>we_name = ''main'', we_key_ref = ''vault:main'', we_allowed_symbols = [], we_max_tx_count = 0,
       we_max_notional = 0, we_max_duration_secs = 0\<rparr>],
     ac_router = \<lparr>ro_rfq_min_notional = None, ro_rfq_available = False\<rparr>\<rparr>"

lemma demo_config_valid: "validate demo_env demo_config = Ok ()"
  unfolding validate_iff
  by (simp add: valid_config_def demo_config_def general_default_def risk_section_default_def default_risk_config_def
      server_default_def chain_default_def valid_risk_def valid_server_def valid_chain_def valid_router_def
      valid_wallet_def valid_copy_def valid_sniper_def demo_env_def is_loopback_def is_vault_ref_def dec_max_def
      starts_with_def Let_def)

theorem literal_secrets_pass_witness:
  "validate demo_env (demo_config\<lparr>ac_wallets := map (\<lambda>w. w\<lparr>we_key_ref := ''0x4c0883a6''\<rparr>) (ac_wallets demo_config)\<rparr>) = Ok ()
   \<and> validate demo_env (demo_config\<lparr>ac_ai := (ac_ai demo_config)\<lparr>as_api_key := ''0x4c0883a6''\<rparr>\<rparr>) = Ok ()"
proof -
  have "ge_decider (ac_general demo_config) = ''rule''" by (simp add: demo_config_def general_default_def)
  with literal_secrets_pass [OF demo_config_valid, of "''0x4c0883a6''"] show ?thesis by simp
qed

text \<open>
  What a loaded configuration gives the rest of the program: a router that can be built, a
  risk gate with a positive order cap, a position cap that is a share, no symbol that is
  both allowed and denied, and wallets that the registry will not find duplicated.
\<close>

theorem loaded_config_is_usable:
  assumes "load E read_file from_toml path = Ok c"
  shows "(\<exists>r. router_new (router_to_core (ac_router c)) = Ok r)
    \<and> 0 < rc_max_order_notional (risk_to_core (ac_risk c))
    \<and> 0 < rc_max_position_fraction (risk_to_core (ac_risk c)) \<and> rc_max_position_fraction (risk_to_core (ac_risk c)) \<le> 1
    \<and> rc_max_slippage (risk_to_core (ac_risk c)) \<le> 1
    \<and> rc_allowlist (risk_to_core (ac_risk c)) \<inter> rc_denylist (risk_to_core (ac_risk c)) = {}
    \<and> distinct (map we_name (ac_wallets c))"
proof -
  from assms have "validate E c = Ok ()" by (auto simp: load_def split: sum.splits)
  then have "valid_config E c" by (simp add: validate_iff)
  moreover from this have "router_validate (ac_router c) = Ok ()" by (simp add: valid_config_def router_validate_Ok)
  ultimately show ?thesis
    by (auto simp: valid_config_def valid_risk_def risk_to_core_def router_validate_def split: sum.splits)
qed

theorem loaded_config_is_usable_witness:
  "load demo_env (\<lambda>_. Ok ''...'') (\<lambda>_. Ok demo_config) ''config.toml'' = Ok demo_config
   \<and> (\<exists>r. router_new (router_to_core (ac_router demo_config)) = Ok r) \<and> distinct (map we_name (ac_wallets demo_config))"
proof -
  have "load demo_env (\<lambda>_. Ok ''...'') (\<lambda>_. Ok demo_config) ''config.toml'' = Ok demo_config"
    by (simp add: load_def demo_config_valid)
  with loaded_config_is_usable [OF this] show ?thesis by blast
qed

end
