(* ===== verification/Backup.thy ===== *)
theory Backup
  imports Config
begin

text \<open>
  Backing up and restoring the state, \<open>crates/cli/src/backup_cmd.rs\<close>. A file is named by its
  directory and its name; the file system maps it to its contents. A failing copy leaves the
  file system as it was, which is the least a real one promises. Directories are made as
  needed.
\<close>

type_synonym path = "string \<times> string"
type_synonym files = "path \<rightharpoonup> string"

datatype backup_error =
    NothingToBackUp path
  | NoDirectory message
  | NotADirectory string
  | NothingMaps string
  | WouldOverwrite "path list"
  | ReadingFailed message
  | CopyFailed path path message
  | ManifestFailed message

definition db_suffixes :: "string list" where
  "db_suffixes = ['''', ''-wal'', ''-shm'']"

text \<open>The files there are: the database with its companions, and the vault.\<close>

definition state_files :: "files \<Rightarrow> path option \<Rightarrow> path \<Rightarrow> path list" where
  "state_files fs db vault =
     (case db of None \<Rightarrow> [] | Some (d, n) \<Rightarrow> filter (\<lambda>p. fs p \<noteq> None) (map (\<lambda>s. (d, n @ s)) db_suffixes))
     @ (if fs vault \<noteq> None then [vault] else [])"

text \<open>\<open>io\<close> says what writing a file fails with.\<close>

definition copy_file :: "(path \<Rightarrow> message option) \<Rightarrow> path \<Rightarrow> path \<Rightarrow> files \<Rightarrow> (backup_error + nat) \<times> files" where
  "copy_file io src dst fs = (case fs src of
       None \<Rightarrow> (Err (CopyFailed src dst [Lit ''no such file'']), fs)
     | Some c \<Rightarrow> (case io dst of
         Some e \<Rightarrow> (Err (CopyFailed src dst e), fs)
       | None \<Rightarrow> (Ok (length c), fs(dst \<mapsto> c))))"

definition backup_line_end :: char where
  "backup_line_end = CHR 0x0A"

definition show_path :: "path \<Rightarrow> string" where
  "show_path p = fst p @ ''/'' @ snd p"

definition manifest_name :: string where
  "manifest_name = ''MANIFEST.txt''"

text \<open>Copying each file and noting it in the manifest.\<close>

fun backup_loop ::
    "(path \<Rightarrow> message option) \<Rightarrow> string \<Rightarrow> path list \<Rightarrow> string \<Rightarrow> files \<Rightarrow> (backup_error + string) \<times> files"
where
  "backup_loop io out [] manifest fs = (Ok manifest, fs)"
| "backup_loop io out (p # ps) manifest fs = (case copy_file io p (out, snd p) fs of
       (Inl e, fs1) \<Rightarrow> (Err e, fs1)
     | (Inr bytes, fs1) \<Rightarrow>
         backup_loop io out ps (manifest @ show_path p @ ''  '' @ show_nat bytes @ '' bytes'' @ [backup_line_end]) fs1)"

text \<open>\<open>out\<close> is the directory made for the backup, named after the stamp; making it can fail.\<close>

definition backup ::
    "(path \<Rightarrow> message option) \<Rightarrow> message option \<Rightarrow> string \<Rightarrow> string \<Rightarrow> path option \<Rightarrow> path \<Rightarrow> files
      \<Rightarrow> (backup_error + unit) \<times> files"
where
  "backup io mkdir out stamp db vault fs =
     (if state_files fs db vault = [] then (Err (NothingToBackUp vault), fs)
      else (case mkdir of Some e \<Rightarrow> (Err (NoDirectory e), fs) | None \<Rightarrow>
        (case backup_loop io out (state_files fs db vault) (''sherwood backup '' @ stamp @ [backup_line_end]) fs of
           (Inl e, fs1) \<Rightarrow> (Err e, fs1)
         | (Inr manifest, fs1) \<Rightarrow> (case io (out, manifest_name) of
             Some e \<Rightarrow> (Err (ManifestFailed e), fs1)
           | None \<Rightarrow> (Ok (), fs1((out, manifest_name) \<mapsto> manifest))))))"

section \<open>Restoring\<close>

text \<open>Where a file of the backup goes, if anywhere.\<close>

definition restore_target :: "path option \<Rightarrow> path \<Rightarrow> string \<Rightarrow> path option" where
  "restore_target db vault name =
     (if name = snd vault then Some vault
      else (case db of
          None \<Rightarrow> None
        | Some (d, base) \<Rightarrow>
            if name = base \<or> name = base @ ''-wal'' \<or> name = base @ ''-shm'' then Some (d, name) else None))"

text \<open>The copies to make; \<open>listing\<close> is the directory, each entry read or not.\<close>

fun restore_plan ::
    "string \<Rightarrow> path option \<Rightarrow> path \<Rightarrow> files \<Rightarrow> (message + string) list \<Rightarrow> backup_error + (path \<times> path) list" where
  "restore_plan from_dir db vault fs [] = Ok []"
| "restore_plan from_dir db vault fs (entry # rest) = (case entry of
       Inl e \<Rightarrow> Err (ReadingFailed e)
     | Inr name \<Rightarrow>
         if name = manifest_name \<or> fs (from_dir, name) = None then restore_plan from_dir db vault fs rest
         else (case restore_target db vault name of
             None \<Rightarrow> restore_plan from_dir db vault fs rest
           | Some target \<Rightarrow> and_then (restore_plan from_dir db vault fs rest) (\<lambda>plan.
               Ok (((from_dir, name), target) # plan))))"

fun copy_all :: "(path \<Rightarrow> message option) \<Rightarrow> (path \<times> path) list \<Rightarrow> files \<Rightarrow> (backup_error + unit) \<times> files" where
  "copy_all io [] fs = (Ok (), fs)"
| "copy_all io ((src, dst) # rest) fs = (case copy_file io src dst fs of
       (Inl e, fs1) \<Rightarrow> (Err e, fs1)
     | (Inr _, fs1) \<Rightarrow> copy_all io rest fs1)"

definition restore ::
    "(path \<Rightarrow> message option) \<Rightarrow> bool \<Rightarrow> string \<Rightarrow> path option \<Rightarrow> path \<Rightarrow> (message + string) list \<Rightarrow> bool \<Rightarrow> files
      \<Rightarrow> (backup_error + unit) \<times> files"
where
  "restore io is_dir from_dir db vault listing force fs =
     (if \<not> is_dir then (Err (NotADirectory from_dir), fs)
      else (case restore_plan from_dir db vault fs listing of
          Inl e \<Rightarrow> (Err e, fs)
        | Inr plan \<Rightarrow>
            if plan = [] then (Err (NothingMaps from_dir), fs)
            else (let existing = filter (\<lambda>t. fs t \<noteq> None) (map snd plan) in
              if existing \<noteq> [] \<and> \<not> force then (Err (WouldOverwrite existing), fs)
              else copy_all io plan fs)))"

section \<open>Lemmas\<close>

lemma copy_all_keeps: "q \<notin> snd ` set ps \<Longrightarrow> snd (copy_all io ps fs) q = fs q"
  by (induction io ps fs rule: copy_all.induct) (auto simp: copy_file_def split: option.splits)

lemma copy_all_copies:
  assumes "\<And>q. io q = None" and "fst ` set ps \<inter> snd ` set ps = {}" and "\<And>s t. (s, t) \<in> set ps \<Longrightarrow> fs s \<noteq> None"
    and "\<And>s s' t. (s, t) \<in> set ps \<Longrightarrow> (s', t) \<in> set ps \<Longrightarrow> s = s'"
  shows "fst (copy_all io ps fs) = Ok () \<and> (\<forall>(s, t) \<in> set ps. snd (copy_all io ps fs) t = fs s)"
  using assms(2-4)
proof (induction ps arbitrary: fs)
  case (Cons p ps)
  obtain s t where p: "p = (s, t)" by (rule prod.exhaust)
  obtain c where c: "fs s = Some c" using Cons.prems(2) [of s t] p by auto
  have no_source: "q \<in> fst ` set ps \<Longrightarrow> q \<noteq> t" for q using Cons.prems(1) p by auto
  have same: "(fs(t \<mapsto> c)) q = fs q" if "q \<in> fst ` set ps" for q using no_source [OF that] by simp
  have IH: "fst (copy_all io ps (fs(t \<mapsto> c))) = Ok () \<and> (\<forall>(s, t') \<in> set ps. snd (copy_all io ps (fs(t \<mapsto> c))) t' = (fs(t \<mapsto> c)) s)"
  proof (rule Cons.IH)
    show "fst ` set ps \<inter> snd ` set ps = {}" using Cons.prems(1) by auto
    show "(fs(t \<mapsto> c)) s' \<noteq> None" if "(s', t') \<in> set ps" for s' t'
      using Cons.prems(2) [of s' t'] that by auto
    show "s1 = s2" if "(s1, t') \<in> set ps" "(s2, t') \<in> set ps" for s1 s2 t'
      using Cons.prems(3) that by (meson list.set_intros(2))
  qed
  have step: "copy_all io (p # ps) fs = copy_all io ps (fs(t \<mapsto> c))" by (simp add: p copy_file_def c assms(1))
  have "snd (copy_all io ps (fs(t \<mapsto> c))) t = Some c"
  proof (cases "t \<in> snd ` set ps")
    case True
    then obtain s' where s': "(s', t) \<in> set ps" by force
    with Cons.prems(3) [of s t s'] p have "s' = s" by auto
    with IH s' same [of s] c show ?thesis by force
  next
    case False
    then show ?thesis by (simp add: copy_all_keeps)
  qed
  with IH c p same show ?case unfolding step by force
qed simp

lemma backup_loop_copies:
  "fst (backup_loop io out ps m fs) = Ok m' \<Longrightarrow>
     copy_all io (map (\<lambda>p. (p, out, snd p)) ps) fs = (Ok (), snd (backup_loop io out ps m fs))"
  by (induction io out ps m fs rule: backup_loop.induct) (auto split: sum.splits prod.splits)

lemma restore_plan_set:
  "restore_plan from_dir db vault fs listing = Ok plan \<Longrightarrow>
     set plan = {((from_dir, n), t) | n t. Inr n \<in> set listing \<and> n \<noteq> manifest_name \<and> fs (from_dir, n) \<noteq> None
       \<and> restore_target db vault n = Some t}"
  by (induction from_dir db vault fs listing arbitrary: plan rule: restore_plan.induct)
    (auto simp: and_then_eq_Ok split: sum.splits if_splits option.splits)

lemma restore_plan_Ok: "list_all (\<lambda>e. \<not> isl e) listing \<Longrightarrow> \<exists>plan. restore_plan from_dir db vault fs listing = Ok plan"
  by (induction listing) (auto split: sum.splits option.splits)

section \<open>Properties\<close>

text \<open>
  What keeps the files of a state apart: the names of the database's files, the vault's and the
  manifest's differ, and the backup is in a directory of its own.
\<close>

definition state_apart :: "string \<Rightarrow> path option \<Rightarrow> path \<Rightarrow> bool" where
  "state_apart out db vault \<longleftrightarrow> snd vault \<noteq> manifest_name \<and> fst vault \<noteq> out
     \<and> (case db of
          None \<Rightarrow> True
        | Some (d, n) \<Rightarrow> d \<noteq> out \<and> list_all (\<lambda>s. n @ s \<noteq> snd vault \<and> n @ s \<noteq> manifest_name) db_suffixes)"

lemma state_files_iff:
  "p \<in> set (state_files fs db vault) \<longleftrightarrow>
     fs p \<noteq> None \<and> (p = vault \<or> (\<exists>d n s. db = Some (d, n) \<and> s \<in> set db_suffixes \<and> p = (d, n @ s)))"
proof (cases db)
  case None
  then show ?thesis by (auto simp: state_files_def)
next
  case (Some dn)
  obtain d n where "dn = (d, n)" by (rule prod.exhaust)
  with Some show ?thesis unfolding state_files_def by auto
qed

lemma state_files_apart:
  assumes "state_apart out db vault" and "p \<in> set (state_files fs db vault)"
  shows "snd p \<noteq> manifest_name" and "fst p \<noteq> out" and "restore_target db vault (snd p) = Some p" and "fs p \<noteq> None"
proof -
  from assms(2) have "p = vault \<or> (\<exists>d n s. db = Some (d, n) \<and> s \<in> set db_suffixes \<and> p = (d, n @ s))"
    and there: "fs p \<noteq> None"
    by (auto simp: state_files_iff)
  then consider "p = vault" | d n s where "db = Some (d, n)" "s \<in> set db_suffixes" "p = (d, n @ s)" by blast
  then have "snd p \<noteq> manifest_name \<and> fst p \<noteq> out \<and> restore_target db vault (snd p) = Some p"
  proof cases
    case 1
    with assms(1) show ?thesis by (simp add: state_apart_def restore_target_def)
  next
    case 2
    with assms(1) have "n @ s \<noteq> snd vault" "n @ s \<noteq> manifest_name" "d \<noteq> out"
      by (auto simp: state_apart_def list_all_iff)
    with 2 show ?thesis by (auto simp: restore_target_def db_suffixes_def)
  qed
  with there show "snd p \<noteq> manifest_name" "fst p \<noteq> out" "restore_target db vault (snd p) = Some p" "fs p \<noteq> None" by auto
qed

text \<open>What a finished backup put into its directory.\<close>

lemma backup_holds:
  assumes apart: "state_apart out db vault" and made: "backup io mkdir out stamp db vault fs = (Ok (), fs')"
    and io: "\<And>q. io q = None"
  shows "state_files fs db vault \<noteq> []"
    and "p \<in> set (state_files fs db vault) \<Longrightarrow> fs' (out, snd p) = fs p"
    and "n \<noteq> manifest_name \<Longrightarrow> n \<notin> snd ` set (state_files fs db vault) \<Longrightarrow> fs' (out, n) = fs (out, n)"
    and "fs' (out, manifest_name) \<noteq> None"
proof -
  let ?ps = "state_files fs db vault"
  let ?m = "''sherwood backup '' @ stamp @ [backup_line_end]"
  from made show some: "?ps \<noteq> []" by (auto simp: backup_def split: if_splits)
  from made io obtain m fs1 where loop: "backup_loop io out ?ps ?m fs = (Ok m, fs1)"
    and fs': "fs' = fs1((out, manifest_name) \<mapsto> m)"
    by (auto simp: backup_def split: if_splits option.splits sum.splits prod.splits)
  let ?copies = "map (\<lambda>p. (p, out, snd p)) ?ps"
  have copies: "copy_all io ?copies fs = (Ok (), fs1)" using backup_loop_copies [of io out ?ps ?m fs m] loop by simp
  have same: "q = p" if "p \<in> set ?ps" "q \<in> set ?ps" "snd p = snd q" for p q
    using state_files_apart(3) [OF apart that(1)] state_files_apart(3) [OF apart that(2)] unfolding that(3)
    by (metis option.inject)
  have "fst (copy_all io ?copies fs) = Ok () \<and> (\<forall>(s, t) \<in> set ?copies. snd (copy_all io ?copies fs) t = fs s)"
    using io
  proof (rule copy_all_copies)
    show "fst ` set ?copies \<inter> snd ` set ?copies = {}" using state_files_apart(2) [OF apart] by force
    show "fs s \<noteq> None" if "(s, t) \<in> set ?copies" for s t using state_files_apart(4) [OF apart] that by auto
    show "s = s'" if "(s, t) \<in> set ?copies" "(s', t) \<in> set ?copies" for s s' t using same that by auto
  qed
  with copies have copied: "fs1 (out, snd p) = fs p" if "p \<in> set ?ps" for p using that by auto
  show "fs' (out, snd p) = fs p" if "p \<in> set ?ps"
    using copied [OF that] state_files_apart(1) [OF apart that] by (simp add: fs')
  show "fs' (out, n) = fs (out, n)" if "n \<noteq> manifest_name" "n \<notin> snd ` set ?ps"
    using copy_all_keeps [of "(out, n)" ?copies io fs] copies that by (force simp: fs')
  show "fs' (out, manifest_name) \<noteq> None" by (simp add: fs')
qed

text \<open>The plan of a restore from what a backup left: each state file from its copy.\<close>

lemma backup_plan:
  assumes "state_apart out db vault" and ps: "ps = state_files fs db vault"
    and names: "\<And>n. fs2 (out, n) \<noteq> None \<longleftrightarrow> n = manifest_name \<or> n \<in> snd ` set ps"
    and listing: "set listing = {Inr n | n. fs2 (out, n) \<noteq> None}"
  obtains plan where "restore_plan out db vault fs2 listing = Ok plan" and "set plan = (\<lambda>p. ((out, snd p), p)) ` set ps"
proof -
  have "list_all (\<lambda>e. \<not> isl e) listing" unfolding list_all_iff listing by auto
  then obtain plan where plan: "restore_plan out db vault fs2 listing = Ok plan"
    using restore_plan_Ok by blast
  have "set plan = (\<lambda>p. ((out, snd p), p)) ` set ps"
  proof -
    have listed: "Inr n \<in> set listing \<longleftrightarrow> n = manifest_name \<or> n \<in> snd ` set ps" for n
      unfolding listing using names [of n] by blast
    have "n \<noteq> manifest_name" if "n \<in> snd ` set ps" for n
      using that state_files_apart(1) [OF assms(1), of _ fs, folded ps] by (metis imageE)
    with listed names have "Inr n \<in> set listing \<and> n \<noteq> manifest_name \<and> fs2 (out, n) \<noteq> None \<and> restore_target db vault n = Some t
        \<longleftrightarrow> n \<in> snd ` set ps \<and> restore_target db vault n = Some t" for n t
      by blast
    then have plan_is: "set plan = {((out, n), t) | n t. n \<in> snd ` set ps \<and> restore_target db vault n = Some t}"
      unfolding restore_plan_set [OF plan] by (simp only:)
    have target: "restore_target db vault (snd p) = Some p" if "p \<in> set ps" for p
      using state_files_apart(3) [OF assms(1) that [unfolded ps]] .
    show ?thesis unfolding plan_is
    proof (intro subset_antisym subsetI)
      fix x assume "x \<in> {((out, n), t) | n t. n \<in> snd ` set ps \<and> restore_target db vault n = Some t}"
      then obtain p t where "p \<in> set ps" "x = ((out, snd p), t)" "restore_target db vault (snd p) = Some t" by blast
      with target [of p] show "x \<in> (\<lambda>p. ((out, snd p), p)) ` set ps" by simp
    next
      fix x assume "x \<in> (\<lambda>p. ((out, snd p), p)) ` set ps"
      then obtain p where "p \<in> set ps" "x = ((out, snd p), p)" by blast
      with target [of p] show "x \<in> {((out, n), t) | n t. n \<in> snd ` set ps \<and> restore_target db vault n = Some t}"
        by blast
    qed
  qed
  with plan show ?thesis by (rule that)
qed

text \<open>
  C32. A backup that was made can be restored. Take a backup into an empty directory; let
  anything happen to the other files; restore it with force. Where writing works, the restore
  succeeds, every file that was backed up has its contents back, and no other file is touched:
  also a companion of the database that the backup did not have is left as it is.
\<close>

theorem backup_restores:
  assumes "state_apart out db vault" and "\<forall>q. io q = None" and "\<forall>n. fs (out, n) = None"
    and "backup io mkdir out stamp db vault fs = (Ok (), fs1)" and "\<forall>n. fs2 (out, n) = fs1 (out, n)"
    and "set listing = {Inr n | n. fs2 (out, n) \<noteq> None}"
  shows "fst (restore io True out db vault listing True fs2) = Ok ()
    \<and> (\<forall>p \<in> set (state_files fs db vault). snd (restore io True out db vault listing True fs2) p = fs p)
    \<and> (\<forall>p. p \<notin> set (state_files fs db vault) \<longrightarrow> snd (restore io True out db vault listing True fs2) p = fs2 p)"
proof -
  let ?ps = "state_files fs db vault"
  have io: "io q = None" for q using assms(2) by blast
  note held = backup_holds [OF assms(1,4) io]
  have names: "fs2 (out, n) \<noteq> None \<longleftrightarrow> n = manifest_name \<or> n \<in> snd ` set ?ps" for n
  proof (cases "n = manifest_name \<or> n \<in> snd ` set ?ps")
    case True
    then show ?thesis
    proof
      assume "n \<in> snd ` set ?ps"
      then obtain p where p: "p \<in> set ?ps" "n = snd p" by blast
      from held(2) [OF p(1)] state_files_apart(4) [OF assms(1) p(1)] assms(5) p show ?thesis by simp
    qed (use held(4) assms(5) in simp)
  next
    case False
    with held(3) [of n] assms(3,5) show ?thesis by simp
  qed
  from backup_plan [OF assms(1) refl names assms(6)] obtain plan where plan: "restore_plan out db vault fs2 listing = Ok plan"
    and plan_set: "set plan = (\<lambda>p. ((out, snd p), p)) ` set ?ps" by blast
  have "fst (copy_all io plan fs2) = Ok () \<and> (\<forall>(s, t) \<in> set plan. snd (copy_all io plan fs2) t = fs2 s)"
    using io
  proof (rule copy_all_copies)
    show "fst ` set plan \<inter> snd ` set plan = {}" using state_files_apart(2) [OF assms(1), of _ fs] by (force simp: plan_set)
    show "fs2 s \<noteq> None" if "(s, t) \<in> set plan" for s t using that names by (auto simp: plan_set)
    show "s = s'" if "(s, t) \<in> set plan" "(s', t) \<in> set plan" for s s' t using that by (auto simp: plan_set)
  qed
  moreover have "fs2 (out, snd p) = fs p" if "p \<in> set ?ps" for p using held(2) [OF that] assms(5) by simp
  moreover have "snd (copy_all io plan fs2) p = fs2 p" if "p \<notin> set ?ps" for p
    using that by (intro copy_all_keeps) (force simp: plan_set)
  moreover have "plan \<noteq> []" using plan_set held(1) by auto
  then have "restore io True out db vault listing True fs2 = copy_all io plan fs2"
    by (simp add: restore_def plan)
  ultimately show ?thesis by (auto simp: plan_set)
qed

text \<open>
  A restore without force never changes a file that is there, whatever the backup holds and
  whatever fails on the way.
\<close>

theorem unforced_restore_overwrites_nothing:
  assumes "fs p = Some c"
  shows "snd (restore io is_dir from_dir db vault listing False fs) p = Some c"
proof (cases "restore_plan from_dir db vault fs listing")
  case (Inr plan)
  have "p \<notin> snd ` set plan" if "filter (\<lambda>t. fs t \<noteq> None) (map snd plan) = []"
    using that assms by (force simp: filter_empty_conv)
  then show ?thesis using assms copy_all_keeps [of p plan io fs] by (auto simp: restore_def Inr Let_def)
qed (use assms in \<open>simp add: restore_def\<close>)

definition demo_files :: files where
  "demo_files = [(''data'', ''state.db'') \<mapsto> ''V1'', (''.'', ''secrets.vault'') \<mapsto> ''S'']"

definition demo_backup :: files where
  "demo_backup = snd (backup (\<lambda>_. None) None ''out'' ''now'' (Some (''data'', ''state.db'')) (''.'', ''secrets.vault'') demo_files)"

theorem backup_restores_witness:
  "snd (restore (\<lambda>_. None) True ''out'' (Some (''data'', ''state.db'')) (''.'', ''secrets.vault'')
     [Inr ''state.db'', Inr ''secrets.vault'', Inr ''MANIFEST.txt''] True
     (demo_backup((''data'', ''state.db'') \<mapsto> ''broken''))) (''data'', ''state.db'') = Some ''V1''"
proof -
  let ?db = "Some (''data'', ''state.db'')" and ?vault = "(''.'', ''secrets.vault'')"
  have files: "state_files demo_files ?db ?vault = [(''data'', ''state.db''), ?vault]"
    by (simp add: state_files_def demo_files_def db_suffixes_def)
  have reads: "demo_files (''data'', ''state.db'') = Some ''V1''" "demo_files ?vault = Some ''S''"
    and none: "demo_files (''out'', n) = None" for n
    by (simp_all add: demo_files_def)
  have run: "backup (\<lambda>_. None) None ''out'' ''now'' ?db ?vault demo_files = (Ok (), demo_backup)"
    by (simp add: demo_backup_def backup_def files copy_file_def reads)
  have apart: "state_apart ''out'' ?db ?vault" by (simp add: state_apart_def db_suffixes_def manifest_name_def)
  have "(demo_backup((''data'', ''state.db'') \<mapsto> ''broken'')) (''out'', n) \<noteq> None
      \<longleftrightarrow> n = ''state.db'' \<or> n = ''secrets.vault'' \<or> n = ''MANIFEST.txt''" for n
    by (simp add: demo_backup_def backup_def files copy_file_def reads none manifest_name_def)
  then have "set [Inr ''state.db'', Inr ''secrets.vault'', Inr ''MANIFEST.txt'']
      = {Inr n | n. (demo_backup((''data'', ''state.db'') \<mapsto> ''broken'')) (''out'', n) \<noteq> None}"
    by auto
  note listing = this
  have same: "\<forall>n. (demo_backup((''data'', ''state.db'') \<mapsto> ''broken'')) (''out'', n) = demo_backup (''out'', n)" by simp
  have empty: "\<forall>n. demo_files (''out'', n) = None" using none by blast
  from backup_restores [OF apart _ empty run same listing] show ?thesis
    by (simp add: files reads del: fun_upd_apply)
qed

theorem unforced_restore_overwrites_nothing_witness:
  "snd (restore (\<lambda>_. None) True ''out'' (Some (''data'', ''state.db'')) (''.'', ''secrets.vault'')
     [Inr ''state.db''] False demo_files) (''data'', ''state.db'') = Some ''V1''"
  by (rule unforced_restore_overwrites_nothing) (simp add: demo_files_def)

end
