(* ===== verification/Serve_Setup.thy ===== *)
theory Serve_Setup
  imports Vault Backup Server_Http
begin

text \<open>
  Starting the server: the role tokens and where they are kept
  (\<open>crates/server/src/auth.rs\<close>, \<open>crates/cli/src/secrets_cmd.rs\<close>), the state built from the
  configuration (\<open>crates/cli/src/serve_cmd.rs\<close>, \<open>config_ext.rs\<close>), and the configuration file
  that the running server replaces and reads again (\<open>config_store.rs\<close>). The environment, the
  random generator and the opening of the database are arguments. Progress messages are not
  modelled.
\<close>

section \<open>The vault on this machine\<close>

type_synonym environment = "string \<rightharpoonup> string"
type_synonym vaults = "string \<Rightarrow> disk"

definition default_vault :: string where
  "default_vault = ''secrets.vault''"

definition passphrase_env :: string where
  "passphrase_env = ''SHERWOOD_VAULT_PASSPHRASE''"

definition show_vault_error :: "string \<Rightarrow> vault_error \<Rightarrow> message" where
  "show_vault_error path e = (case e of
       VaultIo m \<Rightarrow> [Lit ''io error on '', Lit path, Lit '': ''] @ m
     | MissingPassphrase v \<Rightarrow> [Lit ''environment variable '', Lit v,
         Lit ('' is not set '' @ em_dash @ '' export the vault passphrase'')]
     | Malformed m \<Rightarrow> Lit ''vault file is malformed: '' # m
     | VaultDecrypt \<Rightarrow> [Lit (''could not decrypt the vault '' @ em_dash @ '' wrong passphrase, or the file was tampered with'')]
     | VaultKdf m \<Rightarrow> Lit ''key derivation failed: '' # m
     | VaultJson m \<Rightarrow> Lit ''serialisation error: '' # m)"

text \<open>The path and the passphrase.\<close>

definition open_vault :: "environment \<Rightarrow> vault_error + string \<times> bytes" where
  "open_vault env = (case env passphrase_env of
       None \<Rightarrow> Err (MissingPassphrase passphrase_env)
     | Some p \<Rightarrow> Ok (unwrap_or default_vault (env ''SHERWOOD_VAULT_PATH''), map of_char p))"

section \<open>The command for secrets\<close>

text \<open>The random salt and nonce of one write, and how the write goes.\<close>

record draw =
  dr_salt :: bytes
  dr_nonce :: bytes
  dr_write :: write_outcome

datatype exit =
    UsageShown
  | Fails "message list"     \<comment> \<open>the error below its contexts, outermost first\<close>
  | Succeeds string          \<comment> \<open>what is printed\<close>

definition byte_order_mark :: string where
  "byte_order_mark = [CHR 0xEF, CHR 0xBB, CHR 0xBF]"

definition secret_value :: "string \<Rightarrow> string" where
  "secret_value piped = rev (dropWhile (\<lambda>c. c = CHR 0x0A \<or> c = CHR 0x0D)
     (rev (unwrap_or piped (strip_prefix byte_order_mark piped))))"

definition vault_failed :: "string \<Rightarrow> vault_error \<Rightarrow> exit" where
  "vault_failed path e = Fails [show_vault_error path e]"

definition secrets_run ::
    "vault_packages \<Rightarrow> environment \<Rightarrow> string list \<Rightarrow> message + string \<Rightarrow> draw \<Rightarrow> vaults \<Rightarrow> exit \<times> vaults"
where
  "secrets_run P env args stdin dr vs =
     (let opened = (\<lambda>k. case open_vault env of
            Inl e \<Rightarrow> (Fails [[Lit ''opening the vault''], show_vault_error [] e], vs)
          | Inr (path, pass) \<Rightarrow> k path pass)
      in case args of
        ''set'' # name # _ \<Rightarrow> (case stdin of
            Inl e \<Rightarrow> (Fails [[Lit ''reading the value from stdin''], e], vs)
          | Inr piped \<Rightarrow>
              if secret_value piped = [] then (Fails [[Lit ''no value on stdin'']], vs)
              else opened (\<lambda>path pass.
                let (r, d) = vault_set P pass (dr_salt dr) (dr_nonce dr) (dr_write dr) (vs path) name (secret_value piped)
                in (case r of Inl e \<Rightarrow> vault_failed path e | Inr _ \<Rightarrow> Succeeds [], vs(path := d))))
      | ''get'' # name # _ \<Rightarrow> opened (\<lambda>path pass. (case vault_get P pass (vs path) name of
            Inl e \<Rightarrow> vault_failed path e
          | Inr None \<Rightarrow> Fails [[Lit ''no secret named '', Lit name]]
          | Inr (Some v) \<Rightarrow> Succeeds (v @ [newline_char]), vs))
      | ''list'' # _ \<Rightarrow> opened (\<lambda>path pass. (case vault_list P pass (vs path) of
            Inl e \<Rightarrow> vault_failed path e
          | Inr names \<Rightarrow> Succeeds (concat (map (\<lambda>n. n @ [newline_char]) names)), vs))
      | ''rm'' # name # _ \<Rightarrow> opened (\<lambda>path pass.
            let (r, d) = vault_delete P pass (dr_salt dr) (dr_nonce dr) (dr_write dr) (vs path) name
            in (case r of Inl e \<Rightarrow> vault_failed path e | Inr _ \<Rightarrow> Succeeds [], vs(path := d)))
      | _ \<Rightarrow> (UsageShown, vs))"

section \<open>Tokens\<close>

datatype token_origin = TokenLoaded | TokenCreated

definition generate_token :: "hex_codec \<Rightarrow> message + bytes \<Rightarrow> api_error + string" where
  "generate_token H random = (case random of
       Inl e \<Rightarrow> Err (Internal (Lit ''CSPRNG unavailable: '' # e))
     | Inr bs \<Rightarrow> Ok (hx_encode H bs))"

text \<open>\<open>random\<close> is what the generator gives when it is asked.\<close>

definition load_or_create ::
    "vault_packages \<Rightarrow> string \<Rightarrow> bytes \<Rightarrow> message + bytes \<Rightarrow> draw \<Rightarrow> string \<Rightarrow> disk
      \<Rightarrow> (api_error + string \<times> token_origin) \<times> disk"
where
  "load_or_create P path pass random dr name d = (case vault_get P pass d name of
       Inl e \<Rightarrow> (Err (Internal (Lit ''vault read failed: '' # show_vault_error path e)), d)
     | Inr (Some existing) \<Rightarrow> (Ok (existing, TokenLoaded), d)
     | Inr None \<Rightarrow> (case generate_token (vp_hex P) random of
         Inl e \<Rightarrow> (Err e, d)
       | Inr fresh \<Rightarrow> (let (r, d') = vault_set P pass (dr_salt dr) (dr_nonce dr) (dr_write dr) d name fresh in
           (case r of
              Inl e \<Rightarrow> Err (Internal (Lit ''vault write failed: '' # show_vault_error path e))
            | Inr _ \<Rightarrow> Ok (fresh, TokenCreated), d'))))"

definition vault_name :: "string \<Rightarrow> string" where
  "vault_name reference = trim (unwrap_or reference (strip_prefix ''vault:'' reference))"

definition resolve_role_token ::
    "vault_packages \<Rightarrow> string \<Rightarrow> bytes \<Rightarrow> (message + bytes) \<times> draw \<Rightarrow> string \<Rightarrow> disk \<Rightarrow> (message + string) \<times> disk"
where
  "resolve_role_token P path pass rd reference d =
     (let (r, d') = load_or_create P path pass (fst rd) (snd rd) (vault_name reference) d
      in (case r of Inl e \<Rightarrow> Err (error_display e) | Inr (t, _) \<Rightarrow> Ok t, d'))"

definition resolve_optional ::
    "vault_packages \<Rightarrow> string \<Rightarrow> bytes \<Rightarrow> (message + bytes) \<times> draw \<Rightarrow> string option \<Rightarrow> disk
      \<Rightarrow> (message + string option) \<times> disk"
where
  "resolve_optional P path pass rd reference d = (case reference of
       None \<Rightarrow> (Ok None, d)
     | Some r \<Rightarrow> (let (t, d') = resolve_role_token P path pass rd r d in (and_then t (\<lambda>t. Ok (Some t)), d')))"

text \<open>One draw for each role; the next token is resolved only if the one before was.\<close>

record token_draws =
  td_admin :: "(message + bytes) \<times> draw"
  td_operator :: "(message + bytes) \<times> draw"
  td_viewer :: "(message + bytes) \<times> draw"

definition resolve_tokens ::
    "vault_packages \<Rightarrow> string \<Rightarrow> bytes \<Rightarrow> token_draws \<Rightarrow> server_section \<Rightarrow> disk \<Rightarrow> (message + token_set) \<times> disk"
where
  "resolve_tokens P path pass td s d =
     (case resolve_role_token P path pass (td_admin td) (sv_token_ref s) d of
        (Inl e, d1) \<Rightarrow> (Err e, d1)
      | (Inr admin, d1) \<Rightarrow> (case resolve_optional P path pass (td_operator td) (sv_operator_token_ref s) d1 of
          (Inl e, d2) \<Rightarrow> (Err e, d2)
        | (Inr operator, d2) \<Rightarrow> (case resolve_optional P path pass (td_viewer td) (sv_viewer_token_ref s) d2 of
            (Inl e, d3) \<Rightarrow> (Err e, d3)
          | (Inr viewer, d3) \<Rightarrow> (Ok \<lparr>tk_admin = admin, tk_operator = operator, tk_viewer = viewer\<rparr>, d3))))"

section \<open>From the configuration to the state\<close>

definition parse_approval_mode :: "string \<Rightarrow> approval_mode option" where
  "parse_approval_mode s = (if s = ''auto'' then Some Auto else if s = ''manual'' then Some Manual else None)"

definition to_opts :: "server_section \<Rightarrow> server_opts" where
  "to_opts s =
     \<lparr>so_allow_live = server_section.sv_allow_live s, so_rate_limit_per_min = sv_rate_limit_per_min s,
      so_cors_origins = server_section.sv_cors_origins s, so_static_dir = server_section.sv_static_dir s,
      so_approval_mode = unwrap_or Auto (parse_approval_mode (sv_approval_mode s)),
      so_approval_timeout = nat (from_secs (uint (max (sv_approval_timeout_secs s) 1))),
      so_budget_caps = \<lparr>bc_max_orders = sv_max_session_orders s, bc_max_notional = sv_max_session_notional s,
        bc_max_duration = nat (from_secs (uint (sv_max_session_duration_secs s)))\<rparr>,
      so_router_config = router_config_default\<rparr>"

text \<open>What a reload takes from a configuration.\<close>

definition reloaded_from :: "app_config \<Rightarrow> reloaded" where
  "reloaded_from c = \<lparr>rd_risk = risk_to_core (ac_risk c), rd_allowlist = to_allowlist (ac_hook c),
     rd_approval_mode = so_approval_mode (to_opts (ac_server c))\<rparr>"

text \<open>The state of the server before it listens; \<open>toml\<close> is the text of its configuration file.\<close>

definition serve_state :: "instant \<Rightarrow> token_set \<Rightarrow> app_config \<Rightarrow> store option \<Rightarrow> string \<Rightarrow> app_state" where
  "serve_state now tokens c db toml =
     with_config_store toml (with_reconciler (with_dex_simulator (with_live_preflight (with_reloader
       (app_state_new now tokens (risk_to_core (ac_risk c)) (to_allowlist (ac_hook c))
         ((to_opts (ac_server c))\<lparr>so_router_config := router_to_core (ac_router c)\<rparr>) db)))))"

definition serve_bind :: "config_env \<Rightarrow> socket_addr \<Rightarrow> message + unit" where
  "serve_bind E addr = (if is_loopback (so_ip addr) then Ok ()
     else Err [Lit ''refusing to bind '', Lit (ce_show_addr E addr), Lit '': only loopback is allowed without TLS''])"

text \<open>
  Starting: the address, the vault, the tokens, the database, the state and the bind, in this
  order. \<open>open_db\<close> opens the database at a path.
\<close>

definition serve_run ::
    "vault_packages \<Rightarrow> config_env \<Rightarrow> environment \<Rightarrow> token_draws \<Rightarrow> (string \<Rightarrow> message + store) \<Rightarrow> instant
      \<Rightarrow> app_config \<Rightarrow> string \<Rightarrow> vaults \<Rightarrow> (message list + app_state) \<times> vaults"
where
  "serve_run P E env td open_db now c toml vs =
     (case ce_read_addr E (sv_bind (ac_server c)) of
        Inl e \<Rightarrow> (Err [[Lit ''server.bind (already validated on load)''], e], vs)
      | Inr addr \<Rightarrow> (case open_vault env of
          Inl e \<Rightarrow> (Err [[Lit ''opening the vault for the API tokens''], [Lit ''opening the vault''], show_vault_error [] e], vs)
        | Inr (path, pass) \<Rightarrow> (case resolve_tokens P path pass td (ac_server c) (vs path) of
            (Inl e, d) \<Rightarrow> (Err [e], vs(path := d))
          | (Inr tokens, d) \<Rightarrow>
              (and_then (case ge_state_path (ac_general c) of
                   None \<Rightarrow> Ok None
                 | Some p \<Rightarrow> (case open_db p of
                     Inl e \<Rightarrow> Err [[Lit ''opening the state store at '', Lit p], e]
                   | Inr db \<Rightarrow> Ok (Some db))) (\<lambda>db.
               case serve_bind E addr of
                 Inl e \<Rightarrow> Err [[Lit ''server error''], e]
               | Inr _ \<Rightarrow> Ok (serve_state now tokens c db toml)), vs(path := d)))))"

section \<open>The configuration file\<close>

text \<open>
  The name with its extension replaced; a name that only begins with a dot has none. Writing
  goes to a file beside and renames it: \<open>ci_write\<close> and \<open>ci_rename\<close> say what the two steps fail
  with, and \<open>ci_partial\<close> what a failing write leaves.
\<close>

definition file_stem :: "string \<Rightarrow> string" where
  "file_stem name = (let back = dropWhile (\<lambda>c. c \<noteq> CHR ''.'') (rev name) in
     if back = [] \<or> tl back = [] then name else rev (tl back))"

definition with_extension :: "string \<Rightarrow> path \<Rightarrow> path" where
  "with_extension ext p = (fst p, file_stem (snd p) @ ''.'' @ ext)"

record config_io =
  ci_write :: "message option"
  ci_partial :: "string option"
  ci_rename :: "message option"

definition read_to_string :: "files \<Rightarrow> path \<Rightarrow> message + string" where
  "read_to_string fs p = ok_or [Lit ''No such file or directory (os error 2)''] (fs p)"

definition config_read :: "files \<Rightarrow> path \<Rightarrow> message + string" where
  "config_read fs p = (case read_to_string fs p of
       Inl e \<Rightarrow> Err ([Lit ''reading '', Lit (show_path p), Lit '': ''] @ e) | Inr c \<Rightarrow> Ok c)"

definition config_write :: "config_io \<Rightarrow> path \<Rightarrow> string \<Rightarrow> files \<Rightarrow> message option \<times> files" where
  "config_write io p contents fs =
     (let tmp = with_extension ''toml.tmp'' p in
      case ci_write io of
        Some e \<Rightarrow> (Some ([Lit ''writing '', Lit (show_path tmp), Lit '': ''] @ e), fs(tmp := ci_partial io))
      | None \<Rightarrow> (let fs1 = fs(tmp \<mapsto> contents) in case ci_rename io of
          Some e \<Rightarrow> (Some ([Lit ''renaming '', Lit (show_path tmp), Lit '' to '', Lit (show_path p), Lit '': ''] @ e), fs1)
        | None \<Rightarrow> (None, (fs1(p \<mapsto> contents))(tmp := None))))"

text \<open>An error with its contexts on one line, and its outermost message only.\<close>

fun show_chain :: "(string set \<Rightarrow> string) \<Rightarrow> config_error \<Rightarrow> message" where
  "show_chain names (Bail m) = m"
| "show_chain names (Foreign m) = m"
| "show_chain names (SharedSymbols ss) = [Lit ''risk.allowlist and risk.denylist share symbols: '', Lit (names ss)]"
| "show_chain names (RouterSectionError e) = show_router_error e"
| "show_chain names (InContext m e) = m @ [Lit '': ''] @ show_chain names e"

fun show_outermost :: "(string set \<Rightarrow> string) \<Rightarrow> config_error \<Rightarrow> message" where
  "show_outermost names (InContext m e) = m"
| "show_outermost names e = show_chain names e"

record toml_packages =
  tp_from_toml :: "string \<Rightarrow> message + app_config"
  tp_names :: "string set \<Rightarrow> string"
  tp_env :: config_env

definition reloader :: "toml_packages \<Rightarrow> path \<Rightarrow> files \<Rightarrow> message + reloaded" where
  "reloader T p fs = (case load (tp_env T) (\<lambda>_. read_to_string fs p) (tp_from_toml T) (show_path p) of
       Inl e \<Rightarrow> Err (show_chain (tp_names T) e)
     | Inr fresh \<Rightarrow> Ok (reloaded_from fresh))"

definition validate_posted :: "toml_packages \<Rightarrow> app_config \<Rightarrow> message + unit" where
  "validate_posted T c = (case validate (tp_env T) c of
       Inl e \<Rightarrow> Err (show_outermost (tp_names T) e) | Inr _ \<Rightarrow> Ok ())"

text \<open>The handler of a new configuration, over the file. It writes when nothing refused before.\<close>

definition reaches_the_file :: "toml_packages \<Rightarrow> role \<Rightarrow> string \<Rightarrow> string \<Rightarrow> app_state \<Rightarrow> bool" where
  "reaches_the_file T caller reauth toml st =
     (is_ok (privileged caller reauth st) \<and> sv_config_file st \<noteq> None
      \<and> is_ok (and_then (tp_from_toml T toml) (validate_posted T)))"

definition post_config_file ::
    "toml_packages \<Rightarrow> config_io \<Rightarrow> path \<Rightarrow> role \<Rightarrow> string \<Rightarrow> string \<Rightarrow> app_state \<times> files
      \<Rightarrow> (api_error + reload_view) \<times> app_state \<times> files"
where
  "post_config_file T io p caller reauth toml s =
     (let (failed, fs') = config_write io p toml (snd s);
          (r, st') = post_config (tp_from_toml T) (validate_posted T) failed (reloader T p fs') caller reauth toml (fst s)
      in (r, st', if reaches_the_file T caller reauth toml (fst s) then fs' else snd s))"

section \<open>Tokens survive\<close>

text \<open>Draws with which a write goes through.\<close>

definition drawn :: "draw \<Rightarrow> bool" where
  "drawn dr \<longleftrightarrow> length (dr_salt dr) = 16 \<and> length (dr_nonce dr) = 24 \<and> dr_write dr = Written"

definition token_drawn :: "(message + bytes) \<times> draw \<Rightarrow> bool" where
  "token_drawn rd \<longleftrightarrow> is_ok (fst rd) \<and> drawn (snd rd)"

lemma drawn_set:
  assumes "vault_holds P pass d M" and "drawn dr"
  obtains d' where "vault_set P pass (dr_salt dr) (dr_nonce dr) (dr_write dr) d n v = (Ok (), d')"
    and "vault_holds P pass d' (M(n \<mapsto> v))"
  using assms vault_set_holds [OF assms(1), of "dr_salt dr" "dr_nonce dr" n v]
  by (cases "vault_set P pass (dr_salt dr) (dr_nonce dr) (dr_write dr) d n v") (auto simp: drawn_def)

lemma resolve_role_token_again:
  assumes "vault_holds P pass d M" and "M (vault_name r) = Some t"
  shows "resolve_role_token P path pass rd r d = (Ok t, d)"
  using vault_reads(1) [OF assms(1), of "vault_name r"] assms(2)
  by (simp add: resolve_role_token_def load_or_create_def)

lemma resolve_role_token_holds:
  assumes "vault_holds P pass d M" and "token_drawn rd"
  obtains t d' M' where "resolve_role_token P path pass rd r d = (Ok t, d')" and "vault_holds P pass d' M'"
    and "M \<subseteq>\<^sub>m M'" and "M' (vault_name r) = Some t"
proof (cases "M (vault_name r)")
  case None
  from assms(2) obtain bs where bs: "fst rd = Inr bs" and dr: "drawn (snd rd)" by (auto simp: token_drawn_def is_ok_def split: sum.splits)
  from drawn_set [OF assms(1) dr] obtain d' where
    "vault_set P pass (dr_salt (snd rd)) (dr_nonce (snd rd)) (dr_write (snd rd)) d (vault_name r) (hx_encode (vp_hex P) bs) = (Ok (), d')"
    "vault_holds P pass d' (M(vault_name r \<mapsto> hx_encode (vp_hex P) bs))" by metis
  moreover have "M \<subseteq>\<^sub>m M(vault_name r \<mapsto> hx_encode (vp_hex P) bs)" using None by (auto simp: map_le_def)
  ultimately show ?thesis
    using None bs vault_reads(1) [OF assms(1), of "vault_name r"]
    by (intro that [of "hx_encode (vp_hex P) bs" d' "M(vault_name r \<mapsto> hx_encode (vp_hex P) bs)"])
      (auto simp: resolve_role_token_def load_or_create_def generate_token_def)
next
  case (Some t)
  from resolve_role_token_again [OF assms(1) this] show ?thesis
    using assms(1) Some by (intro that [of t d M]) auto
qed

text \<open>What an optional reference is resolved to, when the vault holds it.\<close>

definition resolved :: "(string \<rightharpoonup> string) \<Rightarrow> string option \<Rightarrow> string option \<Rightarrow> bool" where
  "resolved M r t = (case r of None \<Rightarrow> t = None | Some r \<Rightarrow> t \<noteq> None \<and> t = M (vault_name r))"

lemma resolve_optional_again:
  assumes "vault_holds P pass d M" and "resolved M r t"
  shows "resolve_optional P path pass rd r d = (Ok t, d)"
proof (cases r)
  case None
  with assms(2) show ?thesis by (simp add: resolve_optional_def resolved_def)
next
  case (Some r')
  with assms(2) obtain v where "t = Some v" "M (vault_name r') = Some v" by (auto simp: resolved_def)
  with Some resolve_role_token_again [OF assms(1) this(2)] show ?thesis by (simp add: resolve_optional_def)
qed

lemma resolve_optional_holds:
  assumes "vault_holds P pass d M" and "token_drawn rd"
  obtains t d' M' where "resolve_optional P path pass rd r d = (Ok t, d')" and "vault_holds P pass d' M'"
    and "M \<subseteq>\<^sub>m M'" and "resolved M' r t"
proof (cases r)
  case None
  with assms(1) show ?thesis by (intro that [of None d M]) (auto simp: resolve_optional_def resolved_def)
next
  case (Some r')
  from resolve_role_token_holds [OF assms] obtain t d' M' where
    "resolve_role_token P path pass rd r' d = (Ok t, d')" "vault_holds P pass d' M'" "M \<subseteq>\<^sub>m M'" "M' (vault_name r') = Some t" by metis
  with Some show ?thesis by (intro that [of "Some t" d' M']) (auto simp: resolve_optional_def resolved_def)
qed

lemma resolved_mono: "resolved M r t \<Longrightarrow> M \<subseteq>\<^sub>m M' \<Longrightarrow> resolved M' r t"
  by (auto simp: resolved_def map_le_def split: option.splits)

definition all_drawn :: "token_draws \<Rightarrow> bool" where
  "all_drawn td \<longleftrightarrow> token_drawn (td_admin td) \<and> token_drawn (td_operator td) \<and> token_drawn (td_viewer td)"

text \<open>The tokens are those that the vault holds under their names.\<close>

definition tokens_held :: "(string \<rightharpoonup> string) \<Rightarrow> server_section \<Rightarrow> token_set \<Rightarrow> bool" where
  "tokens_held M s ts \<longleftrightarrow> M (vault_name (sv_token_ref s)) = Some (tk_admin ts)
     \<and> resolved M (sv_operator_token_ref s) (tk_operator ts) \<and> resolved M (sv_viewer_token_ref s) (tk_viewer ts)"

lemma resolve_tokens_holds:
  assumes "vault_holds P pass d M" and "all_drawn td"
  obtains ts d' M' where "resolve_tokens P path pass td s d = (Ok ts, d')" and "vault_holds P pass d' M'"
    and "M \<subseteq>\<^sub>m M'" and "tokens_held M' s ts"
proof -
  from assms(2) have td: "token_drawn (td_admin td)" "token_drawn (td_operator td)" "token_drawn (td_viewer td)"
    by (simp_all add: all_drawn_def)
  from resolve_role_token_holds [OF assms(1) td(1)] obtain a d1 M1 where
    1: "resolve_role_token P path pass (td_admin td) (sv_token_ref s) d = (Ok a, d1)" "vault_holds P pass d1 M1" "M \<subseteq>\<^sub>m M1"
      "M1 (vault_name (sv_token_ref s)) = Some a" by metis
  from resolve_optional_holds [OF 1(2) td(2)] obtain t2 d2 M2 where
    2: "resolve_optional P path pass (td_operator td) (sv_operator_token_ref s) d1 = (Ok t2, d2)" "vault_holds P pass d2 M2"
      "M1 \<subseteq>\<^sub>m M2" "resolved M2 (sv_operator_token_ref s) t2" by metis
  from resolve_optional_holds [OF 2(2) td(3)] obtain t3 d3 M3 where
    3: "resolve_optional P path pass (td_viewer td) (sv_viewer_token_ref s) d2 = (Ok t3, d3)" "vault_holds P pass d3 M3"
      "M2 \<subseteq>\<^sub>m M3" "resolved M3 (sv_viewer_token_ref s) t3" by metis
  from 1(3) 2(3) 3(3) have le: "M \<subseteq>\<^sub>m M3" "M1 \<subseteq>\<^sub>m M3" by (metis map_le_trans)+
  from le(2) 1(4) have "M3 (vault_name (sv_token_ref s)) = Some a" unfolding map_le_def by (metis domI)
  with resolved_mono [OF 2(4) 3(3)] 3(4)
  have "tokens_held M3 s \<lparr>tk_admin = a, tk_operator = t2, tk_viewer = t3\<rparr>" by (simp add: tokens_held_def)
  with 1 2 3 le show ?thesis
    by (intro that [of "\<lparr>tk_admin = a, tk_operator = t2, tk_viewer = t3\<rparr>" d3 M3]) (auto simp: resolve_tokens_def)
qed

lemma resolve_tokens_again:
  assumes "vault_holds P pass d M" and "tokens_held M s ts"
  shows "resolve_tokens P path pass td s d = (Ok ts, d)"
proof -
  from assms(2) have "resolve_role_token P path pass (td_admin td) (sv_token_ref s) d = (Ok (tk_admin ts), d)"
    "resolve_optional P path pass (td_operator td) (sv_operator_token_ref s) d = (Ok (tk_operator ts), d)"
    "resolve_optional P path pass (td_viewer td) (sv_viewer_token_ref s) d = (Ok (tk_viewer ts), d)"
    using resolve_role_token_again [OF assms(1)] resolve_optional_again [OF assms(1)] by (simp_all add: tokens_held_def)
  then show ?thesis by (simp add: resolve_tokens_def)
qed

text \<open>
  C19. Tokens survive a restart. Resolve the role tokens against a vault that opens, whether it
  holds them or not, with draws that go through: they are found or made and then held under
  their names, no secret that the vault had changes, and every later start, whatever the
  generator would give it and whatever its writes would do, finds the same tokens and writes
  nothing.
\<close>

theorem tokens_survive_a_restart:
  assumes "vault_holds P pass d M" and "all_drawn td"
  shows "\<exists>ts d'. resolve_tokens P path pass td s d = (Ok ts, d')
    \<and> (\<forall>td'. resolve_tokens P path pass td' s d' = (Ok ts, d'))
    \<and> (\<forall>n \<in> dom M. vault_get P pass d' n = Ok (M n))
    \<and> vault_get P pass d' (vault_name (sv_token_ref s)) = Ok (Some (tk_admin ts))"
proof -
  from resolve_tokens_holds [OF assms] obtain ts d' M' where
    ts: "resolve_tokens P path pass td s d = (Ok ts, d')" "vault_holds P pass d' M'" "M \<subseteq>\<^sub>m M'" "tokens_held M' s ts" by metis
  moreover have "vault_get P pass d' n = Ok (M n)" if "n \<in> dom M" for n
    using vault_reads(1) [OF ts(2), of n] ts(3) that by (simp add: map_le_def)
  moreover have "vault_get P pass d' (vault_name (sv_token_ref s)) = Ok (Some (tk_admin ts))"
    using vault_reads(1) [OF ts(2)] ts(4) by (simp add: tokens_held_def)
  ultimately show ?thesis using resolve_tokens_again [OF ts(2,4)] by blast
qed

definition demo_draw :: "u8 \<Rightarrow> draw" where
  "demo_draw b = \<lparr>dr_salt = replicate 16 b, dr_nonce = replicate 24 b, dr_write = Written\<rparr>"

definition demo_draws :: token_draws where
  "demo_draws = \<lparr>td_admin = (Ok (replicate 32 1), demo_draw 1), td_operator = (Ok (replicate 32 2), demo_draw 2),
     td_viewer = (Ok (replicate 32 3), demo_draw 3)\<rparr>"

lemma demo_drawn: "drawn (demo_draw b)" "all_drawn demo_draws"
  by (simp_all add: drawn_def demo_draw_def all_drawn_def token_drawn_def demo_draws_def)

lemma empty_vault_holds: "vault_holds plain_packages pass NoFile Map.empty"
  by (simp add: vault_holds_def plain_packages_ok load_map_def)

theorem tokens_survive_a_restart_witness:
  "\<exists>ts d'. resolve_tokens plain_packages [] [] demo_draws (server_default\<lparr>sv_operator_token_ref := Some ''vault:op''\<rparr>) NoFile = (Ok ts, d')
     \<and> resolve_tokens plain_packages [] []
         (demo_draws\<lparr>td_admin := (Err [], \<lparr>dr_salt = [], dr_nonce = [], dr_write = WriteFailed [] NoFile\<rparr>)\<rparr>)
         (server_default\<lparr>sv_operator_token_ref := Some ''vault:op''\<rparr>) d' = (Ok ts, d')"
  using tokens_survive_a_restart [OF empty_vault_holds demo_drawn(2), of "[]" "[]"
    "server_default\<lparr>sv_operator_token_ref := Some ''vault:op''\<rparr>"] by blast

text \<open>
  Two roles under one name. Nothing refuses a configuration whose operator reference names the
  secret of the administrator; then the operator's token is the administrator's, and the server
  takes its bearer for one.
\<close>

theorem shared_reference_makes_operators_admins:
  assumes "vault_holds P pass d M" and "all_drawn td"
    and "sv_operator_token_ref s = Some r" and "vault_name r = vault_name (sv_token_ref s)"
  shows "\<exists>ts d'. resolve_tokens P path pass td s d = (Ok ts, d')
    \<and> tk_operator ts = Some (tk_admin ts) \<and> role_for ts (the (tk_operator ts)) = Some Admin"
proof -
  from resolve_tokens_holds [OF assms(1,2)] obtain ts d' M' where
    "resolve_tokens P path pass td s d = (Ok ts, d')" "tokens_held M' s ts" by metis
  with assms(3,4) show ?thesis by (auto simp: tokens_held_def resolved_def role_for_def)
qed

theorem shared_reference_makes_operators_admins_witness:
  "\<exists>ts d'. server_validate demo_env (server_default\<lparr>sv_operator_token_ref := Some ''vault:api_token''\<rparr>) = Ok ()
     \<and> resolve_tokens plain_packages [] [] demo_draws (server_default\<lparr>sv_operator_token_ref := Some ''vault:api_token''\<rparr>) NoFile = (Ok ts, d')
     \<and> role_for ts (the (tk_operator ts)) = Some Admin"
proof -
  have "server_validate demo_env (server_default\<lparr>sv_operator_token_ref := Some ''vault:api_token''\<rparr>) = Ok ()"
    unfolding server_validate_Ok
    by (simp add: valid_server_def server_default_def demo_env_def is_loopback_def is_vault_ref_def starts_with_def)
  moreover have "vault_name ''vault:api_token''
    = vault_name (sv_token_ref (server_default\<lparr>sv_operator_token_ref := Some ''vault:api_token''\<rparr>))"
    by (simp add: server_default_def)
  ultimately show ?thesis
    using shared_reference_makes_operators_admins [OF empty_vault_holds demo_drawn(2), of
      "server_default\<lparr>sv_operator_token_ref := Some ''vault:api_token''\<rparr>" "''vault:api_token''" "[]" "[]"] by simp blast
qed

section \<open>A posted configuration takes effect\<close>

text \<open>The temporary file is never the file itself, whatever the name.\<close>

lemma temporary_differs: "with_extension ''toml.tmp'' p \<noteq> p"
proof
  assume "with_extension ''toml.tmp'' p = p"
  then have name: "snd p = file_stem (snd p) @ ''.toml.tmp''" by (cases p) (simp add: with_extension_def)
  have "file_stem (x @ ''.toml.tmp'') = x @ ''.toml''" for x by (simp add: file_stem_def Let_def)
  from this [of "file_stem (snd p)"] name show False by simp
qed

text \<open>What a write of the file leaves: the new text, or the old one and a message.\<close>

lemma config_write_cases:
  obtains fs' where "config_write io p toml fs = (None, fs')" and "fs' p = Some toml"
  | e fs' where "config_write io p toml fs = (Some e, fs')" and "fs' p = fs p"
  using temporary_differs [of p]
  by (cases "ci_write io"; cases "ci_rename io") (auto simp: config_write_def Let_def)

lemma reloader_reads:
  assumes "fs p = Some toml" and "tp_from_toml T toml = Ok c" and "valid_config (tp_env T) c"
  shows "reloader T p fs = Ok (reloaded_from c)"
  using assms by (simp add: reloader_def load_def read_to_string_def validate_iff [symmetric])

lemma validate_posted_Ok: "validate_posted T c = Ok u \<longleftrightarrow> valid_config (tp_env T) c"
  using validate_iff [of "tp_env T" c] by (auto simp: validate_posted_def split: sum.splits)

text \<open>The control after a reload, against that of a server started with the same configuration.\<close>

definition as_restarted :: "control \<Rightarrow> control \<Rightarrow> control" where
  "as_restarted old fresh = (if kill_switch old then set_kill True fresh else fresh)\<lparr>ct_mode := ct_mode old\<rparr>"

lemma reload_control_restarted:
  "reload_control (reloaded_from c) old = as_restarted old (sv_control (serve_state now ts c db toml))"
  by (simp add: reload_control_def as_restarted_def reloaded_from_def serve_state_def app_state_new_def with_reloader_def
      with_live_preflight_def with_dex_simulator_def with_reconciler_def with_config_store_def set_kill_def Let_def)



definition demo_toml :: toml_packages where
  "demo_toml = \<lparr>tp_from_toml = \<lambda>_. Ok demo_config, tp_names = \<lambda>_. [], tp_env = demo_env\<rparr>"

definition demo_io :: config_io where
  "demo_io = \<lparr>ci_write = None, ci_partial = None, ci_rename = None\<rparr>"

definition demo_served :: app_state where
  "demo_served = serve_state 0 (admin_only ''secret'') demo_config None ''old''"


section \<open>Starting\<close>




section \<open>Secrets through a pipe\<close>

lemma mark_not_completed: "\<not> starts_with v byte_order_mark \<Longrightarrow> \<not> starts_with (v @ [newline_char]) byte_order_mark"
proof (cases v)
  case (Cons a w)
  then show "\<not> starts_with v byte_order_mark \<Longrightarrow> ?thesis"
    by (cases w; cases "tl w") (auto simp: starts_with_def byte_order_mark_def newline_char_def)
qed (simp add: starts_with_def byte_order_mark_def newline_char_def)

lemma printed_reads_back:
  assumes "\<not> starts_with (secret_value x) byte_order_mark"
  shows "secret_value (secret_value x @ [newline_char]) = secret_value x"
proof -
  let ?v = "secret_value x" and ?eol = "\<lambda>c. c = CHR 0x0A \<or> c = CHR 0x0D"
  from mark_not_completed [OF assms] have "\<not> starts_with (?v @ [newline_char]) byte_order_mark" .
  then have "strip_prefix byte_order_mark (?v @ [newline_char]) = None"
    by (simp add: strip_prefix_def starts_with_def)
  moreover have "dropWhile ?eol (rev ?v) = rev ?v" by (simp add: secret_value_def)
  ultimately show ?thesis unfolding secret_value_def [of "?v @ [newline_char]"] by (simp add: newline_char_def)
qed

lemma secrets_set_holds:
  assumes "open_vault env = Ok (path, pass)" and "vault_holds P pass (vs path) M" and "drawn dr" and "secret_value x \<noteq> []"
  obtains d where "secrets_run P env [''set'', n] (Ok x) dr vs = (Succeeds [], vs(path := d))"
    and "vault_holds P pass d (M(n \<mapsto> secret_value x))"
proof -
  from drawn_set [OF assms(2,3)] obtain d where
    "vault_set P pass (dr_salt dr) (dr_nonce dr) (dr_write dr) (vs path) n (secret_value x) = (Ok (), d)"
    "vault_holds P pass d (M(n \<mapsto> secret_value x))" by metis
  with assms(1,4) show ?thesis by (intro that) (auto simp: secrets_run_def Let_def)
qed

lemma secrets_get_prints:
  assumes "open_vault env = Ok (path, pass)" and "vault_holds P pass (vs path) M" and "M n = Some v"
  shows "secrets_run P env [''get'', n] stdin dr vs = (Succeeds (v @ [newline_char]), vs)"
  using assms vault_reads(1) [OF assms(2), of n] by (simp add: secrets_run_def Let_def)

text \<open>
  Secrets go through a pipe. What is stored is the text on standard input less a mark at its
  front and the line ends at its back; printing it and piping what is printed into another
  secret stores the same text, so that secrets can be copied, as long as the value does not
  itself begin with the mark.
\<close>

theorem secret_survives_the_pipe:
  assumes "env passphrase_env = Some pass"
    and "vault_holds P (map of_char pass) (vs (unwrap_or default_vault (env ''SHERWOOD_VAULT_PATH''))) M"
    and "drawn dr" and "drawn dr'" and "secret_value x \<noteq> []" and "\<not> starts_with (secret_value x) byte_order_mark"
  shows "\<exists>vs1 vs2. secrets_run P env [''set'', n] (Ok x) dr vs = (Succeeds [], vs1)
    \<and> secrets_run P env [''get'', n] (Err []) dr vs1 = (Succeeds (secret_value x @ [newline_char]), vs1)
    \<and> secrets_run P env [''set'', m] (Ok (secret_value x @ [newline_char])) dr' vs1 = (Succeeds [], vs2)
    \<and> secrets_run P env [''get'', m] (Err []) dr vs2 = (Succeeds (secret_value x @ [newline_char]), vs2)"
proof -
  let ?path = "unwrap_or default_vault (env ''SHERWOOD_VAULT_PATH'')" and ?pass = "map of_char pass"
  have opened: "open_vault env = Ok (?path, ?pass)" using assms(1) by (simp add: open_vault_def)
  from secrets_set_holds [where n = n, OF opened _ assms(3,5)] assms(2) obtain d1 where
    1: "secrets_run P env [''set'', n] (Ok x) dr vs = (Succeeds [], vs(?path := d1))"
      "vault_holds P ?pass d1 (M(n \<mapsto> secret_value x))" by metis
  have h1: "vault_holds P ?pass ((vs(?path := d1)) ?path) (M(n \<mapsto> secret_value x))" using 1(2) by simp
  have "secret_value (secret_value x @ [newline_char]) \<noteq> []" using printed_reads_back [OF assms(6)] assms(5) by simp
  from secrets_set_holds [where n = m and vs = "vs(?path := d1)", OF opened h1 assms(4) this] obtain d2 where
    2: "secrets_run P env [''set'', m] (Ok (secret_value x @ [newline_char])) dr' (vs(?path := d1))
        = (Succeeds [], vs(?path := d1, ?path := d2))"
      "vault_holds P ?pass d2 (M(n \<mapsto> secret_value x, m \<mapsto> secret_value x))"
    using printed_reads_back [OF assms(6)] by metis
  have h2: "vault_holds P ?pass ((vs(?path := d1, ?path := d2)) ?path) (M(n \<mapsto> secret_value x, m \<mapsto> secret_value x))"
    using 2(2) by simp
  from 1(1) 2(1) secrets_get_prints [where vs = "vs(?path := d1)" and n = n and v = "secret_value x", OF opened h1]
    secrets_get_prints [where vs = "vs(?path := d1, ?path := d2)" and n = m and v = "secret_value x", OF opened h2]
  show ?thesis by simp
qed

theorem secret_survives_the_pipe_witness:
  "\<exists>vs1 vs2. secrets_run plain_packages [passphrase_env \<mapsto> ''pw''] [''set'', ''a''] (Ok (byte_order_mark @ ''key'' @ [CHR 0x0D, CHR 0x0A]))
       (demo_draw 1) (\<lambda>_. NoFile) = (Succeeds [], vs1)
     \<and> secrets_run plain_packages [passphrase_env \<mapsto> ''pw''] [''set'', ''b''] (Ok (''key'' @ [newline_char])) (demo_draw 2) vs1 = (Succeeds [], vs2)
     \<and> secrets_run plain_packages [passphrase_env \<mapsto> ''pw''] [''get'', ''b''] (Err []) (demo_draw 1) vs2 = (Succeeds (''key'' @ [newline_char]), vs2)"
proof -
  have key: "secret_value (byte_order_mark @ ''key'' @ [CHR 0x0D, CHR 0x0A]) = ''key''"
    by (simp add: secret_value_def strip_prefix_def starts_with_def byte_order_mark_def)
  have "\<not> starts_with ''key'' byte_order_mark" by (simp add: starts_with_def byte_order_mark_def)
  then show ?thesis
    using secret_survives_the_pipe [of "[passphrase_env \<mapsto> ''pw'']" "''pw''" plain_packages "\<lambda>_. NoFile" Map.empty "demo_draw 1" "demo_draw 2"
        "byte_order_mark @ ''key'' @ [CHR 0x0D, CHR 0x0A]" "''a''" "''b''"] key empty_vault_holds demo_drawn(1)
    by auto
qed

end
