(* ===== verification/Rlp.thy ===== *)
theory Rlp
  imports Bytes
begin

text \<open>
  The RLP encoder of \<open>crates/signer/src/rlp.rs\<close>, and a reader of RLP to compare it with:
  the strict one of the Ethereum specification, which takes the shortest form only.
\<close>

section \<open>The encoder\<close>

definition minimal_be :: "u128 \<Rightarrow> bytes" where
  "minimal_be v = (let be = u128_be v in
     drop (unwrap_or (length be - 1) (position_of (\<lambda>b. b \<noteq> 0) be)) be)"

definition length_prefix :: "u8 \<Rightarrow> u8 \<Rightarrow> nat \<Rightarrow> bytes" where
  "length_prefix short_base long_base len =
     (if len \<le> 55 then [short_base + of_nat len]
      else (let len_bytes = minimal_be (of_nat len)
        in (long_base + of_nat (length len_bytes)) # len_bytes))"

definition encode_bytes :: "bytes \<Rightarrow> bytes" where
  "encode_bytes data =
     (if length data = 1 \<and> hd data < 0x80 then [hd data]
      else length_prefix 0x80 0xb7 (length data) @ data)"

definition encode_list :: "bytes list \<Rightarrow> bytes" where
  "encode_list items = length_prefix 0xc0 0xf7 (sum_list (map length items)) @ concat items"

definition encode_uint :: "u128 \<Rightarrow> bytes" where
  "encode_uint v =
     (if v = 0 then encode_bytes []
      else (let be = u128_be v in
        encode_bytes (drop (unwrap_or (length be - 1) (position_of (\<lambda>b. b \<noteq> 0) be)) be)))"

section \<open>The reader\<close>

text \<open>
  The first item of a byte string: whether it is a list, its content, and what follows. A
  form that is longer than needed is not read.
\<close>

definition rlp_body :: "bool \<Rightarrow> nat \<Rightarrow> bytes \<Rightarrow> (bool \<times> bytes \<times> bytes) option" where
  "rlp_body is_list n rest = do { (body, rest') \<leftarrow> split_at n rest; Some (is_list, body, rest') }"

definition rlp_long :: "bool \<Rightarrow> nat \<Rightarrow> bytes \<Rightarrow> (bool \<times> bytes \<times> bytes) option" where
  "rlp_long is_list k rest = do {
     (len_bytes, rest') \<leftarrow> split_at k rest;
     (if hd len_bytes = 0 \<or> from_be len_bytes \<le> 55 then None
      else rlp_body is_list (from_be len_bytes) rest') }"

definition rlp_head :: "bytes \<Rightarrow> (bool \<times> bytes \<times> bytes) option" where
  "rlp_head bs = (case bs of
       [] \<Rightarrow> None
     | b # rest \<Rightarrow> (let n = unat b in
         if n < 0x80 then Some (False, [b], rest)
         else if n \<le> 0xb7 then do {
           (l, body, rest') \<leftarrow> rlp_body False (n - 0x80) rest;
           (if length body = 1 \<and> hd body < 0x80 then None else Some (l, body, rest')) }
         else if n < 0xc0 then rlp_long False (n - 0xb7) rest
         else if n \<le> 0xf7 then rlp_body True (n - 0xc0) rest
         else rlp_long True (n - 0xf7) rest))"

text \<open>An integer is its bytes without leading zeros.\<close>

definition rlp_uint :: "bytes \<Rightarrow> nat option" where
  "rlp_uint bs = (if bs \<noteq> [] \<and> hd bs = 0 then None else Some (from_be bs))"

definition read_bytes :: "bytes \<Rightarrow> (bytes \<times> bytes) option" where
  "read_bytes bs = do { (l, body, rest) \<leftarrow> rlp_head bs; (if l then None else Some (body, rest)) }"

definition read_uint :: "bytes \<Rightarrow> (nat \<times> bytes) option" where
  "read_uint bs = do { (body, rest) \<leftarrow> read_bytes bs; n \<leftarrow> rlp_uint body; Some (n, rest) }"

definition read_list :: "bytes \<Rightarrow> (bytes \<times> bytes) option" where
  "read_list bs = do { (l, body, rest) \<leftarrow> rlp_head bs; (if l then Some (body, rest) else None) }"

section \<open>Minimal big-endian forms\<close>

lemma drop_position:
  assumes "bs \<noteq> []" and "from_be bs \<noteq> 0"
  defines "m \<equiv> drop (unwrap_or (length bs - 1) (position_of (\<lambda>b. b \<noteq> 0) bs)) bs"
  shows "m \<noteq> []" and "hd m \<noteq> 0" and "from_be m = from_be bs" and "length m \<le> length bs"
proof -
  from assms(2) have "\<not> (\<forall>b \<in> set bs. b = 0)" by (simp add: from_be_zero)
  then obtain i where i: "position_of (\<lambda>b. b \<noteq> 0) bs = Some i"
    using position_of_None [of "\<lambda>b. b \<noteq> 0" bs] by (cases "position_of (\<lambda>b. b \<noteq> 0) bs") auto
  then have at: "i < length bs" "bs ! i \<noteq> 0" "\<And>j. j < i \<Longrightarrow> bs ! j = 0"
    by (auto simp: position_of_Some)
  have m: "m = drop i bs" by (simp add: m_def i)
  show "m \<noteq> []" "hd m \<noteq> 0" "length m \<le> length bs" using at by (simp_all add: m hd_drop_conv_nth)
  have "take i bs = replicate i 0" using at by (intro nth_equalityI) auto
  then have "bs = replicate i 0 @ m" by (metis append_take_drop_id m)
  then show "from_be m = from_be bs" by (metis add_0 from_be_append from_be_zeros mult_zero_left)
qed

lemma unat_eq_zero_u128: "unat (v :: u128) = 0 \<longleftrightarrow> v = 0"
  by (simp add: unat_eq_0)

lemma minimal_be_facts:
  assumes "v \<noteq> 0"
  shows "minimal_be v \<noteq> []" and "hd (minimal_be v) \<noteq> 0" and "from_be (minimal_be v) = unat v"
    and "length (minimal_be v) \<le> 16"
proof -
  have nz: "u128_be v \<noteq> []" "from_be (u128_be v) \<noteq> 0"
    using assms length_u128_be [of v] by (force, simp add: unat_eq_0)
  from drop_position [OF nz] show "minimal_be v \<noteq> []" "hd (minimal_be v) \<noteq> 0"
    "from_be (minimal_be v) = unat v" "length (minimal_be v) \<le> 16"
    by (simp_all add: minimal_be_def Let_def)
qed

lemma from_be_length_le:
  assumes "bs \<noteq> []" "hd bs \<noteq> 0" "from_be bs < 256 ^ n"
  shows "length bs \<le> n"
proof (rule ccontr)
  assume "\<not> length bs \<le> n"
  with assms(1) obtain b cs where bs: "bs = b # cs" and "n \<le> length cs" by (cases bs) auto
  have "0 < unat b" using assms(2) bs by (simp add: unat_gt_0)
  then have "256 ^ length cs \<le> from_be bs"
    by (simp add: bs from_be_Cons) (metis le_add1 mult_1 mult_le_mono1 order_trans Suc_leI One_nat_def)
  moreover have "(256 :: nat) ^ n \<le> 256 ^ length cs" using \<open>n \<le> length cs\<close> by (intro power_increasing) simp_all
  ultimately show False using assms(3) by linarith
qed

section \<open>Reading back one item\<close>

lemma unat_add_byte: "unat b + k < 256 \<Longrightarrow> unat (b + of_nat k :: u8) = unat b + k"
  by (simp add: unat_word_ariths unat_of_nat)

lemma rlp_body_append: "length body = n \<Longrightarrow> rlp_body l n (body @ rest) = Some (l, body, rest)"
  by (simp add: rlp_body_def)

text \<open>The prefix of a long form: the length in as few bytes as it takes, at most eight.\<close>

lemma long_length:
  assumes "55 < len" and "len < 2 ^ 64"
  shows "minimal_be (of_nat len) \<noteq> []" and "hd (minimal_be (of_nat len)) \<noteq> 0"
    and "from_be (minimal_be (of_nat len)) = len" and "length (minimal_be (of_nat len)) \<le> 8"
proof -
  have u: "unat (of_nat len :: u128) = len" using assms(2) by (simp add: unat_of_nat)
  with assms(1) have nz: "(of_nat len :: u128) \<noteq> 0" by (metis less_nat_zero_code unat_0)
  note f = minimal_be_facts [OF nz]
  show "minimal_be (of_nat len) \<noteq> []" "hd (minimal_be (of_nat len)) \<noteq> 0"
    "from_be (minimal_be (of_nat len)) = len" using f(1-3) u by simp_all
  show "length (minimal_be (of_nat len)) \<le> 8"
    by (rule from_be_length_le [OF f(1,2)]) (use f(3) u assms(2) in simp)
qed

lemma rlp_long_append:
  assumes "55 < len" and "len < 2 ^ 64" and "length body = len"
  shows "rlp_long l (length (minimal_be (of_nat len))) (minimal_be (of_nat len) @ body @ rest)
    = Some (l, body, rest)"
  using long_length [OF assms(1,2)] assms by (simp add: rlp_long_def rlp_body_append)

lemma rlp_head_bytes:
  assumes "length d < 2 ^ 64"
  shows "rlp_head (encode_bytes d @ rest) = Some (False, d, rest)"
proof (cases "length d = 1 \<and> hd d < 0x80")
  case True
  then obtain b where "d = [b]" by (cases d) auto
  with True show ?thesis by (simp add: encode_bytes_def rlp_head_def word_less_nat_alt)
next
  case single: False
  show ?thesis
  proof (cases "length d \<le> 55")
    case True
    then have u: "unat (0x80 + of_nat (length d) :: u8) = 0x80 + length d"
      using unat_add_byte [of "0x80" "length d"] by simp
    have "encode_bytes d @ rest = (0x80 + of_nat (length d)) # d @ rest"
      using single True by (auto simp: encode_bytes_def length_prefix_def)
    with single True u show ?thesis by (simp add: rlp_head_def Let_def rlp_body_append)
  next
    case False
    then have len: "55 < length d" by simp
    let ?lb = "minimal_be (of_nat (length d))"
    have k: "0 < length ?lb" "length ?lb \<le> 8" using long_length [OF len assms] by simp_all
    then have u: "unat (0xb7 + of_nat (length ?lb) :: u8) = 0xb7 + length ?lb"
      using unat_add_byte [of "0xb7" "length ?lb"] by simp
    have "encode_bytes d @ rest = (0xb7 + of_nat (length ?lb)) # ?lb @ d @ rest"
      using single False by (auto simp: encode_bytes_def length_prefix_def Let_def)
    with k u rlp_long_append [OF len assms refl, of False rest] show ?thesis
      by (simp add: rlp_head_def Let_def)
  qed
qed

lemma rlp_head_list:
  assumes "length (concat items) < 2 ^ 64"
  shows "rlp_head (encode_list items @ rest) = Some (True, concat items, rest)"
proof -
  let ?n = "length (concat items)"
  have sum: "sum_list (map length items) = ?n" by (simp add: length_concat)
  show ?thesis
  proof (cases "?n \<le> 55")
    case True
    then have u: "unat (0xc0 + of_nat ?n :: u8) = 0xc0 + ?n"
      using unat_add_byte [of "0xc0" ?n] by simp
    have "encode_list items @ rest = (0xc0 + of_nat ?n) # concat items @ rest"
      using True by (simp add: encode_list_def length_prefix_def sum)
    with True u show ?thesis by (simp add: rlp_head_def Let_def rlp_body_append)
  next
    case False
    then have len: "55 < ?n" by simp
    let ?lb = "minimal_be (of_nat ?n)"
    have k: "0 < length ?lb" "length ?lb \<le> 8" using long_length [OF len assms] by simp_all
    then have u: "unat (0xf7 + of_nat (length ?lb) :: u8) = 0xf7 + length ?lb"
      using unat_add_byte [of "0xf7" "length ?lb"] by simp
    have "encode_list items @ rest = (0xf7 + of_nat (length ?lb)) # ?lb @ concat items @ rest"
      using False by (simp add: encode_list_def length_prefix_def sum Let_def)
    with k u rlp_long_append [OF len assms refl, of True rest] show ?thesis
      by (simp add: rlp_head_def Let_def)
  qed
qed

lemma read_bytes_encode [simp]: "length d < 2 ^ 64 \<Longrightarrow> read_bytes (encode_bytes d @ rest) = Some (d, rest)"
  by (simp add: read_bytes_def rlp_head_bytes)

lemma read_list_encode [simp]:
  "length (concat items) < 2 ^ 64 \<Longrightarrow> read_list (encode_list items @ rest) = Some (concat items, rest)"
  by (simp add: read_list_def rlp_head_list)

lemma encode_uint_minimal: "encode_uint v = encode_bytes (if v = 0 then [] else minimal_be v)"
  by (simp add: encode_uint_def minimal_be_def Let_def)

lemma read_uint_encode [simp]: "read_uint (encode_uint v @ rest) = Some (unat v, rest)"
proof (cases "v = 0")
  case True
  then show ?thesis by (simp add: read_uint_def encode_uint_minimal rlp_uint_def)
next
  case False
  note f = minimal_be_facts [OF False]
  then have "length (minimal_be v) < 2 ^ 64" by simp
  with False f show ?thesis by (simp add: read_uint_def encode_uint_minimal rlp_uint_def)
qed

text \<open>A string of bytes taken for an integer reads only when it has no leading zero.\<close>

lemma read_uint_bytes:
  "length d < 2 ^ 64 \<Longrightarrow>
     read_uint (encode_bytes d @ rest) = (if d \<noteq> [] \<and> hd d = 0 then None else Some (from_be d, rest))"
  by (simp add: read_uint_def rlp_uint_def)

lemma length_length_prefix: "length (length_prefix s_base l_base n) \<le> 17"
proof (cases "(of_nat n :: u128) = 0")
  case True
  have "length (minimal_be 0) \<le> 16" by (simp add: minimal_be_def Let_def)
  with True show ?thesis by (simp add: length_prefix_def Let_def)
next
  case False
  then show ?thesis using minimal_be_facts(4) [OF False] by (simp add: length_prefix_def Let_def)
qed

lemma length_encode_bytes: "length (encode_bytes d) \<le> length d + 17"
  using length_length_prefix [where n = "length d" and s_base = "0x80" and l_base = "0xb7"] by (simp add: encode_bytes_def)

lemma length_encode_uint: "length (encode_uint v) \<le> 33"
proof (cases "v = 0")
  case True
  then show ?thesis using length_encode_bytes [of "[]"] by (simp add: encode_uint_minimal)
next
  case False
  then show ?thesis
    using length_encode_bytes [of "minimal_be v"] minimal_be_facts(4) [OF False]
    by (simp add: encode_uint_minimal)
qed

end
