(* ===== verification/Signer.thy ===== *)
theory Signer
  imports Rlp Text_Ops Decimal
begin

text \<open>
  The EIP-1559 transaction of \<open>crates/signer/src/eip1559.rs\<close> and the key holder of
  \<open>crates/signer/src/lib.rs\<close>. The curve and the hash are packages: keys, signatures, their
  operations and Keccak are arguments. The transactions are read back with the strict RLP
  reader, which is how a node reads them.
\<close>

section \<open>The transaction\<close>

record eip1559_tx =
  tx_chain_id :: u64
  tx_nonce :: u64
  tx_max_priority_fee_per_gas :: u128
  tx_max_fee_per_gas :: u128
  tx_gas_limit :: u64
  tx_to :: bytes          \<comment> \<open>20 bytes\<close>
  tx_value :: u128
  tx_data :: bytes

definition unsigned_fields :: "eip1559_tx \<Rightarrow> bytes list" where
  "unsigned_fields tx = [
     encode_uint (ucast (tx_chain_id tx)),
     encode_uint (ucast (tx_nonce tx)),
     encode_uint (tx_max_priority_fee_per_gas tx),
     encode_uint (tx_max_fee_per_gas tx),
     encode_uint (ucast (tx_gas_limit tx)),
     encode_bytes (tx_to tx),
     encode_uint (tx_value tx),
     encode_bytes (tx_data tx),
     encode_list []]"

definition signing_payload :: "eip1559_tx \<Rightarrow> bytes" where
  "signing_payload tx = 0x02 # encode_list (unsigned_fields tx)"

text \<open>\<open>r\<close> and \<open>s\<close> are 32 bytes each.\<close>

definition into_raw_signed :: "eip1559_tx \<Rightarrow> u8 \<Rightarrow> bytes \<Rightarrow> bytes \<Rightarrow> bytes" where
  "into_raw_signed tx y_parity r s =
     0x02 # encode_list (unsigned_fields tx @ [encode_uint (ucast y_parity), encode_bytes r, encode_bytes s])"

section \<open>Signing\<close>

text \<open>A recovery id says whether the point's y is odd and its x was reduced.\<close>

record recovery_id =
  ri_y_odd :: bool
  ri_x_reduced :: bool

definition recovery_byte :: "recovery_id \<Rightarrow> u8" where
  "recovery_byte i = (if ri_x_reduced i then 2 else 0) + (if ri_y_odd i then 1 else 0)"

record ('key, 'sig) ecdsa =
  ec_from_slice :: "bytes \<Rightarrow> message + 'key"
  ec_public :: "'key \<Rightarrow> bytes"                        \<comment> \<open>the uncompressed point, 65 bytes\<close>
  ec_sign_prehash :: "'key \<Rightarrow> bytes \<Rightarrow> message + 'sig \<times> recovery_id"
  ec_normalize_s :: "'sig \<Rightarrow> 'sig option"
  ec_r :: "'sig \<Rightarrow> bytes"
  ec_s :: "'sig \<Rightarrow> bytes"

datatype signer_error = KeyError message | SignError message

definition address_from_verifying_key :: "(bytes \<Rightarrow> bytes) \<Rightarrow> bytes \<Rightarrow> bytes" where
  "address_from_verifying_key keccak point = take 20 (drop 12 (keccak (drop 1 point)))"

definition signer_address_hex :: "(bytes \<Rightarrow> string) \<Rightarrow> bytes \<Rightarrow> string" where
  "signer_address_hex to_lower_hex addr = ''0x'' @ to_lower_hex addr"

record 'key local_signer =
  ls_key :: 'key
  ls_address :: bytes

definition signer_from_hex ::
    "('key, 'sig) ecdsa \<Rightarrow> (bytes \<Rightarrow> bytes) \<Rightarrow> (string \<Rightarrow> message + bytes) \<Rightarrow> string
      \<Rightarrow> signer_error + 'key local_signer"
where
  "signer_from_hex E keccak hex_decode secret =
     (let raw = trim secret; raw = unwrap_or raw (strip_prefix ''0x'' raw) in
      case hex_decode raw of
        Inl e \<Rightarrow> Err (KeyError (Lit ''not valid hex: '' # e))
      | Inr bs \<Rightarrow>
          if length bs \<noteq> 32
          then Err (KeyError [Lit ''expected a 32-byte key, got '', ShowInt (int (length bs)), Lit '' bytes''])
          else (case ec_from_slice E bs of
            Inl e \<Rightarrow> Err (KeyError (Lit ''invalid secp256k1 key: '' # e))
          | Inr key \<Rightarrow> Ok \<lparr>ls_key = key, ls_address = address_from_verifying_key keccak (ec_public E key)\<rparr>))"

definition sign_prehash_low_s ::
    "('key, 'sig) ecdsa \<Rightarrow> 'key local_signer \<Rightarrow> bytes \<Rightarrow> signer_error + 'sig \<times> recovery_id"
where
  "sign_prehash_low_s E w hash = (case ec_sign_prehash E (ls_key w) hash of
       Inl e \<Rightarrow> Err (SignError e)
     | Inr (sig, i) \<Rightarrow> (case ec_normalize_s E sig of
         Some normalized \<Rightarrow> Ok (normalized, \<lparr>ri_y_odd = \<not> ri_y_odd i, ri_x_reduced = ri_x_reduced i\<rparr>)
       | None \<Rightarrow> Ok (sig, i)))"

definition sign_transaction ::
    "('key, 'sig) ecdsa \<Rightarrow> (bytes \<Rightarrow> bytes) \<Rightarrow> 'key local_signer \<Rightarrow> eip1559_tx \<Rightarrow> signer_error + bytes"
where
  "sign_transaction E keccak w tx =
     and_then (sign_prehash_low_s E w (keccak (signing_payload tx))) (\<lambda>(sig, i).
     Ok (into_raw_signed tx (recovery_byte i) (ec_r E sig) (ec_s E sig)))"

section \<open>Reading a transaction\<close>

text \<open>What a node takes a transaction to say.\<close>

record read_tx =
  rt_fields :: "nat list"       \<comment> \<open>chain id, nonce, the two fees, gas limit, value\<close>
  rt_to :: bytes
  rt_data :: bytes

definition tx_meaning :: "eip1559_tx \<Rightarrow> read_tx" where
  "tx_meaning tx = \<lparr>rt_fields = [unat (tx_chain_id tx), unat (tx_nonce tx),
       unat (tx_max_priority_fee_per_gas tx), unat (tx_max_fee_per_gas tx), unat (tx_gas_limit tx),
       unat (tx_value tx)], rt_to = tx_to tx, rt_data = tx_data tx\<rparr>"

definition read_fields :: "bytes \<Rightarrow> (read_tx \<times> bytes) option" where
  "read_fields b0 = do {
     (chain, b1) \<leftarrow> read_uint b0;
     (nonce, b2) \<leftarrow> read_uint b1;
     (tip, b3) \<leftarrow> read_uint b2;
     (fee, b4) \<leftarrow> read_uint b3;
     (gas, b5) \<leftarrow> read_uint b4;
     (to, b6) \<leftarrow> read_bytes b5;
     (val, b7) \<leftarrow> read_uint b6;
     (data, b8) \<leftarrow> read_bytes b7;
     (access, b9) \<leftarrow> read_list b8;
     (if access = [] then Some (\<lparr>rt_fields = [chain, nonce, tip, fee, gas, val], rt_to = to, rt_data = data\<rparr>, b9)
      else None) }"

definition read_typed :: "bytes \<Rightarrow> bytes option" where
  "read_typed raw = (case raw of
       [] \<Rightarrow> None
     | b # bs \<Rightarrow>
         if b \<noteq> 0x02 then None
         else do { (body, rest) \<leftarrow> read_list bs; (if rest = [] then Some body else None) })"

definition read_unsigned :: "bytes \<Rightarrow> read_tx option" where
  "read_unsigned raw = do {
     body \<leftarrow> read_typed raw;
     (tx, rest) \<leftarrow> read_fields body;
     (if rest = [] then Some tx else None) }"

definition read_signed :: "bytes \<Rightarrow> (read_tx \<times> nat \<times> nat \<times> nat) option" where
  "read_signed raw = do {
     body \<leftarrow> read_typed raw;
     (tx, b1) \<leftarrow> read_fields body;
     (y, b2) \<leftarrow> read_uint b1;
     (r, b3) \<leftarrow> read_uint b2;
     (s, b4) \<leftarrow> read_uint b3;
     (if b4 = [] then Some (tx, y, r, s) else None) }"

section \<open>Lemmas\<close>

text \<open>A transaction whose destination is an address and whose data fit in memory.\<close>

definition tx_ok :: "eip1559_tx \<Rightarrow> bool" where
  "tx_ok tx \<longleftrightarrow> length (tx_to tx) = 20 \<and> length (tx_data tx) < 2 ^ 63"

lemma unat_ucast_le:
  fixes w :: "'a::len word"
  assumes "LENGTH('a) \<le> LENGTH('b::len)"
  shows "unat (ucast w :: 'b word) = unat w"
proof -
  have "unat w < 2 ^ LENGTH('a)" by (rule unsigned_less)
  also have "(2 :: nat) ^ LENGTH('a) \<le> 2 ^ LENGTH('b)" using assms by (rule power_increasing) simp
  finally show ?thesis by (simp add: unsigned_ucast_eq take_bit_nat_eq_self)
qed

lemma unat_widen [simp]:
  "unat (ucast (w :: u64) :: u128) = unat w" "unat (ucast (y :: u8) :: u128) = unat y"
  by (rule unat_ucast_le, simp)+

lemma read_fields_ok:
  assumes "tx_ok tx"
  shows "read_fields (concat (unsigned_fields tx) @ rest) = Some (tx_meaning tx, rest)"
  using assms read_list_encode [of "[]" rest]
  by (simp add: read_fields_def unsigned_fields_def tx_meaning_def tx_ok_def)

lemma length_unsigned_fields:
  assumes "tx_ok tx"
  shows "length (concat (unsigned_fields tx)) \<le> 2 ^ 63 + 400"
proof -
  have l: "length (encode_list []) = 1" by (simp add: encode_list_def length_prefix_def)
  note u = length_encode_uint
  note b = length_encode_bytes [of "tx_to tx"] length_encode_bytes [of "tx_data tx"]
  show ?thesis
    using assms u [of "ucast (tx_chain_id tx)"] u [of "ucast (tx_nonce tx)"]
      u [of "tx_max_priority_fee_per_gas tx"] u [of "tx_max_fee_per_gas tx"]
      u [of "ucast (tx_gas_limit tx)"] u [of "tx_value tx"] b l
    by (simp add: unsigned_fields_def tx_ok_def)
qed

lemma read_typed_ok:
  "length (concat items) < 2 ^ 64 \<Longrightarrow> read_typed (0x02 # encode_list items) = Some (concat items)"
  using read_list_encode [of items "[]"] by (simp add: read_typed_def)

text \<open>What a node reads from the bytes that are signed and from the final ones.\<close>

lemma read_unsigned_ok:
  assumes "tx_ok tx"
  shows "read_unsigned (signing_payload tx) = Some (tx_meaning tx)"
proof -
  from length_unsigned_fields [OF assms] have "length (concat (unsigned_fields tx)) < 2 ^ 64" by simp
  with read_fields_ok [OF assms, of "[]"] show ?thesis
    by (simp add: read_unsigned_def signing_payload_def read_typed_ok)
qed

lemma read_signed_ok:
  assumes "tx_ok tx" and "length r = 32" and "length s = 32"
  shows "read_signed (into_raw_signed tx y r s)
    = (if hd r = 0 \<or> hd s = 0 then None else Some (tx_meaning tx, unat y, from_be r, from_be s))"
proof -
  let ?items = "unsigned_fields tx @ [encode_uint (ucast y), encode_bytes r, encode_bytes s]"
  have "length (concat ?items) < 2 ^ 64"
    using length_unsigned_fields [OF assms(1)] length_encode_uint [of "ucast y"]
      length_encode_bytes [of r] length_encode_bytes [of s] assms(2,3) by simp
  then have typed: "read_typed (into_raw_signed tx y r s) = Some (concat ?items)"
    by (simp only: into_raw_signed_def read_typed_ok)
  have cat: "concat ?items = concat (unsigned_fields tx) @ encode_uint (ucast y) @ encode_bytes r @ encode_bytes s @ []"
    by simp
  have ne: "r \<noteq> []" "s \<noteq> []" using assms(2,3) by auto
  show ?thesis
    using assms(2,3) ne read_uint_bytes [of s "[]"]
    by (simp only: read_signed_def typed cat) (simp add: read_fields_ok [OF assms(1)] read_uint_bytes)
qed

lemma sign_transaction_Ok:
  assumes "sign_transaction E keccak w tx = Ok raw"
  obtains sig i where "sign_prehash_low_s E w (keccak (signing_payload tx)) = Ok (sig, i)"
    "raw = into_raw_signed tx (recovery_byte i) (ec_r E sig) (ec_s E sig)"
  using assms by (auto simp: sign_transaction_def and_then_eq_Ok)

section \<open>Properties\<close>

text \<open>
  C14. What is signed fixes the transaction. The bytes whose hash is signed read back, with a
  strict RLP reader, as exactly the chain id, nonce, fees, gas limit, destination, value and
  data of the transaction, so two transactions with the same signing bytes say the same.
\<close>

theorem signing_payload_fixes_the_transaction:
  assumes "tx_ok tx" and "tx_ok tx'"
  shows "read_unsigned (signing_payload tx) = Some (tx_meaning tx)
    \<and> (signing_payload tx = signing_payload tx' \<longrightarrow> tx_meaning tx = tx_meaning tx')"
  using read_unsigned_ok [OF assms(1)] read_unsigned_ok [OF assms(2)] by auto

definition demo_tx :: eip1559_tx where
  "demo_tx = \<lparr>tx_chain_id = 4663, tx_nonce = 0, tx_max_priority_fee_per_gas = 1000000000,
     tx_max_fee_per_gas = 2000000000, tx_gas_limit = 21000, tx_to = replicate 20 0x11, tx_value = 0,
     tx_data = []\<rparr>"

lemma demo_tx_ok: "tx_ok demo_tx"
  by (simp add: tx_ok_def demo_tx_def)

theorem signing_payload_fixes_the_transaction_witness:
  "read_unsigned (signing_payload demo_tx) = Some (tx_meaning demo_tx)"
  using signing_payload_fixes_the_transaction [OF demo_tx_ok demo_tx_ok] by simp

text \<open>
  What a node makes of a signed transaction. With signatures whose halves are 32 bytes, the
  raw bytes read back as the transaction with the parity and the two halves of its
  signature, unless one of the halves starts with a zero byte: then, written as 32 bytes
  where an integer without leading zeros belongs, it is not read at all.
\<close>

theorem raw_transaction_reads_back:
  assumes "sign_transaction E keccak w tx = Ok raw" and "tx_ok tx"
    and "\<And>sig. length (ec_r E sig) = 32 \<and> length (ec_s E sig) = 32"
  shows "\<exists>sig i. sign_prehash_low_s E w (keccak (signing_payload tx)) = Ok (sig, i)
    \<and> read_signed raw = (if hd (ec_r E sig) = 0 \<or> hd (ec_s E sig) = 0 then None
        else Some (tx_meaning tx, unat (recovery_byte i), from_be (ec_r E sig), from_be (ec_s E sig)))"
  using assms(1)
proof (rule sign_transaction_Ok)
  fix sig i
  assume "sign_prehash_low_s E w (keccak (signing_payload tx)) = Ok (sig, i)"
    and "raw = into_raw_signed tx (recovery_byte i) (ec_r E sig) (ec_s E sig)"
  with read_signed_ok [OF assms(2), of "ec_r E sig" "ec_s E sig" "recovery_byte i"] assms(3)
  show ?thesis by blast
qed

text \<open>A curve for the demonstration, whose signature is its first half.\<close>

definition demo_curve :: "u8 \<Rightarrow> (unit, bytes) ecdsa" where
  "demo_curve b = \<lparr>ec_from_slice = \<lambda>_. Ok (), ec_public = \<lambda>_. replicate 65 4,
     ec_sign_prehash = \<lambda>_ _. Ok (b # replicate 31 1, \<lparr>ri_y_odd = True, ri_x_reduced = False\<rparr>),
     ec_normalize_s = \<lambda>_. None, ec_r = \<lambda>sig. take 32 (sig @ replicate 32 1), ec_s = \<lambda>sig. replicate 32 1\<rparr>"

definition demo_signer :: "unit local_signer" where
  "demo_signer = \<lparr>ls_key = (), ls_address = replicate 20 0\<rparr>"

theorem raw_transaction_reads_back_witness:
  "\<exists>raw. sign_transaction (demo_curve 0) (\<lambda>bs. bs) demo_signer demo_tx = Ok raw \<and> read_signed raw = None"
proof -
  obtain raw where raw: "sign_transaction (demo_curve 0) (\<lambda>bs. bs) demo_signer demo_tx = Ok raw"
    by (simp add: sign_transaction_def sign_prehash_low_s_def demo_curve_def and_then_def)
  have halves: "length (ec_r (demo_curve 0) sig) = 32 \<and> length (ec_s (demo_curve 0) sig) = 32" for sig
    by (simp add: demo_curve_def)
  from raw_transaction_reads_back [OF raw demo_tx_ok halves] raw show ?thesis
    by (auto simp: sign_prehash_low_s_def demo_curve_def)
qed

text \<open>
  Recovering the address of a signer from a signature; \<open>recover\<close> is the recovery of the curve's
  package.
\<close>

definition recover_address ::
    "(bytes \<Rightarrow> 'sig \<Rightarrow> recovery_id \<Rightarrow> message + bytes) \<Rightarrow> (bytes \<Rightarrow> bytes) \<Rightarrow> bytes \<Rightarrow> 'sig \<Rightarrow> recovery_id
      \<Rightarrow> signer_error + bytes"
where
  "recover_address recover keccak hash sig i = (case recover hash sig i of
       Inl e \<Rightarrow> Err (SignError (Lit ''recovery failed: '' # e))
     | Inr point \<Rightarrow> Ok (address_from_verifying_key keccak point))"

text \<open>
  A signature names its wallet. If the package recovers from what it signs the key that signed,
  and negating the second half flips the parity of the point, then a signed transaction of a
  wallet read from its key carries a signature from which the address of the wallet is
  recovered, whether or not the second half had to be lowered.
\<close>

theorem signed_transaction_names_the_wallet:
  assumes "\<And>k h sig i. ec_sign_prehash E k h = Ok (sig, i) \<Longrightarrow> recover h sig i = Ok (ec_public E k)"
    and "\<And>h sig n i p. ec_normalize_s E sig = Some n \<Longrightarrow> recover h sig i = Ok p \<Longrightarrow>
      recover h n \<lparr>ri_y_odd = \<not> ri_y_odd i, ri_x_reduced = ri_x_reduced i\<rparr> = Ok p"
    and "signer_from_hex E keccak hex_decode secret = Ok w" and "sign_transaction E keccak w tx = Ok raw"
  shows "\<exists>sig i. raw = into_raw_signed tx (recovery_byte i) (ec_r E sig) (ec_s E sig)
    \<and> recover_address recover keccak (keccak (signing_payload tx)) sig i = Ok (ls_address w)"
proof -
  from assms(3) have address: "ls_address w = address_from_verifying_key keccak (ec_public E (ls_key w))"
    by (auto simp: signer_from_hex_def Let_def split: sum.splits if_splits)
  from assms(4) obtain sig i where signed: "sign_prehash_low_s E w (keccak (signing_payload tx)) = Ok (sig, i)"
    and raw: "raw = into_raw_signed tx (recovery_byte i) (ec_r E sig) (ec_s E sig)" by (rule sign_transaction_Ok)
  from signed obtain sig0 i0 where made: "ec_sign_prehash E (ls_key w) (keccak (signing_payload tx)) = Ok (sig0, i0)"
    and low: "case ec_normalize_s E sig0 of
        Some n \<Rightarrow> sig = n \<and> i = \<lparr>ri_y_odd = \<not> ri_y_odd i0, ri_x_reduced = ri_x_reduced i0\<rparr>
      | None \<Rightarrow> sig = sig0 \<and> i = i0"
    by (auto simp: sign_prehash_low_s_def split: sum.splits option.splits)
  from assms(1) [OF made] assms(2) low have "recover (keccak (signing_payload tx)) sig i = Ok (ec_public E (ls_key w))"
    by (auto split: option.splits)
  with raw address show ?thesis by (intro exI [of _ sig] exI [of _ i]) (simp add: recover_address_def)
qed

text \<open>A curve whose signatures are high or low, and whose recovery checks the parity against that.\<close>

definition parity_curve :: "(unit, bool) ecdsa" where
  "parity_curve = \<lparr>ec_from_slice = \<lambda>_. Ok (), ec_public = \<lambda>_. replicate 65 4,
     ec_sign_prehash = \<lambda>_ _. Ok (True, \<lparr>ri_y_odd = True, ri_x_reduced = False\<rparr>),
     ec_normalize_s = \<lambda>high. if high then Some False else None,
     ec_r = \<lambda>_. replicate 32 1, ec_s = \<lambda>high. replicate 32 (if high then 255 else 1)\<rparr>"

definition parity_recover :: "bytes \<Rightarrow> bool \<Rightarrow> recovery_id \<Rightarrow> message + bytes" where
  "parity_recover h high i = (if high = ri_y_odd i then Ok (replicate 65 4) else Err [])"

theorem signed_transaction_names_the_wallet_witness:
  "\<exists>w raw. signer_from_hex parity_curve (\<lambda>bs. bs) (\<lambda>_. Ok (replicate 32 1)) [] = Ok w
    \<and> sign_transaction parity_curve (\<lambda>bs. bs) w demo_tx = Ok raw
    \<and> (\<exists>sig i. recover_address parity_recover (\<lambda>bs. bs) (signing_payload demo_tx) sig i = Ok (ls_address w))"
proof -
  obtain w where w: "signer_from_hex parity_curve (\<lambda>bs. bs) (\<lambda>_. Ok (replicate 32 1)) [] = Ok w"
    by (simp add: signer_from_hex_def parity_curve_def Let_def)
  obtain raw where raw: "sign_transaction parity_curve (\<lambda>bs. bs) w demo_tx = Ok raw"
    by (simp add: sign_transaction_def sign_prehash_low_s_def parity_curve_def and_then_def)
  have signs: "parity_recover h sig i = Ok (ec_public parity_curve k)"
    if "ec_sign_prehash parity_curve k h = Ok (sig, i)" for k h sig i
    using that by (auto simp: parity_curve_def parity_recover_def)
  have lowers: "parity_recover h n \<lparr>ri_y_odd = \<not> ri_y_odd i, ri_x_reduced = ri_x_reduced i\<rparr> = Ok p"
    if "ec_normalize_s parity_curve sig = Some n" "parity_recover h sig i = Ok p" for h sig n i p
    using that by (auto simp: parity_curve_def parity_recover_def split: if_splits)
  have "\<exists>sig i. raw = into_raw_signed demo_tx (recovery_byte i) (ec_r parity_curve sig) (ec_s parity_curve sig)
    \<and> recover_address parity_recover (\<lambda>bs. bs) (signing_payload demo_tx) sig i = Ok (ls_address w)"
    by (rule signed_transaction_names_the_wallet [OF _ _ w raw]) (erule signs, erule (1) lowers)
  with w raw show ?thesis by blast
qed

end
