(* ===== verification/Rpc.thy ===== *)
theory Rpc
  imports Abi Reconcile
begin

text \<open>
  The JSON-RPC client of \<open>crates/chain/src/rpc.rs\<close>: quantities, the read helpers, the log
  reader that splits a range the node refuses, receipts, and the HTTP client with its
  back-off. The node is the argument \<open>request\<close>, which may keep state, so nothing makes it
  answer alike twice; decoding a JSON value into the fields of a log or a receipt is an
  argument.
\<close>

section \<open>Quantities\<close>

definition radix_digit :: "char \<Rightarrow> nat option" where
  "radix_digit c = (let n = of_char c :: nat in
     if 48 \<le> n \<and> n \<le> 57 then Some (n - 48) else if 97 \<le> n \<and> n \<le> 102 then Some (n - 87)
     else if 65 \<le> n \<and> n \<le> 70 then Some (n - 55) else None)"

text \<open>Reading base 16 into 64 bits, digit by digit: the first thing that fails is reported.\<close>

fun radix_loop :: "nat \<Rightarrow> string \<Rightarrow> message + u64" where
  "radix_loop acc [] = Ok (of_nat acc)"
| "radix_loop acc (c # cs) = (case radix_digit c of
       None \<Rightarrow> Err [Lit ''invalid digit found in string'']
     | Some d \<Rightarrow>
         if 16 * acc + d < 2 ^ 64 then radix_loop (16 * acc + d) cs
         else Err [Lit ''number too large to fit in target type''])"

definition from_str_radix16 :: "string \<Rightarrow> message + u64" where
  "from_str_radix16 s =
     (if s = [] then Err [Lit ''cannot parse integer from empty string'']
      else if s = ''+'' then Err [Lit ''invalid digit found in string'']
      else radix_loop 0 (unwrap_or s (strip_prefix ''+'' s)))"

definition parse_quantity_str :: "string \<Rightarrow> u64 chain_result" where
  "parse_quantity_str s = (case from_str_radix16 (strip0x s) of
       Inl e \<Rightarrow> Err (ChDecode ([Lit ''bad hex quantity '', ShowDebug s, Lit '': ''] @ e))
     | Inr n \<Rightarrow> Ok n)"

definition parse_quantity :: "json \<Rightarrow> u64 chain_result" where
  "parse_quantity v =
     and_then (ok_or (ChDecode [Lit ''expected a hex quantity string'']) (as_str v)) parse_quantity_str"

text \<open>Lower-case hexadecimal of an integer, as the formatting of the standard library.\<close>

definition hex_char :: "nat \<Rightarrow> char" where
  "hex_char n = (if n < 10 then char_of (48 + n) else char_of (87 + n))"

fun show_hex :: "nat \<Rightarrow> string" where
  "show_hex n = (if n < 16 then [hex_char n] else show_hex (n div 16) @ [hex_char (n mod 16)])"

declare show_hex.simps [simp del]

section \<open>Requests\<close>

type_synonym 'c client = "'c \<Rightarrow> string \<Rightarrow> json \<Rightarrow> json chain_result \<times> 'c"

definition rpc_chain_id :: "'c client \<Rightarrow> 'c \<Rightarrow> u64 chain_result \<times> 'c" where
  "rpc_chain_id request c = (let (r, c') = request c ''eth_chainId'' (JArr []) in (and_then r parse_quantity, c'))"

definition rpc_block_number :: "'c client \<Rightarrow> 'c \<Rightarrow> u64 chain_result \<times> 'c" where
  "rpc_block_number request c =
     (let (r, c') = request c ''eth_blockNumber'' (JArr []) in (and_then r parse_quantity, c'))"

definition client_version :: "'c client \<Rightarrow> 'c \<Rightarrow> string chain_result \<times> 'c" where
  "client_version request c =
     (let (r, c') = request c ''web3_clientVersion'' (JArr [])
      in (and_then r (\<lambda>v. Ok (unwrap_or [] (as_str v))), c'))"

definition call_inner ::
    "hex_codec \<Rightarrow> 'c client \<Rightarrow> string option \<Rightarrow> string \<Rightarrow> string \<Rightarrow> 'c \<Rightarrow> bytes chain_result \<times> 'c"
where
  "call_inner H request from_addr to_addr data c =
     (let tx = (case from_addr of None \<Rightarrow> [] | Some f \<Rightarrow> [(''from'', JStr f)])
            @ [(''to'', JStr to_addr), (''data'', JStr data)];
          (r, c') = request c ''eth_call'' (JArr [JObj tx, JStr ''latest''])
      in (and_then r (\<lambda>v. from_hex H (unwrap_or ''0x'' (as_str v))), c'))"

definition eth_call :: "hex_codec \<Rightarrow> 'c client \<Rightarrow> string \<Rightarrow> string \<Rightarrow> 'c \<Rightarrow> bytes chain_result \<times> 'c" where
  "eth_call H request to_addr data c = call_inner H request None to_addr data c"

definition call_from ::
    "hex_codec \<Rightarrow> 'c client \<Rightarrow> string \<Rightarrow> string \<Rightarrow> string \<Rightarrow> 'c \<Rightarrow> bytes chain_result \<times> 'c" where
  "call_from H request from_addr to_addr data c = call_inner H request (Some from_addr) to_addr data c"

definition get_code :: "hex_codec \<Rightarrow> 'c client \<Rightarrow> string \<Rightarrow> 'c \<Rightarrow> bytes chain_result \<times> 'c" where
  "get_code H request address c =
     (let (r, c') = request c ''eth_getCode'' (JArr [JStr address, JStr ''latest''])
      in (and_then r (\<lambda>v. from_hex H (unwrap_or ''0x'' (as_str v))), c'))"

definition storage_word :: "bytes \<Rightarrow> bytes chain_result" where
  "storage_word raw =
     (if length raw \<le> 32 then Ok (replicate (32 - length raw) 0 @ raw)
      else Err (ChDecode [Lit ''storage slot returned '', ShowInt (int (length raw)), Lit '' bytes'']))"

definition get_storage_at ::
    "hex_codec \<Rightarrow> 'c client \<Rightarrow> string \<Rightarrow> string \<Rightarrow> 'c \<Rightarrow> bytes chain_result \<times> 'c" where
  "get_storage_at H request address slot c =
     (let (r, c') = request c ''eth_getStorageAt'' (JArr [JStr address, JStr slot, JStr ''latest''])
      in (and_then r (\<lambda>v. and_then (from_hex H (unwrap_or ''0x'' (as_str v))) storage_word), c'))"

section \<open>Logs\<close>

record log_filter =
  lf_address :: "string option"
  lf_topics :: "string option list"
  lf_from_block :: u64
  lf_to_block :: u64

definition to_params :: "log_filter \<Rightarrow> json" where
  "to_params f = JObj (
     (case lf_address f of None \<Rightarrow> [] | Some a \<Rightarrow> [(''address'', JStr a)])
     @ (if lf_topics f = [] then []
        else [(''topics'', JArr (map (\<lambda>t. case t of None \<Rightarrow> JNull | Some s \<Rightarrow> JStr s) (lf_topics f)))])
     @ [(''fromBlock'', JStr (''0x'' @ show_hex (unat (lf_from_block f)))),
        (''toBlock'', JStr (''0x'' @ show_hex (unat (lf_to_block f))))])"

record raw_log =
  rwl_address :: string
  rwl_topics :: "string list"
  rwl_data :: string
  rwl_block_number :: string

record rpc_log =
  rl_address :: string
  rl_topics :: "string list"
  rl_data :: string
  rl_block_number :: u64

definition into_log :: "raw_log \<Rightarrow> rpc_log chain_result" where
  "into_log r = and_then (parse_quantity_str (rwl_block_number r)) (\<lambda>n.
     Ok \<lparr>rl_address = rwl_address r, rl_topics = rwl_topics r, rl_data = rwl_data r, rl_block_number = n\<rparr>)"

fun collect :: "('a \<Rightarrow> 'e + 'b) \<Rightarrow> 'a list \<Rightarrow> 'e + 'b list" where
  "collect f [] = Ok []"
| "collect f (x # xs) = and_then (f x) (\<lambda>y. and_then (collect f xs) (\<lambda>ys. Ok (y # ys)))"

text \<open>
  The markers are ASCII, and no other character lower-cases to a string they could match in,
  so the ASCII part of lower-casing decides.
\<close>

definition is_range_too_wide :: "chain_error \<Rightarrow> bool" where
  "is_range_too_wide e = (case e of
       ChRpc _ m \<Rightarrow> list_ex (contains_str (to_ascii_lowercase m)) [''time'', ''limit'', ''exceed'', ''too many'']
     | _ \<Rightarrow> False)"

definition max_split_depth :: nat where
  "max_split_depth = 12"

text \<open>The first argument is the number of splits that are left.\<close>

fun get_logs_bisecting ::
    "nat \<Rightarrow> (json \<Rightarrow> message + raw_log list) \<Rightarrow> 'c client \<Rightarrow> log_filter \<Rightarrow> 'c \<Rightarrow> rpc_log list chain_result \<times> 'c"
where
  "get_logs_bisecting n from_value request f c =
     (case request c ''eth_getLogs'' (JArr [to_params f]) of
        (Inr ret, c1) \<Rightarrow> ((case from_value ret of
            Inl e \<Rightarrow> Err (ChDecode (Lit ''eth_getLogs result: '' # e))
          | Inr raw \<Rightarrow> collect into_log raw), c1)
      | (Inl e, c1) \<Rightarrow> (case n of
            0 \<Rightarrow> (Err e, c1)
          | Suc m \<Rightarrow>
            if lf_from_block f < lf_to_block f \<and> is_range_too_wide e then
              (let mid = lf_from_block f + (lf_to_block f - lf_from_block f) div 2 in
               case get_logs_bisecting m from_value request (f\<lparr>lf_to_block := mid\<rparr>) c1 of
                 (Inl e', c2) \<Rightarrow> (Err e', c2)
               | (Inr left, c2) \<Rightarrow>
                   (case get_logs_bisecting m from_value request (f\<lparr>lf_from_block := mid + 1\<rparr>) c2 of
                      (Inl e', c3) \<Rightarrow> (Err e', c3)
                    | (Inr right, c3) \<Rightarrow> (Ok (left @ right), c3)))
            else (Err e, c1)))"

declare get_logs_bisecting.simps [simp del]

definition get_logs ::
    "(json \<Rightarrow> message + raw_log list) \<Rightarrow> 'c client \<Rightarrow> log_filter \<Rightarrow> 'c \<Rightarrow> rpc_log list chain_result \<times> 'c" where
  "get_logs from_value request f c = get_logs_bisecting max_split_depth from_value request f c"

text \<open>Slicing a text inside a character panics; 64 bytes of a topic are digits in practice.\<close>

definition topic_address :: "rpc_log \<Rightarrow> nat \<Rightarrow> (string option) option" where
  "topic_address l i =
     (if i < length (rl_topics l) then
        (let raw = strip0x (rl_topics l ! i) in
         if length raw = 64
         then (if is_char_boundary raw 24 then Some (Some (''0x'' @ drop 24 raw)) else None)
         else Some None)
      else Some None)"

section \<open>Receipts\<close>

record raw_receipt =
  rr_transaction_hash :: string
  rr_status :: string
  rr_block_number :: string
  rr_gas_used :: string
  rr_to :: "string option"

definition into_receipt :: "raw_receipt \<Rightarrow> tx_receipt chain_result" where
  "into_receipt r =
     and_then (parse_quantity_str (rr_status r)) (\<lambda>st.
     and_then (parse_quantity_str (rr_block_number r)) (\<lambda>n.
     and_then (parse_quantity_str (rr_gas_used r)) (\<lambda>g.
     Ok \<lparr>rx_tx_hash = rr_transaction_hash r, rx_status_ok = (st = 1), rx_block_number = n,
        rx_gas_used = g, rx_to = rr_to r\<rparr>)))"

definition get_transaction_receipt ::
    "(json \<Rightarrow> message + raw_receipt) \<Rightarrow> 'c client \<Rightarrow> string \<Rightarrow> 'c \<Rightarrow> tx_receipt option chain_result \<times> 'c" where
  "get_transaction_receipt from_value request tx_hash c =
     (let (r, c') = request c ''eth_getTransactionReceipt'' (JArr [JStr tx_hash]) in
      (and_then r (\<lambda>ret.
         if ret = JNull then Ok None
         else (case from_value ret of
             Inl e \<Rightarrow> Err (ChDecode (Lit ''eth_getTransactionReceipt result: '' # e))
           | Inr raw \<Rightarrow> and_then (into_receipt raw) (\<lambda>rx. Ok (Some rx)))), c'))"

section \<open>The HTTP client\<close>

definition error_string_selector :: bytes where
  "error_string_selector = [0x08, 0xc3, 0x79, 0xa0]"

definition decode_revert_reason :: "hex_codec \<Rightarrow> string \<Rightarrow> (string option) option" where
  "decode_revert_reason H data = (case from_hex H data of
       Inl _ \<Rightarrow> Some None
     | Inr raw \<Rightarrow>
         if 4 + 64 \<le> length raw \<and> take 4 raw = error_string_selector
         then do {
           r \<leftarrow> decode_string (drop 4 raw);
           Some (case r of Inl _ \<Rightarrow> None | Inr s \<Rightarrow> if s = [] then None else Some s) }
         else Some None)"

definition json_get :: "string \<Rightarrow> json \<Rightarrow> json option" where
  "json_get k v = Option.bind (as_object v) (\<lambda>kvs. map_of kvs k)"

text \<open>The answer of the node as a value or an error; \<open>as_i64\<close> reads a JSON number.\<close>

definition rpc_answer :: "hex_codec \<Rightarrow> (json \<Rightarrow> int option) \<Rightarrow> json \<Rightarrow> (json chain_result) option" where
  "rpc_answer H as_i64 v = (case json_get ''error'' v of
       Some err \<Rightarrow>
         (let code = unwrap_or 0 (Option.bind (json_get ''code'' err) as_i64);
              msg = unwrap_or ''unknown'' (Option.bind (json_get ''message'' err) as_str);
              data = (case Option.bind (json_get ''data'' err) as_str of
                  Some d \<Rightarrow> if starts_with d ''0x'' then Some d else None | None \<Rightarrow> None)
          in if data \<noteq> None \<or> contains_str (to_ascii_lowercase msg) ''revert''
             then do {
               reason \<leftarrow> (case data of None \<Rightarrow> Some None | Some d \<Rightarrow> decode_revert_reason H d);
               Some (Err (ChReverted reason data)) }
             else Some (Err (ChRpc code msg)))
     | None \<Rightarrow> Some (ok_or (ChDecode [Lit ''response had neither result nor error'']) (json_get ''result'' v)))"

record http_reply =
  hp_status :: u16
  hp_status_text :: string      \<comment> \<open>the status as the package displays it\<close>
  hp_json :: "message + json"

definition max_429_retries :: nat where
  "max_429_retries = 5"

text \<open>Sending, with the retries that are left; the pauses between them are not modelled.\<close>

fun send_retrying :: "nat \<Rightarrow> ('c \<Rightarrow> json \<Rightarrow> (string + http_reply) \<times> 'c) \<Rightarrow> json \<Rightarrow> 'c \<Rightarrow> http_reply chain_result \<times> 'c" where
  "send_retrying n send body c = (case send c body of
       (Inl e, c1) \<Rightarrow> (Err (ChTransport [Lit e]), c1)
     | (Inr resp, c1) \<Rightarrow> (case n of
         0 \<Rightarrow> (Ok resp, c1)
       | Suc m \<Rightarrow> if hp_status resp = 429 then send_retrying m send body c1 else (Ok resp, c1)))"

declare send_retrying.simps [simp del]

definition http_request ::
    "hex_codec \<Rightarrow> (json \<Rightarrow> int option) \<Rightarrow> ('c \<Rightarrow> json \<Rightarrow> (string + http_reply) \<times> 'c) \<Rightarrow> string \<Rightarrow> json
      \<Rightarrow> u64 \<times> 'c \<Rightarrow> (json chain_result \<times> (u64 \<times> 'c)) option"
where
  "http_request H as_i64 send meth params st =
     (let n = fst st + 1;
          body = JObj [(''jsonrpc'', JStr ''2.0''), (''id'', JNum (show_nat (unat n))), (''method'', JStr meth),
            (''params'', params)];
          (r, c') = send_retrying max_429_retries send body (snd st)
      in case r of
           Inl e \<Rightarrow> Some (Err e, (n, c'))
         | Inr resp \<Rightarrow>
             if hp_status resp < 200 \<or> 300 \<le> hp_status resp
             then Some (Err (ChTransport [Lit ''HTTP '', Lit (hp_status_text resp)]), (n, c'))
             else (case hp_json resp of
                 Inl e \<Rightarrow> Some (Err (ChDecode (Lit ''response body: '' # e)), (n, c'))
               | Inr v \<Rightarrow> do { a \<leftarrow> rpc_answer H as_i64 v; Some (a, (n, c')) }))"

section \<open>Lemmas\<close>

lemma radix_digit_hex_char: "n < 16 \<Longrightarrow> radix_digit (hex_char n) = Some n"
  by (auto simp: radix_digit_def hex_char_def of_char_of Let_def)

lemma radix_loop_append:
  "radix_loop acc (xs @ ys) = (case radix_loop acc xs of Inl e \<Rightarrow> Inl e | Inr n \<Rightarrow> radix_loop (unat n) ys)"
  if "acc < 2 ^ 64"
  using that
proof (induction xs arbitrary: acc)
  case Nil
  then show ?case by (simp add: unat_of_nat)
next
  case (Cons x xs)
  then show ?case by (auto split: option.split)
qed

lemma radix_loop_show_hex: "n < 2 ^ 64 \<Longrightarrow> radix_loop 0 (show_hex n) = Ok (of_nat n)"
proof (induction n rule: show_hex.induct)
  case (1 n)
  show ?case
  proof (cases "n < 16")
    case True
    then show ?thesis by (subst show_hex.simps) (simp add: radix_digit_hex_char)
  next
    case False
    have "unat (of_nat (n div 16) :: u64) = n div 16" using 1(2) by (simp add: unat_of_nat)
    moreover have "radix_loop 0 (show_hex (n div 16)) = Ok (of_nat (n div 16))"
      using 1 False by simp
    moreover have "16 * (n div 16) + n mod 16 = n" by simp
    ultimately show ?thesis
      using False 1(2) by (subst show_hex.simps) (simp add: radix_loop_append radix_digit_hex_char)
  qed
qed

lemma show_hex_chars: "c \<in> set (show_hex n) \<Longrightarrow> \<exists>d < 16. c = hex_char d"
proof (induction n rule: show_hex.induct)
  case (1 n)
  from 1 show ?case
    by (subst (asm) (2) show_hex.simps)
      (auto split: if_splits intro: exI [of _ n] exI [of _ "n mod 16"])
qed

lemma show_hex_not_Nil: "show_hex n \<noteq> []"
  by (subst show_hex.simps) simp

lemma hex_char_not_plus: "d < 16 \<Longrightarrow> hex_char d \<noteq> CHR ''+''"
proof
  assume "d < 16" "hex_char d = CHR ''+''"
  then have "radix_digit CHR ''+'' = Some d" using radix_digit_hex_char [of d] by simp
  then show False by (simp add: radix_digit_def Let_def)
qed

text \<open>A number that is written as a quantity reads back.\<close>

lemma parse_quantity_show_hex: "parse_quantity_str (''0x'' @ show_hex (unat w)) = Ok w"
proof -
  have s: "strip0x (''0x'' @ show_hex (unat w)) = show_hex (unat w)"
    by (simp add: strip0x_def strip_prefix_def starts_with_def)
  obtain c cs where c: "show_hex (unat w) = c # cs" using show_hex_not_Nil by (meson list.exhaust)
  then have "c \<noteq> CHR ''+''" using show_hex_chars [of c "unat w"] hex_char_not_plus by auto
  then have "from_str_radix16 (show_hex (unat w)) = radix_loop 0 (show_hex (unat w))"
    using c by (simp add: from_str_radix16_def strip_prefix_def starts_with_def)
  moreover have "unat w < 2 ^ 64" using unsigned_less [of w, where ?'a = nat] by simp
  ultimately show ?thesis unfolding parse_quantity_str_def s by (simp add: radix_loop_show_hex)
qed

section \<open>Properties\<close>

text \<open>
  A node that serves the logs of a chain: asked for a range, with the address and topics of
  the filter, it answers with an error or with exactly the chain's logs in that range. The
  chain is a list of logs as they arrive and as they are decoded.
\<close>

definition in_range :: "log_filter \<Rightarrow> rpc_log \<Rightarrow> bool" where
  "in_range f l = (lf_from_block f \<le> rl_block_number l \<and> rl_block_number l \<le> lf_to_block f)"

definition serves_logs ::
    "(json \<Rightarrow> message + raw_log list) \<Rightarrow> 'c client \<Rightarrow> (raw_log \<times> rpc_log) list \<Rightarrow> log_filter \<Rightarrow> bool" where
  "serves_logs from_value request chain f \<longleftrightarrow>
     (\<forall>c f' ret c'. lf_address f' = lf_address f \<and> lf_topics f' = lf_topics f
        \<and> request c ''eth_getLogs'' (JArr [to_params f']) = (Ok ret, c')
        \<longrightarrow> from_value ret = Ok (map fst (filter (\<lambda>x. in_range f' (snd x)) chain)))"

definition decoded_chain :: "(raw_log \<times> rpc_log) list \<Rightarrow> bool" where
  "decoded_chain chain \<longleftrightarrow> (\<forall>(r, l) \<in> set chain. into_log r = Ok l) \<and> sorted (map (rl_block_number \<circ> snd) chain)"

lemma collect_map_fst:
  "\<forall>(r, l) \<in> set xs. f r = Ok l \<Longrightarrow> collect f (map fst xs) = Ok (map snd xs)"
  by (induction xs) (auto simp: and_then_def)

lemma filter_sorted_split:
  fixes a m b :: u64
  assumes "sorted (map k xs)" and "a \<le> m" and "m < b"
  shows "filter (\<lambda>x. a \<le> k x \<and> k x \<le> m) xs @ filter (\<lambda>x. m + 1 \<le> k x \<and> k x \<le> b) xs
    = filter (\<lambda>x. a \<le> k x \<and> k x \<le> b) xs"
  using assms(1)
proof (induction xs)
  case Nil
  then show ?case by simp
next
  case (Cons x xs)
  have "unat (m + 1) = Suc (unat m)" using assms(3) by (rule unat_succ_less)
  then have next_le: "m + 1 \<le> y \<longleftrightarrow> m < y" for y
    by (simp add: word_le_nat_alt word_less_nat_alt Suc_le_eq)
  show ?case
  proof (cases "k x \<le> m")
    case True
    then have "k x \<le> b" using assms(3) by simp
    with True Cons show ?thesis by (auto simp: next_le)
  next
    case False
    then have "\<forall>y \<in> set xs. m < k y" using Cons.prems by auto
    then have "filter (\<lambda>x. a \<le> k x \<and> k x \<le> m) xs = []" by (auto simp: filter_empty_conv)
    with False Cons assms(2) show ?thesis by (auto simp: next_le)
  qed
qed

lemma mid_between:
  fixes a b :: u64
  assumes "a < b"
  shows "a \<le> a + (b - a) div 2 \<and> a + (b - a) div 2 < b"
proof -
  have lt: "unat a < unat b" using assms by (simp add: word_less_nat_alt)
  have sub: "unat (b - a) = unat b - unat a"
    using assms by (simp add: unat_sub)
  have half: "unat ((b - a) div 2) = (unat b - unat a) div 2" by (simp add: unat_div sub)
  have "unat b < 2 ^ 64" using unsigned_less [of b, where ?'a = nat] by simp
  with lt half have "unat (a + (b - a) div 2) = unat a + (unat b - unat a) div 2"
    by (simp add: unat_word_ariths)
  with lt show ?thesis by (simp add: word_le_nat_alt word_less_nat_alt)
qed

text \<open>One request and what it leads to: an answer, a split, or an error.\<close>

lemma bisecting_Ok_cases:
  assumes "get_logs_bisecting n from_value request f c = (Ok logs, c')"
  obtains (answer) ret raw where "request c ''eth_getLogs'' (JArr [to_params f]) = (Ok ret, c')"
      "from_value ret = Ok raw" "collect into_log raw = Ok logs"
    | (split) m e mid c1 c2 left right where "n = Suc m" "lf_from_block f < lf_to_block f"
      "request c ''eth_getLogs'' (JArr [to_params f]) = (Err e, c1)"
      "mid = lf_from_block f + (lf_to_block f - lf_from_block f) div 2"
      "get_logs_bisecting m from_value request (f\<lparr>lf_to_block := mid\<rparr>) c1 = (Ok left, c2)"
      "get_logs_bisecting m from_value request (f\<lparr>lf_from_block := mid + 1\<rparr>) c2 = (Ok right, c')"
      "logs = left @ right"
proof (cases "request c ''eth_getLogs'' (JArr [to_params f])")
  case (Pair r c1)
  show thesis
  proof (cases r)
    case (Inr ret)
    with assms Pair have "from_value ret \<noteq> Inl e" for e
      by (subst (asm) get_logs_bisecting.simps) auto
    then obtain raw where "from_value ret = Ok raw" by (cases "from_value ret") auto
    with assms Pair Inr show thesis
      by (subst (asm) get_logs_bisecting.simps) (auto intro: answer)
  next
    case (Inl e)
    from assms Pair Inl show thesis
      by (subst (asm) get_logs_bisecting.simps)
        (auto simp: Let_def split: nat.splits if_splits prod.splits sum.splits intro: split)
  qed
qed

lemma bisecting_complete:
  assumes "serves_logs from_value request chain f" and "decoded_chain chain"
    and "get_logs_bisecting n from_value request f c = (Ok logs, c')"
  shows "logs = map snd (filter (\<lambda>x. in_range f (snd x)) chain)"
  using assms(1,3)
proof (induction n arbitrary: f c c' logs rule: less_induct)
  case (less n)
  from less.prems(2) show ?case
  proof (cases rule: bisecting_Ok_cases)
    case (answer ret raw)
    from less.prems(1) answer(1,2) have raw: "raw = map fst (filter (\<lambda>x. in_range f (snd x)) chain)"
      unfolding serves_logs_def by (metis sum.inject(2))
    have "\<forall>(r, l) \<in> set (filter (\<lambda>x. in_range f (snd x)) chain). into_log r = Ok l"
      using assms(2) by (auto simp: decoded_chain_def)
    from collect_map_fst [OF this] answer(3) raw show ?thesis by simp
  next
    case (split m e mid c1 c2 left right)
    have serves: "serves_logs from_value request chain (f\<lparr>lf_to_block := mid\<rparr>)"
      "serves_logs from_value request chain (f\<lparr>lf_from_block := mid + 1\<rparr>)"
      using less.prems(1) by (simp_all add: serves_logs_def)
    have "m < n" using split(1) by simp
    from less.IH [OF this serves(1) split(5)] less.IH [OF \<open>m < n\<close> serves(2) split(6)]
    have "logs = map snd (filter (\<lambda>x. in_range (f\<lparr>lf_to_block := mid\<rparr>) (snd x)) chain
        @ filter (\<lambda>x. in_range (f\<lparr>lf_from_block := mid + 1\<rparr>) (snd x)) chain)"
      using split(7) by simp
    also have "filter (\<lambda>x. in_range (f\<lparr>lf_to_block := mid\<rparr>) (snd x)) chain
        @ filter (\<lambda>x. in_range (f\<lparr>lf_from_block := mid + 1\<rparr>) (snd x)) chain
      = filter (\<lambda>x. in_range f (snd x)) chain"
      using filter_sorted_split [of "rl_block_number \<circ> snd" chain "lf_from_block f" mid "lf_to_block f"]
        assms(2) mid_between [OF split(2)] split(4)
      by (simp add: decoded_chain_def in_range_def case_prod_beta)
    finally show ?thesis .
  qed
qed

text \<open>
  C29. The log reader loses and repeats nothing. Whatever the node refuses on the way, if reading
  the logs of a range succeeds against a node that serves the logs of a chain, then the
  result is exactly the chain's logs in the range, in order, each once.
\<close>

theorem logs_of_the_whole_range:
  assumes "serves_logs from_value request chain f" and "decoded_chain chain"
    and "get_logs from_value request f c = (Ok logs, c')"
  shows "logs = filter (in_range f) (map snd chain)"
  using bisecting_complete [OF assms(1,2) assms(3) [unfolded get_logs_def]]
  by (simp add: filter_map comp_def)

text \<open>A node with two logs that refuses a range of more than two blocks.\<close>

definition demo_raw :: "string \<Rightarrow> raw_log" where
  "demo_raw n = \<lparr>rwl_address = ''0xa'', rwl_topics = [], rwl_data = ''0x'', rwl_block_number = n\<rparr>"

definition demo_log :: "u64 \<Rightarrow> rpc_log" where
  "demo_log n = \<lparr>rl_address = ''0xa'', rl_topics = [], rl_data = ''0x'', rl_block_number = n\<rparr>"

definition demo_chain :: "(raw_log \<times> rpc_log) list" where
  "demo_chain = [(demo_raw ''0x1'', demo_log 1), (demo_raw ''0x3'', demo_log 3)]"

definition demo_range :: "json \<Rightarrow> log_filter option" where
  "demo_range p = (case p of
       JArr [o1] \<Rightarrow> (case (Option.bind (json_get ''fromBlock'' o1) as_str, Option.bind (json_get ''toBlock'' o1) as_str) of
         (Some a, Some b) \<Rightarrow> (case (parse_quantity_str a, parse_quantity_str b) of
           (Inr m, Inr n) \<Rightarrow> Some \<lparr>lf_address = None, lf_topics = [], lf_from_block = m, lf_to_block = n\<rparr>
         | _ \<Rightarrow> None)
       | _ \<Rightarrow> None)
     | _ \<Rightarrow> None)"

definition demo_node :: "unit client" where
  "demo_node c m p = (case demo_range p of
       None \<Rightarrow> (Err (ChRpc 0 ''bad request''), c)
     | Some f \<Rightarrow>
         if lf_from_block f + 1 < lf_to_block f then (Err (ChRpc 0 ''limit exceeded''), c)
         else (Ok (JArr (map (\<lambda>x. JStr (rwl_block_number (fst x)))
           (filter (\<lambda>x. in_range f (snd x)) demo_chain))), c))"

definition demo_logs_of :: "json \<Rightarrow> message + raw_log list" where
  "demo_logs_of v = (case v of JArr vs \<Rightarrow> Ok (map (\<lambda>x. demo_raw (unwrap_or [] (as_str x))) vs)
     | _ \<Rightarrow> Err [Lit ''not an array''])"

definition demo_filter :: "u64 \<Rightarrow> u64 \<Rightarrow> log_filter" where
  "demo_filter a b = \<lparr>lf_address = None, lf_topics = [], lf_from_block = a, lf_to_block = b\<rparr>"

lemma demo_range_params: "lf_address f = None \<Longrightarrow> lf_topics f = [] \<Longrightarrow>
  demo_range (JArr [to_params f]) = Some (demo_filter (lf_from_block f) (lf_to_block f))"
  using parse_quantity_show_hex [of "lf_from_block f"] parse_quantity_show_hex [of "lf_to_block f"]
  by (simp add: demo_range_def to_params_def json_get_def as_object_def as_str_def demo_filter_def)

lemma demo_logs_answer:
  "demo_logs_of (JArr (map (\<lambda>x. JStr (rwl_block_number (fst x))) (filter P demo_chain)))
     = Ok (map fst (filter P demo_chain))"
  by (auto simp: demo_logs_of_def as_str_def demo_chain_def demo_raw_def)

lemma demo_serves: "serves_logs demo_logs_of demo_node demo_chain (demo_filter a b)"
  unfolding serves_logs_def
proof (intro allI impI, elim conjE)
  fix c :: unit and f' ret c'
  assume "lf_address f' = lf_address (demo_filter a b)" "lf_topics f' = lf_topics (demo_filter a b)"
    and r: "demo_node c ''eth_getLogs'' (JArr [to_params f']) = (Ok ret, c')"
  then have f: "lf_address f' = None" "lf_topics f' = []" by (simp_all add: demo_filter_def)
  have "in_range (demo_filter (lf_from_block f') (lf_to_block f')) = in_range f'"
    by (auto simp: in_range_def demo_filter_def)
  with r have "ret = JArr (map (\<lambda>x. JStr (rwl_block_number (fst x)))
      (filter (\<lambda>x. in_range f' (snd x)) demo_chain))"
    by (auto simp: demo_node_def demo_range_params [OF f] split: if_splits)
  then show "demo_logs_of ret = Ok (map fst (filter (\<lambda>x. in_range f' (snd x)) demo_chain))"
    by (simp add: demo_logs_answer)
qed

lemma demo_chain_decoded: "decoded_chain demo_chain"
  using parse_quantity_show_hex [of 1] parse_quantity_show_hex [of 3]
  by (simp add: decoded_chain_def demo_chain_def into_log_def demo_raw_def demo_log_def and_then_def
      show_hex.simps hex_char_def char_of_def bit_Suc_0_iff)

lemma demo_reads:
  "\<exists>logs. get_logs demo_logs_of demo_node (demo_filter 0 3) () = (Ok logs, ())"
proof -
  have too_wide: "is_range_too_wide (ChRpc 0 ''limit exceeded'')"
    by (simp add: is_range_too_wide_def starts_with_def to_ascii_lowercase_def ascii_lower_def Let_def)
  have ans: "demo_node () ''eth_getLogs'' (JArr [to_params (demo_filter a b)])
    = (if a + 1 < b then (Err (ChRpc 0 ''limit exceeded''), ())
       else (Ok (JArr (map (\<lambda>x. JStr (rwl_block_number (fst x)))
         (filter (\<lambda>x. in_range (demo_filter a b) (snd x)) demo_chain))), ()))" for a b
    using demo_range_params [of "demo_filter a b"] by (simp add: demo_node_def demo_filter_def)
  have narrow: "\<exists>logs. get_logs_bisecting n demo_logs_of demo_node (demo_filter a b) () = (Ok logs, ())"
    if "\<not> a + 1 < b" for n a b
  proof -
    have "\<forall>(r, l) \<in> set (filter (\<lambda>x. in_range (demo_filter a b) (snd x)) demo_chain). into_log r = Ok l"
      using demo_chain_decoded by (auto simp: decoded_chain_def)
    from collect_map_fst [OF this] that show ?thesis
      by (subst get_logs_bisecting.simps) (simp add: ans demo_logs_answer)
  qed
  have steps: "(demo_filter 0 3)\<lparr>lf_to_block := 1\<rparr> = demo_filter 0 1"
    "(demo_filter 0 3)\<lparr>lf_from_block := 2\<rparr> = demo_filter 2 3"
    "lf_from_block (demo_filter 0 3) = 0" "lf_to_block (demo_filter 0 3) = 3"
    by (simp_all add: demo_filter_def)
  obtain l1 where l1: "get_logs_bisecting 11 demo_logs_of demo_node (demo_filter 0 1) () = (Ok l1, ())"
    using narrow [of 0 1] by auto
  obtain l2 where l2: "get_logs_bisecting 11 demo_logs_of demo_node (demo_filter 2 3) () = (Ok l2, ())"
    using narrow [of 2 3] by auto
  have "get_logs_bisecting (Suc 11) demo_logs_of demo_node (demo_filter 0 3) () = (Ok (l1 @ l2), ())"
    using too_wide by (subst get_logs_bisecting.simps) (simp add: ans steps l1 l2)
  then show ?thesis by (simp add: get_logs_def max_split_depth_def eval_nat_numeral)
qed

theorem logs_of_the_whole_range_witness:
  "get_logs demo_logs_of demo_node (demo_filter 0 3) () = (Ok [demo_log 1, demo_log 3], ())"
proof -
  from demo_reads obtain logs where r: "get_logs demo_logs_of demo_node (demo_filter 0 3) () = (Ok logs, ())" ..
  from logs_of_the_whole_range [OF demo_serves demo_chain_decoded r] r show ?thesis
    by (simp add: demo_chain_def in_range_def demo_filter_def demo_log_def)
qed

text \<open>The client with a count of its requests.\<close>

definition counted :: "'c client \<Rightarrow> (nat \<times> 'c) client" where
  "counted request st m p = (let (r, c') = request (snd st) m p in (r, (Suc (fst st), c')))"

lemma bisecting_requests:
  "fst (snd (get_logs_bisecting n from_value (counted request) f st)) < fst st + 2 ^ Suc n"
proof (induction n arbitrary: f st)
  case 0
  obtain r c' where "request (snd st) ''eth_getLogs'' (JArr [to_params f]) = (r, c')" by force
  then show ?case
    by (cases r) (simp_all add: get_logs_bisecting.simps counted_def)
next
  case (Suc n)
  obtain r c' where call: "request (snd st) ''eth_getLogs'' (JArr [to_params f]) = (r, c')" by force
  let ?mid = "lf_from_block f + (lf_to_block f - lf_from_block f) div 2"
  let ?L = "get_logs_bisecting n from_value (counted request) (f\<lparr>lf_to_block := ?mid\<rparr>) (Suc (fst st), c')"
  obtain l c2 where L: "?L = (l, c2)" by (cases ?L)
  obtain l' c3 where R: "get_logs_bisecting n from_value (counted request) (f\<lparr>lf_from_block := ?mid + 1\<rparr>) c2 = (l', c3)"
    by (cases "get_logs_bisecting n from_value (counted request) (f\<lparr>lf_from_block := ?mid + 1\<rparr>) c2")
  have "fst c2 < Suc (fst st) + 2 ^ Suc n" "fst c3 < fst c2 + 2 ^ Suc n"
    using Suc.IH [of "f\<lparr>lf_to_block := ?mid\<rparr>" "(Suc (fst st), c')"]
      Suc.IH [of "f\<lparr>lf_from_block := ?mid + 1\<rparr>" c2] L R by simp_all
  moreover have "(1 :: nat) \<le> 2 ^ n" by simp
  ultimately have "fst c2 < fst st + 2 ^ Suc (Suc n)" "fst c3 < fst st + 2 ^ Suc (Suc n)"
    "Suc 0 < 4 * 2 ^ n"
    unfolding power_Suc by linarith+
  with call L R show ?case
    by (subst get_logs_bisecting.simps)
      (auto simp: counted_def Let_def split: sum.split)
qed

text \<open>
  C39. Reading logs ends after a bounded number of requests: fewer than 2 to the 13th, whatever
  the node answers.
\<close>

theorem log_reading_is_bounded:
  "fst (snd (get_logs from_value (counted request) f (0, c))) < 8192"
  using bisecting_requests [of max_split_depth from_value request f "(0, c)"]
  by (simp add: get_logs_def max_split_depth_def)

end
