(* ===== verification/Univ4.thy ===== *)
theory Univ4
  imports Rpc
begin

text \<open>
  Tokens and pools: \<open>crates/chain/src/keccak.rs\<close>, \<open>tokens.rs\<close>, \<open>erc20.rs\<close> and
  \<open>univ4.rs\<close>. The hash, the hexadecimal codec, the node and the building of a decimal from
  an integer and a scale are arguments. Lower-casing is only ever applied to texts that are
  hexadecimal, where the ASCII form of it is the same.
\<close>

section \<open>Selectors and the token list\<close>

definition bytes_of :: "string \<Rightarrow> bytes" where
  "bytes_of s = map of_char s"

definition selector :: "(bytes \<Rightarrow> bytes) \<Rightarrow> string \<Rightarrow> bytes" where
  "selector keccak sig = take 4 (keccak (bytes_of sig))"

definition event_topic :: "(bytes \<Rightarrow> bytes) \<Rightarrow> string \<Rightarrow> bytes" where
  "event_topic keccak sig = keccak (bytes_of sig)"

definition selector_hex :: "hex_codec \<Rightarrow> (bytes \<Rightarrow> bytes) \<Rightarrow> string \<Rightarrow> string" where
  "selector_hex H keccak sig = to_hex H (selector keccak sig)"

definition topic_hex :: "hex_codec \<Rightarrow> (bytes \<Rightarrow> bytes) \<Rightarrow> string \<Rightarrow> string" where
  "topic_hex H keccak sig = to_hex H (event_topic keccak sig)"

record known_token =
  kt_symbol :: string
  kt_address :: string
  kt_decimals :: nat

definition known_tokens :: "known_token list" where
  "known_tokens = map (\<lambda>(s, a, d). \<lparr>kt_symbol = s, kt_address = a, kt_decimals = d\<rparr>) [
     (''NVDA'', ''0xd0601CE157Db5bdC3162BbaC2a2C8aF5320D9EEC'', 18),
     (''TSLA'', ''0x322F0929c4625eD5bAd873c95208D54E1c003b2d'', 18),
     (''AAPL'', ''0xaF3D76f1834A1d425780943C99Ea8A608f8a93f9'', 18),
     (''MSFT'', ''0xe93237C50D904957Cf27E7B1133b510C669c2e74'', 18),
     (''AMZN'', ''0x12f190a9F9d7D37a250758b26824B97CE941bF54'', 18),
     (''GOOGL'', ''0x2e0847E8910a9732eB3fb1bb4b70a580ADAD4FE3'', 18),
     (''META'', ''0xc0D6457C16Cc70d6790Dd43521C899C87ce02f35'', 18),
     (''SPY'', ''0x117cc2133c37B721F49dE2A7a74833232B3B4C0C'', 18),
     (''USDG'', ''0x5fc5360D0400a0Fd4f2af552ADD042D716F1d168'', 6),
     (''WETH'', ''0x0Bd7D308f8E1639FAb988df18A8011f41EAcAD73'', 18)]"

definition resolve_token :: "string \<Rightarrow> string \<times> string \<times> nat" where
  "resolve_token token = (case find (\<lambda>t. eq_ignore_ascii_case (kt_symbol t) token) known_tokens of
       None \<Rightarrow> (token, token, 18)
     | Some t \<Rightarrow> (kt_symbol t, kt_address t, kt_decimals t))"

section \<open>An ERC-20 view\<close>

record token_meta =
  tm_address :: string
  tm_name :: string
  tm_symbol :: string
  tm_decimals :: u8

text \<open>A decimal from an integer and a number of places; what the package documents of it.\<close>

type_synonym scaled = "int \<Rightarrow> nat \<Rightarrow> message + dec"

definition scaled_ok :: "scaled \<Rightarrow> bool" where
  "scaled_ok D \<longleftrightarrow> (\<forall>m e d. D m e = Ok d \<longrightarrow> d * 10 ^ e = of_int m)"

definition erc20_new :: "hex_codec \<Rightarrow> string \<Rightarrow> string chain_result" where
  "erc20_new H address = and_then (address_word H address) (\<lambda>_. Ok (to_ascii_lowercase address))"

definition call0 ::
    "hex_codec \<Rightarrow> (bytes \<Rightarrow> bytes) \<Rightarrow> 'c client \<Rightarrow> string \<Rightarrow> string \<Rightarrow> 'c \<Rightarrow> bytes chain_result \<times> 'c" where
  "call0 H keccak request token sig c = eth_call H request token (calldata H (selector keccak sig) []) c"

definition erc20_decimals ::
    "hex_codec \<Rightarrow> (bytes \<Rightarrow> bytes) \<Rightarrow> 'c client \<Rightarrow> string \<Rightarrow> 'c \<Rightarrow> u8 chain_result \<times> 'c" where
  "erc20_decimals H keccak request token c =
     (let (r, c') = call0 H keccak request token ''decimals()'' c in
      (and_then r (\<lambda>ret. and_then (decode_u128 ret) (\<lambda>v.
         if v < 256 then Ok (ucast v)
         else Err (ChDecode [Lit ''decimals() = '', ShowInt (uint v), Lit '', out of range'']))), c'))"

definition erc20_text ::
    "hex_codec \<Rightarrow> (bytes \<Rightarrow> bytes) \<Rightarrow> 'c client \<Rightarrow> string \<Rightarrow> string \<Rightarrow> 'c \<Rightarrow> (string chain_result \<times> 'c) option" where
  "erc20_text H keccak request token sig c =
     (let (r, c') = call0 H keccak request token sig c in
      (case r of Inl e \<Rightarrow> Some (Err e, c') | Inr ret \<Rightarrow> do { s \<leftarrow> decode_string ret; Some (s, c') }))"

definition erc20_meta ::
    "hex_codec \<Rightarrow> (bytes \<Rightarrow> bytes) \<Rightarrow> 'c client \<Rightarrow> string \<Rightarrow> 'c \<Rightarrow> (token_meta chain_result \<times> 'c) option" where
  "erc20_meta H keccak request token c = do {
     (name, c1) \<leftarrow> erc20_text H keccak request token ''name()'' c;
     (case name of Inl e \<Rightarrow> Some (Err e, c1) | Inr n \<Rightarrow> do {
       (symb, c2) \<leftarrow> erc20_text H keccak request token ''symbol()'' c1;
       (case symb of Inl e \<Rightarrow> Some (Err e, c2) | Inr s \<Rightarrow>
         (let (d, c3) = erc20_decimals H keccak request token c2 in
          Some (and_then d (\<lambda>d. Ok \<lparr>tm_address = token, tm_name = n, tm_symbol = s, tm_decimals = d\<rparr>), c3))) }) }"

definition total_supply_raw ::
    "hex_codec \<Rightarrow> (bytes \<Rightarrow> bytes) \<Rightarrow> 'c client \<Rightarrow> string \<Rightarrow> 'c \<Rightarrow> u128 chain_result \<times> 'c" where
  "total_supply_raw H keccak request token c =
     (let (r, c') = call0 H keccak request token ''totalSupply()'' c in (and_then r decode_u128, c'))"

definition balance_of_raw ::
    "hex_codec \<Rightarrow> (bytes \<Rightarrow> bytes) \<Rightarrow> 'c client \<Rightarrow> string \<Rightarrow> string \<Rightarrow> 'c \<Rightarrow> u128 chain_result \<times> 'c" where
  "balance_of_raw H keccak request token account c = (case address_word H account of
       Inl e \<Rightarrow> (Err e, c)
     | Inr w \<Rightarrow> (let (r, c') = eth_call H request token (calldata H (selector keccak ''balanceOf(address)'') [w]) c
         in (and_then r decode_u128, c')))"

definition scale_amount :: "scaled \<Rightarrow> u128 \<Rightarrow> u8 \<Rightarrow> dec chain_result" where
  "scale_amount D raw decimals =
     (if 2 ^ 127 \<le> raw then Err (ChDecode [Lit ''amount exceeds i128''])
      else (case D (uint raw) (min (unat decimals) 28) of
          Inl e \<Rightarrow> Err (ChDecode (Lit ''amount does not fit Decimal: '' # e))
        | Inr d \<Rightarrow> Ok d))"

definition total_supply ::
    "scaled \<Rightarrow> hex_codec \<Rightarrow> (bytes \<Rightarrow> bytes) \<Rightarrow> 'c client \<Rightarrow> string \<Rightarrow> u8 \<Rightarrow> 'c \<Rightarrow> dec chain_result \<times> 'c" where
  "total_supply D H keccak request token decimals c =
     (let (r, c') = total_supply_raw H keccak request token c in (and_then r (\<lambda>raw. scale_amount D raw decimals), c'))"

definition balance_of ::
    "scaled \<Rightarrow> hex_codec \<Rightarrow> (bytes \<Rightarrow> bytes) \<Rightarrow> 'c client \<Rightarrow> string \<Rightarrow> string \<Rightarrow> u8 \<Rightarrow> 'c \<Rightarrow> dec chain_result \<times> 'c"
where
  "balance_of D H keccak request token account decimals c =
     (let (r, c') = balance_of_raw H keccak request token account c
      in (and_then r (\<lambda>raw. scale_amount D raw decimals), c'))"

section \<open>Pools\<close>

record pool_key =
  pk_currency0 :: string
  pk_currency1 :: string
  pk_fee :: u32
  pk_tick_spacing :: "32 word"      \<comment> \<open>signed\<close>
  pk_hooks :: string

definition pool_key_new ::
    "hex_codec \<Rightarrow> string \<Rightarrow> string \<Rightarrow> u32 \<Rightarrow> 32 word \<Rightarrow> string \<Rightarrow> pool_key chain_result" where
  "pool_key_new H a b fee tick_spacing hooks =
     and_then (address_word H a) (\<lambda>wa.
     and_then (address_word H b) (\<lambda>wb.
     let (c0, c1) = (if from_be wa \<le> from_be wb then (a, b) else (b, a)) in
     and_then (address_word H hooks) (\<lambda>_.
     Ok \<lparr>pk_currency0 = to_ascii_lowercase c0, pk_currency1 = to_ascii_lowercase c1, pk_fee = fee,
        pk_tick_spacing = tick_spacing, pk_hooks = to_ascii_lowercase hooks\<rparr>)))"

definition pool_id :: "hex_codec \<Rightarrow> (bytes \<Rightarrow> bytes) \<Rightarrow> pool_key \<Rightarrow> bytes chain_result" where
  "pool_id H keccak k =
     and_then (address_word H (pk_currency0 k)) (\<lambda>w0.
     and_then (address_word H (pk_currency1 k)) (\<lambda>w1.
     and_then (address_word H (pk_hooks k)) (\<lambda>wh.
     Ok (keccak (w0 @ w1 @ uint_word (ucast (pk_fee k)) @ int_word (scast (pk_tick_spacing k)) @ wh)))))"

record slot0 =
  s0_sqrt_price_x96 :: u128
  s0_tick :: "32 word"
  s0_protocol_fee :: u32
  s0_lp_fee :: u32

definition narrow_u32 :: "string \<Rightarrow> u128 \<Rightarrow> u32 chain_result" where
  "narrow_u32 what v = (if v < 2 ^ 32 then Ok (ucast v) else Err (ChDecode [Lit (what @ '' out of range'')]))"

definition decode_slot0 :: "bytes \<Rightarrow> slot0 chain_result" where
  "decode_slot0 ret =
     (if length ret < 128
      then Err (ChDecode [Lit ''getSlot0 returned '', ShowInt (int (length ret)), Lit '' bytes, expected 128''])
      else and_then (decode_u128 (take 32 ret)) (\<lambda>p.
        and_then (decode_i32 (take 32 (drop 32 ret))) (\<lambda>t.
        and_then (and_then (decode_u128 (take 32 (drop 64 ret))) (narrow_u32 ''protocolFee'')) (\<lambda>pf.
        and_then (and_then (decode_u128 (take 32 (drop 96 ret))) (narrow_u32 ''lpFee'')) (\<lambda>lf.
        Ok \<lparr>s0_sqrt_price_x96 = p, s0_tick = t, s0_protocol_fee = pf, s0_lp_fee = lf\<rparr>)))))"

definition get_slot0 ::
    "hex_codec \<Rightarrow> (bytes \<Rightarrow> bytes) \<Rightarrow> 'c client \<Rightarrow> string \<Rightarrow> bytes \<Rightarrow> 'c \<Rightarrow> slot0 chain_result \<times> 'c" where
  "get_slot0 H keccak request state_view pid c =
     (let (r, c') = eth_call H request (to_ascii_lowercase state_view)
        (calldata H (selector keccak ''getSlot0(bytes32)'') [pid]) c
      in (and_then r decode_slot0, c'))"

definition get_liquidity ::
    "hex_codec \<Rightarrow> (bytes \<Rightarrow> bytes) \<Rightarrow> 'c client \<Rightarrow> string \<Rightarrow> bytes \<Rightarrow> 'c \<Rightarrow> u128 chain_result \<times> 'c" where
  "get_liquidity H keccak request state_view pid c =
     (let (r, c') = eth_call H request (to_ascii_lowercase state_view)
        (calldata H (selector keccak ''getLiquidity(bytes32)'') [pid]) c
      in (and_then r decode_u128, c'))"

section \<open>Prices\<close>

definition u128_to_decimal :: "scaled \<Rightarrow> u128 \<Rightarrow> dec chain_result" where
  "u128_to_decimal D v =
     (if 2 ^ 127 \<le> v then Err (ChDecode [Lit ''value exceeds Decimal (128-bit signed)''])
      else (case D (uint v) 0 of
          Inl e \<Rightarrow> Err (ChDecode (Lit ''value exceeds Decimal: '' # e))
        | Inr d \<Rightarrow> Ok d))"

fun pow10_loop :: "arith \<Rightarrow> nat \<Rightarrow> dec \<Rightarrow> dec option" where
  "pow10_loop A 0 r = Some r"
| "pow10_loop A (Suc n) r = do { r' \<leftarrow> d_mul A r 10; pow10_loop A n r' }"

definition pow10 :: "arith \<Rightarrow> int \<Rightarrow> (dec chain_result) option" where
  "pow10 A e =
     (if e < 0 \<or> 28 < e
      then Some (Err (ChDecode [Lit ''decimal-adjustment exponent '', ShowInt e, Lit '' out of supported range'']))
      else map_option Inr (pow10_loop A (nat e) 1))"

definition price_from_sqrt_price_x96 :: "arith \<Rightarrow> scaled \<Rightarrow> u128 \<Rightarrow> u8 \<Rightarrow> u8 \<Rightarrow> (dec chain_result) option" where
  "price_from_sqrt_price_x96 A D sqrt_price_x96 decimals0 decimals1 =
     attempt (Some (u128_to_decimal D (drop_bit 48 sqrt_price_x96))) (\<lambda>hi.
     attempt (Some (u128_to_decimal D (push_bit 48 1))) (\<lambda>divisor. do {
       ratio \<leftarrow> d_div A hi divisor;
       raw_price \<leftarrow> d_mul A ratio ratio;
       let e = uint decimals0 - uint decimals1;
       (if 0 \<le> e then attempt (pow10 A e) (\<lambda>p. map_option Inr (d_mul A raw_price p))
        else attempt (pow10 A (- e)) (\<lambda>p. map_option Inr (d_div A raw_price p))) }))"

section \<open>Discovery\<close>

definition initialize_topic :: string where
  "initialize_topic = ''0xdd466e674ea557f56295e2d0218a125ea4b4f0f6f3307b95f85e6110838d6438''"

definition topic_from_address :: "hex_codec \<Rightarrow> string \<Rightarrow> string chain_result" where
  "topic_from_address H addr = and_then (address_word H addr) (\<lambda>w. Ok (to_hex H w))"

text \<open>The text from byte 24 on; a shorter one, or one cut inside a character, panics.\<close>

definition slice_from :: "nat \<Rightarrow> string \<Rightarrow> string option" where
  "slice_from n s = (if n \<le> length s \<and> is_char_boundary s n then Some (drop n s) else None)"

definition decode_initialize :: "hex_codec \<Rightarrow> string list \<Rightarrow> string \<Rightarrow> (pool_key option) option" where
  "decode_initialize H topics data =
     (if length topics < 4 then Some None
      else do {
        t0 \<leftarrow> slice_from 24 (strip0x (topics ! 2));
        t1 \<leftarrow> slice_from 24 (strip0x (topics ! 3));
        Some (case from_hex H data of
            Inl _ \<Rightarrow> None
          | Inr raw \<Rightarrow>
              if length raw < 96 then None
              else (case (and_then (decode_u128 (take 32 raw)) (narrow_u32 ''fee''),
                      decode_i32 (take 32 (drop 32 raw)), decode_address H (take 32 (drop 64 raw))) of
                  (Inr fee, Inr ts, Inr hooks) \<Rightarrow> Some \<lparr>pk_currency0 = ''0x'' @ t0, pk_currency1 = ''0x'' @ t1,
                     pk_fee = fee, pk_tick_spacing = ts, pk_hooks = hooks\<rparr>
                | _ \<Rightarrow> None)) })"

fun decode_all :: "hex_codec \<Rightarrow> rpc_log list \<Rightarrow> (pool_key list) option" where
  "decode_all H [] = Some []"
| "decode_all H (l # ls) = do {
     k \<leftarrow> decode_initialize H (rl_topics l) (rl_data l);
     ks \<leftarrow> decode_all H ls;
     Some (case k of None \<Rightarrow> ks | Some k \<Rightarrow> k # ks) }"

text \<open>Two scans, the second not made when the first fails; only neighbours are deduplicated.\<close>

definition two_scans ::
    "hex_codec \<Rightarrow> (json \<Rightarrow> message + raw_log list) \<Rightarrow> 'c client \<Rightarrow> log_filter \<Rightarrow> log_filter \<Rightarrow> 'c
      \<Rightarrow> (pool_key list chain_result \<times> 'c) option"
where
  "two_scans H from_value request f0 f1 c = (case get_logs from_value request f0 c of
       (Inl e, c1) \<Rightarrow> Some (Err e, c1)
     | (Inr logs0, c1) \<Rightarrow> do {
         ks0 \<leftarrow> decode_all H logs0;
         (case get_logs from_value request f1 c1 of
            (Inl e, c2) \<Rightarrow> Some (Err e, c2)
          | (Inr logs1, c2) \<Rightarrow> do {
              ks1 \<leftarrow> decode_all H logs1;
              Some (Ok (remdups_adj (ks0 @ ks1)), c2) }) })"

definition discover_pools ::
    "hex_codec \<Rightarrow> (json \<Rightarrow> message + raw_log list) \<Rightarrow> 'c client \<Rightarrow> string \<Rightarrow> string \<Rightarrow> u64 \<Rightarrow> u64 \<Rightarrow> 'c
      \<Rightarrow> (pool_key list chain_result \<times> 'c) option"
where
  "discover_pools H from_value request pool_manager token from_block to_block c =
     (case topic_from_address H token of
        Inl e \<Rightarrow> Some (Err e, c)
      | Inr t \<Rightarrow> (let f = (\<lambda>topics. \<lparr>lf_address = Some (to_ascii_lowercase pool_manager), lf_topics = topics,
            lf_from_block = from_block, lf_to_block = to_block\<rparr>)
          in two_scans H from_value request (f [Some initialize_topic, None, Some t])
            (f [Some initialize_topic, None, None, Some t]) c))"

definition discover_pools_for_pair ::
    "hex_codec \<Rightarrow> (json \<Rightarrow> message + raw_log list) \<Rightarrow> 'c client \<Rightarrow> string \<Rightarrow> string \<Rightarrow> string \<Rightarrow> u64 \<Rightarrow> u64 \<Rightarrow> 'c
      \<Rightarrow> (pool_key list chain_result \<times> 'c) option"
where
  "discover_pools_for_pair H from_value request pool_manager token denom from_block to_block c =
     (case topic_from_address H token of
        Inl e \<Rightarrow> Some (Err e, c)
      | Inr t \<Rightarrow> (case topic_from_address H denom of
          Inl e \<Rightarrow> Some (Err e, c)
        | Inr d \<Rightarrow> (let f = (\<lambda>topics. \<lparr>lf_address = Some (to_ascii_lowercase pool_manager), lf_topics = topics,
              lf_from_block = from_block, lf_to_block = to_block\<rparr>)
            in two_scans H from_value request (f [Some initialize_topic, None, Some t, Some d])
              (f [Some initialize_topic, None, Some d, Some t]) c)))"

record ranked_pool =
  rk_key :: pool_key
  rk_liquidity :: u128

fun read_liquidity ::
    "hex_codec \<Rightarrow> (bytes \<Rightarrow> bytes) \<Rightarrow> 'c client \<Rightarrow> string \<Rightarrow> pool_key list \<Rightarrow> 'c \<Rightarrow> ranked_pool list \<times> 'c" where
  "read_liquidity H keccak request state_view [] c = ([], c)"
| "read_liquidity H keccak request state_view (k # ks) c = (case pool_id H keccak k of
       Inl _ \<Rightarrow> read_liquidity H keccak request state_view ks c
     | Inr pid \<Rightarrow> (let (r, c1) = get_liquidity H keccak request state_view pid c;
           (ps, c2) = read_liquidity H keccak request state_view ks c1
         in (case r of
               Inr l \<Rightarrow> if 0 < l then \<lparr>rk_key = k, rk_liquidity = l\<rparr> # ps else ps
             | Inl _ \<Rightarrow> ps, c2)))"

definition rank_by_liquidity ::
    "hex_codec \<Rightarrow> (bytes \<Rightarrow> bytes) \<Rightarrow> 'c client \<Rightarrow> string \<Rightarrow> pool_key list \<Rightarrow> 'c \<Rightarrow> ranked_pool list \<times> 'c" where
  "rank_by_liquidity H keccak request state_view ks c =
     (let (ps, c') = read_liquidity H keccak request state_view ks c
      in (sort_key (\<lambda>p. - uint (rk_liquidity p)) ps, c'))"

definition find_best_pool ::
    "hex_codec \<Rightarrow> (bytes \<Rightarrow> bytes) \<Rightarrow> (json \<Rightarrow> message + raw_log list) \<Rightarrow> 'c client \<Rightarrow> string \<Rightarrow> string
      \<Rightarrow> string \<Rightarrow> string \<Rightarrow> u64 \<Rightarrow> u64 \<Rightarrow> 'c \<Rightarrow> (ranked_pool chain_result \<times> 'c) option"
where
  "find_best_pool H keccak from_value request pool_manager state_view token denom from_block to_block c = do {
     (r, c1) \<leftarrow> discover_pools_for_pair H from_value request pool_manager token denom from_block to_block c;
     (case r of
        Inl e \<Rightarrow> Some (Err e, c1)
      | Inr [] \<Rightarrow> Some (Err (ChNotFound [Lit ''no '', Lit token, Lit ''/'', Lit denom, Lit '' pool found'']), c1)
      | Inr candidates \<Rightarrow> (case rank_by_liquidity H keccak request state_view candidates c1 of
            ([], c2) \<Rightarrow> Some (Err (ChNotFound [Lit ''no liquid '', Lit token, Lit ''/'', Lit denom,
              Lit '' pool found'']), c2)
          | (p # _, c2) \<Rightarrow> Some (Ok p, c2))) }"

definition quote_pool ::
    "arith \<Rightarrow> scaled \<Rightarrow> hex_codec \<Rightarrow> (bytes \<Rightarrow> bytes) \<Rightarrow> 'c client \<Rightarrow> string \<Rightarrow> pool_key \<Rightarrow> string \<Rightarrow> u8 \<Rightarrow> u8 \<Rightarrow> 'c
      \<Rightarrow> (dec chain_result \<times> 'c) option"
where
  "quote_pool A D H keccak request state_view pool token dec_token dec_denom c =
     (case pool_id H keccak pool of
        Inl e \<Rightarrow> Some (Err e, c)
      | Inr pid \<Rightarrow> (case get_slot0 H keccak request state_view pid c of
          (Inl e, c1) \<Rightarrow> Some (Err e, c1)
        | (Inr s0, c1) \<Rightarrow> (let is0 = eq_ignore_ascii_case (pk_currency0 pool) token in do {
            r \<leftarrow> attempt (price_from_sqrt_price_x96 A D (s0_sqrt_price_x96 s0)
                (if is0 then dec_token else dec_denom) (if is0 then dec_denom else dec_token)) (\<lambda>p.
              if is0 then Some (Ok p)
              else if p = 0 then Some (Err (ChDecode [Lit ''pool price is zero'']))
              else map_option Inr (d_div A 1 p));
            Some (r, c1) })))"

definition read_price ::
    "arith \<Rightarrow> scaled \<Rightarrow> hex_codec \<Rightarrow> (bytes \<Rightarrow> bytes) \<Rightarrow> (json \<Rightarrow> message + raw_log list) \<Rightarrow> 'c client \<Rightarrow> string
      \<Rightarrow> string \<Rightarrow> string \<Rightarrow> string \<Rightarrow> u8 \<Rightarrow> u8 \<Rightarrow> u64 \<Rightarrow> u64 \<Rightarrow> 'c
      \<Rightarrow> ((dec \<times> ranked_pool) chain_result \<times> 'c) option"
where
  "read_price A D H keccak from_value request pool_manager state_view token denom dec_token dec_denom
     from_block to_block c = do {
     (r, c1) \<leftarrow> find_best_pool H keccak from_value request pool_manager state_view token denom from_block to_block c;
     (case r of
        Inl e \<Rightarrow> Some (Err e, c1)
      | Inr best \<Rightarrow> do {
          (q, c2) \<leftarrow> quote_pool A D H keccak request state_view (rk_key best) token dec_token dec_denom c1;
          Some (and_then q (\<lambda>price. Ok (price, best)), c2) }) }"

section \<open>Properties\<close>

text \<open>
  Amounts scale exactly. Where the result is built at all, it times ten to the number of
  decimals is the amount read from the chain, up to 28 decimals; a token with more is scaled
  by 28 places only, so every amount but zero comes out too large.
\<close>

theorem scaled_amount_is_exact:
  assumes "scaled_ok D" and "scale_amount D raw decimals = Ok d"
  shows "d * 10 ^ min (unat decimals) 28 = of_int (uint raw)
    \<and> (28 < decimals \<and> raw \<noteq> 0 \<longrightarrow> of_int (uint raw) < d * 10 ^ unat decimals)"
proof -
  have "D (uint raw) (min (unat decimals) 28) = Ok d"
    using assms(2) by (simp add: scale_amount_def split: if_splits sum.splits)
  then have eq: "d * 10 ^ min (unat decimals) 28 = of_int (uint raw)"
    using assms(1) unfolding scaled_ok_def by blast
  moreover have "of_int (uint raw) < d * 10 ^ unat decimals" if "28 < decimals" "raw \<noteq> 0"
  proof -
    have dec: "28 < unat decimals" using that(1) by (simp add: word_less_nat_alt)
    have pos: "0 < (of_int (uint raw) :: rat)"
      using that(2) by (metis of_int_0_less_iff order_le_less uint_0_iff uint_ge_0)
    have e: "d * 10 ^ 28 = of_int (uint raw)" using eq dec by (simp add: min_def)
    have "0 < d" using pos unfolding e [symmetric] by (simp add: zero_less_mult_iff)
    moreover have "(10 :: rat) ^ 28 < 10 ^ unat decimals" using dec by (intro power_strict_increasing) auto
    ultimately show ?thesis using e mult_strict_left_mono by metis
  qed
  ultimately show ?thesis by blast
qed

definition exact_scaled :: scaled where
  "exact_scaled m e = Ok (of_int m / 10 ^ e)"

lemma exact_scaled_ok: "scaled_ok exact_scaled"
  by (simp add: scaled_ok_def exact_scaled_def)

theorem scaled_amount_is_exact_witness:
  "scale_amount exact_scaled 2500000 6 = Ok (5 / 2) \<and> (5 / 2 :: rat) * 10 ^ min (unat (6 :: u8)) 28 = 2500000"
proof -
  have "scale_amount exact_scaled 2500000 6 = Ok (5 / 2)"
    by (simp add: scale_amount_def exact_scaled_def)
  with scaled_amount_is_exact [OF exact_scaled_ok this] show ?thesis by simp
qed

text \<open>
  The identifier of a pool hashes the smaller currency first, whichever order and letter
  case the two are given in.
\<close>

theorem pool_id_of_a_pair:
  assumes "hex_ok H" and "address_word H a = Ok wa" and "address_word H b = Ok wb"
    and "address_word H hooks = Ok wh"
  shows "\<exists>k. pool_key_new H a b fee ts hooks = Ok k
    \<and> pool_id H keccak k = Ok (keccak ((if from_be wa \<le> from_be wb then wa @ wb else wb @ wa)
        @ uint_word (ucast fee) @ int_word (scast ts) @ wh))
    \<and> (\<exists>k'. pool_key_new H b a fee ts hooks = Ok k' \<and> pool_id H keccak k' = pool_id H keccak k)"
proof -
  note lower = address_word_lower [OF assms(1)]
  have "length wa = 32" "length wb = 32" using assms(2,3) length_address_word by blast+
  then have same: "wa = wb" if "from_be wa = from_be wb" using that from_be_inject by metis
  consider "from_be wa < from_be wb" | "from_be wb < from_be wa" | "wa = wb"
    using same by linarith
  then show ?thesis
    by cases (simp_all add: pool_key_new_def pool_id_def and_then_def assms lower [OF assms(2)]
      lower [OF assms(3)] lower [OF assms(4)])
qed

definition demo_usdg :: string where
  "demo_usdg = ''0x5fc5360D0400a0Fd4f2af552ADD042D716F1d168''"

definition demo_nvda :: string where
  "demo_nvda = ''0xd0601CE157Db5bdC3162BbaC2a2C8aF5320D9EEC''"

definition demo_zero :: string where
  "demo_zero = ''0x0000000000000000000000000000000000000000''"

lemma demo_words:
  "address_word plain_hex demo_zero = Ok (replicate 32 0)"
  "(case address_word plain_hex demo_nvda of Inl _ \<Rightarrow> False | Inr _ \<Rightarrow> True)"
  "(case address_word plain_hex demo_usdg of Inl _ \<Rightarrow> False | Inr _ \<Rightarrow> True)"
  by code_simp+

theorem pool_id_of_a_pair_witness:
  "\<exists>k k' i. pool_key_new plain_hex demo_usdg demo_nvda 900000 18000 demo_zero = Ok k
     \<and> pool_key_new plain_hex demo_nvda demo_usdg 900000 18000 demo_zero = Ok k'
     \<and> pool_id plain_hex (take 32) k = Ok i \<and> pool_id plain_hex (take 32) k' = Ok i"
proof -
  obtain wa wb where "address_word plain_hex demo_usdg = Ok wa" "address_word plain_hex demo_nvda = Ok wb"
    using demo_words(2,3) by (auto split: sum.splits)
  from pool_id_of_a_pair [OF plain_hex_ok this demo_words(1), of 900000 18000 "take 32"]
  show ?thesis by auto
qed

text \<open>The value of a price in exact arithmetic.\<close>

lemma pow10_loop_exact: "pow10_loop exact_arith n r = Some (r * 10 ^ n)"
  by (induction n arbitrary: r) (simp_all add: mult_ac)

lemma pow10_exact: "pow10 exact_arith e = Some (Ok x) \<Longrightarrow> 0 \<le> e \<and> x = 10 ^ nat e"
  by (auto simp: pow10_def pow10_loop_exact split: if_splits)

lemma scaled_okD: "scaled_ok D \<Longrightarrow> D m 0 = Ok d \<Longrightarrow> d = of_int m"
  unfolding scaled_ok_def by (metis mult.right_neutral power_0)

lemma u128_to_decimal_value: "scaled_ok D \<Longrightarrow> u128_to_decimal D v = Ok d \<Longrightarrow> d = of_nat (unat v)"
  using scaled_okD [of D "uint v" d] by (simp add: u128_to_decimal_def split: if_splits sum.splits)

lemma nat_uint_diff: "nat (uint a - uint b) = unat a - unat b"
proof -
  have "nat (int m - int n) = m - n" for m n :: nat by simp
  then have "nat (int (unat a) - int (unat b)) = unat a - unat b" .
  then show ?thesis by simp
qed

lemma pool_price_value:
  assumes "scaled_ok D" and "price_from_sqrt_price_x96 exact_arith D sqrtp d0 d1 = Some (Ok p)"
  shows "p = (of_nat (unat sqrtp div 2 ^ 48) / 2 ^ 48) ^ 2 * (10 ^ unat d0 / 10 ^ unat d1)"
proof -
  have "unat (drop_bit 48 sqrtp) = unat sqrtp div 2 ^ 48"
    by (simp add: drop_bit_eq_div unat_div)
  then have hi: "h = of_nat (unat sqrtp div 2 ^ 48)" if "u128_to_decimal D (drop_bit 48 sqrtp) = Ok h" for h
    using u128_to_decimal_value [OF assms(1) that] by simp
  have div: "d = 2 ^ 48" if "u128_to_decimal D (push_bit 48 1) = Ok d" for d
    using u128_to_decimal_value [OF assms(1) that] by simp
  have up: "10 ^ nat (uint d0 - uint d1) = (10 ^ unat d0 / 10 ^ unat d1 :: rat)" if "uint d1 \<le> uint d0"
  proof -
    have "unat d1 \<le> unat d0" using that by (simp add: word_le_nat_alt flip: word_le_def)
    then show ?thesis by (simp add: nat_uint_diff power_diff)
  qed
  have down: "(x :: rat) / 10 ^ nat (uint d1 - uint d0) = x * (10 ^ unat d0 / 10 ^ unat d1)" if "uint d0 \<le> uint d1" for x
  proof -
    have "unat d0 \<le> unat d1" using that by (simp add: word_le_nat_alt flip: word_le_def)
    then show ?thesis by (simp add: nat_uint_diff power_diff)
  qed
  from assms(2) obtain h d r q where h: "u128_to_decimal D (drop_bit 48 sqrtp) = Ok h"
    and d: "u128_to_decimal D (push_bit 48 1) = Ok d"
    and r: "d_div exact_arith h d = Some r" and q: "d_mul exact_arith r r = Some q"
    and tail: "(let e = uint d0 - uint d1 in
       if 0 \<le> e then attempt (pow10 exact_arith e) (\<lambda>p. map_option Inr (d_mul exact_arith q p))
       else attempt (pow10 exact_arith (- e)) (\<lambda>p. map_option Inr (d_div exact_arith q p))) = Some (Ok p)"
    unfolding price_from_sqrt_price_x96_def attempt_Ok_iff bind_Some_iff option.inject by blast
  have q': "q = h / 2 ^ 48 * (h / 2 ^ 48)" using r q div [OF d] by simp
  have "p = q * (10 ^ unat d0 / 10 ^ unat d1)"
  proof (cases "uint d1 \<le> uint d0")
    case True
    with tail obtain x where "pow10 exact_arith (uint d0 - uint d1) = Some (Ok x)" "p = q * x"
      by (auto simp: Let_def attempt_Ok_iff)
    with True show ?thesis using up pow10_exact by metis
  next
    case False
    with tail obtain x where "pow10 exact_arith (uint d1 - uint d0) = Some (Ok x)" "x \<noteq> 0" "p = q / x"
      by (auto simp: Let_def attempt_Ok_iff split: if_splits)
    with False show ?thesis using down [of q] pow10_exact by (metis linear)
  qed
  then show ?thesis by (simp only: hi [OF h] q' power2_eq_square)
qed

text \<open>
  What a pool's price says. In exact arithmetic the price is built from the square root cut
  to its bits above the 48th: it never exceeds the true price, and it falls short of it by
  less than the ratio of two neighbouring squares of the cut root, nothing better. A root
  below two to the 48th is priced at zero.
\<close>

theorem pool_price_bounds:
  assumes "scaled_ok D" and "price_from_sqrt_price_x96 exact_arith D sqrtp d0 d1 = Some (Ok p)"
  defines "true_price \<equiv> (of_nat (unat sqrtp) / 2 ^ 96) ^ 2 * (10 ^ unat d0 / 10 ^ unat d1)"
    and "h \<equiv> of_nat (unat sqrtp div 2 ^ 48) :: rat"
  shows "p = (h / 2 ^ 48) ^ 2 * (10 ^ unat d0 / 10 ^ unat d1) \<and> p \<le> true_price
    \<and> h ^ 2 * true_price \<le> (h + 1) ^ 2 * p"
proof -
  let ?s = "10 ^ unat d0 / 10 ^ unat d1 :: rat"
  have p: "p = (h / 2 ^ 48) ^ 2 * ?s"
    using assms(1,2) h_def pool_price_value by blast
  let ?x = "of_nat (unat sqrtp) / 2 ^ 48 :: rat"
  have "unat sqrtp div 2 ^ 48 * 2 ^ 48 \<le> unat sqrtp" "unat sqrtp < (unat sqrtp div 2 ^ 48 + 1) * 2 ^ 48"
    using div_mult_mod_eq [of "unat sqrtp" "2 ^ 48"] mod_less_divisor [of "2 ^ 48" "unat sqrtp"] by simp_all
  then have "(of_nat (unat sqrtp div 2 ^ 48 * 2 ^ 48) :: rat) \<le> of_nat (unat sqrtp)"
    "(of_nat (unat sqrtp) :: rat) < of_nat ((unat sqrtp div 2 ^ 48 + 1) * 2 ^ 48)"
    by (simp_all only: of_nat_le_iff of_nat_less_iff)
  then have x: "h \<le> ?x" "?x \<le> h + 1" "0 \<le> h"
    by (simp_all add: h_def field_simps)
  have s: "0 < ?s" by simp
  have sq: "h ^ 2 \<le> ?x ^ 2" "?x ^ 2 \<le> (h + 1) ^ 2" using x by (intro power_mono; simp)+
  have t: "true_price = ?x ^ 2 / 2 ^ 96 * ?s" by (simp add: true_price_def power_divide)
  have p': "p = h ^ 2 / 2 ^ 96 * ?s" by (simp add: p power_divide)
  have "p \<le> true_price" unfolding t p' using sq s by (intro mult_right_mono divide_right_mono) auto
  moreover have "h ^ 2 * true_price \<le> (h + 1) ^ 2 * p"
  proof -
    have "h ^ 2 * ?x ^ 2 \<le> (h + 1) ^ 2 * h ^ 2" using sq by (metis mult.commute mult_right_mono zero_le_power2)
    then have "h ^ 2 * ?x ^ 2 * (?s / 2 ^ 96) \<le> (h + 1) ^ 2 * h ^ 2 * (?s / 2 ^ 96)"
      using s by (intro mult_right_mono) auto
    then show ?thesis by (simp add: t p' mult_ac)
  qed
  ultimately show ?thesis using p by blast
qed

theorem pool_price_bounds_witness:
  "\<exists>p. price_from_sqrt_price_x96 exact_arith exact_scaled (2 ^ 97 + 7) 6 6 = Some (Ok p) \<and> p = 4
     \<and> p \<le> (of_nat (unat (2 ^ 97 + 7 :: u128)) / 2 ^ 96) ^ 2 * (10 ^ unat (6 :: u8) / 10 ^ unat (6 :: u8))"
proof -
  have "price_from_sqrt_price_x96 exact_arith exact_scaled (2 ^ 97 + 7) 6 6 = Some (Ok 4)"
    by (simp add: price_from_sqrt_price_x96_def u128_to_decimal_def exact_scaled_def pow10_def attempt_def)
  with pool_price_bounds [OF exact_scaled_ok this] show ?thesis by blast
qed

text \<open>A node whose answers do not change between the calls of one lookup.\<close>

definition steady :: "'c client \<Rightarrow> bool" where
  "steady request \<longleftrightarrow> (\<forall>c c' m p. fst (request c m p) = fst (request c' m p))"

lemma steady_liquidity:
  "steady request \<Longrightarrow> fst (get_liquidity H keccak request sv pid c) = fst (get_liquidity H keccak request sv pid c')"
  unfolding steady_def get_liquidity_def eth_call_def call_inner_def
  by (simp add: case_prod_beta Let_def) metis

text \<open>The pools that were read: a pool with the liquidity the node gives, if that is positive.\<close>

lemma read_liquidity_set:
  assumes "steady request"
  shows "p \<in> set (fst (read_liquidity H keccak request sv ks c))
    \<longleftrightarrow> rk_key p \<in> set ks \<and> 0 < rk_liquidity p
      \<and> (\<exists>pid. pool_id H keccak (rk_key p) = Ok pid
          \<and> fst (get_liquidity H keccak request sv pid c0) = Ok (rk_liquidity p))"
proof (induction ks arbitrary: c)
  case Nil
  then show ?case by simp
next
  case (Cons k ks)
  show ?case
  proof (cases "pool_id H keccak k")
    case (Inl e)
    with Cons show ?thesis by auto
  next
    case (Inr pid)
    have st: "fst (get_liquidity H keccak request sv pid c) = fst (get_liquidity H keccak request sv pid c0)"
      by (rule steady_liquidity [OF assms])
    obtain r c1 where r: "get_liquidity H keccak request sv pid c = (r, c1)" by force
    obtain ps c2 where ps: "read_liquidity H keccak request sv ks c1 = (ps, c2)" by force
    from Cons [of c1] ps Inr r st show ?thesis
      by (cases p) (auto split: sum.splits)
  qed
qed

lemma find_best_pool_Ok:
  assumes "find_best_pool H keccak from_value request pm sv token denom from_block to_block c = Some (Ok p, c')"
  shows "\<exists>ks c1 ps. discover_pools_for_pair H from_value request pm token denom from_block to_block c = Some (Ok ks, c1)
    \<and> rank_by_liquidity H keccak request sv ks c1 = (p # ps, c')"
proof -
  from assms obtain r c1 where d: "discover_pools_for_pair H from_value request pm token denom from_block to_block c = Some (r, c1)"
    by (auto simp: find_best_pool_def bind_Some_iff)
  show ?thesis
  proof (cases r)
    case (Inl e)
    with assms d show ?thesis by (simp add: find_best_pool_def)
  next
    case (Inr ks)
    obtain qs c2 where q: "rank_by_liquidity H keccak request sv ks c1 = (qs, c2)" by force
    with assms d Inr show ?thesis by (cases ks; cases qs) (auto simp: find_best_pool_def)
  qed
qed

text \<open>
  The pool a price is read from is a deepest one. Against a node whose answers do not change
  during the lookup, the pool found is one of the pools that the log scan gave for the pair,
  it has liquidity, the node reports that liquidity for its identifier, and no other pool of
  the scan has more.
\<close>

theorem best_pool_is_the_deepest:
  assumes "steady request"
    and "find_best_pool H keccak from_value request pm sv token denom from_block to_block c = Some (Ok p, c')"
  shows "\<exists>ks c1. discover_pools_for_pair H from_value request pm token denom from_block to_block c = Some (Ok ks, c1)
    \<and> rk_key p \<in> set ks \<and> 0 < rk_liquidity p
    \<and> (\<exists>pid. pool_id H keccak (rk_key p) = Ok pid \<and> fst (get_liquidity H keccak request sv pid c) = Ok (rk_liquidity p))
    \<and> (\<forall>k \<in> set ks. \<forall>pid l. pool_id H keccak k = Ok pid
         \<and> fst (get_liquidity H keccak request sv pid c) = Ok l \<longrightarrow> l \<le> rk_liquidity p)"
proof -
  from find_best_pool_Ok [OF assms(2)] obtain ks c1 ps where
    ks: "discover_pools_for_pair H from_value request pm token denom from_block to_block c = Some (Ok ks, c1)"
    and ps: "rank_by_liquidity H keccak request sv ks c1 = (p # ps, c')" by blast
  from ps have srt: "sort_key (\<lambda>p. - uint (rk_liquidity p)) (fst (read_liquidity H keccak request sv ks c1)) = p # ps"
    by (auto simp: rank_by_liquidity_def Let_def split: prod.splits)
  from arg_cong [where f = set, OF srt] have read: "set (fst (read_liquidity H keccak request sv ks c1)) = insert p (set ps)"
    by simp
  have top: "rk_liquidity q \<le> rk_liquidity p" if "q \<in> set (fst (read_liquidity H keccak request sv ks c1))" for q
    using that sorted_sort_key [of "\<lambda>p. - uint (rk_liquidity p)" "fst (read_liquidity H keccak request sv ks c1)"]
    unfolding srt read by (auto simp: word_le_def)
  note mem = read_liquidity_set [OF assms(1), where ?c0.0 = c and ks = ks and c = c1 and H = H and keccak = keccak and sv = sv]
  have "l \<le> rk_liquidity p"
    if "k \<in> set ks" "pool_id H keccak k = Ok pid" "fst (get_liquidity H keccak request sv pid c) = Ok l" for k pid l
    using top [of "\<lparr>rk_key = k, rk_liquidity = l\<rparr>"] mem [of "\<lparr>rk_key = k, rk_liquidity = l\<rparr>"] that
    by (cases "l = 0") (auto simp: word_gt_0)
  moreover have "p \<in> set (fst (read_liquidity H keccak request sv ks c1))" using read by simp
  ultimately show ?thesis using ks mem [of p] by blast
qed

text \<open>The pools that a list of logs announces.\<close>

lemma decode_all_set:
  "decode_all H ls = Some ks \<Longrightarrow>
    set ks = {k. \<exists>l \<in> set ls. decode_initialize H (rl_topics l) (rl_data l) = Some (Some k)}"
  by (induction ls arbitrary: ks) (auto simp: bind_Some_iff split: option.splits)

lemma two_scans_Ok:
  assumes "two_scans H from_value request f0 f1 c = Some (Ok ks, c')"
  obtains logs0 c1 ks0 logs1 ks1 where "get_logs from_value request f0 c = (Ok logs0, c1)"
    "decode_all H logs0 = Some ks0" "get_logs from_value request f1 c1 = (Ok logs1, c')"
    "decode_all H logs1 = Some ks1" "ks = remdups_adj (ks0 @ ks1)"
proof -
  obtain r0 c1 where r0: "get_logs from_value request f0 c = (r0, c1)" by force
  with assms obtain logs0 where l0: "r0 = Ok logs0" by (cases r0) (auto simp: two_scans_def)
  with assms r0 obtain ks0 where k0: "decode_all H logs0 = Some ks0"
    by (auto simp: two_scans_def bind_Some_iff)
  obtain r1 c2 where r1: "get_logs from_value request f1 c1 = (r1, c2)" by force
  with assms r0 l0 k0 obtain logs1 where l1: "r1 = Ok logs1" by (cases r1) (auto simp: two_scans_def)
  with assms r0 l0 k0 r1 obtain ks1 where "decode_all H logs1 = Some ks1" "ks = remdups_adj (ks0 @ ks1)" "c' = c2"
    by (auto simp: two_scans_def bind_Some_iff)
  with r0 l0 k0 r1 l1 show thesis by (auto intro: that)
qed

definition pair_filter :: "string \<Rightarrow> string \<Rightarrow> string \<Rightarrow> u64 \<Rightarrow> u64 \<Rightarrow> log_filter" where
  "pair_filter pool_manager t0 t1 from_block to_block =
     \<lparr>lf_address = Some (to_ascii_lowercase pool_manager),
      lf_topics = [Some initialize_topic, None, Some t0, Some t1],
      lf_from_block = from_block, lf_to_block = to_block\<rparr>"

text \<open>
  C30. The scan for a pair misses no pool and invents none. Against a node that serves the logs
  of a chain, for the two orders of the currencies, the pools found are exactly those that
  some log of the pool manager in the range announces.
\<close>

theorem discovery_finds_every_pool:
  assumes "topic_from_address H token = Ok t" and "topic_from_address H denom = Ok d"
    and "serves_logs from_value request chain0 (pair_filter pm t d from_block to_block)" and "decoded_chain chain0"
    and "serves_logs from_value request chain1 (pair_filter pm d t from_block to_block)" and "decoded_chain chain1"
    and "discover_pools_for_pair H from_value request pm token denom from_block to_block c = Some (Ok ks, c')"
  shows "set ks = {k. \<exists>l \<in> set (map snd (chain0 @ chain1)).
    from_block \<le> rl_block_number l \<and> rl_block_number l \<le> to_block
    \<and> decode_initialize H (rl_topics l) (rl_data l) = Some (Some k)}"
proof -
  from assms(1,2,7) have "two_scans H from_value request (pair_filter pm t d from_block to_block)
      (pair_filter pm d t from_block to_block) c = Some (Ok ks, c')"
    by (simp add: discover_pools_for_pair_def pair_filter_def Let_def)
  then obtain logs0 c1 ks0 logs1 ks1 where
    l: "get_logs from_value request (pair_filter pm t d from_block to_block) c = (Ok logs0, c1)"
      "get_logs from_value request (pair_filter pm d t from_block to_block) c1 = (Ok logs1, c')"
    and k: "decode_all H logs0 = Some ks0" "decode_all H logs1 = Some ks1" "ks = remdups_adj (ks0 @ ks1)"
    by (rule two_scans_Ok)
  note whole = bisecting_complete [OF assms(3,4) l(1) [unfolded get_logs_def]]
    bisecting_complete [OF assms(5,6) l(2) [unfolded get_logs_def]]
  show ?thesis
    using decode_all_set [OF k(1)] decode_all_set [OF k(2)]
    by (auto simp: k(3) whole in_range_def pair_filter_def) force+
qed

text \<open>
  A node with two pools of USDG and NVDA, created in blocks 1 and 3. The liquidity it reports
  is the word it is asked for; with a hash that keeps the fee of a pool, that is the fee.
\<close>

definition plain_address :: "string \<Rightarrow> string" where
  "plain_address addr = to_ascii_lowercase (drop 2 addr)"

definition topic_of :: "string \<Rightarrow> string" where
  "topic_of addr = ''0x000000000000000000000000'' @ plain_address addr"

definition init_log :: "u64 \<Rightarrow> u32 \<Rightarrow> rpc_log" where
  "init_log n fee = \<lparr>rl_address = ''0xpm'',
     rl_topics = [initialize_topic, '''', topic_of demo_usdg, topic_of demo_nvda],
     rl_data = to_hex plain_hex (uint_word (ucast fee) @ int_word (scast (60 :: 32 word)) @ replicate 32 0),
     rl_block_number = n\<rparr>"

definition pair_pool :: "u32 \<Rightarrow> pool_key" where
  "pair_pool fee = \<lparr>pk_currency0 = ''0x'' @ plain_address demo_usdg, pk_currency1 = ''0x'' @ plain_address demo_nvda,
     pk_fee = fee, pk_tick_spacing = 60, pk_hooks = to_hex plain_hex (replicate 20 0)\<rparr>"

definition raw_of :: "rpc_log \<Rightarrow> raw_log" where
  "raw_of l = \<lparr>rwl_address = rl_address l, rwl_topics = rl_topics l, rwl_data = rl_data l,
     rwl_block_number = ''0x'' @ show_hex (unat (rl_block_number l))\<rparr>"

definition pair_logs :: "rpc_log list" where
  "pair_logs = [init_log 1 500, init_log 3 3000]"

definition pair_node :: "unit client" where
  "pair_node c m p =
     (if m = ''eth_getLogs'' then
        (if p = JArr [to_params (pair_filter ''0xpm'' (topic_of demo_usdg) (topic_of demo_nvda) 0 9)] then (Ok (JBool True), c)
         else if p = JArr [to_params (pair_filter ''0xpm'' (topic_of demo_nvda) (topic_of demo_usdg) 0 9)] then (Ok (JBool False), c)
         else (Err (ChRpc 0 ''limit exceeded''), c))
      else (case p of
          JArr (o1 # _) \<Rightarrow> (case Option.bind (json_get ''data'' o1) as_str of
              Some s \<Rightarrow> (Ok (JStr (''0x'' @ drop (length s - 64) s)), c) | None \<Rightarrow> (Err (ChRpc 0 ''bad request''), c))
        | _ \<Rightarrow> (Err (ChRpc 0 ''bad request''), c)))"

definition pair_logs_of :: "json \<Rightarrow> message + raw_log list" where
  "pair_logs_of v = (if v = JBool True then Ok (map raw_of pair_logs) else Ok [])"

definition fee_hash :: "bytes \<Rightarrow> bytes" where
  "fee_hash bs = take 32 (drop 64 bs)"

lemma pair_node_steady: "steady pair_node"
  by (auto simp: steady_def pair_node_def split: json.split list.split option.split)

lemma demo_topics:
  "topic_from_address plain_hex demo_usdg = Ok (topic_of demo_usdg)"
  "topic_from_address plain_hex demo_nvda = Ok (topic_of demo_nvda)"
  "slice_from 24 (strip0x (topic_of demo_usdg)) = Some (plain_address demo_usdg)"
  "slice_from 24 (strip0x (topic_of demo_nvda)) = Some (plain_address demo_nvda)"
  "to_ascii_lowercase demo_usdg = ''0x'' @ plain_address demo_usdg"
  "to_ascii_lowercase demo_nvda = ''0x'' @ plain_address demo_nvda"
  by code_simp+

lemma topic_of_differ: "topic_of demo_usdg \<noteq> topic_of demo_nvda"
  by code_simp

lemma decode_init_log: "decode_initialize plain_hex (rl_topics (init_log n fee)) (rl_data (init_log n fee)) = Some (Some (pair_pool fee))"
proof -
  have u: "unat fee < 2 ^ 32" using unsigned_less [of fee, where ?'a = nat] by simp
  then have "unat (ucast fee :: u128) = unat fee" by (simp add: unsigned_ucast_eq take_bit_nat_eq_self_iff)
  moreover have "(ucast (ucast fee :: u128) :: u32) = fee" by (rule bit_word_eqI) (simp add: bit_simps)
  ultimately have fee: "narrow_u32 w (ucast fee) = Ok fee" for w
    using u by (simp add: narrow_u32_def word_less_nat_alt)
  have hooks: "decode_address plain_hex (replicate 32 0) = Ok (to_hex plain_hex (replicate 20 0))"
    by (simp add: decode_address_def)
  have "decode_u128 (take 32 (uint_word v @ r)) = Ok v" for v r
    using decode_u128_uint_word [of v "[]"] by simp
  moreover have "decode_i32 (int_word (scast (60 :: 32 word))) = Ok 60" by (rule decode_i32_int_word)
  ultimately show ?thesis
    by (simp add: decode_initialize_def init_log_def demo_topics pair_pool_def from_hex_to_hex [OF plain_hex_ok]
        fee hooks numeral_3_eq_3 nth_Cons' and_then_def)
qed

lemma plain_hex_append: "hx_encode plain_hex (xs @ ys) = hx_encode plain_hex xs @ hx_encode plain_hex ys"
  by (simp add: plain_hex_def)

lemma pair_node_liquidity: "length w = 32 \<Longrightarrow> fst (get_liquidity plain_hex fee_hash pair_node sv w c) = decode_u128 w"
proof -
  assume w: "length w = 32"
  have "length (hx_encode plain_hex w) = 64" using plain_hex_ok w by (simp add: hex_ok_def)
  then have "''0x'' @ drop (length s - 64) s = to_hex plain_hex w" if "s = to_hex plain_hex (sel @ w)" for s sel
    using that by (simp add: to_hex_def plain_hex_append)
  then show ?thesis
    by (simp add: get_liquidity_def eth_call_def call_inner_def calldata_def pair_node_def json_get_def
        as_object_def as_str_def and_then_def from_hex_to_hex [OF plain_hex_ok] Let_def)
qed

lemma pair_pool_id: "pool_id plain_hex fee_hash (pair_pool fee) = Ok (uint_word (ucast fee))"
proof -
  obtain w0 w1 where w: "address_word plain_hex demo_usdg = Ok w0" "address_word plain_hex demo_nvda = Ok w1"
    using demo_words(2,3) by (auto split: sum.splits)
  have "address_word plain_hex (to_hex plain_hex (replicate 20 0)) = Ok (replicate 32 0)"
    by (simp add: address_word_Ok from_hex_to_hex [OF plain_hex_ok] numeral_eq_Suc)
  with w [THEN address_word_lower [OF plain_hex_ok]] w [THEN length_address_word] show ?thesis
    by (simp add: pool_id_def pair_pool_def and_then_def demo_topics fee_hash_def)
qed

lemma into_log_raw_of: "into_log (raw_of l) = Ok l"
  using parse_quantity_show_hex [of "rl_block_number l"] by (simp add: into_log_def raw_of_def and_then_def)

lemma collect_raw_of: "collect into_log (map raw_of ls) = Ok ls"
  by (induction ls) (simp_all add: into_log_raw_of and_then_def)

lemma show_hex_unat_inject: "show_hex (unat m) = show_hex (unat n) \<longleftrightarrow> m = n" for m n :: u64
  using parse_quantity_show_hex [of m] parse_quantity_show_hex [of n] by (metis sum.inject(2))

lemma to_params_pair: "to_params (pair_filter pm a b x y) = to_params (pair_filter pm a' b' x' y')
    \<longleftrightarrow> a = a' \<and> b = b' \<and> x = x' \<and> y = y'"
  by (simp add: to_params_def pair_filter_def show_hex_unat_inject)

definition logged :: "rpc_log list \<Rightarrow> (raw_log \<times> rpc_log) list" where
  "logged ls = map (\<lambda>l. (raw_of l, l)) ls"

lemma pair_logs_blocks: "map rl_block_number pair_logs = [1, 3]"
  by (simp add: pair_logs_def init_log_def)

lemma pair_filter_params:
  assumes "lf_address f = lf_address (pair_filter pm a b x y)" and "lf_topics f = lf_topics (pair_filter pm a b x y)"
  shows "f = pair_filter pm a b (lf_from_block f) (lf_to_block f)"
  using assms by (simp add: pair_filter_def)

lemma serves_pairI:
  assumes "\<And>c u v ret c'. request c ''eth_getLogs'' (JArr [to_params (pair_filter pm a b u v)]) = (Ok ret, c') \<Longrightarrow>
    from_value ret = Ok (map fst (filter (\<lambda>x. in_range (pair_filter pm a b u v) (snd x)) chain))"
  shows "serves_logs from_value request chain (pair_filter pm a b x y)"
  unfolding serves_logs_def
proof (intro allI impI, elim conjE)
  fix c f' ret c'
  assume "lf_address f' = lf_address (pair_filter pm a b x y)" "lf_topics f' = lf_topics (pair_filter pm a b x y)"
    and r: "request c ''eth_getLogs'' (JArr [to_params f']) = (Ok ret, c')"
  then have f: "f' = pair_filter pm a b (lf_from_block f') (lf_to_block f')" by (rule_tac pair_filter_params)
  from r have "request c ''eth_getLogs'' (JArr [to_params (pair_filter pm a b (lf_from_block f') (lf_to_block f'))]) = (Ok ret, c')"
    using f by simp
  from assms [OF this] f show "from_value ret = Ok (map fst (filter (\<lambda>x. in_range f' (snd x)) chain))" by simp
qed

lemma pair_node_serves:
  "serves_logs pair_logs_of pair_node (logged pair_logs) (pair_filter ''0xpm'' (topic_of demo_usdg) (topic_of demo_nvda) 0 9)"
  "serves_logs pair_logs_of pair_node (logged []) (pair_filter ''0xpm'' (topic_of demo_nvda) (topic_of demo_usdg) 0 9)"
proof -
  have all: "map fst (filter (\<lambda>x. in_range (pair_filter pm a b 0 9) (snd x)) (logged pair_logs)) = map raw_of pair_logs" for pm a b
    by (simp add: logged_def pair_logs_def in_range_def pair_filter_def init_log_def)
  show "serves_logs pair_logs_of pair_node (logged pair_logs) (pair_filter ''0xpm'' (topic_of demo_usdg) (topic_of demo_nvda) 0 9)"
  proof (rule serves_pairI)
    fix c u v ret c'
    assume r: "pair_node c ''eth_getLogs'' (JArr [to_params (pair_filter ''0xpm'' (topic_of demo_usdg) (topic_of demo_nvda) u v)]) = (Ok ret, c')"
    then have uv: "u = 0" "v = 9" and "ret = JBool True"
      using topic_of_differ by (simp_all add: pair_node_def to_params_pair split: if_splits)
    then have "pair_logs_of ret = Ok (map raw_of pair_logs)" by (simp only: pair_logs_of_def) simp
    then show "pair_logs_of ret = Ok (map fst (filter (\<lambda>x. in_range (pair_filter ''0xpm'' (topic_of demo_usdg) (topic_of demo_nvda) u v) (snd x)) (logged pair_logs)))"
      by (simp only: uv all)
  qed
  show "serves_logs pair_logs_of pair_node (logged []) (pair_filter ''0xpm'' (topic_of demo_nvda) (topic_of demo_usdg) 0 9)"
  proof (rule serves_pairI)
    fix c u v ret c'
    assume "pair_node c ''eth_getLogs'' (JArr [to_params (pair_filter ''0xpm'' (topic_of demo_nvda) (topic_of demo_usdg) u v)]) = (Ok ret, c')"
    then have "ret = JBool False"
      using topic_of_differ by (simp add: pair_node_def to_params_pair split: if_splits)
    then show "pair_logs_of ret = Ok (map fst (filter (\<lambda>x. in_range (pair_filter ''0xpm'' (topic_of demo_nvda) (topic_of demo_usdg) u v) (snd x)) (logged [])))"
      by (simp add: pair_logs_of_def logged_def)
  qed
qed

lemma pair_chain_decoded: "decoded_chain (logged pair_logs)" "decoded_chain (logged [])"
  using pair_logs_blocks by (auto simp: decoded_chain_def logged_def comp_def into_log_raw_of)

lemma pair_node_discovers:
  "discover_pools_for_pair plain_hex pair_logs_of pair_node ''0xpm'' demo_nvda demo_usdg 0 9 ()
     = Some (Ok [pair_pool 500, pair_pool 3000], ())"
proof -
  let ?f = "\<lambda>a b. pair_filter ''0xpm'' (topic_of a) (topic_of b) 0 9"
  have lower: "to_ascii_lowercase ''0xpm'' = ''0xpm''" by code_simp
  have "pair_node () ''eth_getLogs'' (JArr [to_params (?f demo_nvda demo_usdg)]) = (Ok (JBool False), ())"
    "pair_node () ''eth_getLogs'' (JArr [to_params (?f demo_usdg demo_nvda)]) = (Ok (JBool True), ())"
    using topic_of_differ by (auto simp: pair_node_def to_params_pair)
  then have "get_logs pair_logs_of pair_node (?f demo_nvda demo_usdg) () = (Ok [], ())"
    "get_logs pair_logs_of pair_node (?f demo_usdg demo_nvda) () = (Ok pair_logs, ())"
    unfolding get_logs_def by (simp_all add: get_logs_bisecting.simps pair_logs_of_def collect_raw_of)
  then show ?thesis
    by (simp add: discover_pools_for_pair_def demo_topics Let_def two_scans_def pair_logs_def decode_init_log
        pair_pool_def lower pair_filter_def)
qed

theorem discovery_finds_every_pool_witness:
  "set [pair_pool 500, pair_pool 3000] = {k. \<exists>l \<in> set (map snd (logged [] @ logged pair_logs)).
    0 \<le> rl_block_number l \<and> rl_block_number l \<le> 9
    \<and> decode_initialize plain_hex (rl_topics l) (rl_data l) = Some (Some k)}"
  by (rule discovery_finds_every_pool [OF demo_topics(2,1) pair_node_serves(2) pair_chain_decoded(2)
        pair_node_serves(1) pair_chain_decoded(1) pair_node_discovers])

theorem best_pool_is_the_deepest_witness:
  "find_best_pool plain_hex fee_hash pair_logs_of pair_node ''0xpm'' ''0xsv'' demo_nvda demo_usdg 0 9 ()
     = Some (Ok \<lparr>rk_key = pair_pool 3000, rk_liquidity = 3000\<rparr>, ())
   \<and> pool_id plain_hex fee_hash (pair_pool 500) = Ok (uint_word 500)
   \<and> fst (get_liquidity plain_hex fee_hash pair_node ''0xsv'' (uint_word 500) ()) = Ok 500 \<and> (500 :: u128) \<le> 3000"
proof -
  have u: "decode_u128 (uint_word v) = Ok v" for v using decode_u128_uint_word [of v "[]"] by simp
  have gl: "get_liquidity plain_hex fee_hash pair_node ''0xsv'' (uint_word v) () = (Ok v, ())" for v
    using pair_node_liquidity [of "uint_word v" "''0xsv''" "()"] u by (simp add: prod_eq_iff)
  have fb: "find_best_pool plain_hex fee_hash pair_logs_of pair_node ''0xpm'' ''0xsv'' demo_nvda demo_usdg 0 9 ()
     = Some (Ok \<lparr>rk_key = pair_pool 3000, rk_liquidity = 3000\<rparr>, ())"
    by (simp add: find_best_pool_def pair_node_discovers rank_by_liquidity_def pair_pool_id gl insort_key_def)
  have pid: "pool_id plain_hex fee_hash (pair_pool 500) = Ok (uint_word 500)" by (simp add: pair_pool_id)
  from best_pool_is_the_deepest [OF pair_node_steady fb] pair_node_discovers pid gl [of 500]
  have "(500 :: u128) \<le> 3000" by auto
  with fb pid gl [of 500] show ?thesis by simp
qed

end
