(* ===== verification/Swap.thy ===== *)
theory Swap
  imports Univ4
begin

text \<open>
  Building the calldata of a swap: the dynamic part of the ABI encoding
  (\<open>crates/dex/src/abi_dyn.rs\<close>), the bounds of a swap (\<open>quote.rs\<close>), the
  approvals (\<open>permit2.rs\<close>) and the \<open>execute\<close> call of a single-hop swap
  (\<open>v4swap.rs\<close>). A reader of the ABI, which follows offsets the way the contract does,
  is the specification the encoders are checked against.
\<close>

datatype dex_error =
    InvalidSlippage u32
  | AmountOverflow
  | DexChain chain_error

abbreviation dex :: "'a chain_result \<Rightarrow> dex_error + 'a" where
  "dex \<equiv> map_sum DexChain id"

section \<open>Dynamic ABI values\<close>

definition word_uint :: "u128 \<Rightarrow> bytes" where
  "word_uint v = replicate 16 0 @ u128_be v"

definition word_bool :: "bool \<Rightarrow> bytes" where
  "word_bool b = replicate 31 0 @ [if b then 1 else 0]"

definition pad_to_word :: "bytes \<Rightarrow> bytes" where
  "pad_to_word data = (let rem = length data mod 32 in
     if rem \<noteq> 0 then data @ replicate (32 - rem) 0 else data)"

definition encode_dyn_bytes :: "bytes \<Rightarrow> bytes" where
  "encode_dyn_bytes data = pad_to_word (word_uint (of_nat (length data)) @ data)"

text \<open>The heads of an array: where each of the encoded elements starts.\<close>

fun array_heads :: "nat \<Rightarrow> bytes list \<Rightarrow> bytes" where
  "array_heads offset [] = []"
| "array_heads offset (e # es) = word_uint (of_nat offset) @ array_heads (offset + length e) es"

definition encode_bytes_array :: "bytes list \<Rightarrow> bytes" where
  "encode_bytes_array items =
     (let encoded = map encode_dyn_bytes items
      in word_uint (of_nat (length items)) @ array_heads (length items * 32) encoded @ concat encoded)"

definition encode_bytes_and_bytes_array :: "bytes \<Rightarrow> bytes list \<Rightarrow> bytes" where
  "encode_bytes_and_bytes_array a b =
     (let enc_a = encode_dyn_bytes a; enc_b = encode_bytes_array b
      in word_uint (2 * 32) @ word_uint (of_nat (2 * 32 + length enc_a)) @ enc_a @ enc_b)"

definition encode_single_dynamic_struct :: "bytes \<Rightarrow> bytes" where
  "encode_single_dynamic_struct body = word_uint 32 @ body"

section \<open>Bounds of a swap\<close>

definition amount_out_minimum :: "u128 \<Rightarrow> u32 \<Rightarrow> dex_error + u128" where
  "amount_out_minimum expected slippage_bps =
     (if 10000 \<le> slippage_bps then Err (InvalidSlippage slippage_bps)
      else (let keep = ucast (10000 - slippage_bps) :: u128 in
        if 2 ^ 128 \<le> unat expected * unat keep then Err AmountOverflow
        else Ok (expected * keep div 10000)))"

text \<open>The clock in seconds, 0 before the epoch, is the first argument; the sum saturates.\<close>

definition deadline_from_now :: "u64 \<Rightarrow> u64 \<Rightarrow> u64" where
  "deadline_from_now now seconds = (if 2 ^ 64 \<le> unat now + unat seconds then - 1 else now + seconds)"

section \<open>Approvals\<close>

definition permit2_address :: string where
  "permit2_address = ''0x000000000022d473030f116ddee9f6b43ac78ba3''"

definition erc20_approve_calldata ::
    "hex_codec \<Rightarrow> (bytes \<Rightarrow> bytes) \<Rightarrow> string \<Rightarrow> u128 \<Rightarrow> dex_error + bytes" where
  "erc20_approve_calldata H keccak spender amount =
     and_then (dex (address_word H spender)) (\<lambda>w.
     Ok (selector keccak ''approve(address,uint256)'' @ w @ uint_word amount))"

definition permit2_approve_calldata ::
    "hex_codec \<Rightarrow> (bytes \<Rightarrow> bytes) \<Rightarrow> string \<Rightarrow> string \<Rightarrow> u128 \<Rightarrow> u64 \<Rightarrow> dex_error + bytes" where
  "permit2_approve_calldata H keccak token spender amount expiration =
     and_then (dex (address_word H token)) (\<lambda>wt.
     and_then (dex (address_word H spender)) (\<lambda>ws.
     Ok (selector keccak ''approve(address,address,uint160,uint48)'' @ wt @ ws @ uint_word amount
       @ uint_word (ucast expiration))))"

section \<open>The swap\<close>

definition cmd_v4_swap :: u8 where "cmd_v4_swap = 0x10"
definition action_swap_exact_in_single :: u8 where "action_swap_exact_in_single = 0x06"
definition action_settle_all :: u8 where "action_settle_all = 0x0c"
definition action_take_all :: u8 where "action_take_all = 0x0f"

record single_swap =
  sw_pool :: pool_key
  sw_zero_for_one :: bool
  sw_amount_in :: u128
  sw_amount_out_minimum :: u128

definition token_in :: "single_swap \<Rightarrow> string" where
  "token_in s = (if sw_zero_for_one s then pk_currency0 (sw_pool s) else pk_currency1 (sw_pool s))"

definition token_out :: "single_swap \<Rightarrow> string" where
  "token_out s = (if sw_zero_for_one s then pk_currency1 (sw_pool s) else pk_currency0 (sw_pool s))"

definition swap_params_body :: "hex_codec \<Rightarrow> single_swap \<Rightarrow> dex_error + bytes" where
  "swap_params_body H s = (let p = sw_pool s in
     and_then (dex (address_word H (pk_currency0 p))) (\<lambda>w0.
     and_then (dex (address_word H (pk_currency1 p))) (\<lambda>w1.
     and_then (dex (address_word H (pk_hooks p))) (\<lambda>wh.
     Ok (w0 @ w1 @ uint_word (ucast (pk_fee p)) @ int_word (scast (pk_tick_spacing p)) @ wh
       @ word_bool (sw_zero_for_one s) @ word_uint (sw_amount_in s) @ word_uint (sw_amount_out_minimum s)
       @ word_uint 0 @ word_uint (10 * 32) @ word_uint 0)))))"

definition settle_all_params :: "hex_codec \<Rightarrow> single_swap \<Rightarrow> dex_error + bytes" where
  "settle_all_params H s = and_then (dex (address_word H (token_in s))) (\<lambda>w. Ok (w @ word_uint (sw_amount_in s)))"

definition take_all_params :: "hex_codec \<Rightarrow> single_swap \<Rightarrow> dex_error + bytes" where
  "take_all_params H s =
     and_then (dex (address_word H (token_out s))) (\<lambda>w. Ok (w @ word_uint (sw_amount_out_minimum s)))"

definition v4_swap_input :: "hex_codec \<Rightarrow> single_swap \<Rightarrow> dex_error + bytes" where
  "v4_swap_input H s =
     and_then (swap_params_body H s) (\<lambda>body.
     and_then (settle_all_params H s) (\<lambda>settle.
     and_then (take_all_params H s) (\<lambda>tk.
     Ok (encode_bytes_and_bytes_array [action_swap_exact_in_single, action_settle_all, action_take_all]
       [encode_single_dynamic_struct body, settle, tk]))))"

definition execute_calldata :: "hex_codec \<Rightarrow> (bytes \<Rightarrow> bytes) \<Rightarrow> single_swap \<Rightarrow> u64 \<Rightarrow> dex_error + bytes" where
  "execute_calldata H keccak s deadline =
     and_then (v4_swap_input H s) (\<lambda>input.
     let enc_commands = encode_dyn_bytes [cmd_v4_swap] in
     Ok (selector keccak ''execute(bytes,bytes[],uint256)''
       @ word_uint (3 * 32) @ word_uint (of_nat (3 * 32 + length enc_commands)) @ word_uint (ucast deadline)
       @ enc_commands @ encode_bytes_array [input]))"

section \<open>Reading calldata\<close>

text \<open>
  The words of a byte string by position, and the values an offset leads to. Reading past
  the end fails.
\<close>

definition word_at :: "bytes \<Rightarrow> nat \<Rightarrow> nat option" where
  "word_at bs p = (if p + 32 \<le> length bs then Some (from_be (take 32 (drop p bs))) else None)"

definition bytes_at :: "bytes \<Rightarrow> nat \<Rightarrow> bytes option" where
  "bytes_at bs p = do {
     n \<leftarrow> word_at bs p;
     (if p + 32 + n \<le> length bs then Some (take n (drop (p + 32) bs)) else None) }"

text \<open>The elements of an array whose heads start at a position.\<close>

fun elements_at :: "bytes \<Rightarrow> nat \<Rightarrow> nat \<Rightarrow> nat \<Rightarrow> (bytes list) option" where
  "elements_at bs start p 0 = Some []"
| "elements_at bs start p (Suc n) = do {
     off \<leftarrow> word_at bs p;
     e \<leftarrow> bytes_at bs (start + off);
     es \<leftarrow> elements_at bs start (p + 32) n;
     Some (e # es) }"

definition array_at :: "bytes \<Rightarrow> nat \<Rightarrow> (bytes list) option" where
  "array_at bs p = do { n \<leftarrow> word_at bs p; elements_at bs (p + 32) (p + 32) n }"

text \<open>The arguments of \<open>execute\<close>, of the swap command and of the swap action.\<close>

definition read_execute :: "bytes \<Rightarrow> (bytes \<times> bytes list \<times> nat) option" where
  "read_execute bs = do {
     oc \<leftarrow> word_at bs 0; oi \<leftarrow> word_at bs 32; deadline \<leftarrow> word_at bs 64;
     commands \<leftarrow> bytes_at bs oc; inputs \<leftarrow> array_at bs oi;
     Some (commands, inputs, deadline) }"

definition read_actions :: "bytes \<Rightarrow> (bytes \<times> bytes list) option" where
  "read_actions bs = do {
     oa \<leftarrow> word_at bs 0; op \<leftarrow> word_at bs 32;
     actions \<leftarrow> bytes_at bs oa; params \<leftarrow> array_at bs op;
     Some (actions, params) }"

text \<open>The nine static words of the struct and its last field, a byte string.\<close>

definition read_swap :: "bytes \<Rightarrow> (nat list \<times> bytes) option" where
  "read_swap bs = do {
     o1 \<leftarrow> word_at bs 0;
     let body = drop o1 bs;
     ws \<leftarrow> those (map (\<lambda>i. word_at body (32 * i)) [0..<9]);
     oh \<leftarrow> word_at body (32 * 9);
     hook \<leftarrow> bytes_at body oh;
     Some (ws, hook) }"

definition read_pair :: "bytes \<Rightarrow> (nat \<times> nat) option" where
  "read_pair bs = do { a \<leftarrow> word_at bs 0; b \<leftarrow> word_at bs 32; Some (a, b) }"

section \<open>What the encoders write is what the reader reads\<close>

lemma length_word_uint [simp]: "length (word_uint v) = 32"
  by (simp add: word_uint_def)

lemma from_be_word_uint [simp]: "from_be (word_uint v) = unat v"
  by (simp add: word_uint_def from_be_append)

lemma length_word_bool [simp]: "length (word_bool b) = 32"
  by (simp add: word_bool_def)

lemma from_be_word_bool [simp]: "from_be (word_bool b) = of_bool b"
  by (simp add: word_bool_def)

lemma from_be_ones: "from_be (replicate k 0xff) = 256 ^ k - 1"
proof (induction k)
  case (Suc k)
  have "(0 :: nat) < 256 ^ k" by simp
  with Suc show ?case by (simp add: from_be_Cons)
qed simp

lemma sint_from_uint: "uint v = sint v + (if sint v < 0 then 2 ^ 128 else 0)" for v :: u128
proof -
  have r: "- (2 ^ 127) \<le> sint v" "sint v < 2 ^ 127"
    using sint_greater_eq [of v] sint_less [of v] by simp_all
  have "uint v = sint v mod 2 ^ 128" by (simp add: uint_sint take_bit_eq_mod)
  moreover have "sint v mod 2 ^ 128 = sint v + 2 ^ 128" if "sint v < 0"
  proof -
    have "(sint v + 2 ^ 128) mod 2 ^ 128 = sint v + 2 ^ 128"
      by (rule mod_pos_pos_trivial) (use r that in simp_all)
    then show ?thesis by simp
  qed
  moreover have "sint v mod 2 ^ 128 = sint v" if "\<not> sint v < 0"
    by (rule mod_pos_pos_trivial) (use r that in simp_all)
  ultimately show ?thesis by simp
qed

lemma from_be_int_word: "int (from_be (int_word v)) = sint v mod 2 ^ 256"
proof -
  have r: "- (2 ^ 127) \<le> sint v" "sint v < 2 ^ 127"
    using sint_greater_eq [of v] sint_less [of v] by simp_all
  have w: "int (from_be (int_word v)) = (if sint v < 0 then 2 ^ 256 - 2 ^ 128 else 0) + uint v"
    by (simp add: int_word_def from_be_append from_be_ones)
  have "sint v mod 2 ^ 256 = sint v + 2 ^ 256" if "sint v < 0"
  proof -
    have "(sint v + 2 ^ 256) mod 2 ^ 256 = sint v + 2 ^ 256"
      by (rule mod_pos_pos_trivial) (use r that in simp_all)
    then show ?thesis by simp
  qed
  moreover have "sint v mod 2 ^ 256 = sint v" if "\<not> sint v < 0"
    by (rule mod_pos_pos_trivial) (use r that in simp_all)
  ultimately show ?thesis unfolding w using sint_from_uint [of v] by simp
qed

lemma word_at_shift: "word_at bs (q + p) = word_at (drop q bs) p"
  by (auto simp: word_at_def add.commute)

lemma bytes_at_shift: "bytes_at bs (q + p) = bytes_at (drop q bs) p"
proof (cases "word_at (drop q bs) p")
  case None
  then show ?thesis by (simp add: bytes_at_def word_at_shift)
next
  case (Some n)
  then have "p + 32 \<le> length bs - q" by (simp add: word_at_def split: if_splits)
  moreover have "word_at bs (q + p) = Some n" using Some by (simp add: word_at_shift)
  moreover have "take n (drop (q + p + 32) bs) = take n (drop (p + 32) (drop q bs))" by (simp add: add_ac)
  ultimately show ?thesis using Some by (auto simp: bytes_at_def)
qed

lemma elements_at_shift: "elements_at bs (q + s) (q + p) n = elements_at (drop q bs) s p n"
  by (induction n arbitrary: p) (simp_all add: word_at_shift bytes_at_shift add.assoc)

lemma array_at_shift: "array_at bs (q + p) = array_at (drop q bs) p"
  by (simp add: array_at_def word_at_shift elements_at_shift add.assoc)

lemma word_at_word: "length w = 32 \<Longrightarrow> word_at (w @ r) 0 = Some (from_be w)"
  by (simp add: word_at_def)

lemma pad_to_word_append: "\<exists>k. pad_to_word data = data @ replicate k 0"
  unfolding pad_to_word_def Let_def by (metis append_Nil2 replicate_0)

lemma bytes_at_encoded:
  assumes "length d < 2 ^ 128"
  shows "bytes_at (encode_dyn_bytes d @ r) 0 = Some d"
proof -
  obtain k where "encode_dyn_bytes d = word_uint (of_nat (length d)) @ d @ replicate k 0"
    unfolding encode_dyn_bytes_def using pad_to_word_append by (metis append.assoc)
  moreover have "unat (of_nat (length d) :: u128) = length d" using assms by (simp add: unat_of_nat)
  ultimately show ?thesis by (simp add: bytes_at_def word_at_word)
qed

text \<open>Reading from a place, with what stands there.\<close>

lemma word_at_here: "drop p bs = w @ r \<Longrightarrow> length w = 32 \<Longrightarrow> word_at bs p = Some (from_be w)"
  using word_at_shift [of bs p 0] word_at_word by simp

lemma word_at_uint: "drop p bs = word_uint v @ r \<Longrightarrow> unat v = n \<Longrightarrow> word_at bs p = Some n"
  using word_at_here [of p bs "word_uint v" r] by simp

lemma bytes_at_here: "drop p bs = encode_dyn_bytes d @ r \<Longrightarrow> length d < 2 ^ 128 \<Longrightarrow> bytes_at bs p = Some d"
  using bytes_at_shift [of bs p 0] bytes_at_encoded by simp

lemma elements_at_encoded:
  assumes "drop p bs = array_heads off (map encode_dyn_bytes items) @ t"
    and "drop off bs = concat (map encode_dyn_bytes items) @ r"
    and "off + length (concat (map encode_dyn_bytes items)) < 2 ^ 128"
    and "\<forall>d \<in> set items. length d < 2 ^ 128"
  shows "elements_at bs 0 p (length items) = Some items"
  using assms
proof (induction items arbitrary: p off)
  case Nil
  then show ?case by simp
next
  case (Cons d ds)
  have off: "unat (of_nat off :: u128) = off" using Cons.prems(3) by (simp add: unat_of_nat)
  have "word_at bs p = Some off"
    using Cons.prems(1) word_at_here [of p bs "word_uint (of_nat off)"] off by simp
  moreover have "bytes_at bs off = Some d"
    using Cons.prems(2,4) by (intro bytes_at_here) auto
  moreover have "elements_at bs 0 (p + 32) (length ds) = Some ds"
  proof (rule Cons.IH)
    show "drop (p + 32) bs = array_heads (off + length (encode_dyn_bytes d)) (map encode_dyn_bytes ds) @ t"
      using arg_cong [where f = "drop 32", OF Cons.prems(1)] by (simp add: add.commute)
    show "drop (off + length (encode_dyn_bytes d)) bs = concat (map encode_dyn_bytes ds) @ r"
      using arg_cong [where f = "drop (length (encode_dyn_bytes d))", OF Cons.prems(2)] by (simp add: add.commute)
  qed (use Cons.prems in simp_all)
  ultimately show ?case by simp
qed

lemma length_array_heads [simp]: "length (array_heads off es) = 32 * length es"
  by (induction es arbitrary: off) simp_all

lemma array_at_encoded:
  assumes "length (encode_bytes_array items) < 2 ^ 128"
  shows "array_at (encode_bytes_array items @ r) 0 = Some items"
proof -
  let ?es = "map encode_dyn_bytes items"
  let ?bs = "array_heads (length items * 32) ?es @ concat ?es @ r"
  have len: "32 * length items + length (concat ?es) < 2 ^ 128"
    using assms by (simp add: encode_bytes_array_def Let_def)
  then have n: "unat (of_nat (length items) :: u128) = length items" by (simp add: unat_of_nat)
  have "length d \<le> length (encode_dyn_bytes d)" for d
    using pad_to_word_append [of "word_uint (of_nat (length d)) @ d"] by (auto simp: encode_dyn_bytes_def)
  moreover have "length (encode_dyn_bytes d) \<le> length (concat ?es)" if "d \<in> set items" for d
    using that by (induction items) auto
  ultimately have small: "\<forall>d \<in> set items. length d < 2 ^ 128"
    using len by (meson add_lessD1 le_add2 le_trans linorder_not_less)
  have "elements_at ?bs 0 0 (length items) = Some items"
    by (rule elements_at_encoded [where off = "length items * 32"]) (use len small in \<open>simp_all add: mult.commute\<close>)
  moreover have "encode_bytes_array items @ r = word_uint (of_nat (length items)) @ ?bs"
    by (simp add: encode_bytes_array_def Let_def)
  ultimately show ?thesis
    using elements_at_shift [of "word_uint (of_nat (length items)) @ ?bs" 32 0 0]
    by (simp add: array_at_def word_at_word n)
qed

lemma array_at_here:
  "drop p bs = encode_bytes_array items @ r \<Longrightarrow> length (encode_bytes_array items) < 2 ^ 128 \<Longrightarrow> array_at bs p = Some items"
  using array_at_shift [of bs p 0] array_at_encoded by simp

lemma length_encode_dyn_bytes:
  "\<exists>k < 32. encode_dyn_bytes a = word_uint (of_nat (length a)) @ a @ replicate k 0"
proof (cases "length a mod 32 = 0")
  case True
  then show ?thesis
    unfolding encode_dyn_bytes_def pad_to_word_def Let_def by (intro exI [of _ 0]) simp
next
  case False
  then show ?thesis
    unfolding encode_dyn_bytes_def pad_to_word_def Let_def by (intro exI [of _ "32 - length a mod 32"]) simp
qed

lemma dex_Ok: "dex r = Ok w \<longleftrightarrow> r = Ok w"
  by (cases r) simp_all

lemma read_actions_encoded:
  assumes "length a < 2 ^ 64" and "length (encode_bytes_array b) < 2 ^ 128"
  shows "read_actions (encode_bytes_and_bytes_array a b) = Some (a, b)"
proof -
  obtain k where k: "encode_dyn_bytes a = word_uint (of_nat (length a)) @ a @ replicate k 0" and "k < 32"
    using length_encode_dyn_bytes by metis
  then have len: "length (encode_dyn_bytes a) < 2 ^ 64 + 64" using assms(1) by simp
  let ?n = "length (encode_dyn_bytes a)"
  let ?bs = "encode_bytes_and_bytes_array a b"
  have bs: "?bs = word_uint 64 @ word_uint (of_nat (64 + ?n)) @ encode_dyn_bytes a @ encode_bytes_array b"
    by (simp add: encode_bytes_and_bytes_array_def Let_def)
  have u: "unat (of_nat (64 + ?n) :: u128) = 64 + ?n" using len by (simp only: unat_of_nat) simp
  have "word_at ?bs 0 = Some 64"
    by (rule word_at_uint [where v = 64]) (simp_all add: bs)
  moreover have "word_at ?bs 32 = Some (64 + ?n)"
    using u by (intro word_at_uint [where v = "of_nat (64 + ?n)" and r = "encode_dyn_bytes a @ encode_bytes_array b"])
      (simp_all add: bs)
  moreover have "bytes_at ?bs 64 = Some a"
    using assms(1) by (intro bytes_at_here [where r = "encode_bytes_array b"]) (simp_all add: bs)
  moreover have "array_at ?bs (64 + ?n) = Some b"
    using assms(2) by (intro array_at_here [where r = "[]"]) (simp_all add: bs)
  ultimately show ?thesis by (simp add: read_actions_def)
qed

text \<open>The lengths of what a swap is made of are fixed.\<close>

lemma length_dyn: "length (encode_dyn_bytes d) = 32 * (1 + (length d + 31) div 32)"
proof (cases "length d mod 32 = 0")
  case True
  then have "length (encode_dyn_bytes d) = 32 + length d"
    by (simp add: encode_dyn_bytes_def pad_to_word_def)
  moreover from True have "(length d + 31) div 32 = length d div 32" "length d = 32 * (length d div 32)"
    using div_mult_mod_eq [of "length d" 32] by linarith+
  ultimately show ?thesis by simp
next
  case False
  define q r where "q = length d div 32" and "r = length d mod 32"
  then have n: "length d = 32 * q + r" "r < 32" "0 < r" using False by simp_all
  from False have "length (encode_dyn_bytes d) = 32 + length d + (32 - r)"
    by (simp add: encode_dyn_bytes_def pad_to_word_def r_def)
  moreover have "(length d + 31) div 32 = Suc q" using n by linarith
  ultimately show ?thesis using n by simp
qed

lemma length_array: "length (encode_bytes_array items)
  = 32 + 32 * length items + sum_list (map (length \<circ> encode_dyn_bytes) items)"
  by (simp add: encode_bytes_array_def Let_def length_concat comp_def)

definition swap_words :: "single_swap \<Rightarrow> bytes \<Rightarrow> bytes \<Rightarrow> bytes \<Rightarrow> nat list" where
  "swap_words s w0 w1 wh = [from_be w0, from_be w1, unat (pk_fee (sw_pool s)),
     nat (sint (pk_tick_spacing (sw_pool s)) mod 2 ^ 256), from_be wh, of_bool (sw_zero_for_one s),
     unat (sw_amount_in s), unat (sw_amount_out_minimum s), 0]"

lemma sint_scast: "sint (scast i :: u128) = sint (i :: 32 word)"
proof -
  have "- (2 ^ 127) \<le> sint i" "sint i < 2 ^ 127"
    using sint_greater_eq [of i] sint_less [of i] by simp_all
  then show ?thesis by (simp add: signed_scast_eq signed_take_bit_int_eq_self_iff)
qed

lemma read_swap_encoded:
  assumes "swap_params_body H s = Ok body"
  obtains w0 w1 wh where "address_word H (pk_currency0 (sw_pool s)) = Ok w0"
    "address_word H (pk_currency1 (sw_pool s)) = Ok w1" "address_word H (pk_hooks (sw_pool s)) = Ok wh"
    "length body = 352" "read_swap (encode_single_dynamic_struct body) = Some (swap_words s w0 w1 wh, [])"
proof -
  let ?p = "sw_pool s"
  from assms obtain w0 w1 wh where w: "address_word H (pk_currency0 ?p) = Ok w0"
      "address_word H (pk_currency1 ?p) = Ok w1" "address_word H (pk_hooks ?p) = Ok wh"
    and body: "body = w0 @ w1 @ uint_word (ucast (pk_fee ?p)) @ int_word (scast (pk_tick_spacing ?p)) @ wh
       @ word_bool (sw_zero_for_one s) @ word_uint (sw_amount_in s) @ word_uint (sw_amount_out_minimum s)
       @ word_uint 0 @ word_uint 320 @ word_uint 0"
    by (auto simp: swap_params_body_def Let_def and_then_eq_Ok dex_Ok)
  note len = w [THEN length_address_word]
  have "unat (pk_fee ?p) < 2 ^ 32" using unsigned_less [of "pk_fee ?p", where ?'a = nat] by simp
  then have fee: "unat (ucast (pk_fee ?p) :: u128) = unat (pk_fee ?p)"
    by (simp add: unsigned_ucast_eq take_bit_nat_eq_self_iff)
  have "int (from_be (int_word (scast (pk_tick_spacing ?p)))) = sint (pk_tick_spacing ?p) mod 2 ^ 256"
    by (simp add: from_be_int_word sint_scast)
  then have tick: "from_be (int_word (scast (pk_tick_spacing ?p))) = nat (sint (pk_tick_spacing ?p) mod 2 ^ 256)"
    by linarith
  have "length body = 352" by (simp add: body len)
  moreover have "those (map (\<lambda>i. word_at body (32 * i)) [0..<9]) = Some (swap_words s w0 w1 wh)"
    using len by (simp add: body swap_words_def upt_conv_Cons fee tick word_at_def)
  moreover have "word_at body (32 * 9) = Some 320" "bytes_at body 320 = Some []"
    using len by (simp_all add: body bytes_at_def word_at_def)
  moreover have "word_at (encode_single_dynamic_struct body) 0 = Some 32"
    by (simp add: encode_single_dynamic_struct_def word_at_def)
  ultimately show thesis
    using w that by (simp add: read_swap_def Let_def encode_single_dynamic_struct_def)
qed

lemma read_execute_encoded:
  assumes "unat d = n" and "length (encode_dyn_bytes c) = 64" and "length c < 2 ^ 128"
    and "length (encode_bytes_array inputs) < 2 ^ 128"
  shows "read_execute (word_uint 96 @ word_uint 160 @ word_uint d @ encode_dyn_bytes c @ encode_bytes_array inputs)
    = Some (c, inputs, n)"
proof -
  let ?bs = "word_uint 96 @ word_uint 160 @ word_uint d @ encode_dyn_bytes c @ encode_bytes_array inputs"
  have "word_at ?bs 0 = Some 96" "word_at ?bs 32 = Some 160" "word_at ?bs 64 = Some n"
    by (rule word_at_uint, simp, simp add: assms(1))+
  moreover have "bytes_at ?bs 96 = Some c"
    by (rule bytes_at_here [where r = "encode_bytes_array inputs"]) (use assms in simp_all)
  moreover have "array_at ?bs 160 = Some inputs"
    by (rule array_at_here [where r = "[]"]) (use assms in simp_all)
  ultimately show ?thesis by (simp add: read_execute_def)
qed

section \<open>Properties\<close>

lemma execute_reads_back:
  assumes "execute_calldata H keccak s deadline = Ok out"
  shows "\<exists>args input p1 p2 p3 w0 w1 wh win wout.
    out = selector keccak ''execute(bytes,bytes[],uint256)'' @ args
    \<and> read_execute args = Some ([0x10], [input], unat deadline)
    \<and> read_actions input = Some ([0x06, 0x0c, 0x0f], [p1, p2, p3])
    \<and> read_swap p1 = Some (swap_words s w0 w1 wh, [])
    \<and> read_pair p2 = Some (from_be win, unat (sw_amount_in s))
    \<and> read_pair p3 = Some (from_be wout, unat (sw_amount_out_minimum s))
    \<and> address_word H (pk_currency0 (sw_pool s)) = Ok w0 \<and> address_word H (pk_currency1 (sw_pool s)) = Ok w1
    \<and> address_word H (pk_hooks (sw_pool s)) = Ok wh
    \<and> address_word H (token_in s) = Ok win \<and> address_word H (token_out s) = Ok wout"
proof -
  from assms obtain body win wout where
    body: "swap_params_body H s = Ok body" and win: "address_word H (token_in s) = Ok win"
    and wout: "address_word H (token_out s) = Ok wout"
    and input: "v4_swap_input H s = Ok (encode_bytes_and_bytes_array [0x06, 0x0c, 0x0f]
      [encode_single_dynamic_struct body, win @ word_uint (sw_amount_in s), wout @ word_uint (sw_amount_out_minimum s)])"
    by (auto simp: execute_calldata_def v4_swap_input_def settle_all_params_def take_all_params_def
        and_then_eq_Ok dex_Ok action_swap_exact_in_single_def action_settle_all_def action_take_all_def)
  let ?ps = "[encode_single_dynamic_struct body, win @ word_uint (sw_amount_in s), wout @ word_uint (sw_amount_out_minimum s)]"
  let ?input = "encode_bytes_and_bytes_array [0x06, 0x0c, 0x0f] ?ps"
  from body obtain w0 w1 wh where w: "address_word H (pk_currency0 (sw_pool s)) = Ok w0"
    "address_word H (pk_currency1 (sw_pool s)) = Ok w1" "address_word H (pk_hooks (sw_pool s)) = Ok wh"
    and len: "length body = 352" and swap: "read_swap (encode_single_dynamic_struct body) = Some (swap_words s w0 w1 wh, [])"
    by (rule read_swap_encoded)
  have lens: "length win = 32" "length wout = 32" using win wout length_address_word by blast+
  have "length (encode_bytes_array ?ps) = 736"
    by (simp add: length_array length_dyn encode_single_dynamic_struct_def len lens)
  then have acts: "read_actions ?input = Some ([0x06, 0x0c, 0x0f], ?ps)"
    and linput: "length ?input = 864"
    by (simp_all add: read_actions_encoded) (simp add: encode_bytes_and_bytes_array_def length_dyn Let_def)
  let ?args = "word_uint 96 @ word_uint 160 @ word_uint (ucast deadline) @ encode_dyn_bytes [0x10] @ encode_bytes_array [?input]"
  have out: "out = selector keccak ''execute(bytes,bytes[],uint256)'' @ ?args"
    using assms by (simp add: execute_calldata_def input and_then_def cmd_v4_swap_def length_dyn Let_def)
  have "unat deadline < 2 ^ 64" using unsigned_less [of deadline, where ?'a = nat] by simp
  then have dl: "unat (ucast deadline :: u128) = unat deadline"
    by (simp add: unsigned_ucast_eq take_bit_nat_eq_self_iff)
  have "length (encode_bytes_array [?input]) = 960" by (simp add: length_array length_dyn linput)
  then have exec: "read_execute ?args = Some ([0x10], [?input], unat deadline)"
    by (intro read_execute_encoded) (simp_all add: dl length_dyn)
  have "read_pair (win @ word_uint (sw_amount_in s)) = Some (from_be win, unat (sw_amount_in s))"
    "read_pair (wout @ word_uint (sw_amount_out_minimum s)) = Some (from_be wout, unat (sw_amount_out_minimum s))"
    using lens by (simp_all add: read_pair_def word_at_def)
  with out exec acts swap w win wout show ?thesis by blast
qed

text \<open>
  The calldata of a swap says exactly what the swap is. Read the way the router reads it, by
  following the offsets, the call carries the one swap command, the deadline and one input;
  the input carries the three actions; the first action's parameters are the pool's fields,
  the direction, the amount in and the least amount out, with no hook data; the second
  settles the input token for the amount in, and the third takes the output token with the
  least amount out as its bound.
\<close>

theorem swap_calldata_reads_back:
  assumes "execute_calldata H keccak s deadline = Ok out"
  shows "\<exists>args input p1 p2 p3 w0 w1 wh win wout.
    out = selector keccak ''execute(bytes,bytes[],uint256)'' @ args
    \<and> read_execute args = Some ([0x10], [input], unat deadline)
    \<and> read_actions input = Some ([0x06, 0x0c, 0x0f], [p1, p2, p3])
    \<and> read_swap p1 = Some (swap_words s w0 w1 wh, [])
    \<and> read_pair p2 = Some (from_be win, unat (sw_amount_in s))
    \<and> read_pair p3 = Some (from_be wout, unat (sw_amount_out_minimum s))
    \<and> address_word H (pk_currency0 (sw_pool s)) = Ok w0 \<and> address_word H (pk_currency1 (sw_pool s)) = Ok w1
    \<and> address_word H (pk_hooks (sw_pool s)) = Ok wh
    \<and> address_word H (token_in s) = Ok win \<and> address_word H (token_out s) = Ok wout"
  using assms by (rule execute_reads_back)

definition demo_swap :: single_swap where
  "demo_swap = \<lparr>sw_pool = \<lparr>pk_currency0 = demo_usdg, pk_currency1 = demo_nvda, pk_fee = 3000,
       pk_tick_spacing = - 60, pk_hooks = demo_zero\<rparr>,
     sw_zero_for_one = True, sw_amount_in = 1000000, sw_amount_out_minimum = 4975\<rparr>"

theorem swap_calldata_reads_back_witness:
  "\<exists>out args input p1 ws. execute_calldata plain_hex (take 32) demo_swap 1700000000 = Ok out \<and> out = selector (take 32) ''execute(bytes,bytes[],uint256)'' @ args
    \<and> read_execute args = Some ([0x10], [input], 1700000000)
    \<and> (\<exists>p2 p3. read_actions input = Some ([0x06, 0x0c, 0x0f], [p1, p2, p3])) \<and> read_swap p1 = Some (ws, [])
    \<and> ws ! 2 = 3000 \<and> ws ! 3 = 2 ^ 256 - 60 \<and> ws ! 5 = 1 \<and> ws ! 6 = 1000000 \<and> ws ! 7 = 4975"
proof -
  obtain w0 w1 where w: "address_word plain_hex demo_usdg = Ok w0" "address_word plain_hex demo_nvda = Ok w1"
    using demo_words(2,3) by (auto split: sum.splits)
  then obtain out where out: "execute_calldata plain_hex (take 32) demo_swap 1700000000 = Ok out"
    by (simp add: execute_calldata_def v4_swap_input_def swap_params_body_def settle_all_params_def take_all_params_def
        demo_swap_def token_in_def token_out_def demo_words(1) and_then_def Let_def)
  have tick: "sint (- 60 :: 32 word) = - 60"
    by code_simp
  from swap_calldata_reads_back [OF out] out show ?thesis
    by (elim exE conjE, intro exI conjI) (assumption | simp add: swap_words_def demo_swap_def tick)+
qed

lemma slippage_bound:
  "(case amount_out_minimum expected bps of
      Inr m \<Rightarrow> bps < 10000 \<and> unat expected * (10000 - unat bps) < 2 ^ 128
        \<and> unat m = unat expected * (10000 - unat bps) div 10000 \<and> m \<le> expected
        \<and> (unat expected - unat m) * 10000 < unat expected * unat bps + 10000
    | Inl (InvalidSlippage b) \<Rightarrow> b = bps \<and> 10000 \<le> bps
    | Inl AmountOverflow \<Rightarrow> bps < 10000 \<and> 2 ^ 128 \<le> unat expected * (10000 - unat bps)
    | Inl (DexChain _) \<Rightarrow> False)"
proof (cases "10000 \<le> bps")
  case True
  then show ?thesis by (simp add: amount_out_minimum_def)
next
  case False
  let ?k = "10000 - unat bps"
  have lt: "unat bps < 10000" using False by (simp add: word_le_nat_alt)
  have "unat (10000 - bps) = ?k" using False by (simp add: unat_sub)
  then have keep: "unat (ucast (10000 - bps) :: u128) = ?k"
    by (simp add: unsigned_ucast_eq take_bit_nat_eq_self_iff)
  show ?thesis
  proof (cases "2 ^ 128 \<le> unat expected * ?k")
    case True
    with False keep show ?thesis by (simp add: amount_out_minimum_def Let_def)
  next
    case fits: False
    let ?m = "expected * ucast (10000 - bps) div 10000"
    have m: "unat ?m = unat expected * ?k div 10000"
      using fits by (simp add: unat_div unat_word_ariths keep)
    have "unat expected * ?k \<le> unat expected * 10000" by simp
    then have le: "unat ?m \<le> unat expected" unfolding m by linarith
    have split: "unat expected * 10000 = unat expected * ?k + unat expected * unat bps"
      using lt by (simp flip: distrib_left)
    have "unat expected * ?k < unat ?m * 10000 + 10000" unfolding m by linarith
    with split le have "(unat expected - unat ?m) * 10000 < unat expected * unat bps + 10000"
      by (simp add: diff_mult_distrib)
    with False fits keep m le show ?thesis
      by (simp add: amount_out_minimum_def Let_def word_le_nat_alt word_less_nat_alt not_le)
  qed
qed

lemma amount_out_minimum_exact:
  assumes "amount_out_minimum expected bps = Ok m"
  shows "bps < 10000" and "unat m = unat expected * (10000 - unat bps) div 10000"
  using slippage_bound [where expected = expected and bps = bps] by (simp_all add: assms)

text \<open>
  The least amount out is exactly the expected amount less the slippage, rounded down. It is
  refused for a slippage of 100 percent or more and for an amount whose product would not
  fit; otherwise it never exceeds the expected amount, and what may be lost is at most the
  slippage's share of it, rounded up.
\<close>

theorem slippage_bound_is_exact:
  "(case amount_out_minimum expected bps of
      Inr m \<Rightarrow> bps < 10000 \<and> unat expected * (10000 - unat bps) < 2 ^ 128
        \<and> unat m = unat expected * (10000 - unat bps) div 10000 \<and> m \<le> expected
        \<and> (unat expected - unat m) * 10000 < unat expected * unat bps + 10000
    | Inl (InvalidSlippage b) \<Rightarrow> b = bps \<and> 10000 \<le> bps
    | Inl AmountOverflow \<Rightarrow> bps < 10000 \<and> 2 ^ 128 \<le> unat expected * (10000 - unat bps)
    | Inl (DexChain _) \<Rightarrow> False)"
  by (rule slippage_bound)

text \<open>
  The two approvals name exactly the spender, the token and a bounded amount: read as the
  contracts read them, the words after the selector are those addresses, the amount, which
  never reaches two to the 128th, and the expiry.
\<close>

theorem approvals_read_back:
  assumes "erc20_approve_calldata H keccak spender amount = Ok a"
    and "permit2_approve_calldata H keccak token spender' amount' expiration = Ok b"
  shows "\<exists>x y ws wt ws'. a = selector keccak ''approve(address,uint256)'' @ x
    \<and> b = selector keccak ''approve(address,address,uint160,uint48)'' @ y
    \<and> address_word H spender = Ok ws \<and> address_word H token = Ok wt \<and> address_word H spender' = Ok ws'
    \<and> read_pair x = Some (from_be ws, unat amount) \<and> length x = 64 \<and> unat amount < 2 ^ 128
    \<and> read_pair y = Some (from_be wt, from_be ws')
    \<and> read_pair (drop 64 y) = Some (unat amount', unat expiration) \<and> length y = 128"
proof -
  from assms obtain ws wt ws' where w: "address_word H spender = Ok ws" "address_word H token = Ok wt"
      "address_word H spender' = Ok ws'"
    and ab: "a = selector keccak ''approve(address,uint256)'' @ ws @ uint_word amount"
      "b = selector keccak ''approve(address,address,uint160,uint48)'' @ wt @ ws' @ uint_word amount' @ uint_word (ucast expiration)"
    by (auto simp: erc20_approve_calldata_def permit2_approve_calldata_def and_then_eq_Ok dex_Ok)
  have "unat expiration < 2 ^ 64" using unsigned_less [of expiration, where ?'a = nat] by simp
  then have "unat (ucast expiration :: u128) = unat expiration"
    by (simp add: unsigned_ucast_eq take_bit_nat_eq_self_iff)
  with w ab w [THEN length_address_word] unat_u128_less [of amount] show ?thesis
    by (auto simp: read_pair_def word_at_def)
qed

theorem approvals_read_back_witness:
  "\<exists>a b x y. erc20_approve_calldata plain_hex (take 32) permit2_address 1000000 = Ok a
    \<and> permit2_approve_calldata plain_hex (take 32) demo_usdg permit2_address 1000000 1700000000 = Ok b
    \<and> a = selector (take 32) ''approve(address,uint256)'' @ x \<and> length x = 64
    \<and> b = selector (take 32) ''approve(address,address,uint160,uint48)'' @ y
    \<and> read_pair (drop 64 y) = Some (1000000, 1700000000)"
proof -
  have "(case address_word plain_hex permit2_address of Inl _ \<Rightarrow> False | Inr _ \<Rightarrow> True)" by code_simp
  then obtain w0 w1 where w: "address_word plain_hex demo_usdg = Ok w0" "address_word plain_hex permit2_address = Ok w1"
    using demo_words(2,3) by (auto split: sum.splits)
  then obtain a b where
    "erc20_approve_calldata plain_hex (take 32) permit2_address 1000000 = Ok a"
    "permit2_approve_calldata plain_hex (take 32) demo_usdg permit2_address 1000000 1700000000 = Ok b"
    by (simp add: erc20_approve_calldata_def permit2_approve_calldata_def and_then_def)
  from approvals_read_back [OF this] this show ?thesis by auto
qed

end
