(* ===== verification/Chain_Feed.thy ===== *)
theory Chain_Feed
  imports Univ4
begin

text \<open>
  The live price feed of \<open>crates/chain/src/feed.rs\<close>. One poll retries until it has a price;
  \<open>poll_loop\<close> takes the number of attempts to look at, so that not returning is visible. The
  pauses are what the code sleeps, in milliseconds or whole intervals. The count of failures is
  32 bits wide and wraps, which needs a configured limit of all ones.
\<close>

record feed_symbol =
  fs_symbol :: string
  fs_address :: string
  fs_decimals :: u8
  fs_pool :: "pool_key option"

record chain_feed_config =
  cf_pool_manager :: string
  cf_state_view :: string
  cf_denom_address :: string
  cf_denom_decimals :: u8
  cf_poll_interval :: nat     \<comment> \<open>nanoseconds\<close>
  cf_max_retries :: u32

definition default_pool_manager :: string where
  "default_pool_manager = ''0x8366a39cc670b4001a1121b8f6a443a643e40951''"

definition default_state_view :: string where
  "default_state_view = ''0xf3334192d15450cdd385c8b70e03f9a6bd9e673b''"

definition chain_feed_config_default :: chain_feed_config where
  "chain_feed_config_default = (let (symbol, address, decimals) = resolve_token ''USDG'' in
     \<lparr>cf_pool_manager = default_pool_manager, cf_state_view = default_state_view, cf_denom_address = address,
      cf_denom_decimals = of_nat decimals, cf_poll_interval = 15 * 1000000000, cf_max_retries = 8\<rparr>)"

record chain_feed =
  fd_config :: chain_feed_config
  fd_symbols :: "feed_symbol list"
  fd_idx :: nat
  fd_cycle_deadline :: "instant option"

definition chain_feed_new :: "string list \<Rightarrow> chain_feed_config \<Rightarrow> chain_feed" where
  "chain_feed_new symbols cfg = \<lparr>fd_config = cfg,
     fd_symbols = map (\<lambda>s. let (symbol, address, decimals) = resolve_token s in
       \<lparr>fs_symbol = symbol, fs_address = address, fs_decimals = of_nat decimals, fs_pool = None\<rparr>) symbols,
     fd_idx = 0, fd_cycle_deadline = None\<rparr>"

section \<open>Reading one price\<close>

text \<open>What a poll needs besides the symbol: the packages and the node.\<close>

record 'c chain_env =
  cv_arith :: arith
  cv_scaled :: scaled
  cv_hex :: hex_codec
  cv_keccak :: "bytes \<Rightarrow> bytes"
  cv_logs :: "json \<Rightarrow> message + raw_log list"
  cv_request :: "'c client"

text \<open>One attempt: the pool that is known, or the best one up to the head; then its price.\<close>

definition pool_of_symbol ::
    "'c chain_env \<Rightarrow> chain_feed_config \<Rightarrow> feed_symbol \<Rightarrow> 'c \<Rightarrow> (pool_key chain_result \<times> 'c) option" where
  "pool_of_symbol V cfg entry c = (case fs_pool entry of
       Some p \<Rightarrow> Some (Ok p, c)
     | None \<Rightarrow> (case rpc_block_number (cv_request V) c of
         (Inl e, c1) \<Rightarrow> Some (Err e, c1)
       | (Inr head, c1) \<Rightarrow> do {
           (r, c2) \<leftarrow> find_best_pool (cv_hex V) (cv_keccak V) (cv_logs V) (cv_request V) (cf_pool_manager cfg)
             (cf_state_view cfg) (fs_address entry) (cf_denom_address cfg) 0 head c1;
           Some (and_then r (\<lambda>ranked. Ok (rk_key ranked)), c2) }))"

definition read_attempt ::
    "'c chain_env \<Rightarrow> chain_feed_config \<Rightarrow> feed_symbol \<Rightarrow> 'c \<Rightarrow> ((dec \<times> pool_key) chain_result \<times> 'c) option" where
  "read_attempt V cfg entry c = do {
     (r, c1) \<leftarrow> pool_of_symbol V cfg entry c;
     (case r of
        Inl e \<Rightarrow> Some (Err e, c1)
      | Inr pool \<Rightarrow> do {
          (q, c2) \<leftarrow> quote_pool (cv_arith V) (cv_scaled V) (cv_hex V) (cv_keccak V) (cv_request V) (cf_state_view cfg)
            pool (fs_address entry) (fs_decimals entry) (cf_denom_decimals cfg) c1;
          Some (and_then q (\<lambda>price. Ok (price, pool)), c2) }) }"

text \<open>The pause after a failure, in nanoseconds, and the count of failures after it.\<close>

definition after_failure :: "chain_feed_config \<Rightarrow> u32 \<Rightarrow> nat \<times> u32" where
  "after_failure cfg attempt_no = (let n = attempt_no + 1 in
     if cf_max_retries cfg < n then (max (cf_poll_interval cfg) (5 * 1000000000), 0)
     else (300 * 2 ^ unat (min n 6) * 1000000, n))"

datatype 'c poll_result =
    Polled dec pool_key "nat list" 'c     \<comment> \<open>the pauses, the last first\<close>
  | Retrying "nat list" 'c

fun poll_loop ::
    "nat \<Rightarrow> 'c chain_env \<Rightarrow> chain_feed_config \<Rightarrow> feed_symbol \<Rightarrow> u32 \<Rightarrow> nat list \<Rightarrow> 'c \<Rightarrow> 'c poll_result option"
where
  "poll_loop 0 V cfg entry attempt_no pauses c = Some (Retrying pauses c)"
| "poll_loop (Suc n) V cfg entry attempt_no pauses c = do {
     (r, c1) \<leftarrow> read_attempt V cfg entry c;
     (case r of
        Inr (price, pool) \<Rightarrow> Some (Polled price pool pauses c1)
      | Inl e \<Rightarrow> (let (pause, next_no) = after_failure cfg attempt_no
          in poll_loop n V cfg entry next_no (pause # pauses) c1)) }"

definition read_one ::
    "nat \<Rightarrow> 'c chain_env \<Rightarrow> chain_feed_config \<Rightarrow> feed_symbol \<Rightarrow> 'c \<Rightarrow> 'c poll_result option" where
  "read_one fuel V cfg entry c = poll_loop fuel V cfg entry 0 [] c"

section \<open>The feed\<close>

text \<open>The clock is read before the wait, where there is one, and after it.\<close>

definition wait_for_cycle :: "instant \<Rightarrow> instant \<Rightarrow> chain_feed \<Rightarrow> instant option \<times> chain_feed" where
  "wait_for_cycle before after feed =
     ((case fd_cycle_deadline feed of
         None \<Rightarrow> None
       | Some deadline \<Rightarrow> if before < deadline then Some deadline else None),
      feed\<lparr>fd_cycle_deadline := Some (after + int (cf_poll_interval (fd_config feed)))\<rparr>)"

datatype tick_result =
    NoTick
  | NewTick tick
  | StillRetrying

text \<open>The state after a tick; a poll that is still retrying leaves the one it had.\<close>

definition feed_next_tick ::
    "nat \<Rightarrow> 'c chain_env \<Rightarrow> instant \<Rightarrow> instant \<Rightarrow> instant \<Rightarrow> chain_feed \<Rightarrow> 'c \<Rightarrow> (tick_result \<times> chain_feed \<times> 'c) option"
where
  "feed_next_tick fuel V before after now feed c =
     (if fd_symbols feed = [] then Some (NoTick, feed, c)
      else
        (let feed1 = (if fd_idx feed = 0 then snd (wait_for_cycle before after feed) else feed);
             i = fd_idx feed1;
             feed2 = feed1\<lparr>fd_idx := (i + 1) mod length (fd_symbols feed1)\<rparr>;
             entry = fd_symbols feed2 ! i
         in do {
           r \<leftarrow> read_one fuel V (fd_config feed2) entry c;
           Some (case r of
               Retrying _ c1 \<Rightarrow> (StillRetrying, feed2, c1)
             | Polled price pool _ c1 \<Rightarrow>
                 (NewTick \<lparr>tk_at = now, tk_symbol = fs_symbol entry, tk_price = price\<rparr>,
                  feed2\<lparr>fd_symbols := (fd_symbols feed2)[i := entry\<lparr>fs_pool := Some pool\<rparr>]\<rparr>, c1)) }))"

section \<open>Lemmas\<close>

text \<open>The node's state after some failed attempts, when the first ones all fail.\<close>

fun failed_attempts :: "nat \<Rightarrow> 'c chain_env \<Rightarrow> chain_feed_config \<Rightarrow> feed_symbol \<Rightarrow> 'c \<Rightarrow> 'c option" where
  "failed_attempts 0 V cfg entry c = Some c"
| "failed_attempts (Suc n) V cfg entry c = (case read_attempt V cfg entry c of
       Some (Inl e, c1) \<Rightarrow> failed_attempts n V cfg entry c1
     | _ \<Rightarrow> None)"

lemma poll_loop_Polled:
  "(\<exists>ps. poll_loop n V cfg entry k pauses c = Some (Polled price pool ps c')) \<longleftrightarrow>
     (\<exists>m < n. \<exists>c1. failed_attempts m V cfg entry c = Some c1 \<and> read_attempt V cfg entry c1 = Some (Ok (price, pool), c'))"
proof (induction n arbitrary: k pauses c)
  case (Suc n)
  obtain p q where after: "after_failure cfg k = (p, q)" by force
  show ?case
  proof (cases "read_attempt V cfg entry c")
    case None
    then show ?thesis by (simp add: Ex_less_Suc2)
  next
    case (Some rc)
    obtain r c1 where rc: "rc = (r, c1)" by force
    show ?thesis
    proof (cases r)
      case (Inl e)
      with Suc.IH [of q "p # pauses" c1] Some rc after show ?thesis by (simp add: Ex_less_Suc2)
    next
      case (Inr pp)
      with Some rc show ?thesis by (cases pp) (auto simp: Ex_less_Suc2)
    qed
  qed
qed simp

lemma poll_loop_Retrying:
  "(\<exists>ps. poll_loop n V cfg entry k pauses c = Some (Retrying ps c')) \<longleftrightarrow> failed_attempts n V cfg entry c = Some c'"
proof (induction n arbitrary: k pauses c)
  case (Suc n)
  obtain p q where after: "after_failure cfg k = (p, q)" by force
  show ?case
  proof (cases "read_attempt V cfg entry c")
    case (Some rc)
    obtain r c1 where rc: "rc = (r, c1)" by force
    with Some Suc.IH [of q "p # pauses" c1] after show ?thesis by (cases r) auto
  qed simp
qed simp

lemma pause_bounded: "fst (after_failure cfg k) \<le> max (cf_poll_interval cfg) 19200000000"
proof -
  have "unat (min n 6) \<le> 6" for n :: u32 by (simp add: min_def word_le_nat_alt)
  then have "300 * 2 ^ unat (min n 6) * 1000000 \<le> (19200000000 :: nat)" for n :: u32
    using power_increasing [of "unat (min n 6)" 6 "2 :: nat"] by simp
  then show ?thesis by (auto simp: after_failure_def Let_def le_max_iff_disj)
qed

lemma poll_loop_pauses:
  "poll_loop n V cfg entry k pauses c = Some r \<Longrightarrow>
     list_all (\<lambda>p. p \<le> max (cf_poll_interval cfg) 19200000000) pauses \<Longrightarrow>
     list_all (\<lambda>p. p \<le> max (cf_poll_interval cfg) 19200000000)
       (case r of Polled _ _ ps _ \<Rightarrow> ps | Retrying ps _ \<Rightarrow> ps)"
proof (induction n arbitrary: k pauses c)
  case (Suc n)
  obtain p q where after: "after_failure cfg k = (p, q)" by force
  then have "p \<le> max (cf_poll_interval cfg) 19200000000" using pause_bounded [of cfg k] by simp
  then have grown: "list_all (\<lambda>p. p \<le> max (cf_poll_interval cfg) 19200000000) (p # pauses)" using Suc.prems(2) by simp
  from Suc.prems(1) obtain res c1 where res: "read_attempt V cfg entry c = Some (res, c1)" by (auto simp: bind_Some_iff)
  show ?case
  proof (cases res)
    case (Inl e)
    with Suc.prems(1) res after have "poll_loop n V cfg entry q (p # pauses) c1 = Some r" by simp
    from Suc.IH [OF this grown] show ?thesis .
  next
    case (Inr pp)
    with Suc.prems res show ?thesis by (cases pp) auto
  qed
qed auto

text \<open>A node that refuses whatever it is asked.\<close>

definition refuses :: "'c client \<Rightarrow> bool" where
  "refuses request \<longleftrightarrow> (\<forall>c m p. isl (fst (request c m p)))"

lemma refuses_call: "refuses request \<Longrightarrow> isl (fst (eth_call H request t d c))"
  unfolding refuses_def eth_call_def call_inner_def
  by (auto simp: case_prod_beta Let_def and_then_def isl_def split: sum.split) (metis isl_def sum.disc(2))

lemma refused_attempt:
  assumes "refuses (cv_request V)"
  shows "\<exists>e c'. read_attempt V cfg entry c = Some (Err e, c')"
proof -
  have no_head: "isl (fst (rpc_block_number (cv_request V) c))" for c
    using assms unfolding refuses_def rpc_block_number_def
    by (auto simp: case_prod_beta Let_def and_then_def isl_def split: sum.split) (metis isl_def sum.disc(2))
  have no_slot: "isl (fst (get_slot0 H k (cv_request V) sv pid c))" for H k sv pid c
    using refuses_call [OF assms] unfolding get_slot0_def
    by (auto simp: case_prod_beta Let_def and_then_def isl_def split: sum.split) (metis isl_def sum.disc(2))
  show ?thesis
  proof (cases "fs_pool entry")
    case None
    obtain r c1 where r: "rpc_block_number (cv_request V) c = (r, c1)" by force
    with no_head [of c] obtain e where "r = Err e" by (auto simp: isl_def)
    with None r show ?thesis by (simp add: read_attempt_def pool_of_symbol_def)
  next
    case (Some pool)
    have "\<exists>e c'. quote_pool A D H k (cv_request V) sv pool t d1 d2 c = Some (Err e, c')" for A D H k sv t d1 d2
    proof (cases "pool_id H k pool")
      case (Inr pid)
      obtain r c1 where r: "get_slot0 H k (cv_request V) sv pid c = (r, c1)" by force
      with no_slot [of H k sv pid c] obtain e where "r = Err e" by (auto simp: isl_def)
      with Inr r show ?thesis by (simp add: quote_pool_def)
    qed (simp add: quote_pool_def)
    then obtain e c' where "quote_pool (cv_arith V) (cv_scaled V) (cv_hex V) (cv_keccak V) (cv_request V)
        (cf_state_view cfg) pool (fs_address entry) (fs_decimals entry) (cf_denom_decimals cfg) c = Some (Err e, c')"
      by blast
    with Some show ?thesis by (simp add: read_attempt_def pool_of_symbol_def)
  qed
qed

lemma refused_attempts: "refuses (cv_request V) \<Longrightarrow> \<exists>c'. failed_attempts n V cfg entry c = Some c'"
proof (induction n arbitrary: c)
  case (Suc n)
  obtain e c1 where "read_attempt V cfg entry c = Some (Err e, c1)" using refused_attempt [OF Suc.prems] by blast
  with Suc show ?case by simp
qed simp

section \<open>Properties\<close>


text \<open>
  A poll has no end while the node refuses. Against a node that answers every request with
  an error no number of attempts gives a tick or an end of the feed, whatever the limit on
  retries is, so whatever follows the tick never runs.
\<close>

theorem refused_poll_never_ends:
  assumes "refuses (cv_request V)" and "fd_symbols feed \<noteq> []"
  shows "\<exists>feed' c'. feed_next_tick fuel V before after now feed c = Some (StillRetrying, feed', c')"
proof -
  have "\<exists>ps c'. read_one fuel V cfg entry c = Some (Retrying ps c')" for cfg entry
    using refused_attempts [OF assms(1)] poll_loop_Retrying [of fuel V cfg entry 0 "[]" c]
    unfolding read_one_def by metis
  then obtain ps c' where
    "read_one fuel V (fd_config feed) (fd_symbols feed ! fd_idx feed) c = Some (Retrying ps c')" by blast
  with assms(2) show ?thesis by (auto simp: feed_next_tick_def wait_for_cycle_def Let_def)
qed

text \<open>Polling again and again, each time with the readings of the clock.\<close>

fun feed_polls ::
    "nat \<Rightarrow> 'c chain_env \<Rightarrow> (instant \<times> instant \<times> instant) list \<Rightarrow> chain_feed \<Rightarrow> 'c
      \<Rightarrow> (tick_result list \<times> chain_feed \<times> 'c) option"
where
  "feed_polls fuel V [] feed c = Some ([], feed, c)"
| "feed_polls fuel V ((before, after, now) # ts) feed c = do {
     (r, feed1, c1) \<leftarrow> feed_next_tick fuel V before after now feed c;
     (rs, feed2, c2) \<leftarrow> feed_polls fuel V ts feed1 c1;
     Some (r # rs, feed2, c2) }"

text \<open>What polling keeps: the symbols in their order, and every pool that is known.\<close>

definition keeps_pools :: "chain_feed \<Rightarrow> chain_feed \<Rightarrow> bool" where
  "keeps_pools f g \<longleftrightarrow> map fs_symbol (fd_symbols g) = map fs_symbol (fd_symbols f)
     \<and> list_all2 (\<lambda>x y. fs_pool x = None \<or> fs_pool y = fs_pool x) (fd_symbols f) (fd_symbols g)"

lemma keeps_pools_trans: "keeps_pools f g \<Longrightarrow> keeps_pools g h \<Longrightarrow> keeps_pools f h"
  unfolding keeps_pools_def by (auto simp: list_all2_conv_all_nth) metis

lemma known_pool_is_polled:
  assumes "fs_pool entry = Some p" and "read_one fuel V cfg entry c = Some (Polled price pool ps c')"
  shows "pool = p"
proof -
  obtain c1 where "read_attempt V cfg entry c1 = Some (Ok (price, pool), c')"
    using assms(2) poll_loop_Polled [of fuel V cfg entry 0 "[]" c price pool c'] unfolding read_one_def by blast
  with assms(1) show ?thesis
    by (auto simp: read_attempt_def pool_of_symbol_def bind_Some_iff and_then_eq_Ok)
qed

lemma next_tick_step:
  assumes "feed_next_tick fuel V before after now feed c = Some (r, feed', c')"
    and "fd_idx feed < length (fd_symbols feed)"
  shows "(r = StillRetrying \<or> (\<exists>t. r = NewTick t \<and> tk_symbol t = fs_symbol (fd_symbols feed ! fd_idx feed)))
    \<and> fd_idx feed' = (fd_idx feed + 1) mod length (fd_symbols feed) \<and> keeps_pools feed feed'"
proof -
  let ?entry = "fd_symbols feed ! fd_idx feed"
  have some: "fd_symbols feed \<noteq> []" using assms(2) by auto
  obtain feed1 where feed1: "feed1 = (if fd_idx feed = 0 then snd (wait_for_cycle before after feed) else feed)" by simp
  then have same: "fd_symbols feed1 = fd_symbols feed" "fd_idx feed1 = fd_idx feed" "fd_config feed1 = fd_config feed"
    by (simp_all add: wait_for_cycle_def)
  from assms(1) some obtain p where p: "read_one fuel V (fd_config feed) ?entry c = Some p"
    by (auto simp: feed_next_tick_def Let_def bind_Some_iff same simp flip: feed1)
  with assms(1) some have out: "(r, feed', c') = (case p of
         Retrying _ c1 \<Rightarrow> (StillRetrying, feed1\<lparr>fd_idx := (fd_idx feed + 1) mod length (fd_symbols feed)\<rparr>, c1)
       | Polled price pool _ c1 \<Rightarrow> (NewTick \<lparr>tk_at = now, tk_symbol = fs_symbol ?entry, tk_price = price\<rparr>,
           feed1\<lparr>fd_idx := (fd_idx feed + 1) mod length (fd_symbols feed),
             fd_symbols := (fd_symbols feed)[fd_idx feed := ?entry\<lparr>fs_pool := Some pool\<rparr>]\<rparr>, c1))"
    by (cases p) (auto simp: feed_next_tick_def Let_def same simp flip: feed1)
  have refl: "keeps_pools feed (feed1\<lparr>fd_idx := n\<rparr>)" for n
    by (simp add: keeps_pools_def same list_all2_conv_all_nth)
  show ?thesis
  proof (cases p)
    case (Retrying ps c1)
    with out refl show ?thesis by simp
  next
    case (Polled price pool ps c1)
    have "fs_pool ?entry = None \<or> fs_pool ?entry = Some pool"
      using known_pool_is_polled [of ?entry _ fuel V "fd_config feed" c price pool ps c1] p Polled
      by (cases "fs_pool ?entry") auto
    then have "keeps_pools feed (feed1\<lparr>fd_idx := n,
        fd_symbols := (fd_symbols feed)[fd_idx feed := ?entry\<lparr>fs_pool := Some pool\<rparr>]\<rparr>)" for n
      using assms(2) list_update_id [of "map fs_symbol (fd_symbols feed)" "fd_idx feed"]
      by (auto simp: keeps_pools_def list_all2_conv_all_nth nth_list_update map_update split: if_splits)
    with out Polled show ?thesis by simp
  qed
qed

text \<open>
  The feed polls its symbols in turn and keeps what it found. Every poll of a feed that has
  symbols gives a tick of the symbol whose turn it is, or is still retrying; the feed never
  ends. The symbols stay, in their order, and a pool that was once found for a symbol is the
  pool of that symbol from then on.
\<close>

theorem feed_polls_in_turn:
  assumes "feed_polls fuel V ts feed c = Some (rs, feed', c')" and "fd_idx feed < length (fd_symbols feed)"
  shows "length rs = length ts
    \<and> (\<forall>j < length rs. rs ! j = StillRetrying \<or> (\<exists>t. rs ! j = NewTick t
         \<and> tk_symbol t = fs_symbol (fd_symbols feed ! ((fd_idx feed + j) mod length (fd_symbols feed)))))
    \<and> map fs_symbol (fd_symbols feed') = map fs_symbol (fd_symbols feed)
    \<and> list_all2 (\<lambda>x y. fs_pool x = None \<or> fs_pool y = fs_pool x) (fd_symbols feed) (fd_symbols feed')"
proof -
  have "length rs = length ts \<and> keeps_pools feed feed' \<and> (\<forall>j < length rs. rs ! j = StillRetrying \<or> (\<exists>t. rs ! j = NewTick t
      \<and> tk_symbol t = map fs_symbol (fd_symbols feed) ! ((fd_idx feed + j) mod length (fd_symbols feed))))"
    using assms
  proof (induction fuel V ts feed c arbitrary: rs rule: feed_polls.induct)
    case (1 fuel V feed c)
    then show ?case by (simp add: keeps_pools_def list_all2_conv_all_nth)
  next
    case (2 fuel V before after now ts feed c)
    let ?n = "length (fd_symbols feed)"
    from "2.prems"(1) obtain r feed1 c1 qs where first: "feed_next_tick fuel V before after now feed c = Some (r, feed1, c1)"
      and rest: "feed_polls fuel V ts feed1 c1 = Some (qs, feed', c')" and rs: "rs = r # qs"
      by (auto simp: bind_Some_iff)
    note step = next_tick_step [OF first "2.prems"(2)]
    then have names: "map fs_symbol (fd_symbols feed1) = map fs_symbol (fd_symbols feed)" by (simp add: keeps_pools_def)
    then have len: "length (fd_symbols feed1) = ?n" by (rule map_eq_imp_length_eq)
    have idx: "fd_idx feed1 = (fd_idx feed + 1) mod ?n" using step by simp
    moreover have "0 < ?n" using "2.prems"(2) by linarith
    ultimately have "fd_idx feed1 < length (fd_symbols feed1)" by (simp add: len)
    from "2.IH" [OF first _ _ rest this] have IH: "length qs = length ts" "keeps_pools feed1 feed'"
      "\<forall>j < length qs. qs ! j = StillRetrying \<or> (\<exists>t. qs ! j = NewTick t
         \<and> tk_symbol t = map fs_symbol (fd_symbols feed) ! ((fd_idx feed1 + j) mod ?n))"
      by (simp_all add: names len)
    have shift: "(fd_idx feed1 + j) mod ?n = (fd_idx feed + Suc j) mod ?n" for j
      by (simp add: idx mod_add_left_eq)
    have turn: "rs ! j = StillRetrying \<or> (\<exists>t. rs ! j = NewTick t
        \<and> tk_symbol t = map fs_symbol (fd_symbols feed) ! ((fd_idx feed + j) mod ?n))" if "j < length rs" for j
    proof (cases j)
      case 0
      with step "2.prems"(2) show ?thesis by (auto simp: rs)
    next
      case (Suc i)
      with that have "i < length qs" by (simp add: rs)
      with IH(3) show ?thesis unfolding Suc rs nth_Cons_Suc shift [symmetric] by blast
    qed
    show ?case using IH step turn keeps_pools_trans [of feed feed1 feed'] by (simp add: rs)
  qed
  moreover have "(fd_idx feed + j) mod length (fd_symbols feed) < length (fd_symbols feed)" for j
    using assms(2) by (intro mod_less_divisor) linarith
  ultimately show ?thesis by (simp add: keeps_pools_def)
qed

text \<open>A node that answers nothing, and one with a single pool at price one.\<close>

definition demo_chain :: "'c client \<Rightarrow> 'c chain_env" where
  "demo_chain request = \<lparr>cv_arith = exact_arith, cv_scaled = exact_scaled, cv_hex = plain_hex, cv_keccak = fee_hash,
     cv_logs = \<lambda>_. Ok [], cv_request = request\<rparr>"

definition mute_node :: "unit client" where
  "mute_node c m p = (Err (ChTransport []), c)"

definition slot_node :: "unit client" where
  "slot_node c m p = (Ok (JStr (to_hex plain_hex (uint_word (2 ^ 96) @ int_word 0 @ uint_word 0 @ uint_word 3000))), c)"

definition known_feed :: chain_feed where
  "known_feed = \<lparr>fd_config = \<lparr>cf_pool_manager = [], cf_state_view = [], cf_denom_address = demo_usdg,
       cf_denom_decimals = 18, cf_poll_interval = 0, cf_max_retries = 8\<rparr>,
     fd_symbols = [\<lparr>fs_symbol = ''NVDA'', fs_address = demo_usdg, fs_decimals = 18, fs_pool = Some (pair_pool 3000)\<rparr>],
     fd_idx = 0, fd_cycle_deadline = None\<rparr>"

theorem refused_poll_never_ends_witness:
  "\<exists>feed' c'. feed_next_tick 1000 (demo_chain mute_node) 0 0 0 (chain_feed_new [''NVDA''] chain_feed_config_default) ()
     = Some (StillRetrying, feed', c')"
  by (rule refused_poll_never_ends) (simp_all add: demo_chain_def refuses_def mute_node_def isl_def chain_feed_new_def)

lemma slot_node_slot: "get_slot0 plain_hex k slot_node sv pid () =
  (Ok \<lparr>s0_sqrt_price_x96 = 2 ^ 96, s0_tick = 0, s0_protocol_fee = 0, s0_lp_fee = 3000\<rparr>, ())"
  using decode_i32_int_word [of 0] decode_u128_uint_word [of "2 ^ 96" "[]"] decode_u128_uint_word [of 0 "[]"]
    decode_u128_uint_word [of 3000 "[]"]
  by (simp add: get_slot0_def eth_call_def call_inner_def slot_node_def as_str_def from_hex_to_hex [OF plain_hex_ok]
      decode_slot0_def narrow_u32_def and_then_def)

lemma known_feed_ticks: "\<exists>feed' t. feed_polls 1 (demo_chain slot_node) [(0, 0, 5)] known_feed () = Some ([NewTick t], feed', ())"
proof -
  have "\<exists>p. quote_pool exact_arith exact_scaled plain_hex fee_hash slot_node [] (pair_pool 3000) demo_usdg 18 18 ()
      = Some (Ok p, ())"
    by (simp add: quote_pool_def pair_pool_id slot_node_slot price_from_sqrt_price_x96_def u128_to_decimal_def
        exact_scaled_def pow10_def attempt_def Let_def)
  then show ?thesis
    by (auto simp: known_feed_def demo_chain_def feed_next_tick_def wait_for_cycle_def read_one_def read_attempt_def
        pool_of_symbol_def and_then_def Let_def)
qed

theorem feed_polls_in_turn_witness:
  "\<exists>t feed'. feed_polls 1 (demo_chain slot_node) [(0, 0, 5)] known_feed () = Some ([NewTick t], feed', ())
     \<and> tk_symbol t = ''NVDA''"
proof -
  obtain feed' t where run: "feed_polls 1 (demo_chain slot_node) [(0, 0, 5)] known_feed () = Some ([NewTick t], feed', ())"
    using known_feed_ticks by blast
  from feed_polls_in_turn [OF this] run show ?thesis by (auto simp: known_feed_def)
qed

end
