(* ===== verification/Dex_Preview.thy ===== *)
theory Dex_Preview
  imports Swap Chain_Feed
begin

text \<open>
  The preview of a live swap: \<open>crates/cli/src/dex_preview.rs\<close>, which finds the best pool, reads
  its price, bounds the output by the slippage and builds the calldata, then simulates it with
  the node. Converting between 128-bit integers and decimals is the decimal package's; the
  conversion of too large an integer panics. The node, the hash and the codec are arguments.
\<close>

definition universal_router :: string where
  "universal_router = ''0x8876789976decbfcbbbe364623c63652db8c0904''"

text \<open>The packages and the node, in one record.\<close>

record 'c dex_env =
  dv_arith :: arith
  dv_scaled :: scaled
  dv_from_u128 :: "u128 \<Rightarrow> dec option"
  dv_to_u128 :: "dec \<Rightarrow> message + u128"
  dv_hex :: hex_codec
  dv_keccak :: "bytes \<Rightarrow> bytes"
  dv_logs :: "json \<Rightarrow> message + raw_log list"
  dv_request :: "'c client"

record swap_preview =
  pv_head :: u64
  pv_token_symbol :: string
  pv_denom_symbol :: string
  pv_pool_fee :: u32
  pv_pool_tick_spacing :: "32 word"
  pv_pool_liquidity :: u128
  pv_amount_in :: u128
  pv_amount_out_minimum :: u128
  pv_slippage_bps :: u32
  pv_calldata :: bytes

datatype swap_preview_error =
    PvChain message chain_error
  | PvAmount message
  | PvDex dex_error

text \<open>What the input is worth at the price, in base units of the output token.\<close>

definition expected_out :: "'c dex_env \<Rightarrow> u128 \<Rightarrow> nat \<Rightarrow> nat \<Rightarrow> dec \<Rightarrow> (swap_preview_error + u128) option" where
  "expected_out V amount_in token_dec denom_dec spot = do {
     amount \<leftarrow> dv_from_u128 V amount_in;
     unit \<leftarrow> dv_from_u128 V (10 ^ token_dec);
     whole \<leftarrow> d_div (dv_arith V) amount unit;
     human \<leftarrow> d_mul (dv_arith V) whole spot;
     scale \<leftarrow> dv_from_u128 V (10 ^ denom_dec);
     raw \<leftarrow> d_mul (dv_arith V) human scale;
     Some (case dv_to_u128 V raw of
         Inl e \<Rightarrow> Err (PvAmount (Lit ''expected output does not fit u128: '' # e))
       | Inr v \<Rightarrow> Ok v) }"

text \<open>The swap for a pool and a price; the clock is read for the deadline.\<close>

definition swap_for ::
    "'c dex_env \<Rightarrow> u64 \<Rightarrow> ranked_pool \<Rightarrow> string \<Rightarrow> u128 \<Rightarrow> u128 \<Rightarrow> u32 \<Rightarrow> swap_preview_error + single_swap \<times> bytes" where
  "swap_for V now best token_addr amount_in expected slippage_bps =
     (case amount_out_minimum expected slippage_bps of
        Inl e \<Rightarrow> Err (PvDex e)
      | Inr least \<Rightarrow>
          (let s = \<lparr>sw_pool = rk_key best,
                 sw_zero_for_one = eq_ignore_ascii_case (pk_currency0 (rk_key best)) token_addr,
                 sw_amount_in = amount_in, sw_amount_out_minimum = least\<rparr>
           in (case execute_calldata (dv_hex V) (dv_keccak V) s (deadline_from_now now 1800) of
               Inl e \<Rightarrow> Err (PvDex e)
             | Inr data \<Rightarrow> Ok (s, data))))"

definition preview_swap ::
    "'c dex_env \<Rightarrow> u64 \<Rightarrow> string \<Rightarrow> u128 \<Rightarrow> string \<Rightarrow> u32 \<Rightarrow> 'c \<Rightarrow> ((swap_preview_error + swap_preview) \<times> 'c) option" where
  "preview_swap V now token_arg amount_in denom_arg slippage_bps c =
     (let (token_symbol, token_addr, token_dec) = resolve_token token_arg;
          (denom_symbol, denom_addr, denom_dec) = resolve_token denom_arg in
      case rpc_block_number (dv_request V) c of
        (Inl e, c1) \<Rightarrow> Some (Err (PvChain [Lit ''connecting to the RPC''] e), c1)
      | (Inr head, c1) \<Rightarrow> do {
          (found, c2) \<leftarrow> find_best_pool (dv_hex V) (dv_keccak V) (dv_logs V) (dv_request V) default_pool_manager
            default_state_view token_addr denom_addr 0 head c1;
          (case found of
             Inl e \<Rightarrow> Some (Err (PvChain [Lit ''finding a '', Lit token_symbol, Lit ''/'', Lit denom_symbol, Lit '' pool''] e), c2)
           | Inr best \<Rightarrow> do {
               (quoted, c3) \<leftarrow> quote_pool (dv_arith V) (dv_scaled V) (dv_hex V) (dv_keccak V) (dv_request V) default_state_view
                 (rk_key best) token_addr (of_nat token_dec) (of_nat denom_dec) c2;
               (case quoted of
                  Inl e \<Rightarrow> Some (Err (PvChain [Lit ''reading the spot price''] e), c3)
                | Inr spot \<Rightarrow> do {
                    expected \<leftarrow> expected_out V amount_in token_dec denom_dec spot;
                    Some (and_then expected (\<lambda>expected.
                      and_then (swap_for V now best token_addr amount_in expected slippage_bps) (\<lambda>(s, data).
                      Ok \<lparr>pv_head = head, pv_token_symbol = token_symbol, pv_denom_symbol = denom_symbol,
                         pv_pool_fee = pk_fee (sw_pool s), pv_pool_tick_spacing = pk_tick_spacing (sw_pool s),
                         pv_pool_liquidity = rk_liquidity best, pv_amount_in = amount_in,
                         pv_amount_out_minimum = sw_amount_out_minimum s, pv_slippage_bps = slippage_bps,
                         pv_calldata = data\<rparr>)), c3) }) }) })"

definition simulate_swap :: "'c dex_env \<Rightarrow> string \<Rightarrow> swap_preview \<Rightarrow> 'c \<Rightarrow> bytes chain_result \<times> 'c" where
  "simulate_swap V from_addr p c =
     call_from (dv_hex V) (dv_request V) from_addr universal_router (to_hex (dv_hex V) (pv_calldata p)) c"

section \<open>Properties\<close>

text \<open>What the decimal package documents: exact conversion, and truncation back.\<close>

definition u128_conversion_ok :: "'c dex_env \<Rightarrow> bool" where
  "u128_conversion_ok V \<longleftrightarrow> (\<forall>v d. dv_from_u128 V v = Some d \<longrightarrow> d = of_nat (unat v))
     \<and> (\<forall>d v. dv_to_u128 V d = Ok v \<longrightarrow> unat v = nat \<lfloor>d\<rfloor>)"

lemma resolve_decimals: "snd (snd (resolve_token t)) \<le> 18"
proof -
  have "list_all (\<lambda>t. kt_decimals t \<le> 18) known_tokens" by (simp add: known_tokens_def)
  then show ?thesis
    by (auto simp: resolve_token_def list_all_iff find_Some_iff split: option.splits dest: nth_mem)
qed

lemma unat_pow10: "n \<le> 18 \<Longrightarrow> unat (10 ^ n :: u128) = 10 ^ n"
proof -
  assume "n \<le> 18"
  then have "(10 :: nat) ^ n \<le> 10 ^ 18" by (rule power_increasing) simp
  then have "(10 :: nat) ^ n < 2 ^ 128" by simp
  then have "unat (of_nat (10 ^ n) :: u128) = 10 ^ n" by (simp add: unat_of_nat take_bit_nat_eq_self_iff del: of_nat_power of_nat_numeral)
  then show ?thesis by simp
qed

lemma expected_out_exact:
  assumes "dv_arith V = exact_arith" and "u128_conversion_ok V" and "token_dec \<le> 18" and "denom_dec \<le> 18"
    and "expected_out V amount token_dec denom_dec spot = Some (Ok v)"
  shows "unat v = nat \<lfloor>of_nat (unat amount) / 10 ^ token_dec * spot * 10 ^ denom_dec\<rfloor>"
proof -
  from assms(1,5) obtain a u s where a: "dv_from_u128 V amount = Some a" and u: "dv_from_u128 V (10 ^ token_dec) = Some u"
    and s: "dv_from_u128 V (10 ^ denom_dec) = Some s"
    and res: "(case dv_to_u128 V (a / u * spot * s) of
        Inl e \<Rightarrow> Err (PvAmount (Lit ''expected output does not fit u128: '' # e)) | Inr v \<Rightarrow> Ok v) = Ok v"
    by (auto simp: expected_out_def bind_Some_iff split: if_splits)
  from res have v: "dv_to_u128 V (a / u * spot * s) = Ok v" by (cases "dv_to_u128 V (a / u * spot * s)") simp_all
  note conv = assms(2) [unfolded u128_conversion_ok_def]
  have "a = of_nat (unat amount)" "u = of_nat (unat (10 ^ token_dec :: u128))" "s = of_nat (unat (10 ^ denom_dec :: u128))"
    using conv a u s by blast+
  moreover have "unat v = nat \<lfloor>a / u * spot * s\<rfloor>" using conv v by blast
  ultimately show ?thesis using unat_pow10 assms(3,4) by simp
qed


text \<open>A node with one pool of USDG and NVDA at price one.\<close>

definition swap_node :: "unit client" where
  "swap_node c m p =
     (if m = ''eth_blockNumber'' then (Ok (JStr (''0x'' @ show_hex (unat (9 :: u64)))), c)
      else if m = ''eth_getLogs'' then (Ok JNull, c) else slot_node c m p)"

definition demo_dex :: "unit dex_env" where
  "demo_dex = \<lparr>dv_arith = exact_arith, dv_scaled = exact_scaled, dv_from_u128 = \<lambda>v. Some (of_nat (unat v)),
     dv_to_u128 = \<lambda>d. if 0 \<le> d \<and> d < 2 ^ 128 then Ok (of_nat (nat \<lfloor>d\<rfloor>)) else Err [],
     dv_hex = plain_hex, dv_keccak = fee_hash, dv_logs = \<lambda>_. Ok [raw_of (init_log 3 3000)], dv_request = swap_node\<rparr>"

lemma demo_dex_ok: "u128_conversion_ok demo_dex"
proof -
  have "unat (of_nat (nat \<lfloor>d\<rfloor>) :: u128) = nat \<lfloor>d\<rfloor>" if "0 \<le> d" "d < 2 ^ 128" for d :: rat
  proof -
    from that have "\<lfloor>d\<rfloor> < 2 ^ 128" by (simp add: floor_less_iff)
    with that have "nat \<lfloor>d\<rfloor> < 2 ^ 128" by (simp add: nat_less_iff)
    then show ?thesis by (simp add: unat_of_nat take_bit_nat_eq_self_iff)
  qed
  then show ?thesis by (auto simp: u128_conversion_ok_def demo_dex_def split: if_splits)
qed

lemma swap_node_call: "eth_call H swap_node t d () = eth_call H slot_node t d ()"
  by (simp add: eth_call_def call_inner_def swap_node_def)

lemma swap_node_slot: "get_slot0 plain_hex k swap_node sv pid () =
  (Ok \<lparr>s0_sqrt_price_x96 = 2 ^ 96, s0_tick = 0, s0_protocol_fee = 0, s0_lp_fee = 3000\<rparr>, ())"
  using slot_node_slot [of k sv pid] by (simp add: get_slot0_def swap_node_call)

lemma swap_node_liquidity: "get_liquidity plain_hex k swap_node sv pid () = (Ok (2 ^ 96), ())"
  using decode_u128_uint_word [of "2 ^ 96" "int_word 0 @ uint_word 0 @ uint_word 3000"]
  by (simp add: get_liquidity_def swap_node_call) (simp add: eth_call_def call_inner_def slot_node_def as_str_def
      from_hex_to_hex [OF plain_hex_ok] and_then_def)

lemma swap_node_head: "rpc_block_number swap_node () = (Ok 9, ())"
  using parse_quantity_show_hex [of 9]
  by (simp add: rpc_block_number_def swap_node_def and_then_def parse_quantity_def as_str_def)

lemma swap_node_logs: "get_logs (\<lambda>_. Ok [raw_of (init_log 3 3000)]) swap_node f () = (Ok [init_log 3 3000], ())"
  by (simp add: get_logs_def get_logs_bisecting.simps swap_node_def into_log_raw_of)

lemma swap_node_best:
  "find_best_pool plain_hex fee_hash (\<lambda>_. Ok [raw_of (init_log 3 3000)]) swap_node pm sv demo_usdg demo_nvda 0 9 ()
     = Some (Ok \<lparr>rk_key = pair_pool 3000, rk_liquidity = 2 ^ 96\<rparr>, ())"
  by (simp add: find_best_pool_def discover_pools_for_pair_def demo_topics two_scans_def swap_node_logs decode_init_log
      rank_by_liquidity_def pair_pool_id swap_node_liquidity Let_def)

lemma demo_tokens:
  "resolve_token demo_usdg = (demo_usdg, demo_usdg, 18)" "resolve_token demo_nvda = (demo_nvda, demo_nvda, 18)"
  "eq_ignore_ascii_case (''0x'' @ plain_address demo_usdg) demo_usdg"
  by code_simp+

lemma swap_node_quote:
  "quote_pool exact_arith exact_scaled plain_hex fee_hash swap_node sv (pair_pool 3000) demo_usdg 18 18 () = Some (Ok 1, ())"
proof -
  have "eq_ignore_ascii_case (pk_currency0 (pair_pool 3000)) demo_usdg" using demo_tokens(3) by (simp add: pair_pool_def)
  then show ?thesis
    by (simp add: quote_pool_def pair_pool_id swap_node_slot price_from_sqrt_price_x96_def u128_to_decimal_def
        exact_scaled_def pow10_def attempt_def Let_def)
qed

lemma demo_dex_sel:
  "dv_arith demo_dex = exact_arith" "dv_scaled demo_dex = exact_scaled" "dv_hex demo_dex = plain_hex"
  "dv_keccak demo_dex = fee_hash" "dv_logs demo_dex = (\<lambda>_. Ok [raw_of (init_log 3 3000)])" "dv_request demo_dex = swap_node"
  by (simp_all add: demo_dex_def)

lemma pair_words:
  "\<exists>w. address_word plain_hex (pk_currency0 (pair_pool f)) = Ok w" "\<exists>w. address_word plain_hex (pk_currency1 (pair_pool f)) = Ok w"
  "\<exists>w. address_word plain_hex (pk_hooks (pair_pool f)) = Ok w"
proof -
  obtain w0 w1 where w: "address_word plain_hex demo_usdg = Ok w0" "address_word plain_hex demo_nvda = Ok w1"
    using demo_words(2,3) by (auto split: sum.splits)
  note lower = w [THEN address_word_lower [OF plain_hex_ok], unfolded demo_topics(5,6)]
  show "\<exists>w. address_word plain_hex (pk_currency0 (pair_pool f)) = Ok w" "\<exists>w. address_word plain_hex (pk_currency1 (pair_pool f)) = Ok w"
    using lower by (simp_all add: pair_pool_def)
  show "\<exists>w. address_word plain_hex (pk_hooks (pair_pool f)) = Ok w"
    by (simp add: pair_pool_def address_word_Ok from_hex_to_hex [OF plain_hex_ok])
qed

lemma demo_swap_data:
  "\<exists>out. execute_calldata plain_hex fee_hash \<lparr>sw_pool = pair_pool 3000, sw_zero_for_one = True, sw_amount_in = a,
     sw_amount_out_minimum = m\<rparr> d = Ok out"
proof -
  obtain w0 w1 wh where "address_word plain_hex (pk_currency0 (pair_pool 3000)) = Ok w0"
    "address_word plain_hex (pk_currency1 (pair_pool 3000)) = Ok w1" "address_word plain_hex (pk_hooks (pair_pool 3000)) = Ok wh"
    using pair_words by blast
  then show ?thesis
    by (simp add: execute_calldata_def v4_swap_input_def swap_params_body_def settle_all_params_def take_all_params_def
        token_in_def token_out_def and_then_def Let_def)
qed


end
