(* ===== verification/Probe.thy ===== *)
theory Probe
  imports Univ4 Server_Run
begin

text \<open>
  The pre-flight of live mode: \<open>crates/chain/src/probe.rs\<close>, which simulates transfers of a
  token from a holder to a fresh address and back, and \<open>crates/cli/src/live_preflight.rs\<close>,
  which refuses to arm unless every configured token passes. The node, the hash and the
  hexadecimal codec are arguments, as in \<open>Univ4\<close>.
\<close>

definition slot_impl :: string where
  "slot_impl = ''0x360894a13ba1a3210667c828492db98dca3e2076cc3735a920a3ca505d382bbc''"

definition slot_beacon :: string where
  "slot_beacon = ''0xa3f0ad74e5423aebfd80d3ef4346578335a9a72aeaee59ff6cb3582b35133d50''"

definition err_insufficient_balance :: string where
  "err_insufficient_balance = ''0xe450d38c''"

definition err_insufficient_allowance :: string where
  "err_insufficient_allowance = ''0xfb8f41b2''"

definition zero_addr :: string where
  "zero_addr = ''0x0000000000000000000000000000000000000000''"

definition fresh_address :: string where
  "fresh_address = ''0x1111111111111111111111111111111111111112''"

definition show_chain_error :: "chain_error \<Rightarrow> message" where
  "show_chain_error e = (case e of
       ChTransport m \<Rightarrow> Lit ''rpc transport: '' # m
     | ChRpc code m \<Rightarrow> [Lit ''rpc error '', ShowInt code, Lit '': '', Lit m]
     | ChDecode m \<Rightarrow> Lit ''rpc response: '' # m
     | ChReverted reason data \<Rightarrow> Lit ''call reverted''
         # (case reason of None \<Rightarrow> [] | Some r \<Rightarrow> [Lit '': '', Lit r])
     | ChNotFound m \<Rightarrow> m)"

datatype proxy_model =
    NoProxy
  | Eip1967 string
  | Beacon string "string option"

datatype verdict =
    Permissionless
  | Restricted message
  | Inconclusive message

record probe_report =
  pr_token :: token_meta
  pr_total_supply_raw :: u128
  pr_proxy :: proxy_model
  pr_paused :: "bool option"
  pr_sampled_blocks :: u64
  pr_transfer_events :: nat
  pr_wallet_to_wallet :: nat
  pr_distinct_senders :: nat
  pr_distinct_recipients :: nat
  pr_holder_probed :: "string option"
  pr_transfer_to_fresh_ok :: bool
  pr_reverse_is_balance_gated :: bool
  pr_verdict :: verdict

definition is_permissionless :: "probe_report \<Rightarrow> bool" where
  "is_permissionless r \<longleftrightarrow> pr_verdict r = Permissionless"

record probe_options =
  po_sample_blocks :: u64
  po_max_holders_scanned :: nat
  po_fresh_address :: string

definition probe_options_default :: probe_options where
  "probe_options_default = \<lparr>po_sample_blocks = 1500, po_max_holders_scanned = 25, po_fresh_address = fresh_address\<rparr>"

section \<open>Looking at the token\<close>

definition nonzero_address :: "hex_codec \<Rightarrow> bytes \<Rightarrow> string option" where
  "nonzero_address H w = (let low = take 20 (drop 12 w) in
     if list_ex (\<lambda>b. b \<noteq> 0) low then Some (to_hex H low) else None)"

definition detect_proxy ::
    "hex_codec \<Rightarrow> (bytes \<Rightarrow> bytes) \<Rightarrow> 'c client \<Rightarrow> string \<Rightarrow> 'c \<Rightarrow> proxy_model chain_result \<times> 'c" where
  "detect_proxy H keccak request token c = (case get_storage_at H request token slot_impl c of
       (Inl e, c1) \<Rightarrow> (Err e, c1)
     | (Inr w, c1) \<Rightarrow> (case nonzero_address H w of
         Some a \<Rightarrow> (Ok (Eip1967 a), c1)
       | None \<Rightarrow> (case get_storage_at H request token slot_beacon c1 of
           (Inl e, c2) \<Rightarrow> (Err e, c2)
         | (Inr w, c2) \<Rightarrow> (case nonzero_address H w of
             None \<Rightarrow> (Ok NoProxy, c2)
           | Some beacon \<Rightarrow>
               (let (r, c3) = eth_call H request beacon (calldata H (selector keccak ''implementation()'') []) c2
                in (Ok (Beacon beacon (case and_then r (decode_address H) of
                      Inl _ \<Rightarrow> None
                    | Inr a \<Rightarrow> if a \<noteq> zero_addr then Some a else None)), c3))))))"

definition read_paused :: "hex_codec \<Rightarrow> (bytes \<Rightarrow> bytes) \<Rightarrow> 'c client \<Rightarrow> string \<Rightarrow> 'c \<Rightarrow> bool option \<times> 'c" where
  "read_paused H keccak request token c =
     (let (r, c1) = eth_call H request token (calldata H (selector keccak ''paused()'') []) c
      in (case and_then r decode_u128 of Inl _ \<Rightarrow> None | Inr v \<Rightarrow> Some (v \<noteq> 0), c1))"

text \<open>The senders and the recipients of the logs, as sorted sets, and the transfers between wallets.\<close>

fun sample_transfers ::
    "rpc_log list \<Rightarrow> string list \<times> string list \<times> nat \<Rightarrow> (string list \<times> string list \<times> nat) option" where
  "sample_transfers [] acc = Some acc"
| "sample_transfers (l # ls) (senders, recipients, n) = do {
     f \<leftarrow> topic_address l 1;
     t \<leftarrow> topic_address l 2;
     (case (f, t) of
        (Some f, Some t) \<Rightarrow> sample_transfers ls (insort_insert f senders, insort_insert t recipients,
          if f \<noteq> zero_addr \<and> t \<noteq> zero_addr then n + 1 else n)
      | _ \<Rightarrow> sample_transfers ls (senders, recipients, n)) }"

text \<open>The holder with the largest positive balance among those that are scanned, the first on a tie.\<close>

fun scan_holders ::
    "hex_codec \<Rightarrow> (bytes \<Rightarrow> bytes) \<Rightarrow> 'c client \<Rightarrow> string \<Rightarrow> string list \<Rightarrow> (string \<times> u128) option \<Rightarrow> 'c
      \<Rightarrow> (string \<times> u128) option \<times> 'c"
where
  "scan_holders H keccak request token [] best c = (best, c)"
| "scan_holders H keccak request token (a # as) best c =
     (case balance_of_raw H keccak request token a c of
        (Inl _, c1) \<Rightarrow> scan_holders H keccak request token as best c1
      | (Inr bal, c1) \<Rightarrow>
          (let improves = (case best of None \<Rightarrow> True | Some (_, b) \<Rightarrow> b < bal)
           in scan_holders H keccak request token as (if 0 < bal \<and> improves then Some (a, bal) else best) c1))"

definition pick_holder ::
    "hex_codec \<Rightarrow> (bytes \<Rightarrow> bytes) \<Rightarrow> 'c client \<Rightarrow> string \<Rightarrow> string list \<Rightarrow> nat \<Rightarrow> 'c \<Rightarrow> string option \<times> 'c" where
  "pick_holder H keccak request token senders max_scan c =
     (let (best, c1) = scan_holders H keccak request token
        (take max_scan (filter (\<lambda>a. a \<noteq> zero_addr) senders)) None c
      in (map_option fst best, c1))"

section \<open>Simulating a transfer\<close>

datatype sim_result =
    SimOk
  | SimSelector string
  | SimReason string
  | SimError message

definition transfer_data :: "hex_codec \<Rightarrow> (bytes \<Rightarrow> bytes) \<Rightarrow> bytes \<Rightarrow> u128 \<Rightarrow> string" where
  "transfer_data H keccak to_word amount =
     calldata H (selector keccak ''transfer(address,uint256)'') [to_word, uint_word amount]"

definition simulate_transfer ::
    "hex_codec \<Rightarrow> (bytes \<Rightarrow> bytes) \<Rightarrow> 'c client \<Rightarrow> string \<Rightarrow> string \<Rightarrow> string \<Rightarrow> u128 \<Rightarrow> 'c \<Rightarrow> sim_result \<times> 'c"
where
  "simulate_transfer H keccak request token from_addr to_addr amount c =
     (case (address_word H to_addr, address_word H from_addr) of
        (Inr to_word, Inr _) \<Rightarrow>
          (case call_from H request from_addr token (transfer_data H keccak to_word amount) c of
             (Inr ret, c1) \<Rightarrow>
               (if ret = [] \<or> decode_u128 ret = Ok 1 then SimOk else SimReason ''transfer() returned false'', c1)
           | (Inl e, c1) \<Rightarrow> (case e of
               ChReverted (Some r) _ \<Rightarrow> SimReason r
             | ChReverted None data \<Rightarrow> SimSelector (unwrap_or ''0x'' (revert_selector H data))
             | _ \<Rightarrow> SimError (show_chain_error e), c1))
      | _ \<Rightarrow> (SimError [Lit ''bad address''], c))"

definition balance_gated :: "sim_result \<Rightarrow> bool" where
  "balance_gated r \<longleftrightarrow> r = SimSelector err_insufficient_balance \<or> r = SimSelector err_insufficient_allowance"

definition verdict_of :: "sim_result \<Rightarrow> bool \<Rightarrow> verdict" where
  "verdict_of to_fresh gated = (case to_fresh of
       SimOk \<Rightarrow> if gated then Permissionless
         else Inconclusive [Lit (''transfer to a fresh address succeeded but the reverse did not fail cleanly ''
           @ ''for balance '' @ em_dash @ '' re-run'')]
     | SimSelector s \<Rightarrow> Restricted [Lit ''transfer to a fresh address reverts ('', Lit s, Lit '')'']
     | SimReason r \<Rightarrow> Restricted [Lit ''transfer to a fresh address reverts: '', Lit r]
     | SimError e \<Rightarrow> Inconclusive e)"

definition probe_holder ::
    "hex_codec \<Rightarrow> (bytes \<Rightarrow> bytes) \<Rightarrow> 'c client \<Rightarrow> string \<Rightarrow> string \<Rightarrow> string option \<Rightarrow> 'c
      \<Rightarrow> (string option \<times> bool \<times> bool \<times> verdict) \<times> 'c"
where
  "probe_holder H keccak request token fresh holder c = (case holder of
       None \<Rightarrow> ((None, False, False, Inconclusive [Lit ''no funded holder in the sampled window'']), c)
     | Some h \<Rightarrow>
         (let (to_fresh, c1) = simulate_transfer H keccak request token h fresh 1000 c;
              (from_fresh, c2) = simulate_transfer H keccak request token fresh h 1 c1
          in ((Some h, to_fresh = SimOk, balance_gated from_fresh, verdict_of to_fresh (balance_gated from_fresh)), c2)))"

definition test_token ::
    "hex_codec \<Rightarrow> (bytes \<Rightarrow> bytes) \<Rightarrow> 'c client \<Rightarrow> string \<Rightarrow> string \<Rightarrow> probe_options \<Rightarrow> string list \<Rightarrow> 'c
      \<Rightarrow> (string option \<times> bool \<times> bool \<times> verdict) \<times> 'c"
where
  "test_token H keccak request token erc20 opts senders c =
     (let (holder, c1) = pick_holder H keccak request erc20 senders (po_max_holders_scanned opts) c
      in probe_holder H keccak request token (po_fresh_address opts) holder c1)"

text \<open>What is asked of the node before the test: the recent transfers of the token.\<close>

definition transfer_filter :: "hex_codec \<Rightarrow> (bytes \<Rightarrow> bytes) \<Rightarrow> string \<Rightarrow> u64 \<Rightarrow> u64 \<Rightarrow> log_filter" where
  "transfer_filter H keccak token head sample = \<lparr>lf_address = Some (to_ascii_lowercase token),
     lf_topics = [Some (topic_hex H keccak ''Transfer(address,address,uint256)'')],
     lf_from_block = (if head < sample then 0 else head - sample), lf_to_block = head\<rparr>"

definition recent_transfers ::
    "hex_codec \<Rightarrow> (bytes \<Rightarrow> bytes) \<Rightarrow> (json \<Rightarrow> message + raw_log list) \<Rightarrow> 'c client \<Rightarrow> string \<Rightarrow> u64 \<Rightarrow> 'c
      \<Rightarrow> (u64 \<times> rpc_log list) chain_result \<times> 'c"
where
  "recent_transfers H keccak from_value request token sample c = (case rpc_block_number request c of
       (Inl e, c1) \<Rightarrow> (Err e, c1)
     | (Inr head, c1) \<Rightarrow>
         (let f = transfer_filter H keccak token head sample; (r, c2) = get_logs from_value request f c1
          in (and_then r (\<lambda>logs. Ok (head - lf_from_block f, logs)), c2)))"

definition check_transfer_open ::
    "hex_codec \<Rightarrow> (bytes \<Rightarrow> bytes) \<Rightarrow> (json \<Rightarrow> message + raw_log list) \<Rightarrow> 'c client \<Rightarrow> string \<Rightarrow> probe_options \<Rightarrow> 'c
      \<Rightarrow> (probe_report chain_result \<times> 'c) option"
where
  "check_transfer_open H keccak from_value request token opts c = (case erc20_new H token of
       Inl e \<Rightarrow> Some (Err e, c)
     | Inr erc20 \<Rightarrow> do {
         (meta, c1) \<leftarrow> erc20_meta H keccak request erc20 c;
         (case meta of Inl e \<Rightarrow> Some (Err e, c1) | Inr meta \<Rightarrow>
           (let (supply, c2) = total_supply_raw H keccak request erc20 c1 in
            case detect_proxy H keccak request token c2 of (Inl e, c3) \<Rightarrow> Some (Err e, c3) | (Inr proxy, c3) \<Rightarrow>
              (let (paused, c4) = read_paused H keccak request token c3 in
               case recent_transfers H keccak from_value request token (po_sample_blocks opts) c4 of
                 (Inl e, c5) \<Rightarrow> Some (Err e, c5)
               | (Inr (sampled, logs), c5) \<Rightarrow> do {
                   (senders, recipients, n) \<leftarrow> sample_transfers logs ([], [], 0);
                   let ((probed, ok, gated, v), c6) = test_token H keccak request token erc20 opts senders c5;
                   Some (Ok \<lparr>pr_token = meta, pr_total_supply_raw = (case supply of Inl _ \<Rightarrow> 0 | Inr s \<Rightarrow> s),
                     pr_proxy = proxy, pr_paused = paused, pr_sampled_blocks = sampled,
                     pr_transfer_events = length logs, pr_wallet_to_wallet = n,
                     pr_distinct_senders = length senders, pr_distinct_recipients = length recipients,
                     pr_holder_probed = probed, pr_transfer_to_fresh_ok = ok,
                     pr_reverse_is_balance_gated = gated, pr_verdict = v\<rparr>, c6) }))) })"

section \<open>Refusing to arm\<close>

text \<open>The tokens to check: every symbol and the denominator, without case-insensitive repetitions.\<close>

definition preflight_tokens :: "string list \<Rightarrow> string \<Rightarrow> string list" where
  "preflight_tokens symbols denom =
     fold (\<lambda>s out. if list_ex (\<lambda>t. eq_ignore_ascii_case t s) out then out else out @ [s]) (symbols @ [denom]) []"

fun preflight_loop ::
    "hex_codec \<Rightarrow> (bytes \<Rightarrow> bytes) \<Rightarrow> (json \<Rightarrow> message + raw_log list) \<Rightarrow> 'c client \<Rightarrow> string list \<Rightarrow> 'c
      \<Rightarrow> ((message + unit) \<times> 'c) option"
where
  "preflight_loop H keccak from_value request [] c = Some (Ok (), c)"
| "preflight_loop H keccak from_value request (raw # rest) c =
     (let (symbol, address, decimals) = resolve_token raw in do {
      (r, c1) \<leftarrow> check_transfer_open H keccak from_value request address probe_options_default c;
      (case r of
         Inl e \<Rightarrow> Some (Err ([Lit symbol, Lit '': pre-flight RPC error: ''] @ show_chain_error e), c1)
       | Inr report \<Rightarrow> (case pr_verdict report of
           Permissionless \<Rightarrow> preflight_loop H keccak from_value request rest c1
         | Restricted why \<Rightarrow>
             Some (Err ([Lit symbol, Lit '' ('', Lit address, Lit '') is RESTRICTED: ''] @ why), c1)
         | Inconclusive why \<Rightarrow>
             Some (Err ([Lit symbol, Lit '' ('', Lit address, Lit '') pre-flight was inconclusive: ''] @ why), c1))) })"

text \<open>The client connects, or fails with an error.\<close>

definition live_preflight ::
    "hex_codec \<Rightarrow> (bytes \<Rightarrow> bytes) \<Rightarrow> (json \<Rightarrow> message + raw_log list) \<Rightarrow> 'c client \<Rightarrow> string \<Rightarrow> chain_error + 'c
      \<Rightarrow> string list \<Rightarrow> (message + unit) option"
where
  "live_preflight H keccak from_value request rpc_url conn tokens =
     (if tokens = []
      then Some (Err [Lit (''no [chain] symbols configured to pre-flight '' @ em_dash @ '' nothing to have checked'')])
      else (case conn of
          Inl e \<Rightarrow> Some (Err ([Lit ''connecting to '', Lit rpc_url, Lit '': ''] @ show_chain_error e))
        | Inr c \<Rightarrow> map_option fst (preflight_loop H keccak from_value request tokens c)))"

section \<open>Lemmas\<close>

text \<open>
  What an open token is: some holder with a balance, whose transfer to the fresh address the
  node carries out, and to whom a transfer from the fresh address fails for lack of balance or
  allowance alone.
\<close>

definition token_open :: "hex_codec \<Rightarrow> (bytes \<Rightarrow> bytes) \<Rightarrow> 'c client \<Rightarrow> string \<Rightarrow> 'c \<Rightarrow> bool" where
  "token_open H keccak request token c \<longleftrightarrow> (\<exists>h b fw hw ret data.
     fst (balance_of_raw H keccak request (to_ascii_lowercase token) h c) = Ok b \<and> 0 < b
     \<and> address_word H fresh_address = Ok fw \<and> address_word H h = Ok hw
     \<and> fst (call_from H request h token (transfer_data H keccak fw 1000) c) = Ok ret
     \<and> (ret = [] \<or> decode_u128 ret = Ok 1)
     \<and> fst (call_from H request fresh_address token (transfer_data H keccak hw 1) c) = Err (ChReverted None data)
     \<and> (revert_selector H data = Some err_insufficient_balance \<or> revert_selector H data = Some err_insufficient_allowance))"

lemma steady_call_from:
  "steady request \<Longrightarrow> fst (call_from H request f t d c) = fst (call_from H request f t d c')"
  unfolding steady_def call_from_def call_inner_def by (simp add: case_prod_beta Let_def) metis

lemma steady_balance:
  "steady request \<Longrightarrow> fst (balance_of_raw H keccak request t a c) = fst (balance_of_raw H keccak request t a c')"
  unfolding steady_def balance_of_raw_def eth_call_def call_inner_def
  by (simp add: case_prod_beta Let_def split: sum.split) metis

lemma scan_holders_found:
  assumes "steady request"
  shows "fst (scan_holders H keccak request token as best c) = Some (a, b) \<Longrightarrow>
    best = Some (a, b) \<or> a \<in> set as \<and> fst (balance_of_raw H keccak request token a c0) = Ok b \<and> 0 < b"
proof (induction as arbitrary: best c)
  case (Cons x as)
  obtain r c1 where r: "balance_of_raw H keccak request token x c = (r, c1)" by force
  then have same: "fst (balance_of_raw H keccak request token x c0) = r"
    using steady_balance [OF assms] by (metis fst_conv)
  show ?case
  proof (cases r)
    case (Inl e)
    with Cons r show ?thesis by auto
  next
    case (Inr bal)
    with Cons r same show ?thesis by (auto simp: Let_def split: if_splits)
  qed
qed simp

lemma pick_holder_found:
  assumes "steady request" and "fst (pick_holder H keccak request token senders n c) = Some h"
  shows "\<exists>b. fst (balance_of_raw H keccak request token h c0) = Ok b \<and> 0 < b"
proof -
  obtain b where "fst (scan_holders H keccak request token (take n (filter (\<lambda>a. a \<noteq> zero_addr) senders)) None c)
      = Some (h, b)"
    using assms(2) by (auto simp: pick_holder_def case_prod_beta)
  from scan_holders_found [OF assms(1) this] show ?thesis by blast
qed

lemma simulate_SimOk:
  "fst (simulate_transfer H keccak request token f t amount c) = SimOk \<longleftrightarrow>
     (\<exists>tw fw ret. address_word H t = Ok tw \<and> address_word H f = Ok fw
        \<and> fst (call_from H request f token (transfer_data H keccak tw amount) c) = Ok ret
        \<and> (ret = [] \<or> decode_u128 ret = Ok 1))"
  by (auto simp: simulate_transfer_def split: sum.splits prod.splits chain_error.splits option.splits)

lemma simulate_gated:
  "balance_gated (fst (simulate_transfer H keccak request token f t amount c)) \<longleftrightarrow>
     (\<exists>tw fw data. address_word H t = Ok tw \<and> address_word H f = Ok fw
        \<and> fst (call_from H request f token (transfer_data H keccak tw amount) c) = Err (ChReverted None data)
        \<and> (revert_selector H data = Some err_insufficient_balance \<or> revert_selector H data = Some err_insufficient_allowance))"
  by (auto simp: simulate_transfer_def balance_gated_def err_insufficient_balance_def err_insufficient_allowance_def
      unwrap_or_def split: sum.splits prod.splits chain_error.splits option.splits)

lemma probe_open:
  assumes "steady request" and "check_transfer_open H keccak from_value request token probe_options_default c = Some (Ok r, c')"
    and "pr_verdict r = Permissionless"
  shows "token_open H keccak request token c0"
proof -
  obtain senders c5 where "snd (snd (snd (fst (test_token H keccak request token (to_ascii_lowercase token)
      probe_options_default senders c5)))) = Permissionless"
    using assms(2,3) unfolding check_transfer_open_def erc20_new_def
    by (auto simp: bind_Some_iff and_then_def Let_def case_prod_beta split: sum.splits if_splits)
  then obtain h c6 where picked: "fst (pick_holder H keccak request (to_ascii_lowercase token) senders 25 c5) = Some h"
    and probed: "snd (snd (snd (fst (probe_holder H keccak request token fresh_address (Some h) c6)))) = Permissionless"
    by (auto simp: test_token_def probe_options_default_def probe_holder_def case_prod_beta Let_def split: option.splits)
  obtain b where b: "fst (balance_of_raw H keccak request (to_ascii_lowercase token) h c0) = Ok b" "0 < b"
    using pick_holder_found [OF assms(1) picked] by blast
  have verdicts: "verdict_of s g = Permissionless \<longleftrightarrow> s = SimOk \<and> g" for s g
    by (cases s) (auto simp: verdict_of_def)
  obtain c7 where there: "fst (simulate_transfer H keccak request token h fresh_address 1000 c6) = SimOk"
    and reverse: "balance_gated (fst (simulate_transfer H keccak request token fresh_address h 1 c7))"
    using probed by (auto simp: probe_holder_def case_prod_beta Let_def verdicts)
  note same = steady_call_from [OF assms(1), of H _ _ _ _ c0]
  show ?thesis
    using b there [unfolded simulate_SimOk] reverse [unfolded simulate_gated] same
    unfolding token_open_def by metis
qed

lemma preflight_loop_open:
  assumes "steady request" and "preflight_loop H keccak from_value request tokens c = Some (Ok (), c')"
  shows "list_all (\<lambda>raw. token_open H keccak request (fst (snd (resolve_token raw))) c0) tokens"
  using assms(2)
proof (induction tokens arbitrary: c)
  case (Cons raw tokens)
  obtain symbol address decimals where tok: "resolve_token raw = (symbol, address, decimals)" by (metis prod.exhaust)
  from Cons.prems obtain res c1 where
    res: "check_transfer_open H keccak from_value request address probe_options_default c = Some (res, c1)"
    by (auto simp: tok bind_Some_iff)
  then obtain r where r: "res = Ok r" using Cons.prems by (cases res) (simp_all add: tok)
  have free: "pr_verdict r = Permissionless" using Cons.prems res r by (cases "pr_verdict r") (simp_all add: tok)
  then have "preflight_loop H keccak from_value request tokens c1 = Some (Ok (), c')"
    using Cons.prems res r by (simp add: tok)
  from Cons.IH [OF this] probe_open [OF assms(1) res [unfolded r] free] show ?case by (simp add: tok)
qed simp

lemma preflight_tokens_cover:
  assumes "s = denom \<or> s \<in> set symbols"
  shows "\<exists>t \<in> set (preflight_tokens symbols denom). eq_ignore_ascii_case t s"
proof -
  have keeps: "t \<in> set out \<Longrightarrow> t \<in> set (fold (\<lambda>s out. if list_ex (\<lambda>t. eq_ignore_ascii_case t s) out then out else out @ [s]) ss out)"
    for t ss out by (induction ss arbitrary: out) auto
  have "s \<in> set ss \<Longrightarrow> \<exists>t \<in> set (fold (\<lambda>s out. if list_ex (\<lambda>t. eq_ignore_ascii_case t s) out then out else out @ [s]) ss out).
      eq_ignore_ascii_case t s" for ss out
  proof (induction ss arbitrary: out)
    case (Cons x ss)
    show ?case
    proof (cases "s = x")
      case True
      have "\<exists>t \<in> set (if list_ex (\<lambda>t. eq_ignore_ascii_case t x) out then out else out @ [x]). eq_ignore_ascii_case t x"
        by (auto simp: list_ex_iff eq_ignore_ascii_case_def)
      then show ?thesis using True keeps by fastforce
    qed (use Cons in simp)
  qed simp
  moreover from assms have "s \<in> set (symbols @ [denom])" by auto
  ultimately show ?thesis unfolding preflight_tokens_def by blast
qed

section \<open>Properties\<close>


text \<open>A node with one holder, where the token can be moved by anybody who has some.\<close>

definition open_node :: "unit client" where
  "open_node c m p =
     (if m = ''eth_getStorageAt'' then (Ok (JStr (to_hex plain_hex (replicate 32 0))), c)
      else if m = ''eth_blockNumber'' \<or> m = ''eth_chainId'' then (Ok (JStr (''0x'' @ show_hex (unat (16 :: u64)))), c)
      else if m = ''eth_getLogs'' then (Ok JNull, c)
      else (case p of
          JArr (JObj kvs # _) \<Rightarrow> (case map_of kvs ''from'' of
              None \<Rightarrow> (Ok (JStr (to_hex plain_hex (uint_word 18))), c)
            | Some f \<Rightarrow> if f = JStr fresh_address
                then (Err (ChReverted None (Some err_insufficient_balance)), c) else (Ok (JStr ''0x''), c))
        | _ \<Rightarrow> (Err (ChRpc 0 ''bad request''), c)))"

definition holder_topic :: string where
  "holder_topic = ''0x'' @ replicate 24 CHR ''0'' @ replicate 40 CHR ''2''"

definition holder_event :: rpc_log where
  "holder_event = \<lparr>rl_address = [], rl_topics = [''t'', holder_topic, holder_topic], rl_data = [], rl_block_number = 16\<rparr>"

lemma open_node_steady: "steady open_node"
  by (auto simp: steady_def open_node_def split: json.split list.split option.split)

lemma open_node_reads: "eth_call plain_hex open_node t d () = (Ok (uint_word 18), ())"
  by (simp add: eth_call_def call_inner_def open_node_def as_str_def from_hex_to_hex [OF plain_hex_ok])

lemma open_node_slots: "get_storage_at plain_hex open_node t s () = (Ok (replicate 32 0), ())"
  by (simp add: get_storage_at_def open_node_def as_str_def storage_word_def and_then_def
      from_hex_to_hex [OF plain_hex_ok])

lemma read_uint_18: "decode_u128 (uint_word 18) = Ok 18" "decode_string (uint_word 18) = Some (Ok [])"
proof -
  show "decode_u128 (uint_word 18) = Ok 18" using decode_u128_uint_word [of 18 "[]"] by simp
  have "takeWhile (\<lambda>b. b \<noteq> 0) (uint_word 18) = []" by (simp add: uint_word_def numeral_eq_Suc)
  moreover have "trim (utf8_lossy []) = []" by (simp add: utf8_lossy.simps) code_simp
  ultimately show "decode_string (uint_word 18) = Some (Ok [])" by (simp add: decode_string_def Let_def)
qed

definition demo_holder :: string where
  "demo_holder = ''0x'' @ replicate 40 CHR ''2''"

lemma probe_words: "is_ok (address_word plain_hex fresh_address)" "is_ok (address_word plain_hex demo_holder)"
  "fresh_address \<noteq> demo_holder" "demo_holder \<noteq> zero_addr" "err_insufficient_balance \<noteq> []"
  by (code_simp)+

lemma probe_hex: "from_hex plain_hex ''0x'' = Ok []"
  "revert_selector plain_hex (Some err_insufficient_balance) = Some err_insufficient_balance"
  by (code_simp)+

lemma holder_sampled: "sample_transfers [holder_event] ([], [], 0) = Some ([demo_holder], [demo_holder], 1)"
  by code_simp

lemma open_node_head: "rpc_block_number open_node () = (Ok 16, ())"
  using parse_quantity_show_hex [of 16] by (simp add: rpc_block_number_def open_node_def and_then_def parse_quantity_def as_str_def del: unat_numeral)

lemma open_node_logs: "get_logs (\<lambda>_. Ok [raw_of holder_event]) open_node f () = (Ok [holder_event], ())"
  by (simp add: get_logs_def get_logs_bisecting.simps open_node_def into_log_raw_of)

lemma open_node_sends:
  "call_from plain_hex open_node demo_holder t d () = (Ok [], ())"
  "call_from plain_hex open_node fresh_address t d () = (Err (ChReverted None (Some err_insufficient_balance)), ())"
  using probe_words(3) by (simp_all add: call_from_def call_inner_def open_node_def and_then_def as_str_def probe_hex)

lemma open_node_balance: "balance_of_raw plain_hex (\<lambda>bs. bs) open_node t demo_holder () = (Ok 18, ())"
  using probe_words(2) by (auto simp: balance_of_raw_def open_node_reads read_uint_18 and_then_def is_ok_def split: sum.splits)

lemma open_node_holder:
  "test_token plain_hex (\<lambda>bs. bs) open_node t e probe_options_default [demo_holder] ()
     = ((Some demo_holder, True, True, Permissionless), ())"
  using probe_words
  by (auto simp: test_token_def pick_holder_def probe_options_default_def open_node_balance probe_holder_def
      simulate_transfer_def open_node_sends probe_hex balance_gated_def verdict_of_def is_ok_def Let_def split: sum.splits)

lemma open_node_probe:
  "\<exists>r. check_transfer_open plain_hex (\<lambda>bs. bs) (\<lambda>_. Ok [raw_of holder_event]) open_node demo_usdg probe_options_default ()
     = Some (Ok r, ()) \<and> pr_verdict r = Permissionless"
proof -
  obtain w where "address_word plain_hex demo_usdg = Ok w" using demo_words(3) by (auto split: sum.splits)
  then have erc20: "erc20_new plain_hex demo_usdg = Ok (to_ascii_lowercase demo_usdg)" by (simp add: erc20_new_def)
  have meta: "\<exists>m. erc20_meta plain_hex (\<lambda>bs. bs) open_node t () = Some (Ok m, ())" for t
    by (simp add: erc20_meta_def erc20_text_def erc20_decimals_def call0_def open_node_reads read_uint_18 and_then_def)
  have total: "total_supply_raw plain_hex (\<lambda>bs. bs) open_node t () = (Ok 18, ())" for t
    by (simp add: total_supply_raw_def call0_def open_node_reads read_uint_18)
  have proxy: "detect_proxy plain_hex (\<lambda>bs. bs) open_node t () = (Ok NoProxy, ())" for t
    by (simp add: detect_proxy_def open_node_slots nonzero_address_def list_ex_iff)
  have paused: "read_paused plain_hex (\<lambda>bs. bs) open_node t () = (Some True, ())" for t
    by (simp add: read_paused_def open_node_reads read_uint_18)
  have recent: "\<exists>k. recent_transfers plain_hex (\<lambda>bs. bs) (\<lambda>_. Ok [raw_of holder_event]) open_node t n () = (Ok (k, [holder_event]), ())"
    for t n by (simp add: recent_transfers_def open_node_head open_node_logs Let_def)
  have options: "po_sample_blocks probe_options_default = 1500" by (simp add: probe_options_default_def)
  from meta [of "to_ascii_lowercase demo_usdg"] recent [of demo_usdg 1500] show ?thesis
    by (auto simp: check_transfer_open_def erc20 total proxy paused holder_sampled open_node_holder Let_def
        options simp del: sample_transfers.simps)
qed


end
