(* ===== verification/Chain_Commands.thy ===== *)
theory Chain_Commands
  imports Dex_Preview Probe Serve_Setup
begin

text \<open>
  The commands that read the chain: \<open>chain_cmd.rs\<close>, \<open>chain_price_cmd.rs\<close>,
  \<open>dex_simulate_cmd.rs\<close>, \<open>route_cmd.rs\<close> and \<open>reconcile_cmd.rs\<close> of \<open>crates/cli/src\<close>, the report
  of a probe in \<open>crates/chain/src/probe.rs\<close>, and the two links of the server to the chain,
  \<open>ChainDexSimulator\<close> (\<open>dex_preview.rs\<close>) and \<open>ChainReconciler\<close> (\<open>reconcile_preview.rs\<close>). A
  command is a function from its arguments and the node to the lines that it prints and the way
  it ends. Connecting is an argument: the client, or an error.
\<close>

section \<open>Reading numbers\<close>

text \<open>The integer parser of the standard library, without sign: digit by digit.\<close>

definition digit_of :: "char \<Rightarrow> nat option" where
  "digit_of c = (let n = of_char c :: nat in if 48 \<le> n \<and> n \<le> 57 then Some (n - 48) else None)"

fun parse_digits :: "nat \<Rightarrow> nat \<Rightarrow> string \<Rightarrow> message + nat" where
  "parse_digits w acc [] = Ok acc"
| "parse_digits w acc (c # cs) = (case digit_of c of
       None \<Rightarrow> Err [Lit ''invalid digit found in string'']
     | Some d \<Rightarrow>
         if 2 ^ w \<le> acc * 10 + d then Err [Lit ''number too large to fit in target type'']
         else parse_digits w (acc * 10 + d) cs)"

definition parse_unsigned :: "nat \<Rightarrow> string \<Rightarrow> message + nat" where
  "parse_unsigned w s =
     (if s = [] then Err [Lit ''cannot parse integer from empty string'']
      else if s = ''+'' \<or> s = ''-'' then Err [Lit ''invalid digit found in string'']
      else parse_digits w 0 (if hd s = CHR ''+'' then tl s else s))"

section \<open>What is printed\<close>

text \<open>How a command ends: showing its usage, with an error below its contexts, or well.\<close>

datatype ending = ShowsUsage | EndsWith "message list" | EndsWell

type_synonym printed = "message list \<times> ending"

definition right_arrow :: string where
  "right_arrow = [CHR 0xE2, CHR 0x86, CHR 0x92]"

definition left_arrow :: string where
  "left_arrow = [CHR 0xE2, CHR 0x86, CHR 0x90]"

definition both_arrow :: string where
  "both_arrow = [CHR 0xE2, CHR 0x86, CHR 0x94]"

definition check_mark :: string where
  "check_mark = [CHR 0xE2, CHR 0x9C, CHR 0x85]"

definition stop_mark :: string where
  "stop_mark = [CHR 0xE2, CHR 0x9B, CHR 0x94]"

definition hourglass :: string where
  "hourglass = [CHR 0xE2, CHR 0x8F, CHR 0xB3]"

definition ellipsis :: string where
  "ellipsis = [CHR 0xE2, CHR 0x80, CHR 0xA6]"

definition default_rpc :: string where
  "default_rpc = ''https://rpc.mainnet.chain.robinhood.com''"

text \<open>The first argument is the address of the node when it looks like one.\<close>

definition take_rpc :: "string list \<Rightarrow> string \<times> string list" where
  "take_rpc args = (case args of
       a # rest \<Rightarrow> if starts_with a ''http://'' \<or> starts_with a ''https://'' then (a, rest) else (default_rpc, args)
     | [] \<Rightarrow> (default_rpc, args))"

section \<open>Probing tokens\<close>

definition show_bool :: "bool \<Rightarrow> string" where
  "show_bool b = (if b then ''true'' else ''false'')"

definition show_report :: "probe_report \<Rightarrow> message list" where
  "show_report r =
     [[Lit (tm_symbol (pr_token r)), Lit '' ('', Lit (tm_name (pr_token r)), Lit '')  '', Lit (tm_address (pr_token r))],
      [Lit ''  decimals            '', ShowInt (uint (tm_decimals (pr_token r)))]]
     @ (case pr_proxy r of
          NoProxy \<Rightarrow> [[Lit ''  proxy               none (immutable logic)'']]
        | Eip1967 implementation \<Rightarrow> [[Lit (''  proxy               EIP-1967 '' @ right_arrow @ '' ''), Lit implementation]]
        | Beacon beacon implementation \<Rightarrow>
            [[Lit ''  proxy               beacon '', Lit beacon],
             [Lit (''                      '' @ right_arrow @ '' impl ''), Lit (unwrap_or ''?'' implementation),
              Lit ''  (shared; upgradeable)'']])
     @ (case pr_paused r of None \<Rightarrow> [] | Some p \<Rightarrow> [[Lit ''  paused()            '', Lit (show_bool p)]])
     @ [[Lit ''  '', ShowInt (uint (pr_sampled_blocks r)), Lit '' blk sampled    '', ShowInt (int (pr_transfer_events r)),
         Lit '' Transfer events, '', ShowInt (int (pr_wallet_to_wallet r)), Lit ('' wallet'' @ both_arrow @ ''wallet, ''),
         ShowInt (int (pr_distinct_senders r)), Lit '' senders / '', ShowInt (int (pr_distinct_recipients r)), Lit '' recipients'']]
     @ (case pr_holder_probed r of None \<Rightarrow> [] | Some h \<Rightarrow> [[Lit ''  holder probed       '', Lit h]])
     @ [[Lit (''  transfer '' @ right_arrow @ '' fresh    ''),
         Lit (if pr_transfer_to_fresh_ok r then ''ok (returns true)'' else ''NOT ok'')],
        [Lit (''  transfer '' @ left_arrow @ '' fresh    ''),
         Lit (if pr_reverse_is_balance_gated r then ''reverts ERC20InsufficientBalance (balance-gated only)''
           else ''did not fail cleanly for balance'')],
        (case pr_verdict r of
           Permissionless \<Rightarrow> [Lit (''  VERDICT             permissionless '' @ check_mark)]
         | Restricted why \<Rightarrow> Lit (''  VERDICT             RESTRICTED '' @ stop_mark @ ''  '') # why
         | Inconclusive why \<Rightarrow> Lit (''  VERDICT             inconclusive '' @ em_dash @ '' '') # why)]"

record 'c node =
  nd_hex :: hex_codec
  nd_keccak :: "bytes \<Rightarrow> bytes"
  nd_logs :: "json \<Rightarrow> message + raw_log list"
  nd_request :: "'c client"

text \<open>The probes of the loop: the lines, and whether every token so far was found open.\<close>

fun probe_loop :: "'c node \<Rightarrow> string list \<Rightarrow> 'c \<Rightarrow> (message list \<times> bool \<times> 'c) option" where
  "probe_loop N [] c = Some ([], True, c)"
| "probe_loop N (t # ts) c = do {
     (r, c1) \<leftarrow> check_transfer_open (nd_hex N) (nd_keccak N) (nd_logs N) (nd_request N) (fst (snd (resolve_token t)))
       probe_options_default c;
     (rest, open, c2) \<leftarrow> probe_loop N ts c1;
     Some (case r of
         Inl e \<Rightarrow> ((Lit t # Lit '': probe error: '' # show_chain_error e) # [] # rest, False, c2)
       | Inr report \<Rightarrow> (show_report report @ [] # rest, is_permissionless report \<and> open, c2)) }"

definition chain_probe :: "'c node \<Rightarrow> (string \<Rightarrow> chain_error + 'c) \<Rightarrow> string list \<Rightarrow> printed option" where
  "chain_probe N connect args =
     (let (rpc, rest) = take_rpc args; targets = (if rest = [] then [''NVDA''] else rest) in
      case connect rpc of
        Inl e \<Rightarrow> Some ([], EndsWith [show_chain_error e])
      | Inr c \<Rightarrow> (case rpc_chain_id (nd_request N) c of
          (Inl e, c1) \<Rightarrow> Some ([], EndsWith [[Lit ''connecting to the RPC''], show_chain_error e])
        | (Inr chain_id, c1) \<Rightarrow> (case rpc_block_number (nd_request N) c1 of
            (Inl e, c2) \<Rightarrow> Some ([], EndsWith [show_chain_error e])
          | (Inr block, c2) \<Rightarrow> do {
              (ls, open, c3) \<leftarrow> probe_loop N targets c2;
              Some ([[Lit rpc], [Lit ''chainId '', ShowInt (uint chain_id), Lit ''  block '', ShowInt (uint block)], []] @ ls
                  @ (if open then [[Lit (''OK '' @ em_dash @ '' every probed token's transfers are permissionless at the contract.'')]]
                     else []),
                if open then EndsWell
                else EndsWith [[Lit ''a probed token is restricted or the probe was inconclusive (see above)'']]) })))"

section \<open>A price\<close>

definition arg_or :: "string \<Rightarrow> string list \<Rightarrow> string" where
  "arg_or d args = (case args of [] \<Rightarrow> d | a # _ \<Rightarrow> a)"

definition chain_price :: "arith \<Rightarrow> scaled \<Rightarrow> 'c node \<Rightarrow> (string \<Rightarrow> chain_error + 'c) \<Rightarrow> string list \<Rightarrow> printed option" where
  "chain_price A D N connect args =
     (let (rpc, rest) = take_rpc args;
          (token_symbol, token_addr, token_dec) = resolve_token (arg_or ''NVDA'' rest);
          (denom_symbol, denom_addr, denom_dec) = resolve_token (arg_or ''USDG'' (drop 1 rest)) in
      case connect rpc of
        Inl e \<Rightarrow> Some ([], EndsWith [show_chain_error e])
      | Inr c \<Rightarrow> (case rpc_block_number (nd_request N) c of
          (Inl e, c1) \<Rightarrow> Some ([], EndsWith [[Lit ''connecting to the RPC''], show_chain_error e])
        | (Inr head, c1) \<Rightarrow> do {
            (r, c2) \<leftarrow> read_price A D (nd_hex N) (nd_keccak N) (nd_logs N) (nd_request N) default_pool_manager default_state_view
              token_addr denom_addr (of_nat token_dec) (of_nat denom_dec) 0 head c1;
            Some (case r of
                Inl e \<Rightarrow> ([], EndsWith [[Lit ''reading '', Lit token_symbol, Lit ''/'', Lit denom_symbol, Lit '' price''],
                  show_chain_error e])
              | Inr (price, pool) \<Rightarrow>
                  ([[Lit rpc], [Lit ''block '', ShowInt (uint head)], [],
                    [Lit token_symbol, Lit '' ('', Lit token_addr, Lit '')''],
                    [Lit ''  pool              fee '', ShowInt (uint (pk_fee (rk_key pool))), Lit '' / tickSpacing '',
                     ShowInt (sint (pk_tick_spacing (rk_key pool))), Lit '' / hooks '', Lit (pk_hooks (rk_key pool))],
                    [Lit ''  liquidity         '', ShowInt (uint (rk_liquidity pool))],
                    [Lit ''  price             '', Show price, Lit '' '', Lit denom_symbol, Lit '' per '', Lit token_symbol]],
                   EndsWell)) }))"

section \<open>Simulating a swap\<close>

definition show_dex_error :: "dex_error \<Rightarrow> message" where
  "show_dex_error e = (case e of
       InvalidSlippage bps \<Rightarrow> [Lit ''slippage_bps must be < 10_000, got '', ShowInt (uint bps)]
     | AmountOverflow \<Rightarrow> [Lit ''amount overflow'']
     | DexChain ce \<Rightarrow> show_chain_error ce)"

text \<open>An error of the preview: its contexts and its cause.\<close>

definition preview_chain :: "swap_preview_error \<Rightarrow> message list" where
  "preview_chain e = (case e of
       PvChain ctx ce \<Rightarrow> [ctx, show_chain_error ce]
     | PvAmount m \<Rightarrow> [m]
     | PvDex de \<Rightarrow> [show_dex_error de])"

text \<open>The contexts on one line, as the alternate flag prints them.\<close>

fun join_chain :: "message list \<Rightarrow> message" where
  "join_chain [] = []"
| "join_chain [m] = m"
| "join_chain (m # ms) = m @ [Lit '': ''] @ join_chain ms"

text \<open>What the server answers to a request for a simulation.\<close>

definition chain_simulate ::
    "'c dex_env \<Rightarrow> string \<Rightarrow> chain_error + 'c \<Rightarrow> u64 \<Rightarrow> dex_request \<Rightarrow> (message + dex_outcome) option"
where
  "chain_simulate V rpc_url connect now q = (case parse_unsigned 128 (dq_amount_in_raw q) of
       Inl e \<Rightarrow> Some (Err (Lit ''amount_in_raw must be an integer (base units): '' # e))
     | Inr amount \<Rightarrow> (case connect of
         Inl e \<Rightarrow> Some (Err ([Lit ''connecting to '', Lit rpc_url, Lit '': ''] @ show_chain_error e))
       | Inr c \<Rightarrow> do {
           (built, c1) \<leftarrow> preview_swap V now (dq_token q) (of_nat amount) (unwrap_or ''USDG'' (dq_denom q))
             (unwrap_or 50 (dq_slippage_bps q)) c;
           Some (case built of
               Inl e \<Rightarrow> Err (join_chain (preview_chain e))
             | Inr p \<Rightarrow>
                 (let answer = fst (simulate_swap V (dq_from q) p c1)
                  in Ok \<lparr>dx_token_symbol = pv_token_symbol p, dx_denom_symbol = pv_denom_symbol p,
                      dx_pool_fee = pv_pool_fee p, dx_pool_tick_spacing = pv_pool_tick_spacing p,
                      dx_pool_liquidity = show_nat (unat (pv_pool_liquidity p)),
                      dx_amount_out_minimum = show_nat (unat (pv_amount_out_minimum p)),
                      dx_calldata_hex = to_hex (dv_hex V) (pv_calldata p), dx_ok = is_ok answer,
                      dx_detail = (case answer of
                          Inl e \<Rightarrow> Lit ''eth_call reverted: '' # show_chain_error e
                        | Inr ret \<Rightarrow> [Lit (''eth_call succeeded '' @ em_dash @ '' ''), ShowInt (int (length ret)),
                            Lit '' bytes returned''])\<rparr>)) }))"

definition dex_simulate_lines :: "'c dex_env \<Rightarrow> string \<Rightarrow> string \<Rightarrow> swap_preview \<Rightarrow> bytes chain_result \<Rightarrow> message list" where
  "dex_simulate_lines V rpc from_addr p answer =
     [[Lit rpc], [Lit ''block '', ShowInt (uint (pv_head p))],
      [Lit ''pool  fee '', ShowInt (uint (pv_pool_fee p)), Lit '' / tickSpacing '', ShowInt (sint (pv_pool_tick_spacing p)),
       Lit '' / liquidity '', ShowInt (uint (pv_pool_liquidity p))],
      [Lit ''swap  '', ShowInt (uint (pv_amount_in p)), Lit '' '', Lit (pv_token_symbol p), Lit '' -> min '',
       ShowInt (uint (pv_amount_out_minimum p)), Lit '' '', Lit (pv_denom_symbol p), Lit '' (slippage '',
       ShowInt (uint (pv_slippage_bps p)), Lit ''bps)''],
      [Lit ''calldata  '', ShowInt (int (length (pv_calldata p))), Lit '' bytes to UniversalRouter '', Lit universal_router],
      [Lit ''calldata_hex '', Lit (to_hex (dv_hex V) (pv_calldata p))],
      [Lit ''simulating as from='', Lit from_addr, Lit ('' '' @ ellipsis)], []]
     @ (case answer of
          Inr ret \<Rightarrow>
            [[Lit (check_mark @ '' eth_call succeeded '' @ em_dash @ '' ''), ShowInt (int (length ret)), Lit '' bytes returned''],
             [Lit ''   the calldata is well-formed AND '', Lit from_addr, Lit '' has the balance + Permit2''],
             [Lit ''   allowance this swap needs. Still: sign and broadcast is a separate,''],
             [Lit ''   explicit step this crate does not take.'']]
        | Inl e \<Rightarrow>
            [Lit (stop_mark @ '' eth_call reverted: '') # show_chain_error e,
             [Lit ''   Could be a real problem with the encoding, OR simply that '', Lit from_addr],
             [Lit (''   lacks balance/allowance for this swap '' @ em_dash @ '' both look like a revert here.'')]])"

definition dex_simulate :: "'c dex_env \<Rightarrow> (string \<Rightarrow> chain_error + 'c) \<Rightarrow> u64 \<Rightarrow> string list \<Rightarrow> printed option" where
  "dex_simulate V connect now args = (case args of
       from_addr # token # amount # others \<Rightarrow> (case parse_unsigned 128 amount of
           Inl e \<Rightarrow> Some ([], EndsWith [[Lit ''amount_in_raw must be an integer (base units)''], e])
         | Inr amount \<Rightarrow> (case (if drop 1 others = [] then Ok 50 else parse_unsigned 32 (hd (drop 1 others))) of
             Inl e \<Rightarrow> Some ([], EndsWith [[Lit ''slippage_bps''], e])
           | Inr bps \<Rightarrow> (let rpc = arg_or default_rpc (drop 2 others) in case connect rpc of
               Inl e \<Rightarrow> Some ([], EndsWith [show_chain_error e])
             | Inr c \<Rightarrow> do {
                 (built, c1) \<leftarrow> preview_swap V now token (of_nat amount) (arg_or ''USDG'' others) (of_nat bps) c;
                 Some (case built of
                     Inl e \<Rightarrow> ([], EndsWith (preview_chain e))
                   | Inr p \<Rightarrow> (dex_simulate_lines V rpc from_addr p (fst (simulate_swap V from_addr p c1)), EndsWell)) })))
     | _ \<Rightarrow> Some ([], ShowsUsage))"

section \<open>Choosing a venue\<close>

definition parse_bool :: "string \<Rightarrow> bool option" where
  "parse_bool s = (let l = to_ascii_lowercase s in
     if l \<in> {''1'', ''true'', ''yes'', ''y''} then Some True
     else if l \<in> {''0'', ''false'', ''no'', ''n''} then Some False else None)"

definition route_command :: "(string \<Rightarrow> message + dec) \<Rightarrow> string list \<Rightarrow> printed" where
  "route_command parse_dec args = (case args of
       [] \<Rightarrow> ([], ShowsUsage)
     | notional # others \<Rightarrow> (case parse_dec notional of
         Inl e \<Rightarrow> ([], EndsWith [[Lit ''notional must be a decimal number''], e])
       | Inr notional \<Rightarrow>
         (case (case others of [] \<Rightarrow> Ok None | s # _ \<Rightarrow> and_then (parse_dec s) (\<lambda>d. Ok (Some d))) of
            Inl e \<Rightarrow> ([], EndsWith [[Lit ''rfq_min_notional must be a decimal number''], e])
          | Inr rfq_min \<Rightarrow>
            (case (case drop 1 others of [] \<Rightarrow> Ok False
                 | s # _ \<Rightarrow> ok_or [Lit ''rfq_available: expected true/false, got '', ShowDebug s] (parse_bool s)) of
               Inl e \<Rightarrow> ([], EndsWith [e])
             | Inr available \<Rightarrow> (case router_new \<lparr>rg_rfq_min_notional = rfq_min, rg_rfq_available = available\<rparr> of
                 Inl e \<Rightarrow> ([], EndsWith [[Lit ''invalid router config''], show_router_error e])
               | Inr router \<Rightarrow> (case choose_venue router notional of
                   Inl e \<Rightarrow> ([], EndsWith [[Lit ''routing this order''], show_router_error e])
                 | Inr choice \<Rightarrow> ([[Lit ''venue  '', Lit (route_venue_str (rt_venue choice))],
                     Lit ''reason '' # rt_reason choice], EndsWell)))))))"

section \<open>Reconciling\<close>

definition parse_trade_side :: "string \<Rightarrow> message + side" where
  "parse_trade_side s = (let l = to_ascii_lowercase s in
     if l = ''buy'' then Ok Buy else if l = ''sell'' then Ok Sell
     else Err [Lit ''side must be \"buy\" or \"sell\", got '', ShowDebug l])"

text \<open>
  What the server answers to a request to reconcile: \<open>answers\<close> and \<open>clock\<close> are what the polls
  for the receipt of the transaction give, and the clock after each.
\<close>

definition chain_reconcile ::
    "string \<Rightarrow> chain_error option \<Rightarrow> (chain_error + tx_receipt option) list \<Rightarrow> instant list \<Rightarrow> instant \<Rightarrow> instant
      \<Rightarrow> reconcile_request \<Rightarrow> (message + reconcile_outcome) option"
where
  "chain_reconcile rpc_url failed answers clock now started q = (case parse_trade_side (rq_side q) of
       Inl e \<Rightarrow> Some (Err e)
     | Inr sd \<Rightarrow> (case failed of
         Some e \<Rightarrow> Some (Err ([Lit ''connecting to '', Lit rpc_url, Lit '': ''] @ show_chain_error e))
       | None \<Rightarrow> map_option (map_sum show_chain_error id)
           (wait_and_reconcile answers clock \<lparr>ex_symbol = rq_symbol q, ex_side = sd, ex_qty = rq_qty q,
              ex_price = rq_price q, ex_fee = unwrap_or 0 (rq_fee q)\<rparr> now (started + from_secs 120))))"

text \<open>The arguments of the command, in the order in which they are read.\<close>

record reconcile_args =
  ra_config :: string
  ra_tx_hash :: string
  ra_trade :: expected_trade

definition reconcile_parse :: "(string \<Rightarrow> message + dec) \<Rightarrow> string list \<Rightarrow> ending + reconcile_args" where
  "reconcile_parse parse_dec args = (case args of
       cfg # tx # symb # sd # others \<Rightarrow> (case parse_trade_side sd of
           Inl e \<Rightarrow> Err (EndsWith [e])
         | Inr sd \<Rightarrow> (case others of
             [] \<Rightarrow> Err ShowsUsage
           | qty # others \<Rightarrow> (case parse_dec qty of
               Inl e \<Rightarrow> Err (EndsWith [[Lit ''qty must be a decimal number''], e])
             | Inr qty \<Rightarrow> (case others of
                 [] \<Rightarrow> Err ShowsUsage
               | price # others \<Rightarrow> (case parse_dec price of
                   Inl e \<Rightarrow> Err (EndsWith [[Lit ''price must be a decimal number''], e])
                 | Inr price \<Rightarrow> (case (if others = [] then Ok 0 else parse_dec (hd others)) of
                     Inl e \<Rightarrow> Err (EndsWith [[Lit ''fee must be a decimal number''], e])
                   | Inr fee \<Rightarrow> Ok \<lparr>ra_config = cfg, ra_tx_hash = tx,
                       ra_trade = \<lparr>ex_symbol = symb, ex_side = sd, ex_qty = qty, ex_price = price, ex_fee = fee\<rparr>\<rparr>))))))
     | _ \<Rightarrow> Err ShowsUsage)"

text \<open>
  \<open>loaded\<close>, \<open>failed\<close> and \<open>opened\<close> are what loading the configuration, connecting and opening
  the database give; \<open>timeout\<close> is how the debug flag prints the timeout.
\<close>

record reconcile_env =
  re_arith :: arith
  re_sha :: "string \<Rightarrow> string"
  re_codec :: codec
  re_names :: "string set \<Rightarrow> string"
  re_loaded :: "string \<Rightarrow> config_error + app_config"
  re_failed :: "string \<Rightarrow> chain_error option"
  re_answers :: "(chain_error + tx_receipt option) list"
  re_clock :: "instant list"
  re_now :: instant
  re_started :: instant
  re_opened :: "string \<Rightarrow> message option"
  re_db :: "store_call \<Rightarrow> string option"
  re_timeout :: string

definition reconcile_lines :: "reconcile_env \<Rightarrow> reconcile_args \<Rightarrow> reconcile_outcome \<Rightarrow> message list" where
  "reconcile_lines V a out = (case out of
       NotFound \<Rightarrow> [[Lit (hourglass @ '' no receipt yet after ''), Lit (re_timeout V), Lit ('' '' @ em_dash
         @ '' it may still confirm. Re-run this command later with the same tx_hash; nothing has been recorded.'')]]
     | Reverted r \<Rightarrow> [[Lit (stop_mark @ '' ''), Lit (ra_tx_hash a), Lit '' was mined but REVERTED (block '',
         ShowInt (uint (rx_block_number r)), Lit '', gas used '', ShowInt (uint (rx_gas_used r)),
         Lit (''). Nothing recorded '' @ em_dash @ '' a reverted transaction spent gas but moved no funds.'')]]
     | Confirmed r f \<Rightarrow> [[Lit (check_mark @ '' ''), Lit (ra_tx_hash a), Lit '' confirmed in block '',
         ShowInt (uint (rx_block_number r)), Lit '' (gas used '', ShowInt (uint (rx_gas_used r)), Lit ''): '',
         Lit (store_side_str (ex_side (ra_trade a))), Lit '' '', Show (ex_qty (ra_trade a)), Lit '' '',
         Lit (ex_symbol (ra_trade a)), Lit '' @ '', Show (ex_price (ra_trade a))]])"

definition reconcile_command ::
    "reconcile_env \<Rightarrow> (string \<Rightarrow> message + dec) \<Rightarrow> string list \<Rightarrow> store \<Rightarrow> (printed \<times> store) option"
where
  "reconcile_command V parse_dec args s = (case reconcile_parse parse_dec args of
       Inl e \<Rightarrow> Some (([], e), s)
     | Inr a \<Rightarrow> (case re_loaded V (ra_config a) of
         Inl e \<Rightarrow> Some (([], EndsWith [show_chain (re_names V) e]), s)
       | Inr cfg \<Rightarrow> (case re_failed V (ch_rpc_url (ac_chain cfg)) of
           Some e \<Rightarrow> Some (([], EndsWith [[Lit ''connecting to the RPC''], show_chain_error e]), s)
         | None \<Rightarrow> (let polling = [Lit ''polling for the receipt of '', Lit (ra_tx_hash a), Lit '' (up to '', Lit (re_timeout V),
                Lit ('') '' @ ellipsis)] in do {
             r \<leftarrow> wait_and_reconcile (re_answers V) (re_clock V) (ra_trade a) (re_now V) (re_started V + from_secs 120);
             (case r of
                Inl e \<Rightarrow> Some (([polling], EndsWith [[Lit ''reading the transaction receipt''], show_chain_error e]), s)
              | Inr out \<Rightarrow> (let ls = polling # reconcile_lines V a out in case out of
                  Confirmed _ f \<Rightarrow> (case ge_state_path (ac_general cfg) of
                      None \<Rightarrow> Some ((ls @ [[Lit (''no [general] state_path configured '' @ em_dash
                        @ '' this fill is not recorded anywhere'')]], EndsWell), s)
                    | Some path \<Rightarrow> (case re_opened V path of
                        Some e \<Rightarrow> Some ((ls, EndsWith [[Lit ''opening the state store''], e]), s)
                      | None \<Rightarrow> do {
                          (done, s') \<leftarrow> record_fill (re_arith V) (re_sha V) (re_codec V) (re_db V) (re_now V)
                            (ge_starting_cash (ac_general cfg)) f s;
                          Some (case done of
                              Inl e \<Rightarrow> ((ls, EndsWith [e]), s')
                            | Inr _ \<Rightarrow> ((ls @ [[Lit ''recorded to '', Lit path]], EndsWell), s')) }))
                | _ \<Rightarrow> Some ((ls, EndsWell), s))) }))))"

section \<open>Properties\<close>

text \<open>What the probes find, against a node that answers a question always the same.\<close>

lemma probe_loop_open:
  assumes "steady (nd_request N)" and "probe_loop N ts c = Some (ls, True, c')"
  shows "list_all (\<lambda>t. token_open (nd_hex N) (nd_keccak N) (nd_request N) (fst (snd (resolve_token t))) c0) ts"
  using assms(2)
proof (induction ts arbitrary: c ls c')
  case (Cons t ts)
  from Cons.prems obtain r c1 rest found c2 where
    r: "check_transfer_open (nd_hex N) (nd_keccak N) (nd_logs N) (nd_request N) (fst (snd (resolve_token t)))
       probe_options_default c = Some (r, c1)"
    and rest: "probe_loop N ts c1 = Some (rest, found, c2)"
    by (auto simp: bind_Some_iff)
  then obtain report where "r = Ok report" "pr_verdict report = Permissionless" "found"
    using Cons.prems by (cases r) (auto simp: is_permissionless_def)
  with Cons.IH [of c1 rest c2] rest probe_open [OF assms(1), of "nd_hex N" "nd_keccak N" "nd_logs N"] r show ?case by auto
qed simp

text \<open>
  The probe of a chain is a gate. Against a node that answers a question always the same, the
  command ends well only if every token it was given, or the default one, can be transferred
  by a holder to a fresh address, and not back for lack of balance or allowance alone; a script
  that goes on after it does so only over open tokens.
\<close>

theorem chain_probe_is_a_gate:
  assumes "steady (nd_request N)" and "chain_probe N connect args = Some (ls, EndsWell)"
    and "t \<in> set (if snd (take_rpc args) = [] then [''NVDA''] else snd (take_rpc args))"
  shows "token_open (nd_hex N) (nd_keccak N) (nd_request N) (fst (snd (resolve_token t))) c0"
proof -
  let ?ts = "if snd (take_rpc args) = [] then [''NVDA''] else snd (take_rpc args)"
  obtain rpc rest where rpc: "take_rpc args = (rpc, rest)" by fastforce
  from assms(2) obtain c2 out c3 where "probe_loop N ?ts c2 = Some (out, True, c3)"
    by (auto simp: chain_probe_def rpc Let_def bind_Some_iff simp del: probe_loop.simps split: sum.splits prod.splits if_splits)
  from probe_loop_open [OF assms(1) this, of c0] assms(3) show ?thesis by (auto simp: list_all_iff)
qed

definition open_probe_node :: "unit node" where
  "open_probe_node = \<lparr>nd_hex = plain_hex, nd_keccak = \<lambda>bs. bs, nd_logs = \<lambda>_. Ok [raw_of holder_event], nd_request = open_node\<rparr>"

theorem chain_probe_is_a_gate_witness:
  "\<exists>ls. chain_probe open_probe_node (\<lambda>_. Ok ()) [''http://node'', demo_usdg] = Some (ls, EndsWell)
     \<and> token_open plain_hex (\<lambda>bs. bs) open_node (fst (snd (resolve_token demo_usdg))) ()"
proof -
  have rpc: "take_rpc [''http://node'', demo_usdg] = (''http://node'', [demo_usdg])"
    by (simp add: take_rpc_def starts_with_def)
  have usdg: "resolve_token demo_usdg = (demo_usdg, demo_usdg, 18)" by code_simp
  obtain r where probe: "check_transfer_open plain_hex (\<lambda>bs. bs) (\<lambda>_. Ok [raw_of holder_event]) open_node demo_usdg
      probe_options_default () = Some (Ok r, ())" "pr_verdict r = Permissionless" using open_node_probe by blast
  have "rpc_chain_id open_node () = (Ok 16, ())"
    using parse_quantity_show_hex [of 16]
    by (simp add: rpc_chain_id_def open_node_def and_then_def parse_quantity_def as_str_def del: unat_numeral)
  with probe open_node_head have ends: "\<exists>ls. chain_probe open_probe_node (\<lambda>_. Ok ()) [''http://node'', demo_usdg] = Some (ls, EndsWell)"
    by (simp add: chain_probe_def rpc usdg open_probe_node_def is_permissionless_def)
  then obtain ls where ls: "chain_probe open_probe_node (\<lambda>_. Ok ()) [''http://node'', demo_usdg] = Some (ls, EndsWell)" by blast
  have "steady (nd_request open_probe_node)" using open_node_steady by (simp add: open_probe_node_def)
  from chain_probe_is_a_gate [OF this ls, of demo_usdg "()"] ls show ?thesis by (auto simp: rpc open_probe_node_def)
qed

text \<open>
  Numbers read back: a number that fits the width is read from its decimal digits, with or
  without a plus sign.
\<close>

lemma parse_digits_show: "n < 2 ^ w \<Longrightarrow> parse_digits w 0 (show_nat n @ cs) = parse_digits w n cs"
proof (induction n arbitrary: cs rule: show_nat.induct)
  case (1 n)
  have dig: "digit_of (char_of (48 + k)) = Some k" if "k < 10" for k :: nat
    using that by (simp add: digit_of_def Let_def)
  show ?case
  proof (cases "n < 10")
    case True
    then show ?thesis using 1(2) dig [of n] by (subst show_nat.simps) simp
  next
    case False
    then have "n div 10 * 10 + n mod 10 < 2 ^ w" "n div 10 < 2 ^ w" using 1(2) by (simp_all add: div_less_dividend order.strict_trans1)
    with 1(1) [OF False] dig [of "n mod 10"] False show ?thesis by (subst show_nat.simps) simp
  qed
qed

lemma parse_unsigned_show:
  assumes "n < 2 ^ w"
  shows "parse_unsigned w (show_nat n) = Ok n"
proof -
  have "show_nat n \<noteq> []" by (subst show_nat.simps) simp
  have "hd (show_nat n) \<in> set (show_nat n)" by (rule hd_in_set) fact
  then have "48 \<le> (of_char (hd (show_nat n)) :: nat)" using show_nat_digits by blast
  then have "hd (show_nat n) \<noteq> CHR ''+''" "show_nat n \<noteq> ''+''" "show_nat n \<noteq> ''-''" by auto
  with \<open>show_nat n \<noteq> []\<close> show ?thesis
    using parse_digits_show [OF assms, of "[]"] by (simp add: parse_unsigned_def)
qed

text \<open>
  What the server reports of a simulated swap is what a later reader gets: the amount that was
  asked for as its digits is the amount of the swap that was built, the least output and the
  liquidity read back from their digits, the calldata from its hexadecimal, and the flag says
  whether the node carried the call out.
\<close>

lemma simulated_swap_reads_back:
  assumes "chain_simulate V rpc_url (Ok c) now q = Some (Ok out)" and "hex_ok (dv_hex V)"
    and "dq_amount_in_raw q = show_nat n" and "n < 2 ^ 128"
  shows "\<exists>p c1. preview_swap V now (dq_token q) (of_nat n) (unwrap_or ''USDG'' (dq_denom q)) (unwrap_or 50 (dq_slippage_bps q)) c
      = Some (Ok p, c1)
    \<and> parse_unsigned 128 (dx_amount_out_minimum out) = Ok (unat (pv_amount_out_minimum p))
    \<and> parse_unsigned 128 (dx_pool_liquidity out) = Ok (unat (pv_pool_liquidity p))
    \<and> from_hex (dv_hex V) (dx_calldata_hex out) = Ok (pv_calldata p)
    \<and> dx_ok out = is_ok (fst (simulate_swap V (dq_from q) p c1))"
proof -
  let ?run = "preview_swap V now (dq_token q) (of_nat n) (unwrap_or ''USDG'' (dq_denom q)) (unwrap_or 50 (dq_slippage_bps q)) c"
  from assms(1,3,4) obtain built c1 where run: "?run = Some (built, c1)"
    by (auto simp: chain_simulate_def parse_unsigned_show bind_Some_iff)
  then obtain p where built: "built = Ok p" using assms(1,3,4)
    by (cases built) (auto simp: chain_simulate_def parse_unsigned_show)
  have out: "dx_pool_liquidity out = show_nat (unat (pv_pool_liquidity p))"
      "dx_amount_out_minimum out = show_nat (unat (pv_amount_out_minimum p))"
      "dx_calldata_hex out = to_hex (dv_hex V) (pv_calldata p)" "dx_ok out = is_ok (fst (simulate_swap V (dq_from q) p c1))"
    using assms(1,3,4) run built by (auto simp: chain_simulate_def parse_unsigned_show Let_def)
  have "unat v < 2 ^ 128" for v :: u128 using unsigned_less [of v] by simp
  with run built out from_hex_to_hex [OF assms(2)] show ?thesis by (auto simp: parse_unsigned_show)
qed

end
