(* ===== verification/Wallets.thy ===== *)
theory Wallets
  imports Vault Signer Budgets Config
begin

text \<open>
  The registry of named wallets of \<open>crates/wallets/src/lib.rs\<close>, and what
  \<open>crates/cli/src/runner.rs\<close> does with it: \<open>LivePreview\<close>, which names the wallet and the venue
  a paper fill would have used. The vault is read through \<open>get\<close>; nothing writes it while the
  registry loads. The order in which a hash map gives its entries is an argument.
\<close>

datatype wallet_error =
    DuplicateName string
  | WalletKey string signer_error
  | MissingSecret string string
  | WalletVault string vault_error

record wallet_config =
  wc_name :: string
  wc_key_ref :: string
  wc_allowed_symbols :: "string list"
  wc_limits :: wallet_limits

record 'key wallet =
  wa_name :: string
  wa_signer :: "'key local_signer"
  wa_allowed_symbols :: "string list"
  wa_limits :: wallet_limits
  wa_budget :: wallet_budget

section \<open>A wallet\<close>

definition wallet_address_hex :: "(bytes \<Rightarrow> string) \<Rightarrow> 'key wallet \<Rightarrow> string" where
  "wallet_address_hex to_lower_hex w = signer_address_hex to_lower_hex (ls_address (wa_signer w))"

definition allows_symbol :: "'key wallet \<Rightarrow> string \<Rightarrow> bool" where
  "allows_symbol w symbol \<longleftrightarrow>
     wa_allowed_symbols w = [] \<or> list_ex (\<lambda>s. eq_ignore_ascii_case s symbol) (wa_allowed_symbols w)"

definition wallet_try_reserve ::
    "arith \<Rightarrow> instant \<Rightarrow> instant \<Rightarrow> 'key wallet \<Rightarrow> dec \<Rightarrow> ((wallet_breach + unit) \<times> 'key wallet) option"
where
  "wallet_try_reserve A t1 t2 w notional =
     map_option (\<lambda>(r, b). (r, w\<lparr>wa_budget := b\<rparr>)) (try_reserve A (wa_limits w) (wa_budget w) t1 t2 notional)"

definition wallet_reset_budget :: "instant \<Rightarrow> 'key wallet \<Rightarrow> 'key wallet" where
  "wallet_reset_budget now w = w\<lparr>wa_budget := wallet_budget_reset now (wa_budget w)\<rparr>"

definition wallet_view :: "instant \<Rightarrow> 'key wallet \<Rightarrow> wallet_budget_view" where
  "wallet_view now w = wallet_budget_view (wa_limits w) now (wa_budget w)"

section \<open>The registry\<close>

type_synonym 'key registry = "string \<rightharpoonup> 'key wallet"

record 'key key_packages =
  kp_parse :: "string \<Rightarrow> signer_error + 'key local_signer"
  kp_get :: "string \<Rightarrow> vault_error + string option"

text \<open>The secret of a wallet, or why there is none.\<close>

definition wallet_signer :: "'key key_packages \<Rightarrow> wallet_config \<Rightarrow> wallet_error + 'key local_signer" where
  "wallet_signer K cfg = (case resolve_ref (wc_key_ref cfg) (kp_get K) of
       Inl e \<Rightarrow> Err (WalletVault (wc_name cfg) e)
     | Inr None \<Rightarrow> Err (MissingSecret (wc_name cfg) (wc_key_ref cfg))
     | Inr (Some secret) \<Rightarrow> (case kp_parse K secret of
         Inl e \<Rightarrow> Err (WalletKey (wc_name cfg) e)
       | Inr signer \<Rightarrow> Ok signer))"

definition new_wallet :: "wallet_config \<Rightarrow> instant \<Rightarrow> 'key local_signer \<Rightarrow> 'key wallet" where
  "new_wallet cfg now signer = \<lparr>wa_name = wc_name cfg, wa_signer = signer,
     wa_allowed_symbols = wc_allowed_symbols cfg, wa_limits = wc_limits cfg, wa_budget = wallet_budget_new now\<rparr>"

text \<open>Each configuration with the moment its budget starts.\<close>

fun load_wallets ::
    "'key key_packages \<Rightarrow> (wallet_config \<times> instant) list \<Rightarrow> 'key registry \<Rightarrow> wallet_error + 'key registry"
where
  "load_wallets K [] reg = Ok reg"
| "load_wallets K ((cfg, now) # rest) reg =
     (if reg (wc_name cfg) \<noteq> None then Err (DuplicateName (wc_name cfg))
      else and_then (wallet_signer K cfg) (\<lambda>signer.
        load_wallets K rest (reg(wc_name cfg \<mapsto> new_wallet cfg now signer))))"

definition registry_load ::
    "'key key_packages \<Rightarrow> (wallet_config \<times> instant) list \<Rightarrow> wallet_error + 'key registry" where
  "registry_load K cfgs = load_wallets K cfgs Map.empty"

definition registry_get :: "'key registry \<Rightarrow> string \<Rightarrow> 'key wallet option" where
  "registry_get reg name = reg name"

definition registry_len :: "'key registry \<Rightarrow> nat" where
  "registry_len reg = card (dom reg)"

text \<open>The names in the order of the hash map.\<close>

definition wallet_for_symbol :: "string list \<Rightarrow> 'key registry \<Rightarrow> string \<Rightarrow> 'key wallet option" where
  "wallet_for_symbol order reg symbol =
     find (\<lambda>w. allows_symbol w symbol \<and> \<not> wb_breached (wa_budget w)) (List.map_filter reg order)"

section \<open>The preview of a run\<close>

definition wallet_to_core :: "wallet_entry \<Rightarrow> wallet_config" where
  "wallet_to_core w = \<lparr>wc_name = we_name w, wc_key_ref = we_key_ref w, wc_allowed_symbols = we_allowed_symbols w,
     wc_limits = \<lparr>wl_max_tx_count = we_max_tx_count w, wl_max_notional = we_max_notional w,
       wl_max_duration = unat (we_max_duration_secs w) * nat nanos_per_sec\<rparr>\<rparr>"

record 'key live_preview =
  lp_wallets :: "'key registry"
  lp_router :: router_config

datatype preview_error =
    PreviewVault vault_error
  | PreviewWallets wallet_error
  | PreviewRouter router_error

text \<open>The vault is opened only when there are wallets.\<close>

definition preview_build ::
    "(string \<Rightarrow> signer_error + 'key local_signer) \<Rightarrow> vault_error + (string \<Rightarrow> vault_error + string option)
      \<Rightarrow> instant list \<Rightarrow> app_config \<Rightarrow> preview_error + 'key live_preview option"
where
  "preview_build parse open_vault starts cfg =
     (if ac_wallets cfg = [] then Ok None
      else (case open_vault of
          Inl e \<Rightarrow> Err (PreviewVault e)
        | Inr get \<Rightarrow>
          (case registry_load \<lparr>kp_parse = parse, kp_get = get\<rparr> (zip (map wallet_to_core (ac_wallets cfg)) starts) of
            Inl e \<Rightarrow> Err (PreviewWallets e)
          | Inr wallets \<Rightarrow> (case router_new (router_to_core (ac_router cfg)) of
              Inl e \<Rightarrow> Err (PreviewRouter e)
            | Inr router \<Rightarrow> Ok (Some \<lparr>lp_wallets = wallets, lp_router = router\<rparr>)))))"

text \<open>What is logged of a fill.\<close>

datatype 'key preview_note =
    NoWalletAllows string
  | WouldRoute string dec route_choice "'key wallet"
  | RouteRefused string router_error

definition note_fill :: "arith \<Rightarrow> string list \<Rightarrow> 'key live_preview \<Rightarrow> string \<Rightarrow> dec \<Rightarrow> dec \<Rightarrow> 'key preview_note option" where
  "note_fill A order lp symbol qty price = do {
     notional \<leftarrow> d_mul A qty price;
     Some (case wallet_for_symbol order (lp_wallets lp) symbol of
         None \<Rightarrow> NoWalletAllows symbol
       | Some w \<Rightarrow> (case choose_venue (lp_router lp) notional of
           Inl e \<Rightarrow> RouteRefused symbol e
         | Inr choice \<Rightarrow> WouldRoute symbol notional choice w)) }"

section \<open>Lemmas\<close>

text \<open>The key of a wallet when it has one, and the wallets of a list that all have.\<close>

definition signer_of :: "'key key_packages \<Rightarrow> wallet_config \<Rightarrow> 'key local_signer option" where
  "signer_of K cfg = (case resolve_ref (wc_key_ref cfg) (kp_get K) of
       Inr (Some secret) \<Rightarrow> (case kp_parse K secret of Inl _ \<Rightarrow> None | Inr signer \<Rightarrow> Some signer)
     | _ \<Rightarrow> None)"

definition named_wallet :: "'key key_packages \<Rightarrow> wallet_config \<times> instant \<Rightarrow> string \<times> 'key wallet" where
  "named_wallet K p = (wc_name (fst p), new_wallet (fst p) (snd p) (the (signer_of K (fst p))))"

lemma wallet_signer_Ok: "wallet_signer K cfg = Ok s \<longleftrightarrow> signer_of K cfg = Some s"
  by (auto simp: wallet_signer_def signer_of_def split: sum.splits option.splits)

lemma load_wallets_Ok:
  "load_wallets K cfgs reg = Ok reg' \<longleftrightarrow>
     distinct (map (wc_name \<circ> fst) cfgs) \<and> list_all (\<lambda>p. wc_name (fst p) \<notin> dom reg) cfgs
     \<and> list_all (\<lambda>p. signer_of K (fst p) \<noteq> None) cfgs \<and> reg' = reg ++ map_of (map (named_wallet K) cfgs)"
proof (induction K cfgs reg rule: load_wallets.induct)
  case (2 K cfg now rest reg)
  show ?case
  proof (cases "reg (wc_name cfg) = None \<and> signer_of K cfg \<noteq> None")
    case True
    then obtain s where s: "signer_of K cfg = Some s" and new: "wc_name cfg \<notin> dom reg" by auto
    have names: "list_all (\<lambda>p. wc_name (fst p) \<notin> dom (reg(wc_name cfg \<mapsto> w))) rest \<longleftrightarrow>
        wc_name cfg \<notin> set (map (wc_name \<circ> fst) rest) \<and> list_all (\<lambda>p. wc_name (fst p) \<notin> dom reg) rest" for w
      unfolding list_all_iff dom_fun_upd by (force simp: image_iff)
    have keys: "map_of (map (named_wallet K) rest) n = None"
      if "n \<notin> set (map (wc_name \<circ> fst) rest)" for n
      using that by (induction rest) (auto simp: named_wallet_def)
    have "reg(wc_name cfg \<mapsto> w) ++ map_of (map (named_wallet K) rest)
        = reg ++ (map_of (map (named_wallet K) rest))(wc_name cfg \<mapsto> w)"
      if "wc_name cfg \<notin> set (map (wc_name \<circ> fst) rest)" for w
      using keys [OF that] by (auto simp: map_add_def fun_eq_iff split: option.split)
    note eq = this
    let ?reg = "reg(wc_name cfg \<mapsto> new_wallet cfg now s)"
    have first: "named_wallet K (cfg, now) = (wc_name cfg, new_wallet cfg now s)" by (simp add: named_wallet_def s)
    have "load_wallets K ((cfg, now) # rest) reg = load_wallets K rest ?reg"
      using new by (simp add: wallet_signer_Ok [THEN iffD2, OF s] domIff and_then_def)
    moreover have "load_wallets K rest ?reg = Ok reg' \<longleftrightarrow> distinct (map (wc_name \<circ> fst) rest)
        \<and> list_all (\<lambda>p. wc_name (fst p) \<notin> dom ?reg) rest \<and> list_all (\<lambda>p. signer_of K (fst p) \<noteq> None) rest
        \<and> reg' = ?reg ++ map_of (map (named_wallet K) rest)"
      using "2.IH" [of s] new by (simp add: domIff comp_def del: fun_upd_apply dom_fun_upd)
    ultimately have main: "load_wallets K ((cfg, now) # rest) reg = Ok reg' \<longleftrightarrow>
        distinct (map (wc_name \<circ> fst) rest) \<and> list_all (\<lambda>p. wc_name (fst p) \<notin> dom ?reg) rest
        \<and> list_all (\<lambda>p. signer_of K (fst p) \<noteq> None) rest \<and> reg' = ?reg ++ map_of (map (named_wallet K) rest)"
      by (simp only:)
    show ?thesis
    proof (cases "wc_name cfg \<in> set (map (wc_name \<circ> fst) rest)")
      case True
      then show ?thesis unfolding main names by (simp add: comp_def)
    next
      case False
      with new s show ?thesis unfolding main names eq [OF False] by (simp add: first comp_def del: fun_upd_apply)
    qed
  next
    case False
    then have "\<not> is_ok (wallet_signer K cfg) \<or> reg (wc_name cfg) \<noteq> None"
      using wallet_signer_Ok [of K cfg] by (auto simp: is_ok_def split: sum.splits)
    with False show ?thesis by (auto simp: is_ok_def and_then_def split: sum.splits)
  qed
qed auto

lemma registry_load_Ok:
  "registry_load K cfgs = Ok reg \<longleftrightarrow>
     distinct (map (wc_name \<circ> fst) cfgs) \<and> list_all (\<lambda>p. signer_of K (fst p) \<noteq> None) cfgs
     \<and> reg = map_of (map (named_wallet K) cfgs)"
  by (auto simp: registry_load_def load_wallets_Ok list_all_iff)

lemma find_Some_mem: "find P xs = Some x \<Longrightarrow> x \<in> set xs \<and> P x"
  by (auto simp: find_Some_iff)

section \<open>Properties\<close>

text \<open>
  C31. The registry is all or nothing. It loads exactly when the names differ and the key of every
  wallet is found and parses, and then it holds, under its name, each configured wallet with
  its key, its symbols, its limits and an unspent budget that starts at its own moment, and
  nothing else.
\<close>

theorem registry_is_all_or_nothing:
  "registry_load K cfgs = Ok reg \<longleftrightarrow>
     distinct (map (wc_name \<circ> fst) cfgs) \<and> list_all (\<lambda>p. signer_of K (fst p) \<noteq> None) cfgs
     \<and> reg = map_of (map (\<lambda>(cfg, now). (wc_name cfg,
         \<lparr>wa_name = wc_name cfg, wa_signer = the (signer_of K cfg), wa_allowed_symbols = wc_allowed_symbols cfg,
          wa_limits = wc_limits cfg, wa_budget = wallet_budget_new now\<rparr>)) cfgs)"
proof -
  have "named_wallet K = (\<lambda>(cfg, now). (wc_name cfg,
         \<lparr>wa_name = wc_name cfg, wa_signer = the (signer_of K cfg), wa_allowed_symbols = wc_allowed_symbols cfg,
          wa_limits = wc_limits cfg, wa_budget = wallet_budget_new now\<rparr>))"
    by (auto simp: named_wallet_def new_wallet_def)
  then show ?thesis by (simp add: registry_load_Ok)
qed

text \<open>
  Which wallet spends on a symbol. Whatever the order of the hash map, as long as it names
  the wallets of the registry: a wallet that is found is one of the registry, allows the
  symbol and is not latched, and none is found only when there is no such wallet.
\<close>

theorem wallet_for_symbol_is_exact:
  assumes "set order = dom reg"
  shows "(case wallet_for_symbol order reg symbol of
      Some w \<Rightarrow> w \<in> ran reg \<and> allows_symbol w symbol \<and> \<not> wb_breached (wa_budget w)
    | None \<Rightarrow> \<not> (\<exists>w. w \<in> ran reg \<and> allows_symbol w symbol \<and> \<not> wb_breached (wa_budget w)))"
proof -
  let ?P = "\<lambda>w. allows_symbol w symbol \<and> \<not> wb_breached (wa_budget w)"
  have "set (List.map_filter reg order) = (\<lambda>n. the (reg n)) ` {n \<in> set order. reg n \<noteq> None}"
    by (simp add: List.map_filter_def comp_def)
  also have "\<dots> = ran reg" unfolding assms ran_def by (auto intro: rev_image_eqI)
  finally have ran: "w \<in> set (List.map_filter reg order) \<longleftrightarrow> w \<in> ran reg" for w by (rule arg_cong)
  show ?thesis
  proof (cases "wallet_for_symbol order reg symbol")
    case None
    then have "\<not> (\<exists>w. w \<in> set (List.map_filter reg order) \<and> ?P w)"
      unfolding wallet_for_symbol_def find_None_iff .
    then show ?thesis unfolding None ran by simp
  next
    case (Some w)
    then have "w \<in> set (List.map_filter reg order) \<and> ?P w"
      unfolding wallet_for_symbol_def by (rule find_Some_mem)
    then show ?thesis unfolding Some ran by simp
  qed
qed

text \<open>
  What can keep a validated configuration from its preview. When the vault opens, the preview
  of a configuration that passed validation is built exactly when the key of each wallet is
  found and parses: no duplicate name and no bad router is left to find. Its router is the
  configured one and its wallets are the configured names.
\<close>

theorem validated_preview_builds:
  assumes "validate E cfg = Ok ()" and "ac_wallets cfg \<noteq> []" and "length starts = length (ac_wallets cfg)"
  shows "(\<exists>lp. preview_build parse (Ok get) starts cfg = Ok (Some lp)
        \<and> lp_router lp = router_to_core (ac_router cfg) \<and> dom (lp_wallets lp) = set (map we_name (ac_wallets cfg)))
      \<longleftrightarrow> list_all (\<lambda>w. signer_of \<lparr>kp_parse = parse, kp_get = get\<rparr> (wallet_to_core w) \<noteq> None) (ac_wallets cfg)"
    (is "?built \<longleftrightarrow> ?keys")
proof -
  let ?K = "\<lparr>kp_parse = parse, kp_get = get\<rparr>" and ?cfgs = "zip (map wallet_to_core (ac_wallets cfg)) starts"
  have valid: "valid_config E cfg" using assms(1) by (simp add: validate_iff)
  have router: "router_new (router_to_core (ac_router cfg)) = Ok (router_to_core (ac_router cfg))"
    using valid by (auto simp: valid_config_def valid_router_def router_new_def router_to_core_def split: option.splits)
  have fsts: "map fst ?cfgs = map wallet_to_core (ac_wallets cfg)" using assms(3) by simp
  have "wc_name \<circ> wallet_to_core = we_name" by (auto simp: wallet_to_core_def)
  with fsts have names: "map (wc_name \<circ> fst) ?cfgs = map we_name (ac_wallets cfg)"
    by (metis list.map_comp)
  then have dist: "distinct (map (wc_name \<circ> fst) ?cfgs)" using valid by (simp add: valid_config_def)
  have keys: "list_all (\<lambda>p. signer_of ?K (fst p) \<noteq> None) ?cfgs \<longleftrightarrow> ?keys"
  proof -
    have "list_all (\<lambda>p. signer_of ?K (fst p) \<noteq> None) ?cfgs \<longleftrightarrow> list_all (\<lambda>w. signer_of ?K w \<noteq> None) (map fst ?cfgs)"
      unfolding list.pred_map by (simp only: comp_def)
    also have "\<dots> \<longleftrightarrow> ?keys" unfolding fsts list.pred_map by (simp only: comp_def)
    finally show ?thesis .
  qed
  have dom: "dom (map_of (map (named_wallet ?K) ?cfgs)) = set (map we_name (ac_wallets cfg))"
    unfolding names [symmetric] by (force simp: dom_map_of_conv_image_fst named_wallet_def image_image)
  show ?thesis
  proof
    assume ?built
    then obtain reg where "registry_load ?K ?cfgs = Ok reg"
      using assms(2) by (auto simp: preview_build_def split: sum.splits)
    then show ?keys using keys by (simp add: registry_load_Ok)
  next
    assume ?keys
    then have "registry_load ?K ?cfgs = Ok (map_of (map (named_wallet ?K) ?cfgs))"
      using dist keys by (simp add: registry_load_Ok)
    then show ?built using assms(2) router dom by (simp add: preview_build_def)
  qed
qed

definition demo_parse_key :: "string \<Rightarrow> signer_error + unit local_signer" where
  "demo_parse_key s = (if s = [] then Err (KeyError []) else Ok \<lparr>ls_key = (), ls_address = replicate 20 0\<rparr>)"

theorem wallet_for_symbol_is_exact_witness:
  "case wallet_for_symbol [''main''] [''main'' \<mapsto> new_wallet
       \<lparr>wc_name = ''main'', wc_key_ref = ''vault:main'', wc_allowed_symbols = [''NVDA''], wc_limits = wallet_limits_default\<rparr>
       0 \<lparr>ls_key = (), ls_address = replicate 20 0\<rparr>] ''nvda'' of
     Some w \<Rightarrow> allows_symbol w ''nvda'' | None \<Rightarrow> False"
proof -
  let ?w = "new_wallet
       \<lparr>wc_name = ''main'', wc_key_ref = ''vault:main'', wc_allowed_symbols = [''NVDA''], wc_limits = wallet_limits_default\<rparr>
       0 \<lparr>ls_key = (), ls_address = replicate 20 0\<rparr>"
  have "allows_symbol ?w ''nvda'' \<and> \<not> wb_breached (wa_budget ?w)"
  proof -
    have "eq_ignore_ascii_case ''NVDA'' ''nvda''" by code_simp
    then show ?thesis by (simp add: allows_symbol_def new_wallet_def wallet_budget_new_def)
  qed
  then show ?thesis
    using wallet_for_symbol_is_exact [of "[''main'']" "[''main'' \<mapsto> ?w]" "''nvda''"]
    by (auto split: option.splits)
qed

theorem validated_preview_builds_witness:
  "\<exists>lp. preview_build demo_parse_key (Ok (\<lambda>_. Ok (Some ''11''))) [0] demo_config = Ok (Some lp)
     \<and> lp_router lp = amm_only \<and> dom (lp_wallets lp) = {''main''}"
proof -
  have "list_all (\<lambda>w. signer_of \<lparr>kp_parse = demo_parse_key, kp_get = \<lambda>_. Ok (Some ''11'')\<rparr> (wallet_to_core w) \<noteq> None)
      (ac_wallets demo_config)"
    by (simp add: demo_config_def signer_of_def wallet_to_core_def resolve_ref_def strip_prefix_def starts_with_def
        demo_parse_key_def)
  moreover have "ac_wallets demo_config \<noteq> []" "length [0 :: instant] = length (ac_wallets demo_config)"
    and "router_to_core (ac_router demo_config) = amm_only" "set (map we_name (ac_wallets demo_config)) = {''main''}"
    by (simp_all add: demo_config_def router_to_core_def amm_only_def router_config_default_def)
  ultimately show ?thesis
    using validated_preview_builds [OF demo_config_valid, of "[0]" demo_parse_key "\<lambda>_. Ok (Some ''11'')"] by simp
qed

end
