(* ===== verification/Paper_Executor.thy ===== *)
theory Paper_Executor
  imports Risk_Gate
begin

text \<open>
  The executors of \<open>crates/execution/src/lib.rs\<close>: the paper simulator, which fills at
  the set price plus or minus a spread, and the live stub, which never fills. The locale
  \<open>executor\<close> is the contract of the \<open>Executor\<close> trait that the run loop relies on:
  a fill answers the order it was asked for.
\<close>

section \<open>The executors\<close>

datatype exec_error =
    NoPrice string
  | SlippageExceeded dec dec     \<comment> \<open>got, tolerance\<close>
  | LiveNotConfigured
  | VenueRejected string

text \<open>The sequence number is a \<open>u64\<close> the simulator counts its fills with.\<close>

record paper_executor =
  pe_prices :: "string \<rightharpoonup> dec"
  pe_seq :: u64
  pe_spread_bps :: dec
  pe_fee_bps :: dec

definition paper_executor_new :: "dec \<Rightarrow> dec \<Rightarrow> paper_executor" where
  "paper_executor_new spread fee =
     \<lparr>pe_prices = Map.empty, pe_seq = 0, pe_spread_bps = spread, pe_fee_bps = fee\<rparr>"

definition paper_executor_default :: paper_executor where
  "paper_executor_default = paper_executor_new (10 / 10000) (5 / 10000)"

definition set_price :: "paper_executor \<Rightarrow> string \<Rightarrow> dec \<Rightarrow> paper_executor" where
  "set_price ex s px = ex\<lparr>pe_prices := (pe_prices ex)(s \<mapsto> px)\<rparr>"

definition slippage_of :: "arith \<Rightarrow> dec \<Rightarrow> dec option \<Rightarrow> dec option option" where
  "slippage_of A exec_price limit = (case limit of
       None \<Rightarrow> Some None
     | Some l \<Rightarrow> do { d \<leftarrow> d_sub A exec_price l; q \<leftarrow> d_div A d l; Some (Some \<bar>q\<bar>) })"

definition slip_exceeds :: "dec option \<Rightarrow> dec \<Rightarrow> bool" where
  "slip_exceeds slip tol = (case slip of None \<Rightarrow> False | Some s \<Rightarrow> tol < s)"

definition paper_execute ::
    "arith \<Rightarrow> paper_executor \<Rightarrow> trade_order \<Rightarrow> instant \<Rightarrow> ((exec_error + fill) \<times> paper_executor) option"
where
  "paper_execute A ex ord now =
     (case pe_prices ex (as_symbol (o_asset ord)) of
        None \<Rightarrow> Some (Err (NoPrice (as_symbol (o_asset ord))), ex)
      | Some mid \<Rightarrow> do {
          factor \<leftarrow> (case o_side ord of Buy \<Rightarrow> d_add A 1 (pe_spread_bps ex)
                                   | Sell \<Rightarrow> d_sub A 1 (pe_spread_bps ex));
          exec_price \<leftarrow> d_mul A mid factor;
          slip \<leftarrow> slippage_of A exec_price (o_limit_price ord);
          (if slip_exceeds slip (o_max_slippage ord)
           then Some (Err (SlippageExceeded (unwrap_or 0 slip) (o_max_slippage ord)), ex)
           else do {
             gross \<leftarrow> d_mul A (o_qty ord) exec_price;
             fee \<leftarrow> d_mul A gross (pe_fee_bps ex);
             Some (Ok \<lparr>f_order_id = o_id ord, f_asset = o_asset ord, f_side = o_side ord,
                      f_qty = o_qty ord, f_price = exec_price, f_fee = fee,
                      f_venue = Paper, f_at = now\<rparr>,
                   ex\<lparr>pe_seq := pe_seq ex + 1\<rparr>) }) })"

definition live_execute ::
    "unit \<Rightarrow> trade_order \<Rightarrow> instant \<Rightarrow> ((exec_error + fill) \<times> unit) option"
where
  "live_execute ex ord now = Some (Err LiveNotConfigured, ex)"

section \<open>The contract of an executor\<close>

definition fill_answers :: "trade_order \<Rightarrow> fill \<Rightarrow> bool" where
  "fill_answers ord f = (f_order_id f = o_id ord \<and> f_asset f = o_asset ord
     \<and> f_side f = o_side ord \<and> f_qty f = o_qty ord)"

locale executor =
  fixes exec :: "'x \<Rightarrow> trade_order \<Rightarrow> instant \<Rightarrow> ((exec_error + fill) \<times> 'x) option"
  assumes fill_matches: "exec x ord now = Some (Ok f, x') \<Longrightarrow> fill_answers ord f"
    and error_keeps_state: "exec x ord now = Some (Err e, x') \<Longrightarrow> x' = x"
begin

lemma fill_symbol: "exec x ord now = Some (Ok f, x') \<Longrightarrow> f_asset f = o_asset ord"
  using fill_matches by (auto simp: fill_answers_def)

lemma fill_buy: "exec x ord now = Some (Ok f, x') \<Longrightarrow> f_side f = Buy \<longleftrightarrow> o_side ord = Buy"
  using fill_matches by (auto simp: fill_answers_def)

end

lemma paper_fill_cases:
  assumes "paper_execute A ex ord now = Some (Ok f, ex')"
  obtains mid factor slip gross where
    "pe_prices ex (as_symbol (o_asset ord)) = Some mid"
    "(case o_side ord of Buy \<Rightarrow> d_add A 1 (pe_spread_bps ex)
        | Sell \<Rightarrow> d_sub A 1 (pe_spread_bps ex)) = Some factor"
    "d_mul A mid factor = Some (f_price f)"
    "slippage_of A (f_price f) (o_limit_price ord) = Some slip"
    "\<not> slip_exceeds slip (o_max_slippage ord)"
    "d_mul A (o_qty ord) (f_price f) = Some gross"
    "d_mul A gross (pe_fee_bps ex) = Some (f_fee f)"
    "fill_answers ord f" "f_venue f = Paper" "f_at f = now"
    "ex' = ex\<lparr>pe_seq := pe_seq ex + 1\<rparr>"
proof (cases "pe_prices ex (as_symbol (o_asset ord))")
  case None
  with assms show ?thesis by (simp add: paper_execute_def)
next
  case (Some mid)
  with assms show ?thesis
    apply (simp add: paper_execute_def bind_Some_iff)
    apply (elim exE conjE)
    apply (simp add: bind_Some_iff split: if_splits)
    apply (elim exE conjE)
    subgoal for factor px slip gross fee
      by (rule that [of mid factor slip gross]) (auto simp: fill_answers_def)
    done
qed

lemma paper_error_state:
  "paper_execute A ex ord now = Some (Err e, ex') \<Longrightarrow> ex' = ex"
  by (auto simp: paper_execute_def bind_Some_iff split: option.splits if_splits)

interpretation paper: executor "paper_execute A" for A
  by unfold_locales (auto elim: paper_fill_cases dest: paper_error_state)

interpretation live: executor live_execute
  by unfold_locales (simp_all add: live_execute_def)

section \<open>Properties\<close>

text \<open>
  A paper fill respects the order. If the simulator fills an order that carries a limit
  price, then the slippage it computed between the fill price and the limit is within the
  order's tolerance, the fill is for the order's asset, side and quantity, and in exact
  arithmetic the price is the set price raised (buy) or lowered (sell) by the spread and
  the fee is the flat rate of the notional.
\<close>

theorem paper_fill_respects_order:
  assumes "paper_execute A ex ord now = Some (Ok f, ex')"
    and "o_limit_price ord = Some limit"
  shows "fill_answers ord f
    \<and> (\<exists>slip. slippage_of A (f_price f) (Some limit) = Some (Some slip) \<and> slip \<le> o_max_slippage ord)
    \<and> (A = exact_arith \<longrightarrow> (\<exists>mid. pe_prices ex (as_symbol (o_asset ord)) = Some mid
         \<and> f_price f = (case o_side ord of Buy \<Rightarrow> mid * (1 + pe_spread_bps ex)
                                         | Sell \<Rightarrow> mid * (1 - pe_spread_bps ex))
         \<and> f_fee f = f_qty f * f_price f * pe_fee_bps ex
         \<and> \<bar>f_price f - limit\<bar> \<le> o_max_slippage ord * \<bar>limit\<bar>))"
proof -
  from assms(1) obtain mid factor slip gross where
    fl: "pe_prices ex (as_symbol (o_asset ord)) = Some mid"
    "(case o_side ord of Buy \<Rightarrow> d_add A 1 (pe_spread_bps ex)
        | Sell \<Rightarrow> d_sub A 1 (pe_spread_bps ex)) = Some factor"
    "d_mul A mid factor = Some (f_price f)"
    "slippage_of A (f_price f) (o_limit_price ord) = Some slip"
    "\<not> slip_exceeds slip (o_max_slippage ord)"
    "d_mul A (o_qty ord) (f_price f) = Some gross"
    "d_mul A gross (pe_fee_bps ex) = Some (f_fee f)" "fill_answers ord f"
    by (rule paper_fill_cases) blast
  have slip: "\<exists>s. slippage_of A (f_price f) (Some limit) = Some (Some s) \<and> s \<le> o_max_slippage ord"
    using fl(4,5) assms(2) by (auto simp: slippage_of_def slip_exceeds_def bind_Some_iff)
  have "\<bar>f_price f - limit\<bar> \<le> o_max_slippage ord * \<bar>limit\<bar>" if "A = exact_arith"
    using slip that
    by (auto simp: slippage_of_def bind_Some_iff abs_divide pos_divide_le_eq split: if_splits)
  then show ?thesis
    using fl(1-3,6-8) slip by (auto simp: fill_answers_def split: side.splits)
qed

definition demo_executor :: paper_executor where
  "demo_executor = set_price paper_executor_default ''ROAR'' 100"

theorem paper_fill_respects_order_witness:
  "\<exists>f ex'. paper_execute exact_arith demo_executor (demo_order Buy 2 100) 7 = Some (Ok f, ex')
     \<and> fill_answers (demo_order Buy 2 100) f \<and> f_price f = 1001 / 10"
proof -
  obtain f ex' where f: "paper_execute exact_arith demo_executor (demo_order Buy 2 100) 7 = Some (Ok f, ex')"
    "f_price f = 1001 / 10"
    by (simp add: paper_execute_def demo_executor_def set_price_def paper_executor_default_def
        paper_executor_new_def demo_order_def slippage_of_def slip_exceeds_def)
  from paper_fill_respects_order [OF f(1), of 100] f show ?thesis
    by (auto simp: demo_order_def)
qed

text \<open>
  No free round trip. In exact arithmetic, buying a quantity and selling it back with
  the price unchanged costs exactly twice the quantity times the price times the sum of the
  spread and the fee rate: with a positive price and rates that are not negative the cash
  never grows.
\<close>

theorem paper_round_trip_cost:
  assumes "paper_execute exact_arith ex b t1 = Some (Ok fb, ex1)"
    and "paper_execute exact_arith ex1 s t2 = Some (Ok fs, ex2)"
    and "o_side b = Buy" "o_side s = Sell" "o_asset s = o_asset b" "o_qty s = o_qty b"
    and "pe_prices ex (as_symbol (o_asset b)) = Some mid"
    and "apply_fills exact_arith p [fb, fs] = Some p'"
  shows "pf_cash p' = pf_cash p - 2 * o_qty b * mid * (pe_spread_bps ex + pe_fee_bps ex)
    \<and> position p' (o_asset b) = position p (o_asset b)"
proof -
  from assms(1,3,7) have fb: "fill_answers b fb" "f_price fb = mid * (1 + pe_spread_bps ex)"
    "f_fee fb = o_qty b * f_price fb * pe_fee_bps ex" "ex1 = ex\<lparr>pe_seq := pe_seq ex + 1\<rparr>"
    by (auto elim!: paper_fill_cases)
  from assms(2,4,5,6,7) fb(4) have fs: "fill_answers s fs" "f_price fs = mid * (1 - pe_spread_bps ex)"
    "f_fee fs = o_qty b * f_price fs * pe_fee_bps ex"
    by (auto elim!: paper_fill_cases)
  from assms(8) obtain q where q: "apply_fill exact_arith p fb = Some q"
    "apply_fill exact_arith q fs = Some p'"
    by (auto simp: bind_Some_iff)
  have sides: "f_side fb = Buy" "f_side fs = Sell" "f_asset fb = o_asset b" "f_asset fs = o_asset b"
    "f_qty fb = o_qty b" "f_qty fs = o_qty b"
    using fb(1) fs(1) assms(3-6) by (simp_all add: fill_answers_def)
  have "pf_cash q = pf_cash p - (o_qty b * f_price fb + f_fee fb)"
    and "position q (o_asset b) = position p (o_asset b) + o_qty b"
    using q(1) sides by (auto simp: apply_fill_buy_exact Let_def position_def)
  moreover have "pf_cash p' = pf_cash q + (o_qty b * f_price fs - f_fee fs)"
    and "position p' (o_asset b) = position q (o_asset b) - o_qty b"
    using q(2) sides by (auto simp: apply_fill_sell_exact Let_def position_def)
  ultimately show ?thesis
    using fb(2,3) fs(2,3) by (simp add: algebra_simps)
qed

theorem paper_round_trip_cost_witness:
  "\<exists>fb fs ex1 ex2 p'.
     paper_execute exact_arith demo_executor (demo_order Buy 2 100) 0 = Some (Ok fb, ex1)
     \<and> paper_execute exact_arith ex1 (demo_order Sell 2 100) 1 = Some (Ok fs, ex2)
     \<and> apply_fills exact_arith (portfolio_new 1000) [fb, fs] = Some p'
     \<and> pf_cash p' = 1000 - 2 * 2 * 100 * (10 / 10000 + 5 / 10000)"
proof -
  note defs = paper_execute_def demo_executor_def set_price_def paper_executor_default_def
    paper_executor_new_def demo_order_def slippage_of_def slip_exceeds_def
  obtain fb ex1 where b: "paper_execute exact_arith demo_executor (demo_order Buy 2 100) 0 = Some (Ok fb, ex1)"
    by (simp add: defs)
  then have ex1: "ex1 = demo_executor\<lparr>pe_seq := pe_seq demo_executor + 1\<rparr>"
    by (auto elim: paper_fill_cases)
  obtain fs ex2 where s: "paper_execute exact_arith ex1 (demo_order Sell 2 100) 1 = Some (Ok fs, ex2)"
    by (simp add: defs ex1)
  obtain p' where p: "apply_fills exact_arith (portfolio_new 1000) [fb, fs] = Some p'"
    using apply_fill_exact_total by (metis apply_fills.simps Option.bind.simps(2))
  have "pe_prices demo_executor (as_symbol (o_asset (demo_order Buy 2 100))) = Some 100"
    by (simp add: defs)
  from paper_round_trip_cost [OF b s _ _ _ _ this p] b s p show ?thesis
    by (auto simp: demo_order_def demo_executor_def set_price_def paper_executor_default_def
        paper_executor_new_def)
qed

end
