(* ===== verification/Rule_Decider.thy ===== *)
theory Rule_Decider
  imports Core_Types
begin

text \<open>
  The rule decider of \<open>crates/decision/src/lib.rs\<close>: momentum entry, take-profit and
  stop-loss on one asset, one decision per tick. The lemmas say exactly when it buys and
  when it sells.
\<close>

record decision_context =
  dc_snapshot :: market_snapshot
  dc_position :: dec
  dc_avg_cost :: "dec option"
  dc_position_fraction :: dec

record rule_config =
  ru_entry_momentum :: dec
  ru_entry_fraction :: dec
  ru_take_profit :: dec
  ru_stop_loss :: dec
  ru_min_liquidity :: "dec option"

definition default_rule_config :: rule_config where
  "default_rule_config = \<lparr>
     ru_entry_momentum = 5 / 100,
     ru_entry_fraction = 5 / 100,
     ru_take_profit = 20 / 100,
     ru_stop_loss = - (10 / 100),
     ru_min_liquidity = Some 25000\<rparr>"

text \<open>The first check: known liquidity below a configured floor.\<close>

definition below_floor :: "rule_config \<Rightarrow> market_snapshot \<Rightarrow> (dec \<times> dec) option" where
  "below_floor cfg s = (case (ru_min_liquidity cfg, ms_liquidity s) of
       (Some m, Some liq) \<Rightarrow> if liq < m then Some (liq, m) else None
     | _ \<Rightarrow> None)"

definition rule_decide :: "arith \<Rightarrow> rule_config \<Rightarrow> decision_context \<Rightarrow> decision option" where
  "rule_decide A cfg ctx = (let s = dc_snapshot ctx in
     case below_floor cfg s of
       Some (liq, m) \<Rightarrow> Some (DHold [Lit ''liquidity '', Show liq, Lit '' below floor '', Show m])
     | None \<Rightarrow>
       if 0 < dc_position ctx then
         (case dc_avg_cost ctx of
            Some cost \<Rightarrow>
              if 0 < cost then do {
                gain \<leftarrow> d_sub A (ms_price s) cost;
                ret \<leftarrow> d_div A gain cost;
                Some (if ru_take_profit cfg \<le> ret
                      then DSell 1 [Lit ''take-profit hit ('', ShowSigned ret, Lit '' >= '',
                             Show (ru_take_profit cfg), Lit '')'']
                      else if ret \<le> ru_stop_loss cfg
                      then DSell 1 [Lit ''stop-loss hit ('', ShowSigned ret, Lit '' <= '',
                             Show (ru_stop_loss cfg), Lit '')'']
                      else DHold [Lit ''holding open position'']) }
              else Some (DHold [Lit ''holding open position''])
          | None \<Rightarrow> Some (DHold [Lit ''holding open position'']))
       else if ru_entry_momentum cfg \<le> ms_change_24h s
       then Some (DBuy (ru_entry_fraction cfg)
              [Lit ''24h momentum '', ShowSigned (ms_change_24h s), Lit '' >= '',
               Show (ru_entry_momentum cfg)])
       else Some (DHold [Lit ''no signal (24h '', ShowSigned (ms_change_24h s), Lit '')'']))"

lemma rule_decide_buy:
  "(\<exists>r. rule_decide A cfg ctx = Some (DBuy fr r)) \<longleftrightarrow>
     below_floor cfg (dc_snapshot ctx) = None \<and> dc_position ctx \<le> 0
     \<and> ru_entry_momentum cfg \<le> ms_change_24h (dc_snapshot ctx) \<and> fr = ru_entry_fraction cfg"
  by (auto simp: rule_decide_def Let_def bind_Some_iff not_less split: option.split)

lemma rule_decide_sell:
  "(\<exists>r. rule_decide A cfg ctx = Some (DSell fr r)) \<longleftrightarrow>
     below_floor cfg (dc_snapshot ctx) = None \<and> 0 < dc_position ctx \<and> fr = 1
     \<and> (\<exists>cost gain ret. dc_avg_cost ctx = Some cost \<and> 0 < cost
          \<and> d_sub A (ms_price (dc_snapshot ctx)) cost = Some gain \<and> d_div A gain cost = Some ret
          \<and> (ru_take_profit cfg \<le> ret \<or> ret \<le> ru_stop_loss cfg))"
proof (cases "dc_avg_cost ctx")
  case None
  then show ?thesis by (auto simp: rule_decide_def Let_def split: option.split)
next
  case (Some cost)
  show ?thesis
  proof (cases "below_floor cfg (dc_snapshot ctx) = None \<and> 0 < dc_position ctx \<and> 0 < cost")
    case False
    then show ?thesis by (auto simp: rule_decide_def Let_def Some split: option.split)
  next
    case True
    have dec: "(\<exists>r. (if tp \<le> x then DSell 1 m1 else if x \<le> sl then DSell 1 m2 else DHold m3) = DSell fr r)
        \<longleftrightarrow> fr = 1 \<and> (tp \<le> x \<or> x \<le> sl)" for tp x sl :: dec and m1 m2 m3
      by auto
    show ?thesis
      using True by (auto simp: rule_decide_def Let_def Some bind_Some_iff dec ex_comm [of "\<lambda>r. _ r"])
  qed
qed

section \<open>The contract of a decider\<close>

text \<open>
  What the run loop relies on, whatever decides: a sell asks for at most the whole
  holding. A decider may keep state from one decision to the next (the model-backed one
  counts its calls).
\<close>

locale decider =
  fixes decide :: "'d \<Rightarrow> decision_context \<Rightarrow> (decision \<times> 'd) option"
  assumes sell_at_most_all: "decide d ctx = Some (DSell fr r, d') \<Longrightarrow> fr \<le> 1"

definition rule_decider :: "arith \<Rightarrow> rule_config \<Rightarrow> unit \<Rightarrow> decision_context \<Rightarrow> (decision \<times> unit) option" where
  "rule_decider A cfg d ctx = do { x \<leftarrow> rule_decide A cfg ctx; Some (x, d) }"

lemma rule_decide_sell_all: "rule_decide A cfg ctx = Some (DSell fr r) \<Longrightarrow> fr = 1"
  using rule_decide_sell [of A cfg ctx fr] by blast

interpretation rule: decider "rule_decider A cfg" for A cfg
  by unfold_locales (auto simp: rule_decider_def bind_Some_iff dest: rule_decide_sell_all)

section \<open>Properties\<close>

text \<open>
  The rule decider in exact arithmetic. It sells, and then everything, exactly when the
  liquidity is not known to be below the floor and an open position with a positive average
  cost has gained at least the take-profit or lost at least the stop-loss; it buys, and
  then the entry fraction, exactly when it is liquid and flat and the momentum suffices. It
  never does both and always decides.
\<close>

theorem rule_decider_trades_exactly_when:
  "(\<exists>r. rule_decide exact_arith cfg ctx = Some (DSell fr r)) =
     (below_floor cfg (dc_snapshot ctx) = None \<and> 0 < dc_position ctx \<and> fr = 1
      \<and> (\<exists>cost. dc_avg_cost ctx = Some cost \<and> 0 < cost
           \<and> ((1 + ru_take_profit cfg) * cost \<le> ms_price (dc_snapshot ctx)
              \<or> ms_price (dc_snapshot ctx) \<le> (1 + ru_stop_loss cfg) * cost)))
   \<and> (\<exists>r. rule_decide exact_arith cfg ctx = Some (DBuy fr r)) =
     (below_floor cfg (dc_snapshot ctx) = None \<and> dc_position ctx \<le> 0
      \<and> ru_entry_momentum cfg \<le> ms_change_24h (dc_snapshot ctx) \<and> fr = ru_entry_fraction cfg)
   \<and> rule_decide exact_arith cfg ctx \<noteq> None"
proof -
  have ret: "(t \<le> (p - c) / c) = ((1 + t) * c \<le> p)" "((p - c) / c \<le> t) = (p \<le> (1 + t) * c)"
    if "0 < c" for t p c :: dec
    using that by (simp_all add: pos_le_divide_eq pos_divide_le_eq algebra_simps)
  have "(\<exists>r. rule_decide exact_arith cfg ctx = Some (DSell fr r)) =
     (below_floor cfg (dc_snapshot ctx) = None \<and> 0 < dc_position ctx \<and> fr = 1
      \<and> (\<exists>cost. dc_avg_cost ctx = Some cost \<and> 0 < cost
           \<and> ((1 + ru_take_profit cfg) * cost \<le> ms_price (dc_snapshot ctx)
              \<or> ms_price (dc_snapshot ctx) \<le> (1 + ru_stop_loss cfg) * cost)))"
    unfolding rule_decide_sell by (cases "dc_avg_cost ctx") (auto simp: ret)
  moreover have "rule_decide exact_arith cfg ctx \<noteq> None"
    by (auto simp: rule_decide_def Let_def split: option.split)
  ultimately show ?thesis using rule_decide_buy by auto
qed

end
