(* ===== verification/Runner.thy ===== *)
theory Runner
  imports Hook Paper_Executor Rule_Decider Events
begin

text \<open>
  The run loop of \<open>crates/cli/src/runner.rs\<close>: one tick of the feed at a time, price,
  decision, sizing, risk gate, executor, ledger and events, in the order of the code. The
  lemmas show that the trail of a run is gated and replays to its ledger; the locale
  \<open>decider\<close> gives what the loop needs of whatever decides.

  The feed is the list of the ticks it delivers. What a tick reads of its environment (the
  shutdown flag, the clocks) comes with it, so every theorem quantifies over every schedule
  of shutdowns and clock readings. Logging and the wallet preview, which only logs, are left
  out; the snapshot loaded at the start and the one saved at the end are the ledger the run
  starts with and the one it returns.
\<close>

section \<open>State\<close>

record tick_env =
  te_shutdown :: bool
  te_id_now :: instant      \<comment> \<open>read for the order id\<close>
  te_gate_now :: instant    \<comment> \<open>the clock's reading for the gate\<close>
  te_exec_now :: instant    \<comment> \<open>read by the executor\<close>
  te_fill_now :: instant    \<comment> \<open>the clock's reading after a fill\<close>

record recording =
  rec_starting_cash :: dec
  rec_equity_curve :: "dec list"
  rec_fills :: "fill list"
  rec_final_equity :: dec
  rec_realized_pnl :: dec

definition recording_default :: recording where
  "recording_default = \<lparr>rec_starting_cash = 0, rec_equity_curve = [], rec_fills = [],
     rec_final_equity = 0, rec_realized_pnl = 0\<rparr>"

record 'd run_state =
  rs_portfolio :: portfolio
  rs_exec :: paper_executor
  rs_latest :: "string \<rightharpoonup> dec"
  rs_prev :: "string \<rightharpoonup> dec"
  rs_last_order :: "string \<rightharpoonup> instant"
  rs_tick_no :: u32
  rs_decider :: 'd
  rs_events :: "event list"
  rs_recorder :: "recording option"

definition push_fill :: "fill \<Rightarrow> recording \<Rightarrow> recording" where
  "push_fill f r = r\<lparr>rec_fills := rec_fills r @ [f]\<rparr>"

definition push_equity :: "dec \<Rightarrow> recording \<Rightarrow> recording" where
  "push_equity e r = r\<lparr>rec_equity_curve := rec_equity_curve r @ [e]\<rparr>"

section \<open>Sizing a decision\<close>

definition decision_tag :: "decision \<Rightarrow> string" where
  "decision_tag d = (case d of DBuy _ _ \<Rightarrow> ''buy'' | DSell _ _ \<Rightarrow> ''sell'' | DHold _ \<Rightarrow> ''hold'')"

definition is_hold :: "decision \<Rightarrow> bool" where
  "is_hold d = (case d of DHold _ \<Rightarrow> True | _ \<Rightarrow> False)"

text \<open>
  \<open>timestamp_nanos_opt\<close> has no value outside the range of \<open>i64\<close>, and the code
  takes 0 then.
\<close>

definition timestamp_nanos :: "instant \<Rightarrow> int" where
  "timestamp_nanos t = (if - (2 ^ 63) \<le> t \<and> t < 2 ^ 63 then t else 0)"

definition size_id :: "asset \<Rightarrow> instant \<Rightarrow> string" where
  "size_id a now = ''d-'' @ as_symbol a @ ''-'' @ show_int (timestamp_nanos now)"

definition sized_order :: "asset \<Rightarrow> instant \<Rightarrow> side \<Rightarrow> dec \<Rightarrow> dec \<Rightarrow> message \<Rightarrow> trade_order" where
  "sized_order a now sd qty price reason = \<lparr>o_id = size_id a now, o_asset = a, o_side = sd,
     o_qty = qty, o_limit_price = Some price, o_max_slippage = 2 / 100, o_venue = Paper,
     o_reason = Lit ''decision: '' # reason\<rparr>"

definition size_decision ::
    "arith \<Rightarrow> decision \<Rightarrow> asset \<Rightarrow> dec \<Rightarrow> dec \<Rightarrow> dec \<Rightarrow> instant \<Rightarrow> trade_order option option"
where
  "size_decision A d a pos eq price now =
     (if price \<le> 0 then Some None
      else (case d of
        DHold _ \<Rightarrow> Some None
      | DBuy fraction reason \<Rightarrow> do {
          budget \<leftarrow> d_mul A eq fraction;
          qty \<leftarrow> d_div A budget price;
          Some (if 0 < qty then Some (sized_order a now Buy qty price reason) else None) }
      | DSell fraction reason \<Rightarrow> do {
          qty \<leftarrow> d_mul A pos fraction;
          Some (if 0 < qty then Some (sized_order a now Sell qty price reason) else None) }))"

section \<open>One tick\<close>

definition change_since :: "arith \<Rightarrow> dec \<Rightarrow> dec \<Rightarrow> dec option" where
  "change_since A last_seen px =
     (if 0 < last_seen then do { d \<leftarrow> d_sub A px last_seen; d_div A d last_seen } else Some 0)"

definition fraction_of_equity :: "arith \<Rightarrow> dec \<Rightarrow> dec \<Rightarrow> dec \<Rightarrow> dec option" where
  "fraction_of_equity A pos px eq =
     (if 0 < eq then do { v \<leftarrow> d_mul A pos px; d_div A v eq } else Some 0)"

text \<open>Gate, executor, ledger and events for one sized order.\<close>

definition place_order ::
    "arith \<Rightarrow> risk_config \<Rightarrow> tick_env \<Rightarrow> string \<Rightarrow> dec \<Rightarrow> dec \<Rightarrow> trade_order
      \<Rightarrow> 'd run_state \<Rightarrow> 'd run_state option"
where
  "place_order A cfg env s px eq ord st = do {
     unrealized \<leftarrow> unrealized_pnl A (rs_portfolio st) (rs_latest st);
     verdict \<leftarrow> check A cfg ord \<lparr>gc_portfolio = rs_portfolio st, gc_ref_price = Some px,
       gc_equity = eq, gc_unrealized_pnl = unrealized,
       gc_last_order_at = rs_last_order st s, gc_now = te_gate_now env\<rparr>;
     (case verdict of
        Inl r \<Rightarrow> Some (st\<lparr>rs_events := rs_events st
            @ [RiskRejected (o_id ord) (as_symbol (o_asset ord)) (show_reject r)]\<rparr>)
      | Inr _ \<Rightarrow> do {
          out \<leftarrow> paper_execute A (rs_exec st) ord (te_exec_now env);
          (case out of
             (Inl _, ex) \<Rightarrow> Some (st\<lparr>rs_exec := ex\<rparr>)
           | (Inr f, ex) \<Rightarrow> do {
               p \<leftarrow> apply_fill A (rs_portfolio st) f;
               Some (st\<lparr>rs_portfolio := p, rs_exec := ex,
                 rs_last_order := (rs_last_order st)(as_symbol (f_asset f) \<mapsto> te_fill_now env),
                 rs_recorder := map_option (push_fill f) (rs_recorder st),
                 rs_events := rs_events st @ [OrderFilled f]\<rparr>) }) }) }"

definition record_equity :: "arith \<Rightarrow> 'd run_state \<Rightarrow> 'd run_state option" where
  "record_equity A st = (case rs_recorder st of
       None \<Rightarrow> Some st
     | Some r \<Rightarrow> do {
         e \<leftarrow> equity A (rs_portfolio st) (rs_latest st);
         Some (st\<lparr>rs_recorder := Some (push_equity e r)\<rparr>) })"

definition tick_step ::
    "arith \<Rightarrow> ('d \<Rightarrow> decision_context \<Rightarrow> (decision \<times> 'd) option) \<Rightarrow> risk_config
      \<Rightarrow> tick \<Rightarrow> tick_env \<Rightarrow> 'd run_state \<Rightarrow> 'd run_state option"
where
  "tick_step A decide cfg t env st = do {
     let s = tk_symbol t; let px = tk_price t; let a = tick_asset t;
     change \<leftarrow> change_since A (unwrap_or px (rs_prev st s)) px;
     let latest = (rs_latest st)(s \<mapsto> px);
     let pos = position (rs_portfolio st) a;
     eq \<leftarrow> equity A (rs_portfolio st) latest;
     fract \<leftarrow> fraction_of_equity A pos px eq;
     (d, ds) \<leftarrow> decide (rs_decider st)
       \<lparr>dc_snapshot = \<lparr>ms_asset = a, ms_price = px, ms_change_24h = change,
          ms_liquidity = Some 250000, ms_at = tk_at t\<rparr>,
        dc_position = pos, dc_avg_cost = avg_cost (rs_portfolio st) a,
        dc_position_fraction = fract\<rparr>;
     let st1 = st\<lparr>rs_exec := set_price (rs_exec st) s px, rs_latest := latest, rs_decider := ds,
       rs_events := rs_events st
         @ (if is_hold d then [] else [Decided (rs_tick_no st) px (decision_tag d)])\<rparr>;
     sized \<leftarrow> size_decision A d a pos eq px (te_id_now env);
     st2 \<leftarrow> (case sized of None \<Rightarrow> Some st1 | Some ord \<Rightarrow> place_order A cfg env s px eq ord st1);
     st3 \<leftarrow> record_equity A st2;
     Some (st3\<lparr>rs_prev := (rs_prev st3)(s \<mapsto> px), rs_tick_no := rs_tick_no st3 + 1\<rparr>) }"

section \<open>The loop\<close>

text \<open>The flag says whether the loop was interrupted by the shutdown flag.\<close>

fun run_ticks ::
    "arith \<Rightarrow> ('d \<Rightarrow> decision_context \<Rightarrow> (decision \<times> 'd) option) \<Rightarrow> risk_config
      \<Rightarrow> (tick \<times> tick_env) list \<Rightarrow> 'd run_state \<Rightarrow> (bool \<times> 'd run_state) option"
where
  "run_ticks A decide cfg [] st = Some (False, st)"
| "run_ticks A decide cfg ((t, env) # ts) st =
     (if te_shutdown env then Some (True, st)
      else do { st' \<leftarrow> tick_step A decide cfg t env st; run_ticks A decide cfg ts st' })"

definition run_start ::
    "dec \<Rightarrow> portfolio option \<Rightarrow> recording option \<Rightarrow> 'd \<Rightarrow> 'd run_state"
where
  "run_start starting_cash snapshot rec0 d = \<lparr>
     rs_portfolio = unwrap_or (portfolio_new starting_cash) snapshot,
     rs_exec = paper_executor_default, rs_latest = Map.empty, rs_prev = Map.empty,
     rs_last_order = Map.empty, rs_tick_no = 0, rs_decider = d, rs_events = [],
     rs_recorder = rec0\<rparr>"

definition run_loop ::
    "arith \<Rightarrow> ('d \<Rightarrow> decision_context \<Rightarrow> (decision \<times> 'd) option) \<Rightarrow> risk_config \<Rightarrow> string
      \<Rightarrow> dec \<Rightarrow> portfolio option \<Rightarrow> recording option \<Rightarrow> 'd \<Rightarrow> (tick \<times> tick_env) list
      \<Rightarrow> 'd run_state option"
where
  "run_loop A decide cfg label starting_cash snapshot rec0 d ts = do {
     (interrupted, st) \<leftarrow> run_ticks A decide cfg ts (run_start starting_cash snapshot rec0 d);
     final \<leftarrow> equity A (rs_portfolio st) (rs_latest st);
     Some (st\<lparr>
       rs_recorder := map_option (\<lambda>r. r\<lparr>rec_starting_cash := starting_cash,
         rec_final_equity := final, rec_realized_pnl := pf_realized_pnl (rs_portfolio st)\<rparr>)
         (rs_recorder st),
       rs_events := rs_events st @ [RunEnded label interrupted (pf_cash (rs_portfolio st))
         (pf_realized_pnl (rs_portfolio st))]\<rparr>) }"

text \<open>
  The built-in replay and the demo run over it. The clocks of the demo are the system's, so
  the environments of the ticks are an argument.
\<close>

fun demo_feed_loop :: "arith \<Rightarrow> instant \<Rightarrow> (dec \<times> dec) list \<Rightarrow> tick list option" where
  "demo_feed_loop A t0 [] = Some []"
| "demo_feed_loop A t0 ((r, h) # moves) = do {
     r1 \<leftarrow> d_add A 1 r;
     roar \<leftarrow> d_mul A 100 r1;
     h1 \<leftarrow> d_add A 1 h;
     hmni \<leftarrow> d_mul A 10 h1;
     rest \<leftarrow> demo_feed_loop A (t0 + from_secs 60) moves;
     Some (\<lparr>tk_at = t0, tk_symbol = ''ROAR'', tk_price = roar\<rparr>
         # \<lparr>tk_at = t0, tk_symbol = ''HMNI'', tk_price = hmni\<rparr> # rest) }"

definition demo_feed :: "arith \<Rightarrow> tick list option" where
  "demo_feed A = demo_feed_loop A (from_secs 1700000000)
     (zip [0, 3 / 100, 7 / 100, 12 / 100, 19 / 100, 24 / 100, 10 / 100, - (5 / 100)]
          [0, 1 / 100, 8 / 100, 10 / 100, 12 / 100, 5 / 100, - (5 / 100), - (15 / 100)])"

definition demo_gate :: risk_config where
  "demo_gate = default_risk_config
     \<lparr>rc_max_order_notional := 10000, rc_max_position_fraction := 50 / 100\<rparr>"

definition demo :: "arith \<Rightarrow> tick_env list \<Rightarrow> unit run_state option" where
  "demo A envs = do {
     ts \<leftarrow> demo_feed A;
     run_loop A (rule_decider A default_rule_config) demo_gate ''demo'' 1000 None None () (zip ts envs) }"

section \<open>What one tick does\<close>

lemma size_decision_Some:
  assumes "size_decision A d a pos eq price now = Some (Some ord)"
  shows "0 < price" "o_asset ord = a" "o_limit_price ord = Some price" "0 < o_qty ord"
    "o_max_slippage ord = 2 / 100" "o_venue ord = Paper"
    "o_side ord = Sell \<Longrightarrow> \<exists>fr r. d = DSell fr r \<and> d_mul A pos fr = Some (o_qty ord)"
  using assms
  by (auto simp: size_decision_def sized_order_def bind_Some_iff split: if_splits decision.splits)

text \<open>
  A fill the loop may record: some order with that content, of a positive size, passed the
  gate against the ledger as it stood just before the fill.
\<close>

definition gated_fill :: "arith \<Rightarrow> risk_config \<Rightarrow> portfolio \<Rightarrow> fill \<Rightarrow> bool" where
  "gated_fill A cfg p f = (\<exists>ord ctx. gc_portfolio ctx = p \<and> check A cfg ord ctx = Some (Ok ())
     \<and> fill_answers ord f \<and> 0 < o_qty ord \<and> o_limit_price ord \<noteq> None)"

fun gated_trail :: "arith \<Rightarrow> risk_config \<Rightarrow> portfolio \<Rightarrow> fill list \<Rightarrow> bool" where
  "gated_trail A cfg p [] = True"
| "gated_trail A cfg p (f # fs) = (gated_fill A cfg p f \<and>
     (case apply_fill A p f of None \<Rightarrow> False | Some p' \<Rightarrow> gated_trail A cfg p' fs))"

text \<open>The parts of the state the trail depends on.\<close>

definition recorded_fills :: "'d run_state \<Rightarrow> fill list option" where
  "recorded_fills st = map_option rec_fills (rs_recorder st)"

definition same_trail :: "'d run_state \<Rightarrow> 'd run_state \<Rightarrow> bool" where
  "same_trail st st' = (fills_of (rs_events st') = fills_of (rs_events st)
     \<and> rs_portfolio st' = rs_portfolio st \<and> recorded_fills st' = recorded_fills st)"

definition adds_fill :: "arith \<Rightarrow> fill \<Rightarrow> 'd run_state \<Rightarrow> 'd run_state \<Rightarrow> bool" where
  "adds_fill A f st st' = (fills_of (rs_events st') = fills_of (rs_events st) @ [f]
     \<and> apply_fill A (rs_portfolio st) f = Some (rs_portfolio st')
     \<and> recorded_fills st' = map_option (\<lambda>fs. fs @ [f]) (recorded_fills st))"

lemma same_trail_trans: "same_trail s t \<Longrightarrow> same_trail t u \<Longrightarrow> same_trail s u"
  by (simp add: same_trail_def)

lemma adds_fill_trans1: "same_trail s t \<Longrightarrow> adds_fill A f t u \<Longrightarrow> adds_fill A f s u"
  by (simp add: same_trail_def adds_fill_def)

lemma adds_fill_trans2: "adds_fill A f s t \<Longrightarrow> same_trail t u \<Longrightarrow> adds_fill A f s u"
  by (simp add: same_trail_def adds_fill_def)

lemma place_order_outcomes:
  assumes "place_order A cfg env s px eq ord st = Some st'"
  obtains (rejected) r where "st' = st\<lparr>rs_events := rs_events st
      @ [RiskRejected (o_id ord) (as_symbol (o_asset ord)) (show_reject r)]\<rparr>"
  | (failed) ex where "st' = st\<lparr>rs_exec := ex\<rparr>"
  | (filled) f p ex u where "check A cfg ord \<lparr>gc_portfolio = rs_portfolio st, gc_ref_price = Some px, gc_equity = eq,
      gc_unrealized_pnl = u, gc_last_order_at = rs_last_order st s, gc_now = te_gate_now env\<rparr> = Some (Ok ())"
    "paper_execute A (rs_exec st) ord (te_exec_now env) = Some (Ok f, ex)" "apply_fill A (rs_portfolio st) f = Some p"
    "st' = st\<lparr>rs_portfolio := p, rs_exec := ex,
       rs_last_order := (rs_last_order st)(as_symbol (f_asset f) \<mapsto> te_fill_now env),
       rs_recorder := map_option (push_fill f) (rs_recorder st), rs_events := rs_events st @ [OrderFilled f]\<rparr>"
proof -
  from assms obtain u v where v: "check A cfg ord \<lparr>gc_portfolio = rs_portfolio st, gc_ref_price = Some px, gc_equity = eq,
       gc_unrealized_pnl = u, gc_last_order_at = rs_last_order st s, gc_now = te_gate_now env\<rparr> = Some v"
    and rest: "(case v of
        Inl r \<Rightarrow> Some (st\<lparr>rs_events := rs_events st
            @ [RiskRejected (o_id ord) (as_symbol (o_asset ord)) (show_reject r)]\<rparr>)
      | Inr _ \<Rightarrow> do {
          out \<leftarrow> paper_execute A (rs_exec st) ord (te_exec_now env);
          (case out of
             (Inl _, ex) \<Rightarrow> Some (st\<lparr>rs_exec := ex\<rparr>)
           | (Inr f, ex) \<Rightarrow> do {
               p \<leftarrow> apply_fill A (rs_portfolio st) f;
               Some (st\<lparr>rs_portfolio := p, rs_exec := ex,
                 rs_last_order := (rs_last_order st)(as_symbol (f_asset f) \<mapsto> te_fill_now env),
                 rs_recorder := map_option (push_fill f) (rs_recorder st),
                 rs_events := rs_events st @ [OrderFilled f]\<rparr>) }) }) = Some st'"
    unfolding place_order_def bind_Some_iff by blast
  show thesis
  proof (cases v)
    case (Inl r)
    with rest show thesis by (intro rejected [of r]) simp
  next
    case (Inr x)
    with rest obtain res ex where out: "paper_execute A (rs_exec st) ord (te_exec_now env) = Some (res, ex)"
      by (auto simp: bind_Some_iff)
    from rest Inr out v show thesis by (cases res) (auto simp: bind_Some_iff intro: failed filled)
  qed
qed

lemma place_order_cases:
  assumes "place_order A cfg env s px eq ord st = Some st'"
    and "0 < o_qty ord" "o_limit_price ord \<noteq> None"
  shows "same_trail st st'
    \<or> (\<exists>f. adds_fill A f st st' \<and> gated_fill A cfg (rs_portfolio st) f \<and> fill_answers ord f)"
  using assms(1)
proof (cases rule: place_order_outcomes)
  case (filled f p ex u)
  have "adds_fill A f st st'"
    using filled(3) by (cases "rs_recorder st") (simp_all add: filled(4) adds_fill_def recorded_fills_def push_fill_def)
  moreover have "fill_answers ord f"
    using filled(2) by (auto dest: paper.fill_matches)
  moreover have "gated_fill A cfg (rs_portfolio st) f"
    unfolding gated_fill_def
    by (rule exI [of _ ord], rule exI, intro conjI, rule gate_context.select_convs(1))
       (use filled(1) assms(2,3) \<open>fill_answers ord f\<close> in auto)
  ultimately show ?thesis by blast
qed (auto simp: same_trail_def recorded_fills_def)

lemma record_equity_trail: "record_equity A st = Some st' \<Longrightarrow> same_trail st st'"
  by (auto simp: record_equity_def same_trail_def recorded_fills_def push_equity_def bind_Some_iff
      split: option.splits)

text \<open>
  One tick leaves the trail as it is, or adds one fill; and a fill that sells was sized as
  a fraction, the decider's, of the position held.
\<close>

definition decided_sell ::
    "arith \<Rightarrow> ('d \<Rightarrow> decision_context \<Rightarrow> (decision \<times> 'd) option) \<Rightarrow> portfolio \<Rightarrow> fill \<Rightarrow> bool"
where
  "decided_sell A decide p f = (f_side f = Sell \<longrightarrow>
     (\<exists>d ctx fr r d'. decide d ctx = Some (DSell fr r, d')
        \<and> d_mul A (position p (f_asset f)) fr = Some (f_qty f)))"

lemma gated_fill_qty: "gated_fill A cfg p f \<Longrightarrow> 0 < f_qty f"
  by (auto simp: gated_fill_def fill_answers_def)

lemma sized_sell:
  assumes "size_decision A d a (position p a) eq px now = Some (Some ord)" and "fill_answers ord f" and "decide ds ctx = Some (d, ds')"
  shows "decided_sell A decide p f"
  unfolding decided_sell_def
proof
  assume "f_side f = Sell"
  with assms(2) size_decision_Some(7) [OF assms(1)] obtain fr r where "d = DSell fr r" "d_mul A (position p a) fr = Some (f_qty f)"
    by (auto simp: fill_answers_def)
  moreover have "f_asset f = a" using assms(2) size_decision_Some(2) [OF assms(1)] by (simp add: fill_answers_def)
  ultimately show "\<exists>d ctx fr r d'. decide d ctx = Some (DSell fr r, d') \<and> d_mul A (position p (f_asset f)) fr = Some (f_qty f)"
    using assms(3) by metis
qed

lemma tick_step_cases:
  assumes "tick_step A decide cfg t env st = Some st'"
  shows "same_trail st st' \<or> (\<exists>f. adds_fill A f st st'
     \<and> gated_fill A cfg (rs_portfolio st) f \<and> decided_sell A decide (rs_portfolio st) f)"
proof -
  let ?a = "tick_asset t" and ?px = "tk_price t" and ?s = "tk_symbol t"
  let ?pos = "position (rs_portfolio st) ?a"
  from assms obtain ctx eq d ds st1 sized st2 st3 where
    d: "decide (rs_decider st) ctx = Some (d, ds)"
    and st1: "st1 = st\<lparr>rs_exec := set_price (rs_exec st) ?s ?px,
       rs_latest := (rs_latest st)(?s \<mapsto> ?px), rs_decider := ds, rs_events := rs_events st
         @ (if is_hold d then [] else [Decided (rs_tick_no st) ?px (decision_tag d)])\<rparr>"
    and sized: "size_decision A d ?a ?pos eq ?px (te_id_now env) = Some sized"
    and st2: "(case sized of None \<Rightarrow> Some st1
        | Some ord \<Rightarrow> place_order A cfg env ?s ?px eq ord st1) = Some st2"
    and st3: "record_equity A st2 = Some st3"
    and st': "st' = st3\<lparr>rs_prev := (rs_prev st3)(?s \<mapsto> ?px), rs_tick_no := rs_tick_no st3 + 1\<rparr>"
    unfolding tick_step_def Let_def bind_Some_iff by (auto simp: bind_Some_iff split: prod.splits)
  have start: "same_trail st st1"
    by (simp add: st1 same_trail_def recorded_fills_def)
  have finish: "same_trail st2 st'"
    using record_equity_trail [OF st3] by (simp add: st' same_trail_def recorded_fills_def)
  show ?thesis
  proof (cases sized)
    case None
    with st2 start finish show ?thesis by (auto intro: same_trail_trans)
  next
    case (Some ord)
    note ord = size_decision_Some [OF sized [unfolded Some]]
    have pf: "rs_portfolio st1 = rs_portfolio st" by (simp add: st1)
    from st2 Some have "place_order A cfg env ?s ?px eq ord st1 = Some st2" by simp
    from place_order_cases [OF this ord(4)] ord(3) consider "same_trail st1 st2"
      | f where "adds_fill A f st1 st2" "gated_fill A cfg (rs_portfolio st1) f" "fill_answers ord f"
      by auto
    then show ?thesis
    proof cases
      case 1
      with start finish show ?thesis by (auto intro: same_trail_trans)
    next
      case 2
      have "decided_sell A decide (rs_portfolio st) f" using sized [unfolded Some] 2(3) d by (rule sized_sell)
      moreover have "adds_fill A f st st'"
        using 2(1) start finish by (blast intro: adds_fill_trans1 adds_fill_trans2)
      ultimately show ?thesis using 2(2) pf by auto
    qed
  qed
qed

section \<open>Whole runs\<close>

lemma apply_fills_append:
  "apply_fills A p (fs @ gs) = do { q \<leftarrow> apply_fills A p fs; apply_fills A q gs }"
  by (induction fs arbitrary: p) (auto split: Option.bind_split)

lemma gated_trail_append:
  "apply_fills A p fs = Some q \<Longrightarrow>
     gated_trail A cfg p (fs @ gs) \<longleftrightarrow> gated_trail A cfg p fs \<and> gated_trail A cfg q gs"
  by (induction fs arbitrary: p) (auto simp: bind_Some_iff split: option.split)

lemma covered_fills_append:
  "apply_fills exact_arith p fs = Some q \<Longrightarrow>
     covered_fills p (fs @ gs) \<longleftrightarrow> covered_fills p fs \<and> covered_fills q gs"
  by (induction fs arbitrary: p) (auto simp: bind_Some_iff split: option.split)

text \<open>The trail of a state, replayed from the ledger a run started with.\<close>

definition trail_inv :: "arith \<Rightarrow> risk_config \<Rightarrow> portfolio \<Rightarrow> 'd run_state \<Rightarrow> bool" where
  "trail_inv A cfg p0 st =
     (gated_trail A cfg p0 (fills_of (rs_events st))
      \<and> apply_fills A p0 (fills_of (rs_events st)) = Some (rs_portfolio st)
      \<and> (recorded_fills st = None \<or> recorded_fills st = Some (fills_of (rs_events st))))"

lemma trail_inv_same: "trail_inv A cfg p0 st \<Longrightarrow> same_trail st st' \<Longrightarrow> trail_inv A cfg p0 st'"
  by (simp add: trail_inv_def same_trail_def)

lemma trail_inv_fill:
  assumes "trail_inv A cfg p0 st" "adds_fill A f st st'" "gated_fill A cfg (rs_portfolio st) f"
  shows "trail_inv A cfg p0 st'"
  using assms
  by (auto simp: trail_inv_def adds_fill_def apply_fills_append
      gated_trail_append [of A p0 "fills_of (rs_events st)" "rs_portfolio st"])

lemma tick_step_trail:
  "trail_inv A cfg p0 st \<Longrightarrow> tick_step A decide cfg t env st = Some st' \<Longrightarrow> trail_inv A cfg p0 st'"
  using tick_step_cases trail_inv_same trail_inv_fill by blast

lemma run_ticks_invariant:
  assumes step: "\<And>t env s s'. I s \<Longrightarrow> tick_step A decide cfg t env s = Some s' \<Longrightarrow> I s'"
  shows "I st \<Longrightarrow> run_ticks A decide cfg ts st = Some (b, st') \<Longrightarrow> I st'"
proof (induction ts arbitrary: st)
  case Nil
  then show ?case by simp
next
  case (Cons x ts)
  obtain t env where x: "x = (t, env)" by fastforce
  from Cons.prems(2) x consider "st' = st"
    | s1 where "tick_step A decide cfg t env st = Some s1" "run_ticks A decide cfg ts s1 = Some (b, st')"
    by (auto simp: bind_Some_iff split: if_splits)
  then show ?case
    using Cons.IH Cons.prems(1) step by cases blast+
qed

lemma run_loop_cases:
  assumes "run_loop A decide cfg label c snapshot rec0 d ts = Some st'"
  obtains b st where "run_ticks A decide cfg ts (run_start c snapshot rec0 d) = Some (b, st)"
    and "same_trail st st'" and "rs_events st' = rs_events st @ [RunEnded label b
      (pf_cash (rs_portfolio st)) (pf_realized_pnl (rs_portfolio st))]"
proof -
  from assms obtain b st final where
    r: "run_ticks A decide cfg ts (run_start c snapshot rec0 d) = Some (b, st)" and
    st': "st' = st\<lparr>
       rs_recorder := map_option (\<lambda>r. r\<lparr>rec_starting_cash := c,
         rec_final_equity := final, rec_realized_pnl := pf_realized_pnl (rs_portfolio st)\<rparr>)
         (rs_recorder st),
       rs_events := rs_events st @ [RunEnded label b (pf_cash (rs_portfolio st))
         (pf_realized_pnl (rs_portfolio st))]\<rparr>"
    by (auto simp: run_loop_def bind_Some_iff split: prod.splits)
  show ?thesis
    by (rule that [OF r]) (simp_all add: st' same_trail_def recorded_fills_def option.map_comp comp_def)
qed

lemma run_start_trail:
  "rec0 = None \<or> rec0 = Some recording_default \<Longrightarrow>
     trail_inv A cfg (unwrap_or (portfolio_new c) snapshot) (run_start c snapshot rec0 d)"
  by (auto simp: run_start_def trail_inv_def recorded_fills_def recording_default_def)

lemma run_loop_trail:
  assumes "run_loop A decide cfg label c snapshot rec0 d ts = Some st"
    and "rec0 = None \<or> rec0 = Some recording_default"
  shows "trail_inv A cfg (unwrap_or (portfolio_new c) snapshot) st"
  using assms(1)
proof (rule run_loop_cases)
  fix b st1
  assume r: "run_ticks A decide cfg ts (run_start c snapshot rec0 d) = Some (b, st1)"
    and s: "same_trail st1 st"
  have "trail_inv A cfg (unwrap_or (portfolio_new c) snapshot) st1"
    by (rule run_ticks_invariant [where I = "trail_inv A cfg _", OF tick_step_trail
        run_start_trail [OF assms(2)] r])
  then show ?thesis using s by (rule trail_inv_same)
qed

section \<open>Runs of a bounded decider\<close>

context decider
begin

text \<open>A sell the loop places is covered by the position, so the books stay long.\<close>

lemma decided_sell_covered:
  assumes "ledger_inv start fees p" "gated_fill exact_arith cfg p f" "decided_sell exact_arith decide p f"
  shows "covered_fill p f"
proof (cases "f_side f")
  case Buy
  with gated_fill_qty [OF assms(2)] show ?thesis by (simp add: covered_fill_def)
next
  case Sell
  with assms(3) obtain d ctx fr r d' where d: "decide d ctx = Some (DSell fr r, d')"
    and q: "position p (f_asset f) * fr = f_qty f"
    by (auto simp: decided_sell_def)
  from d have "fr \<le> 1" by (rule sell_at_most_all)
  moreover have "0 \<le> position p (f_asset f)"
    using assms(1) by (auto simp: ledger_inv_def intro: long_only_position)
  ultimately have "f_qty f \<le> position p (f_asset f)"
    using q by (metis mult_left_le)
  with gated_fill_qty [OF assms(2)] show ?thesis by (simp add: covered_fill_def)
qed

lemma tick_step_covered:
  assumes "ledger_inv c 0 p0"
    and "covered_fills p0 (fills_of (rs_events st)) \<and>
      apply_fills exact_arith p0 (fills_of (rs_events st)) = Some (rs_portfolio st)"
    and "tick_step exact_arith decide cfg t env st = Some st'"
  shows "covered_fills p0 (fills_of (rs_events st')) \<and>
      apply_fills exact_arith p0 (fills_of (rs_events st')) = Some (rs_portfolio st')"
  using tick_step_cases [OF assms(3)]
proof (elim disjE exE conjE)
  assume "same_trail st st'"
  with assms(2) show ?thesis by (simp add: same_trail_def)
next
  fix f
  assume f: "adds_fill exact_arith f st st'" "gated_fill exact_arith cfg (rs_portfolio st) f"
    "decided_sell exact_arith decide (rs_portfolio st) f"
  have "ledger_inv c (0 + sum_list (map buy_fee (fills_of (rs_events st)))) (rs_portfolio st)"
    using assms(1,2) by (blast intro: apply_fills_keep_ledger)
  then have "covered_fill (rs_portfolio st) f"
    using f(2,3) by (rule decided_sell_covered)
  then show ?thesis
    using f(1) assms(2)
    by (simp add: adds_fill_def apply_fills_append
        covered_fills_append [of p0 "fills_of (rs_events st)" "rs_portfolio st"])
qed

lemma run_covered:
  assumes "run_loop exact_arith decide cfg label c snapshot rec0 d ts = Some st"
    and "ledger_inv c0 0 (unwrap_or (portfolio_new c) snapshot)"
  shows "covered_fills (unwrap_or (portfolio_new c) snapshot) (fills_of (rs_events st)) \<and>
    apply_fills exact_arith (unwrap_or (portfolio_new c) snapshot) (fills_of (rs_events st))
      = Some (rs_portfolio st)"
  using assms(1)
proof (rule run_loop_cases)
  let ?p0 = "unwrap_or (portfolio_new c) snapshot"
  let ?I = "\<lambda>st. covered_fills ?p0 (fills_of (rs_events st)) \<and>
      apply_fills exact_arith ?p0 (fills_of (rs_events st)) = Some (rs_portfolio st)"
  fix b st1
  assume r: "run_ticks exact_arith decide cfg ts (run_start c snapshot rec0 d) = Some (b, st1)"
    and s: "same_trail st1 st"
  have "?I st1"
    by (rule run_ticks_invariant [where I = ?I, OF tick_step_covered [OF assms(2)] _ r])
      (simp_all add: run_start_def)
  then show ?thesis using s by (simp add: same_trail_def)
qed

end

section \<open>Properties\<close>

text \<open>The facts that evaluate a concrete run.\<close>

lemmas run_eval = run_loop_def run_start_def tick_step_def paper_execute_def
  paper_executor_default_def paper_executor_new_def set_price_def size_decision_def
  place_order_def check_def entry_limits_def change_since_def fraction_of_equity_def equity_def
  unrealized_pnl_def sized_order_def slippage_of_def slip_exceeds_def apply_fill_buy_exact
  demo_gate_def default_risk_config_def Let_def position_def portfolio_new_def
  open_positions_def open_position_count_def cooldown_reject_def resulting_fraction_def
  record_equity_def is_hold_def avg_cost_def

definition demo_env :: tick_env where
  "demo_env = \<lparr>te_shutdown = False, te_id_now = 0, te_gate_now = 0, te_exec_now = 0, te_fill_now = 0\<rparr>"

definition demo_tick :: "dec \<Rightarrow> tick \<times> tick_env" where
  "demo_tick px = (\<lparr>tk_at = 0, tk_symbol = ''ROAR'', tk_price = px\<rparr>, demo_env)"

text \<open>A decider that asks for the same share of equity at every tick.\<close>

definition greedy :: "dec \<Rightarrow> unit \<Rightarrow> decision_context \<Rightarrow> (decision \<times> unit) option" where
  "greedy fr d ctx = Some (DBuy fr [], d)"

lemma greedy_decider: "decider (greedy fr)"
  by unfold_locales (simp add: greedy_def)

text \<open>
  C5. The trail of a run is gated and replays to its ledger. Whatever the arithmetic, the
  decider, the feed and the schedule of clocks and shutdowns: every fill a finished run
  reports answers an order of positive size that the risk gate had accepted against the
  ledger as the fills before it left it; applying the reported fills in order to the
  ledger the run started with gives exactly the ledger it ends with; and a recorder holds
  exactly those fills.
\<close>

theorem run_is_gated_and_replays:
  assumes "run_loop A decide cfg label c snapshot rec0 d ts = Some st"
    and "rec0 = None \<or> rec0 = Some recording_default"
  shows "gated_trail A cfg (unwrap_or (portfolio_new c) snapshot) (fills_of (rs_events st))
    \<and> apply_fills A (unwrap_or (portfolio_new c) snapshot) (fills_of (rs_events st))
        = Some (rs_portfolio st)
    \<and> (recorded_fills st = None \<or> recorded_fills st = Some (fills_of (rs_events st)))"
  using run_loop_trail [OF assms] by (simp add: trail_inv_def)

theorem run_is_gated_and_replays_witness:
  "\<exists>st f. run_loop exact_arith (greedy (1 / 2)) demo_gate ''t'' 1000 None
       (Some recording_default) () [demo_tick 100] = Some st
     \<and> fills_of (rs_events st) = [f] \<and> recorded_fills st = Some [f]"
proof -
  have "\<exists>st f. run_loop exact_arith (greedy (1 / 2)) demo_gate ''t'' 1000 None
       (Some recording_default) () [demo_tick 100] = Some st \<and> fills_of (rs_events st) = [f]"
    by (simp add: run_eval demo_tick_def demo_env_def greedy_def recording_default_def push_fill_def)
  then obtain st f where st: "run_loop exact_arith (greedy (1 / 2)) demo_gate ''t'' 1000 None
       (Some recording_default) () [demo_tick 100] = Some st" "fills_of (rs_events st) = [f]"
    by blast
  moreover have "recorded_fills st \<noteq> None"
    using st(1) by (auto simp: run_eval demo_tick_def demo_env_def greedy_def recording_default_def
        push_fill_def recorded_fills_def)
  ultimately show ?thesis
    using run_is_gated_and_replays [OF st(1)] by auto
qed

text \<open>
  A halted account does not trade. Under an engaged kill switch no finished run, with
  any decider and any feed, reports a fill, and the ledger is the one it started with.
\<close>

theorem kill_switch_stops_the_run:
  assumes "rc_kill_switch cfg"
    and "run_loop A decide cfg label c snapshot rec0 d ts = Some st"
    and "rec0 = None \<or> rec0 = Some recording_default"
  shows "fills_of (rs_events st) = [] \<and> rs_portfolio st = unwrap_or (portfolio_new c) snapshot"
proof -
  have inv: "trail_inv A cfg (unwrap_or (portfolio_new c) snapshot) st"
    using assms(2,3) by (rule run_loop_trail)
  have "\<not> gated_fill A cfg p f" for p f
    using core_gate.gate_halted [OF assms(1)] by (auto simp: gated_fill_def)
  then have "fills_of (rs_events st) = []"
    using inv by (cases "fills_of (rs_events st)") (auto simp: trail_inv_def)
  then show ?thesis using inv by (simp add: trail_inv_def)
qed

theorem kill_switch_stops_the_run_witness:
  "\<exists>st. run_loop exact_arith (greedy 1) (demo_gate\<lparr>rc_kill_switch := True\<rparr>) ''t'' 1000 None
      None () [demo_tick 100] = Some st \<and> rs_portfolio st = portfolio_new 1000"
proof -
  have "\<exists>st. run_loop exact_arith (greedy 1) (demo_gate\<lparr>rc_kill_switch := True\<rparr>) ''t'' 1000 None
      None () [demo_tick 100] = Some st"
    by (simp add: run_eval demo_tick_def demo_env_def greedy_def)
  then obtain st where "run_loop exact_arith (greedy 1) (demo_gate\<lparr>rc_kill_switch := True\<rparr>) ''t''
      1000 None None () [demo_tick 100] = Some st" by blast
  from kill_switch_stops_the_run [OF _ this] this show ?thesis by auto
qed

text \<open>
  The books of a run balance. With a decider that never sells more than it holds
  (the rule decider and the model-backed one are such), from a fresh ledger and in
  arithmetic that does not round, no position of the final ledger is short, and its cash
  plus the cost of what it holds is the starting cash plus the realised profit minus the
  fees of the buys.
\<close>

theorem run_books_balance:
  assumes "decider decide"
    and "run_loop exact_arith decide cfg label c None rec0 d ts = Some st"
  shows "pf_cash (rs_portfolio st) + cost_basis (rs_portfolio st)
      = c + pf_realized_pnl (rs_portfolio st) - sum_list (map buy_fee (fills_of (rs_events st)))
    \<and> (\<forall>a. 0 \<le> position (rs_portfolio st) a)"
proof -
  have "ledger_inv c 0 (unwrap_or (portfolio_new c) None)"
    by (simp add: ledger_inv_new)
  from decider.run_covered [OF assms this] this
  have "ledger_inv c (0 + sum_list (map buy_fee (fills_of (rs_events st)))) (rs_portfolio st)"
    by (blast intro: apply_fills_keep_ledger)
  then show ?thesis
    by (auto simp: ledger_inv_def intro: long_only_position)
qed

theorem run_books_balance_witness:
  "\<exists>st. run_loop exact_arith (greedy (1 / 2)) demo_gate ''t'' 1000 None None () [demo_tick 100] = Some st
     \<and> pf_cash (rs_portfolio st) + cost_basis (rs_portfolio st)
      = 1000 + pf_realized_pnl (rs_portfolio st) - sum_list (map buy_fee (fills_of (rs_events st)))"
proof -
  have "\<exists>st. run_loop exact_arith (greedy (1 / 2)) demo_gate ''t'' 1000 None None () [demo_tick 100] = Some st"
    by (simp add: run_eval demo_tick_def demo_env_def greedy_def)
  then obtain st where "run_loop exact_arith (greedy (1 / 2)) demo_gate ''t'' 1000 None None ()
      [demo_tick 100] = Some st" by blast
  from run_books_balance [OF greedy_decider this] this show ?thesis by auto
qed

text \<open>
  A shutdown stops a run between two ticks. If the flag is up when a tick arrives, the
  state the loop ends in is exactly the one it reaches over the ticks before, nothing of
  that tick or of a later one being done, and the run counts as interrupted.
\<close>

theorem shutdown_runs_a_prefix:
  assumes "te_shutdown env"
  shows "run_ticks A decide cfg (xs @ (t, env) # ys) st
    = map_option (\<lambda>(_, st'). (True, st')) (run_ticks A decide cfg xs st)"
proof (induction xs arbitrary: st)
  case Nil
  then show ?case using assms by simp
next
  case (Cons x xs)
  then show ?case by (cases x) (auto split: Option.bind_split)
qed

theorem shutdown_runs_a_prefix_witness:
  "run_ticks exact_arith (greedy 1) demo_gate
      [(fst (demo_tick 5), demo_env\<lparr>te_shutdown := True\<rparr>), demo_tick 7]
      (run_start 1000 None None ())
    = Some (True, run_start 1000 None None ())"
  using shutdown_runs_a_prefix [of "demo_env\<lparr>te_shutdown := True\<rparr>" exact_arith "greedy 1"
      demo_gate "[]" "fst (demo_tick 5)" "[demo_tick 7]" "run_start 1000 None None ()"]
  by simp

text \<open>
  How far the cash can be overdrawn. The gate compares the notional at the limit price
  with the cash, and the fill then costs the spread and the fee on top. In exact arithmetic,
  a buy limited at the set price that the gate accepts leaves at least minus the notional
  times the markup of spread and fee, with a positive price, size and rates that are not
  negative.
\<close>

theorem gated_buy_overdraft_bound:
  assumes "check exact_arith cfg ord ctx = Some (Ok ())"
    and "o_side ord = Buy" "o_limit_price ord = Some mid"
    and "pe_prices ex (as_symbol (o_asset ord)) = Some mid"
    and "paper_execute exact_arith ex ord now = Some (Ok f, ex')"
    and "apply_fill exact_arith (gc_portfolio ctx) f = Some p'"
  shows "- (o_qty ord * mid * ((1 + pe_spread_bps ex) * (1 + pe_fee_bps ex) - 1)) \<le> pf_cash p'"
proof -
  from assms(2,4,5) have f: "f_price f = mid * (1 + pe_spread_bps ex)"
    "f_fee f = o_qty ord * f_price f * pe_fee_bps ex" "fill_answers ord f"
    by (auto elim!: paper_fill_cases)
  from core_gate.accept_buy [OF assms(1,2), of mid] assms(3)
  have "o_qty ord * mid \<le> pf_cash (gc_portfolio ctx)" by simp
  moreover have "pf_cash p' = pf_cash (gc_portfolio ctx) - (o_qty ord * f_price f + f_fee f)"
    using assms(2,6) f(3) by (auto simp: fill_answers_def apply_fill_buy_exact Let_def)
  ultimately show ?thesis
    by (simp add: f(1,2) algebra_simps)
qed

theorem gated_buy_overdraft_bound_witness:
  "\<exists>f ex' p'. check exact_arith demo_gate (demo_order Buy 5 100) (demo_context (portfolio_new 1000) 1000)
       = Some (Ok ())
     \<and> paper_execute exact_arith demo_executor (demo_order Buy 5 100) 0 = Some (Ok f, ex')
     \<and> apply_fill exact_arith (portfolio_new 1000) f = Some p'
     \<and> - (5 * 100 * ((1 + 10 / 10000) * (1 + 5 / 10000) - 1)) \<le> pf_cash p'"
proof -
  have ok: "check exact_arith demo_gate (demo_order Buy 5 100) (demo_context (portfolio_new 1000) 1000)
       = Some (Ok ())"
    by (simp add: run_eval demo_order_def demo_context_def)
  obtain f ex' where f: "paper_execute exact_arith demo_executor (demo_order Buy 5 100) 0 = Some (Ok f, ex')"
    by (simp add: run_eval demo_executor_def demo_order_def)
  obtain p' where p': "apply_fill exact_arith
      (gc_portfolio (demo_context (portfolio_new 1000) 1000)) f = Some p'"
    using apply_fill_exact_total by blast
  from gated_buy_overdraft_bound [OF ok _ _ _ f p', of 100] ok f p' show ?thesis
    by (auto simp: demo_order_def demo_context_def demo_executor_def set_price_def
        paper_executor_default_def paper_executor_new_def)
qed

text \<open>
  The cash check does not keep the cash from going negative: there is a run of one tick
  with the default executor, a decider that asks for all of the equity and a gate without a
  position cap that ends with negative cash.
\<close>

theorem run_can_overdraw_cash:
  "\<exists>st. run_loop exact_arith (greedy 1) (demo_gate\<lparr>rc_max_position_fraction := 1\<rparr>) ''t'' 1000
      None None () [demo_tick 100] = Some st \<and> pf_cash (rs_portfolio st) < 0"
  by (simp add: run_eval demo_tick_def demo_env_def greedy_def)

end
