(* ===== verification/Backtest.thy ===== *)
theory Backtest
  imports Runner Config
begin

text \<open>
  The report of a backtest (\<open>crates/cli/src/backtest.rs\<close>): the profit of closed trades, the
  drawdown of the equity curve and the summary. The run itself is the loop of \<open>Runner\<close> with
  a recorder. The map of books is a map; its iteration order is not used.
\<close>

section \<open>The analysis\<close>

record backtest_report =
  br_label :: string
  br_starting_cash :: dec
  br_final_equity :: dec
  br_total_return_pct :: dec
  br_max_drawdown_pct :: dec
  br_fills :: nat
  br_closed_trades :: nat
  br_wins :: nat
  br_win_rate_pct :: dec
  br_gross_profit :: dec
  br_gross_loss :: dec
  br_profit_factor :: "dec option"
  br_expectancy :: dec

record book =
  bk_qty :: dec
  bk_cost :: dec

definition book_default :: book where
  "book_default = \<lparr>bk_qty = 0, bk_cost = 0\<rparr>"

definition book_of :: "(string \<rightharpoonup> book) \<Rightarrow> string \<Rightarrow> book" where
  "book_of books s = unwrap_or book_default (books s)"

text \<open>One fill: the profit it closes, if any, and the books after it.\<close>

definition close_fill :: "arith \<Rightarrow> (string \<rightharpoonup> book) \<Rightarrow> fill \<Rightarrow> (dec option \<times> (string \<rightharpoonup> book)) option" where
  "close_fill A books f = (let s = as_symbol (f_asset f); b = book_of books s in
     case f_side f of
       Buy \<Rightarrow> do {
         q \<leftarrow> d_add A (bk_qty b) (f_qty f);
         gross \<leftarrow> d_mul A (f_qty f) (f_price f);
         paid \<leftarrow> d_add A gross (f_fee f);
         c \<leftarrow> d_add A (bk_cost b) paid;
         Some (None, books(s \<mapsto> \<lparr>bk_qty = q, bk_cost = c\<rparr>)) }
     | Sell \<Rightarrow>
         if bk_qty b \<le> 0 then Some (None, books(s \<mapsto> b))
         else do {
           let closed = min (f_qty f) (bk_qty b);
           share \<leftarrow> d_div A closed (bk_qty b);
           basis \<leftarrow> d_mul A (bk_cost b) share;
           gross \<leftarrow> d_mul A closed (f_price f);
           proceeds \<leftarrow> d_sub A gross (f_fee f);
           pnl \<leftarrow> d_sub A proceeds basis;
           q \<leftarrow> d_sub A (bk_qty b) closed;
           c \<leftarrow> d_sub A (bk_cost b) basis;
           Some (Some pnl, books(s \<mapsto> \<lparr>bk_qty = q, bk_cost = c\<rparr>)) })"

fun close_fills :: "arith \<Rightarrow> (string \<rightharpoonup> book) \<Rightarrow> fill list \<Rightarrow> (dec list \<times> (string \<rightharpoonup> book)) option" where
  "close_fills A books [] = Some ([], books)"
| "close_fills A books (f # fs) = do {
     (p, books1) \<leftarrow> close_fill A books f;
     (ps, books2) \<leftarrow> close_fills A books1 fs;
     Some ((case p of None \<Rightarrow> ps | Some x \<Rightarrow> x # ps), books2) }"

definition closed_trade_pnls :: "arith \<Rightarrow> recording \<Rightarrow> (dec list) option" where
  "closed_trade_pnls A rec = map_option fst (close_fills A Map.empty (rec_fills rec))"

fun drawdown_loop :: "arith \<Rightarrow> dec \<Rightarrow> dec \<Rightarrow> dec list \<Rightarrow> dec option" where
  "drawdown_loop A peak worst [] = Some worst"
| "drawdown_loop A peak worst (e # es) = (let peak = (if peak < e then e else peak) in
     if 0 < peak then do {
       fell \<leftarrow> d_sub A peak e;
       share \<leftarrow> d_div A fell peak;
       dd \<leftarrow> d_mul A share 100;
       drawdown_loop A peak (if worst < dd then dd else worst) es }
     else drawdown_loop A peak worst es)"

definition max_drawdown_pct :: "arith \<Rightarrow> dec list \<Rightarrow> dec option" where
  "max_drawdown_pct A curve = drawdown_loop A (case curve of [] \<Rightarrow> 0 | e # _ \<Rightarrow> e) 0 curve"

fun sum_dec :: "arith \<Rightarrow> dec \<Rightarrow> dec list \<Rightarrow> dec option" where
  "sum_dec A acc [] = Some acc"
| "sum_dec A acc (x # xs) = do { s \<leftarrow> d_add A acc x; sum_dec A s xs }"

definition analyze :: "arith \<Rightarrow> string \<Rightarrow> recording \<Rightarrow> backtest_report option" where
  "analyze A label rec = do {
     pnls \<leftarrow> closed_trade_pnls A rec;
     let closed = length pnls;
     let wins = length (filter (\<lambda>p. 0 < p) pnls);
     gross_profit \<leftarrow> sum_dec A 0 (filter (\<lambda>p. 0 < p) pnls);
     gross_loss \<leftarrow> sum_dec A 0 (filter (\<lambda>p. p < 0) pnls);
     total_return \<leftarrow> (if 0 < rec_starting_cash rec then do {
         gain \<leftarrow> d_sub A (rec_final_equity rec) (rec_starting_cash rec);
         r \<leftarrow> d_div A gain (rec_starting_cash rec);
         d_mul A r 100 } else Some 0);
     drawdown \<leftarrow> max_drawdown_pct A (rec_equity_curve rec);
     win_rate \<leftarrow> (if 0 < closed then do {
         r \<leftarrow> d_div A (of_nat wins) (of_nat closed);
         d_mul A r 100 } else Some 0);
     factor \<leftarrow> (if gross_loss < 0 then map_option Some (d_div A gross_profit \<bar>gross_loss\<bar>) else Some None);
     expectancy \<leftarrow> (if 0 < closed then do {
         s \<leftarrow> sum_dec A 0 pnls;
         d_div A s (of_nat closed) } else Some 0);
     Some \<lparr>br_label = label, br_starting_cash = rec_starting_cash rec, br_final_equity = rec_final_equity rec,
       br_total_return_pct = total_return, br_max_drawdown_pct = drawdown, br_fills = length (rec_fills rec),
       br_closed_trades = closed, br_wins = wins, br_win_rate_pct = win_rate, br_gross_profit = gross_profit,
       br_gross_loss = gross_loss, br_profit_factor = factor, br_expectancy = expectancy\<rparr> }"

text \<open>What a backtest runs with: a price feed is required, and the cooldown is switched off.\<close>

definition backtest_config :: "app_config \<Rightarrow> config_error + app_config" where
  "backtest_config cfg =
     (if ge_feed_path (ac_general cfg) = None
      then Err (Bail [Lit (''backtest needs a price feed '' @ em_dash @ '' set [general] feed_path to a CSV ''
        @ ''(timestamp,symbol,price). The built-in demo feed is for `sherwood demo`.'')])
      else if rs_order_cooldown_secs (ac_risk cfg) \<noteq> 0
      then Ok (cfg\<lparr>ac_risk := (ac_risk cfg)\<lparr>rs_order_cooldown_secs := 0\<rparr>\<rparr>)
      else Ok cfg)"

section \<open>Lemmas\<close>

text \<open>The drawdown against its definition: the highest equity so far, and the worst fall below it.\<close>

definition peak_at :: "dec list \<Rightarrow> nat \<Rightarrow> dec" where
  "peak_at curve j = Max (set (take (Suc j) curve))"

definition fall_at :: "dec list \<Rightarrow> nat \<Rightarrow> dec" where
  "fall_at curve j = (if 0 < peak_at curve j then (peak_at curve j - curve ! j) / peak_at curve j * 100 else 0)"


definition worst_fall :: "dec list \<Rightarrow> dec" where
  "worst_fall curve = Max (insert 0 (fall_at curve ` {..<length curve}))"

lemma fall_at_prefix: "j < length pre \<Longrightarrow> fall_at (pre @ es) j = fall_at pre j"
  by (simp add: fall_at_def peak_at_def nth_append)

lemma worst_fall_snoc: "worst_fall (pre @ [e]) = max (worst_fall pre) (fall_at (pre @ [e]) (length pre))"
proof -
  have "fall_at (pre @ [e]) ` {..<length (pre @ [e])}
      = insert (fall_at (pre @ [e]) (length pre)) (fall_at pre ` {..<length pre})"
    by (auto simp: lessThan_Suc fall_at_prefix)
  then have "insert 0 (fall_at (pre @ [e]) ` {..<length (pre @ [e])})
      = insert (fall_at (pre @ [e]) (length pre)) (insert 0 (fall_at pre ` {..<length pre}))"
    by (simp add: insert_commute)
  then show ?thesis unfolding worst_fall_def by (simp add: max.commute)
qed

lemma worst_fall_nonneg: "0 \<le> worst_fall curve"
  by (simp add: worst_fall_def)

lemma drawdown_step:
  assumes "0 \<le> w"
  shows "drawdown_loop exact_arith k w (e # es)
    = drawdown_loop exact_arith (max e k) (max w (if 0 < max e k then (max e k - e) / max e k * 100 else 0)) es"
proof -
  have "(if k < e then e else k) = max e k" by (simp add: max_def)
  moreover have "(if w < d then d else w) = max w d" for d by (simp add: max_def)
  ultimately show ?thesis using assms by (simp add: Let_def max_absorb1 del: max_less_iff_conj less_max_iff_disj)
qed

lemma drawdown_loop_exact:
  "pre \<noteq> [] \<Longrightarrow> drawdown_loop exact_arith (Max (set pre)) (worst_fall pre) es = Some (worst_fall (pre @ es))"
proof (induction es arbitrary: pre)
  case Nil
  then show ?case by simp
next
  case (Cons e es)
  have peak: "max e (Max (set pre)) = Max (set (pre @ [e]))" using Cons.prems by simp
  have fall: "(if 0 < Max (set (pre @ [e])) then (Max (set (pre @ [e])) - e) / Max (set (pre @ [e])) * 100 else 0)
      = fall_at (pre @ [e]) (length pre)"
    by (simp add: fall_at_def peak_at_def)
  have "drawdown_loop exact_arith (Max (set pre)) (worst_fall pre) (e # es)
      = drawdown_loop exact_arith (Max (set (pre @ [e]))) (worst_fall (pre @ [e])) es"
    unfolding drawdown_step [OF worst_fall_nonneg] peak fall worst_fall_snoc ..
  also have "\<dots> = Some (worst_fall ((pre @ [e]) @ es))"
    by (rule Cons.IH) simp
  finally show ?case by simp
qed

lemma max_drawdown_exact: "max_drawdown_pct exact_arith curve = Some (worst_fall curve)"
proof (cases curve)
  case Nil
  then show ?thesis by (simp add: max_drawdown_pct_def worst_fall_def)
next
  case (Cons e es)
  have "worst_fall [e] = 0" by (simp add: worst_fall_def fall_at_def peak_at_def lessThan_Suc)
  then have "drawdown_loop exact_arith e 0 (e # es) = drawdown_loop exact_arith (Max (set [e])) (worst_fall [e]) es"
    by simp
  then show ?thesis using drawdown_loop_exact [of "[e]" es] by (simp add: max_drawdown_pct_def Cons)
qed

lemma sum_dec_exact: "sum_dec exact_arith acc xs = Some (acc + sum_list xs)"
  by (induction xs arbitrary: acc) (simp_all add: add.assoc)

lemma close_fill_total: "\<exists>r. close_fill exact_arith books f = Some r"
  by (cases "f_side f") (auto simp: close_fill_def Let_def)

lemma close_fills_total: "\<exists>r. close_fills exact_arith books fs = Some r"
proof (induction fs arbitrary: books)
  case Nil
  then show ?case by simp
next
  case (Cons f fs)
  obtain p books1 where "close_fill exact_arith books f = Some (p, books1)" using close_fill_total by fast
  moreover obtain ps books2 where "close_fills exact_arith books1 fs = Some (ps, books2)" using Cons by fast
  ultimately show ?case by simp
qed

text \<open>A history in which every sale is of at most what the fills before it bought.\<close>

fun covered_sales :: "(string \<rightharpoonup> book) \<Rightarrow> fill list \<Rightarrow> bool" where
  "covered_sales books [] = True"
| "covered_sales books (f # fs) = (let b = book_of books (as_symbol (f_asset f)) in
     (f_side f = Sell \<longrightarrow> 0 < bk_qty b \<and> f_qty f \<le> bk_qty b)
     \<and> (case close_fill exact_arith books f of None \<Rightarrow> False | Some (_, books1) \<Rightarrow> covered_sales books1 fs))"

definition cash_of :: "fill \<Rightarrow> dec" where
  "cash_of f = (case f_side f of Buy \<Rightarrow> - (f_qty f * f_price f + f_fee f) | Sell \<Rightarrow> f_qty f * f_price f - f_fee f)"

definition open_cost :: "string set \<Rightarrow> (string \<rightharpoonup> book) \<Rightarrow> dec" where
  "open_cost S books = (\<Sum>s \<in> S. bk_cost (book_of books s))"

lemma open_cost_update:
  assumes "finite S" and "s \<in> S"
  shows "open_cost S (books(s \<mapsto> b)) = open_cost S books - bk_cost (book_of books s) + bk_cost b"
proof -
  have "open_cost S (books(s \<mapsto> b)) = bk_cost b + (\<Sum>t \<in> S - {s}. bk_cost (book_of books t))"
    unfolding open_cost_def using assms by (simp add: sum.remove [of S s] book_of_def)
  moreover have "open_cost S books = bk_cost (book_of books s) + (\<Sum>t \<in> S - {s}. bk_cost (book_of books t))"
    unfolding open_cost_def using assms by (simp add: sum.remove [of S s])
  ultimately show ?thesis by simp
qed

lemma close_fill_accounts:
  assumes "close_fill exact_arith books f = Some (p, books1)" and "finite S" and "as_symbol (f_asset f) \<in> S"
    and "f_side f = Sell \<longrightarrow> 0 < bk_qty (book_of books (as_symbol (f_asset f)))
      \<and> f_qty f \<le> bk_qty (book_of books (as_symbol (f_asset f)))"
  shows "unwrap_or 0 p = cash_of f + open_cost S books1 - open_cost S books"
proof (cases "f_side f")
  case Buy
  with assms show ?thesis
    by (auto simp: close_fill_def Let_def cash_of_def open_cost_update)
next
  case Sell
  with assms show ?thesis
    by (auto simp: close_fill_def Let_def cash_of_def open_cost_update min_def)
qed

lemma close_fills_accounts:
  assumes "close_fills exact_arith books fs = Some (ps, books')" and "finite S"
    and "as_symbol ` f_asset ` set fs \<subseteq> S" and "covered_sales books fs"
  shows "sum_list ps = sum_list (map cash_of fs) + open_cost S books' - open_cost S books"
  using assms
proof (induction fs arbitrary: books ps)
  case Nil
  then show ?case by simp
next
  case (Cons f fs)
  from Cons.prems(1) obtain p books1 qs where 1: "close_fill exact_arith books f = Some (p, books1)"
    and 2: "close_fills exact_arith books1 fs = Some (qs, books')"
    and ps: "ps = (case p of None \<Rightarrow> qs | Some x \<Rightarrow> x # qs)"
    by (auto simp: bind_Some_iff)
  have "unwrap_or 0 p = cash_of f + open_cost S books1 - open_cost S books"
    using Cons.prems 1 by (intro close_fill_accounts) (auto simp: Let_def)
  moreover have "sum_list qs = sum_list (map cash_of fs) + open_cost S books' - open_cost S books1"
    using Cons.prems 1 by (intro Cons.IH [OF 2]) (auto simp: Let_def)
  ultimately show ?case by (cases p) (simp_all add: ps)
qed

section \<open>Properties\<close>


text \<open>
  The report adds up. In exact arithmetic a backtest always gives a report; gross profit and
  gross loss together are the profit of the closed trades, which is the cash that the fills
  brought in plus the cost of what is still open, and the expectancy is its mean; wins are
  at most the trades.
\<close>

theorem report_adds_up:
  assumes "covered_sales Map.empty (rec_fills rec)"
  shows "\<exists>r ps books. analyze exact_arith label rec = Some r
    \<and> close_fills exact_arith Map.empty (rec_fills rec) = Some (ps, books)
    \<and> br_gross_profit r + br_gross_loss r
        = sum_list (map cash_of (rec_fills rec)) + open_cost (as_symbol ` f_asset ` set (rec_fills rec)) books
    \<and> br_expectancy r * of_nat (br_closed_trades r) = br_gross_profit r + br_gross_loss r
    \<and> br_closed_trades r = length ps \<and> br_wins r \<le> br_closed_trades r"
proof -
  obtain ps books where c: "close_fills exact_arith Map.empty (rec_fills rec) = Some (ps, books)"
    using close_fills_total by fast
  have "open_cost S Map.empty = 0" for S by (simp add: open_cost_def book_of_def book_default_def)
  with close_fills_accounts [OF c, of "as_symbol ` f_asset ` set (rec_fills rec)"] assms
  have total: "sum_list ps = sum_list (map cash_of (rec_fills rec))
      + open_cost (as_symbol ` f_asset ` set (rec_fills rec)) books" by simp
  have parts: "sum_list (filter (\<lambda>p. 0 < p) xs) + sum_list (filter (\<lambda>p. p < 0) xs) = sum_list xs" for xs :: "rat list"
    by (induction xs) auto
  have "\<exists>r. analyze exact_arith label rec = Some r \<and> br_gross_profit r = sum_list (filter (\<lambda>p. 0 < p) ps)
    \<and> br_gross_loss r = sum_list (filter (\<lambda>p. p < 0) ps) \<and> br_closed_trades r = length ps
    \<and> br_wins r = length (filter (\<lambda>p. 0 < p) ps)
    \<and> br_expectancy r = (if ps = [] then 0 else sum_list ps / of_nat (length ps))"
    by (auto simp: analyze_def closed_trade_pnls_def c Let_def sum_dec_exact max_drawdown_exact)
  then obtain r where r: "analyze exact_arith label rec = Some r" "br_gross_profit r = sum_list (filter (\<lambda>p. 0 < p) ps)"
    "br_gross_loss r = sum_list (filter (\<lambda>p. p < 0) ps)" "br_closed_trades r = length ps"
    "br_wins r = length (filter (\<lambda>p. 0 < p) ps)"
    "br_expectancy r = (if ps = [] then 0 else sum_list ps / of_nat (length ps))" by blast
  then have "br_expectancy r * of_nat (br_closed_trades r) = sum_list ps" by (cases ps) simp_all
  with r c total parts [of ps] show ?thesis by (intro exI [of _ r] exI [of _ ps] exI [of _ books]) simp
qed

definition demo_fill :: "side \<Rightarrow> dec \<Rightarrow> dec \<Rightarrow> fill" where
  "demo_fill sd q p = \<lparr>f_order_id = ''x'', f_asset = asset_symbol ''NVDA'', f_side = sd, f_qty = q, f_price = p,
     f_fee = 1, f_venue = Paper, f_at = 0\<rparr>"

theorem report_adds_up_witness:
  "\<exists>r ps books. analyze exact_arith ''rule'' (recording_default\<lparr>rec_fills := [demo_fill Buy 4 10, demo_fill Sell 2 15]\<rparr>) = Some r
    \<and> close_fills exact_arith Map.empty [demo_fill Buy 4 10, demo_fill Sell 2 15] = Some (ps, books)
    \<and> br_closed_trades r = length ps \<and> br_gross_profit r + br_gross_loss r = - 12 + open_cost {''NVDA''} books"
proof -
  let ?rec = "recording_default\<lparr>rec_fills := [demo_fill Buy 4 10, demo_fill Sell 2 15]\<rparr>"
  have "covered_sales Map.empty (rec_fills ?rec)"
    by (simp add: recording_default_def demo_fill_def book_of_def book_default_def close_fill_def Let_def)
  from report_adds_up [OF this, of "''rule''"] show ?thesis
    by (auto simp: recording_default_def demo_fill_def cash_of_def asset_symbol_def)
qed

end
