(* ===== verification/Screens.thy ===== *)
theory Screens
  imports Core_Types Text_Ops
begin

text \<open>
  The screen of new pools (\<open>crates/sniper/src/lib.rs\<close>) and the copying of a leader's trades
  (\<open>crates/copytrade/src/lib.rs\<close>). Both turn an observation into an order or a reason.
\<close>

section \<open>New pools\<close>

record new_pool_event =
  np_asset :: asset
  np_initial_liquidity :: dec
  np_deployer_supply_fraction :: dec
  np_lp_locked :: bool
  np_lp_lock_secs :: u64
  np_mint_enabled :: bool
  np_can_freeze :: bool
  np_buy_tax :: "dec option"
  np_sell_tax :: "dec option"
  np_created_at :: instant

record sniper_config =
  sc_min_initial_liquidity :: dec
  sc_max_deployer_supply_fraction :: dec
  sc_require_lp_locked :: bool
  sc_min_lp_lock_secs :: u64
  sc_reject_if_mintable :: bool
  sc_reject_if_freezable :: bool
  sc_max_tax :: dec
  sc_entry_notional :: dec
  sc_slippage :: dec

definition sniper_config_default :: sniper_config where
  "sniper_config_default = \<lparr>sc_min_initial_liquidity = 5000, sc_max_deployer_supply_fraction = 15 / 100,
     sc_require_lp_locked = True, sc_min_lp_lock_secs = 60 * 60 * 24 * 30, sc_reject_if_mintable = True,
     sc_reject_if_freezable = True, sc_max_tax = 1 / 10, sc_entry_notional = 50, sc_slippage = 15 / 100\<rparr>"

datatype rug_flag = LowLiquidity | DeployerHoldsTooMuch | LpNotLocked | LpLockTooShort | Mintable | Freezable | TaxTooHigh

definition screen :: "sniper_config \<Rightarrow> new_pool_event \<Rightarrow> rug_flag list" where
  "screen c ev =
     (if np_initial_liquidity ev < sc_min_initial_liquidity c then [LowLiquidity] else [])
     @ (if sc_max_deployer_supply_fraction c < np_deployer_supply_fraction ev then [DeployerHoldsTooMuch] else [])
     @ (if sc_require_lp_locked c \<and> \<not> np_lp_locked ev then [LpNotLocked] else [])
     @ (if np_lp_locked ev \<and> np_lp_lock_secs ev < sc_min_lp_lock_secs c then [LpLockTooShort] else [])
     @ (if sc_reject_if_mintable c \<and> np_mint_enabled ev then [Mintable] else [])
     @ (if sc_reject_if_freezable c \<and> np_can_freeze ev then [Freezable] else [])
     @ (let tax = max (unwrap_or 0 (np_buy_tax ev)) (unwrap_or 0 (np_sell_tax ev)) in
        if sc_max_tax c < tax then [TaxTooHigh] else [])"

definition entry_order :: "arith \<Rightarrow> sniper_config \<Rightarrow> new_pool_event \<Rightarrow> dec \<Rightarrow> (rug_flag list + trade_order) option" where
  "entry_order A c ev ref_price =
     (let flags = screen c ev in
      if flags \<noteq> [] then Some (Err flags)
      else if ref_price \<le> 0 then Some (Err [LowLiquidity])
      else do {
        qty \<leftarrow> d_div A (sc_entry_notional c) ref_price;
        Some (Ok \<lparr>o_id = ''snipe-'' @ as_symbol (np_asset ev), o_asset = np_asset ev, o_side = Buy, o_qty = qty,
          o_limit_price = Some ref_price, o_max_slippage = sc_slippage c, o_venue = Paper,
          o_reason = [Lit ''sniper:new_pool liq='', Show (np_initial_liquidity ev)]\<rparr>) })"

section \<open>Copied trades\<close>

record observed_trade =
  ot_leader :: string
  ot_asset :: asset
  ot_side :: side
  ot_qty :: dec
  ot_price :: dec
  ot_leader_equity :: "dec option"
  ot_tx :: string
  ot_at :: instant

datatype sizing =
    FixedFraction dec
  | ProportionalToEquity dec dec      \<comment> \<open>our equity, fallback\<close>
  | FixedNotional dec

record copy_config =
  cc_leaders :: "string set"
  cc_sizing :: sizing
  cc_min_leader_notional :: dec
  cc_max_mirror_notional :: dec
  cc_slippage :: dec
  cc_mirror_unheld_sells :: bool

datatype skip_reason = UnknownLeader | BelowMinNotional | UnheldSell | ZeroQuantity

record copy_trader =
  ct_cfg :: copy_config
  ct_seq :: u64

definition copy_trader_new :: "copy_config \<Rightarrow> copy_trader" where
  "copy_trader_new cfg = \<lparr>ct_cfg = cfg, ct_seq = 0\<rparr>"

definition mirror_size :: "arith \<Rightarrow> sizing \<Rightarrow> observed_trade \<Rightarrow> dec option" where
  "mirror_size A sz t = (case sz of
       FixedFraction f \<Rightarrow> d_mul A (ot_qty t) f
     | FixedNotional n \<Rightarrow> d_div A n (ot_price t)
     | ProportionalToEquity ours fallback \<Rightarrow>
         (case ot_leader_equity t of
            Some le \<Rightarrow>
              if 0 < le then do {
                gross \<leftarrow> d_mul A (ot_qty t) (ot_price t);
                weight \<leftarrow> d_div A gross le;
                share \<leftarrow> d_mul A weight ours;
                d_div A share (ot_price t) }
              else d_mul A (ot_qty t) fallback
          | None \<Rightarrow> d_mul A (ot_qty t) fallback))"

text \<open>The start of a text, cut at a byte; a cut inside a character panics.\<close>

definition prefix_to :: "nat \<Rightarrow> string \<Rightarrow> string option" where
  "prefix_to n s = (if n \<le> length s \<and> is_char_boundary s n then Some (take n s) else None)"

text \<open>
  The first argument is the lower-casing of the standard library, which is Unicode's. A
  skipped trade leaves the trader as it was.
\<close>

definition mirror ::
    "(string \<Rightarrow> string) \<Rightarrow> arith \<Rightarrow> copy_trader \<Rightarrow> observed_trade \<Rightarrow> dec
      \<Rightarrow> ((skip_reason + trade_order) \<times> copy_trader) option"
where
  "mirror lower A tr t held = (let cfg = ct_cfg tr; skip = (\<lambda>r. Some (Err r, tr)) in
     if lower (ot_leader t) \<notin> cc_leaders cfg then skip UnknownLeader
     else if ot_qty t \<le> 0 \<or> ot_price t \<le> 0 then skip ZeroQuantity
     else do {
       gross \<leftarrow> d_mul A (ot_qty t) (ot_price t);
       (if gross < cc_min_leader_notional cfg then skip BelowMinNotional
        else if ot_side t = Sell \<and> held \<le> 0 \<and> \<not> cc_mirror_unheld_sells cfg then skip UnheldSell
        else do {
          size \<leftarrow> mirror_size A (cc_sizing cfg) t;
          let qty = (if ot_side t = Sell then min size held else size);
          (if ot_side t = Sell \<and> qty \<le> 0 then skip UnheldSell
           else do {
             notional \<leftarrow> d_mul A qty (ot_price t);
             capped \<leftarrow> (if cc_max_mirror_notional cfg < notional
               then d_div A (cc_max_mirror_notional cfg) (ot_price t) else Some qty);
             let seq = ct_seq tr + 1;
             tx \<leftarrow> prefix_to (min (length (ot_tx t)) 10) (ot_tx t);
             Some (Ok \<lparr>o_id = ''copy-'' @ tx @ ''-'' @ show_nat (unat seq), o_asset = ot_asset t, o_side = ot_side t,
                 o_qty = capped, o_limit_price = Some (ot_price t), o_max_slippage = cc_slippage cfg, o_venue = Paper,
                 o_reason = [Lit ''copytrade:'', Lit (ot_leader t), Lit '' tx:'', Lit (ot_tx t)]\<rparr>,
               tr\<lparr>ct_seq := seq\<rparr>) }) }) })"

section \<open>Properties\<close>

text \<open>
  The flags of a pool are exactly its faults, each reported once, and an entry is built
  exactly for a pool without faults at a positive price; the order spends the configured
  amount and both taxes that are known are within the limit.
\<close>

theorem snipe_exactly_clean_pools:
  "(case entry_order exact_arith c ev p of
      Some (Inr ord) \<Rightarrow> 0 < p \<and> o_side ord = Buy \<and> o_qty ord * p = sc_entry_notional c \<and> o_limit_price ord = Some p
        \<and> sc_min_initial_liquidity c \<le> np_initial_liquidity ev
        \<and> np_deployer_supply_fraction ev \<le> sc_max_deployer_supply_fraction c
        \<and> \<not> (sc_require_lp_locked c \<and> \<not> np_lp_locked ev)
        \<and> \<not> (np_lp_locked ev \<and> np_lp_lock_secs ev < sc_min_lp_lock_secs c)
        \<and> \<not> (sc_reject_if_mintable c \<and> np_mint_enabled ev) \<and> \<not> (sc_reject_if_freezable c \<and> np_can_freeze ev)
        \<and> unwrap_or 0 (np_buy_tax ev) \<le> sc_max_tax c \<and> unwrap_or 0 (np_sell_tax ev) \<le> sc_max_tax c
    | Some (Inl flags) \<Rightarrow> flags \<noteq> [] \<and> distinct flags \<and> (flags = screen c ev \<or> screen c ev = [] \<and> p \<le> 0)
    | None \<Rightarrow> False)"
proof -
  have d: "distinct (screen c ev)" by (auto simp: screen_def Let_def)
  show ?thesis
  proof (cases "screen c ev = []")
    case True
    then show ?thesis
      by (auto simp: entry_order_def Let_def screen_def not_less split: if_splits)
  next
    case False
    with d show ?thesis by (simp add: entry_order_def)
  qed
qed


definition demo_trade :: observed_trade where
  "demo_trade = \<lparr>ot_leader = ''0xAB'', ot_asset = asset_symbol ''NVDA'', ot_side = Buy, ot_qty = 10, ot_price = 200,
     ot_leader_equity = Some 10000, ot_tx = ''0x0123456789abcdef'', ot_at = 0\<rparr>"

definition demo_copier :: copy_trader where
  "demo_copier = copy_trader_new \<lparr>cc_leaders = {''0xab''}, cc_sizing = ProportionalToEquity 1000 (1 / 10),
     cc_min_leader_notional = 50, cc_max_mirror_notional = 100, cc_slippage = 1 / 100, cc_mirror_unheld_sells = False\<rparr>"


text \<open>A trade whose identifier has a character across its tenth byte panics the copier.\<close>

theorem copied_identifier_can_panic:
  "mirror to_ascii_lowercase exact_arith demo_copier
     (demo_trade\<lparr>ot_leader := ''0xab'', ot_tx := ''012345678'' @ [CHR 0xC3, CHR 0xA9]\<rparr>) 0 = None"
proof -
  have lower: "to_ascii_lowercase ''0xab'' = ''0xab''"
    by (simp add: to_ascii_lowercase_def ascii_lower_def Let_def)
  show ?thesis
    by (simp add: mirror_def Let_def demo_copier_def copy_trader_new_def demo_trade_def lower mirror_size_def
        prefix_to_def is_char_boundary_def continuation_byte_def)
qed

lemma mirror_size_exact: "0 < ot_price t \<Longrightarrow> \<exists>q. mirror_size exact_arith sz t = Some q"
  by (auto simp: mirror_size_def split: sizing.split option.split)

text \<open>
  The option to mirror sales of what is not held does nothing: with it or without it the
  answer is the same, and no order sells an asset that is not held.
\<close>

theorem unheld_sell_option_is_dead:
  "map_option fst (mirror lower exact_arith (tr\<lparr>ct_cfg := (ct_cfg tr)\<lparr>cc_mirror_unheld_sells := True\<rparr>\<rparr>) t held)
     = map_option fst (mirror lower exact_arith (tr\<lparr>ct_cfg := (ct_cfg tr)\<lparr>cc_mirror_unheld_sells := False\<rparr>\<rparr>) t held)
   \<and> (case mirror lower exact_arith tr t held of
        Some (Inr ord, _) \<Rightarrow> ot_side t = Buy \<or> 0 < held
      | _ \<Rightarrow> True)"
proof (cases "ot_side t = Sell \<and> held \<le> 0")
  case True
  let ?why = "\<lambda>cfg. if lower (ot_leader t) \<notin> cc_leaders cfg then UnknownLeader
    else if ot_qty t \<le> 0 \<or> ot_price t \<le> 0 then ZeroQuantity
    else if ot_qty t * ot_price t < cc_min_leader_notional cfg then BelowMinNotional else UnheldSell"
  have skips: "\<exists>tr'. mirror lower exact_arith (tr\<lparr>ct_cfg := cfg\<rparr>) t held = Some (Err (?why cfg), tr')" for cfg
    using True mirror_size_exact [of t "cc_sizing cfg"] by (auto simp: mirror_def Let_def not_le min_le_iff_disj)
  have same: "map_option fst (mirror lower exact_arith (tr\<lparr>ct_cfg := (ct_cfg tr)\<lparr>cc_mirror_unheld_sells := b\<rparr>\<rparr>) t held)
      = Some (Err (?why (ct_cfg tr)))" for b
    using skips [of "(ct_cfg tr)\<lparr>cc_mirror_unheld_sells := b\<rparr>"] by auto
  obtain tr' where own: "mirror lower exact_arith tr t held = Some (Err (?why (ct_cfg tr)), tr')"
    using skips [of "ct_cfg tr"] by auto
  show ?thesis unfolding same own by simp
next
  case False
  then have held: "ot_side t = Buy \<or> 0 < held" by (cases "ot_side t") auto
  have same: "map_option fst (mirror lower exact_arith (tr\<lparr>ct_cfg := (ct_cfg tr)\<lparr>cc_mirror_unheld_sells := b\<rparr>\<rparr>) t held)
      = map_option fst (mirror lower exact_arith tr t held)" for b
    using False by (auto simp: mirror_def Let_def map_option_bind comp_def if_distrib [of "map_option fst"] cong: if_cong)
  show ?thesis using held by (simp add: same split: option.split sum.split)
qed

end
