(* ===== verification/Bus.thy ===== *)
theory Bus
  imports Store Reconcile "HOL-Library.Sublist"
begin

text \<open>
  The bus of \<open>crates/events/src/lib.rs\<close> and \<open>run_subscriber\<close>. The broadcast channel is the
  package's and is modelled as it is documented: every receiver has its own place, it may fall
  behind by the capacity, and one that fell behind further is told how many values it lost and
  goes on at the oldest one kept. What a subscriber works on may also be changed by others
  between its turns, as the loop does with the store. The locale \<open>subscriber\<close> is what a
  subscriber promises about the part of its state that only it changes.
\<close>

section \<open>The channel\<close>

record channel =
  tb_capacity :: nat
  tb_sent :: "envelope list"
  tb_open :: bool

text \<open>
  A capacity of 0 panics. The package may keep more values than it was asked to: \<open>extra\<close> is how
  many more.
\<close>

definition bus_new :: "nat \<Rightarrow> nat \<Rightarrow> channel option" where
  "bus_new extra capacity = (if capacity = 0 then None else Some \<lparr>tb_capacity = capacity + extra, tb_sent = [], tb_open = True\<rparr>)"

definition bus_default :: "nat \<Rightarrow> channel option" where
  "bus_default extra = bus_new extra 1000"

definition bus_publish :: "instant \<Rightarrow> event \<Rightarrow> channel \<Rightarrow> channel" where
  "bus_publish now e ch = ch\<lparr>tb_sent := tb_sent ch @ [publish now e]\<rparr>"

text \<open>A new receiver sees what is sent from then on.\<close>

definition bus_subscribe :: "channel \<Rightarrow> nat" where
  "bus_subscribe ch = length (tb_sent ch)"

datatype received = Got envelope | Lagged nat | Closed | Pending

definition bus_recv :: "channel \<Rightarrow> nat \<Rightarrow> received \<times> nat" where
  "bus_recv ch place =
     (let n = length (tb_sent ch); oldest = n - tb_capacity ch in
      if place < oldest then (Lagged (oldest - place), oldest)
      else if place < n then (Got (tb_sent ch ! place), place + 1)
      else (if tb_open ch then Pending else Closed, place))"

section \<open>A subscriber\<close>

datatype warning =
    HandlerFailed message string     \<comment> \<open>the error and the kind of the event\<close>
  | FellBehind nat

record 's subscription =
  su_place :: nat
  su_state :: 's
  su_warnings :: "warning list"

definition warn :: "warning \<Rightarrow> 's subscription \<Rightarrow> 's subscription" where
  "warn w sub = sub\<lparr>su_warnings := su_warnings sub @ [w]\<rparr>"

text \<open>One turn of the loop of \<open>run_subscriber\<close>, and whether it goes on.\<close>

definition subscriber_turn ::
    "(envelope \<Rightarrow> 's \<Rightarrow> message option \<times> 's) \<Rightarrow> channel \<Rightarrow> 's subscription \<Rightarrow> bool \<times> 's subscription"
where
  "subscriber_turn handle ch sub = (case bus_recv ch (su_place sub) of
       (Got env, place) \<Rightarrow> (let (err, s') = handle env (su_state sub); sub' = sub\<lparr>su_place := place, su_state := s'\<rparr> in
         (True, case err of None \<Rightarrow> sub' | Some e \<Rightarrow> warn (HandlerFailed e (event_kind (en_event env))) sub'))
     | (Lagged n, place) \<Rightarrow> (True, warn (FellBehind n) (sub\<lparr>su_place := place\<rparr>))
     | (Closed, place) \<Rightarrow> (False, sub)
     | (Pending, place) \<Rightarrow> (False, sub))"

lemma subscriber_turn_moves:
  "fst (subscriber_turn handle ch sub) \<Longrightarrow>
     length (tb_sent ch) - su_place (snd (subscriber_turn handle ch sub)) < length (tb_sent ch) - su_place sub"
  by (auto simp: subscriber_turn_def bus_recv_def warn_def Let_def split: prod.splits option.splits if_splits)

text \<open>The turns that are left when nothing is sent any more.\<close>

function drain ::
    "(envelope \<Rightarrow> 's \<Rightarrow> message option \<times> 's) \<Rightarrow> channel \<Rightarrow> 's subscription \<Rightarrow> 's subscription" where
  "drain handle ch sub = (if fst (subscriber_turn handle ch sub)
     then drain handle ch (snd (subscriber_turn handle ch sub)) else sub)"
  by pat_completeness auto
termination
  by (relation "measure (\<lambda>(handle, ch, sub). length (tb_sent ch) - su_place sub)") (simp_all add: subscriber_turn_moves)

declare drain.simps [simp del]

text \<open>The publisher, the subscriber and others that change its state, in some order.\<close>

datatype 's bus_step =
    Publish instant event
  | Turn
  | Direct "'s \<Rightarrow> 's"

fun take_step ::
    "(envelope \<Rightarrow> 's \<Rightarrow> message option \<times> 's) \<Rightarrow> 's bus_step \<Rightarrow> channel \<times> 's subscription \<Rightarrow> channel \<times> 's subscription"
where
  "take_step handle (Publish now e) (ch, sub) = (bus_publish now e ch, sub)"
| "take_step handle Turn (ch, sub) = (ch, snd (subscriber_turn handle ch sub))"
| "take_step handle (Direct g) (ch, sub) = (ch, sub\<lparr>su_state := g (su_state sub)\<rparr>)"

text \<open>A whole run: subscribe to a new bus, take the steps, drop the bus and drain.\<close>

definition bus_run ::
    "(envelope \<Rightarrow> 's \<Rightarrow> message option \<times> 's) \<Rightarrow> nat \<Rightarrow> nat \<Rightarrow> 's bus_step list \<Rightarrow> 's \<Rightarrow> (channel \<times> 's subscription) option"
where
  "bus_run handle extra capacity steps s = do {
     ch \<leftarrow> bus_new extra capacity;
     let (ch1, sub1) = fold (take_step handle) steps (ch, \<lparr>su_place = bus_subscribe ch, su_state = s, su_warnings = []\<rparr>);
     let ch2 = ch1\<lparr>tb_open := False\<rparr>;
     Some (ch2, drain handle ch2 sub1) }"

lemma bus_run_total: "0 < capacity \<Longrightarrow> \<exists>ch sub. bus_run handle extra capacity steps s = Some (ch, sub)"
  by (auto simp: bus_run_def bus_new_def Let_def split: prod.split)

text \<open>The events that the steps publish, in order.\<close>

fun published_events :: "'s bus_step list \<Rightarrow> event list" where
  "published_events [] = []"
| "published_events (st # steps) = (case st of Publish now e \<Rightarrow> e # published_events steps | _ \<Rightarrow> published_events steps)"

lemma published_events_append [simp]: "published_events (xs @ ys) = published_events xs @ published_events ys"
  by (induction xs) (auto split: bus_step.split)

lemma published_events_turns [simp]: "published_events (replicate n Turn) = []"
  by (induction n) simp_all

lemma steps_send:
  "map en_event (tb_sent (fst (fold (take_step handle) steps x))) = map en_event (tb_sent (fst x)) @ published_events steps"
proof (induction steps arbitrary: x)
  case (Cons st steps)
  then show ?case by (cases st; cases x) (simp_all add: bus_publish_def publish_def)
qed simp

lemma run_sends:
  assumes "bus_run handle extra capacity steps s = Some (ch, sub)"
  shows "map en_event (tb_sent ch) = published_events steps"
  using assms steps_send [of handle steps]
  by (auto simp: bus_run_def bus_new_def bind_Some_iff Let_def split: if_splits prod.splits)
    (metis append_Nil fst_conv list.simps(8) channel.select_convs(2))

section \<open>What a subscriber promises\<close>

definition lost :: "warning list \<Rightarrow> nat" where
  "lost ws = sum_list (map (\<lambda>w. case w of FellBehind n \<Rightarrow> n | _ \<Rightarrow> 0) ws)"

lemma lost_simps [simp]:
  "lost [] = 0" "lost (ws @ [FellBehind n]) = lost ws + n" "lost (ws @ [HandlerFailed m k]) = lost ws"
  by (simp_all add: lost_def)

locale subscriber =
  fixes handle :: "envelope \<Rightarrow> 's \<Rightarrow> message option \<times> 's"
    and view :: "'s \<Rightarrow> 'v"
    and step :: "envelope \<Rightarrow> 'v \<Rightarrow> 'v"
  assumes handle_view: "view (snd (handle env s)) = step env (view s)"
begin

text \<open>What was handled is a part of what was sent, in order; the rest was reported as lost.\<close>

definition tracks :: "'v \<Rightarrow> channel \<Rightarrow> 's subscription \<Rightarrow> bool" where
  "tracks v0 ch sub \<longleftrightarrow> su_place sub \<le> length (tb_sent ch)
     \<and> (\<exists>handled. subseq handled (take (su_place sub) (tb_sent ch)) \<and> view (su_state sub) = fold step handled v0
          \<and> length handled + lost (su_warnings sub) = su_place sub)
     \<and> (length (tb_sent ch) \<le> tb_capacity ch \<longrightarrow> lost (su_warnings sub) = 0)"

lemma tracks_turn:
  assumes "tracks v0 ch sub"
  shows "tracks v0 ch (snd (subscriber_turn handle ch sub))"
proof (cases "bus_recv ch (su_place sub)")
  case (Pair r place)
  from assms obtain handled where le: "su_place sub \<le> length (tb_sent ch)"
    and sub: "subseq handled (take (su_place sub) (tb_sent ch))" and v: "view (su_state sub) = fold step handled v0"
    and n: "length handled + lost (su_warnings sub) = su_place sub"
    and none: "length (tb_sent ch) \<le> tb_capacity ch \<Longrightarrow> lost (su_warnings sub) = 0"
    by (auto simp: tracks_def)
  show ?thesis
  proof (cases r)
    case (Got env)
    with Pair have env: "su_place sub < length (tb_sent ch)" "env = tb_sent ch ! su_place sub" "place = su_place sub + 1"
      by (auto simp: bus_recv_def Let_def split: if_splits)
    have "subseq (handled @ [env]) (take place (tb_sent ch))"
      using sub env by (simp add: take_Suc_conv_app_nth list_emb_append_mono)
    moreover have "view (snd (handle env (su_state sub))) = fold step (handled @ [env]) v0"
      by (simp add: handle_view v)
    moreover have "length (handled @ [env]) + lost (su_warnings sub) = place" using n env by simp
    ultimately have "\<exists>handled. subseq handled (take place (tb_sent ch)) \<and> view (snd (handle env (su_state sub))) = fold step handled v0
        \<and> length handled + lost (su_warnings sub) = place" by blast
    with Got Pair env none show ?thesis
      by (cases "handle env (su_state sub)"; cases "fst (handle env (su_state sub))")
        (simp_all add: subscriber_turn_def tracks_def warn_def Let_def)
  next
    case (Lagged k)
    with Pair have k: "su_place sub < length (tb_sent ch) - tb_capacity ch" "place = length (tb_sent ch) - tb_capacity ch"
      "k = place - su_place sub"
      by (auto simp: bus_recv_def Let_def split: if_splits)
    then have "take place (tb_sent ch) = take (su_place sub) (tb_sent ch) @ take (place - su_place sub) (drop (su_place sub) (tb_sent ch))"
      by (metis le_add_diff_inverse less_imp_le_nat take_add)
    with list_emb_prefix [OF sub] have "subseq handled (take place (tb_sent ch))" by simp
    with Lagged Pair k v n show ?thesis by (auto simp: subscriber_turn_def tracks_def warn_def)
  next
    case Closed
    with Pair assms show ?thesis by (simp add: subscriber_turn_def)
  next
    case Pending
    with Pair assms show ?thesis by (simp add: subscriber_turn_def)
  qed
qed

lemma tracks_drain: "tracks v0 ch sub \<Longrightarrow> tracks v0 ch (drain handle ch sub)"
proof (induction "length (tb_sent ch) - su_place sub" arbitrary: sub rule: less_induct)
  case less
  show ?case
  proof (cases "fst (subscriber_turn handle ch sub)")
    case True
    with less.hyps [OF subscriber_turn_moves [OF True] tracks_turn [OF less.prems]] show ?thesis
      by (subst drain.simps) simp
  qed (subst drain.simps, simp add: less.prems)
qed

lemma drain_reaches_end:
  assumes "\<not> tb_open ch" and "su_place sub \<le> length (tb_sent ch)"
  shows "su_place (drain handle ch sub) = length (tb_sent ch)"
  using assms(2)
proof (induction "length (tb_sent ch) - su_place sub" arbitrary: sub rule: less_induct)
  case less
  show ?case
  proof (cases "fst (subscriber_turn handle ch sub)")
    case True
    have "su_place (snd (subscriber_turn handle ch sub)) \<le> length (tb_sent ch)"
      using less.prems by (auto simp: subscriber_turn_def bus_recv_def warn_def Let_def split: prod.splits option.splits if_splits)
    with less.hyps [OF subscriber_turn_moves [OF True]] True show ?thesis by (subst drain.simps) simp
  next
    case False
    then have "length (tb_sent ch) \<le> su_place sub"
      by (auto simp: subscriber_turn_def bus_recv_def Let_def split: prod.splits if_splits)
    with False less.prems show ?thesis by (subst drain.simps) simp
  qed
qed

definition direct_ok :: "'s bus_step list \<Rightarrow> bool" where
  "direct_ok steps \<longleftrightarrow> (\<forall>g s. Direct g \<in> set steps \<longrightarrow> view (g s) = view s)"

lemma tracks_steps:
  assumes "tracks v0 ch sub" and "direct_ok steps" and "fold (take_step handle) steps (ch, sub) = (ch', sub')"
  shows "tracks v0 ch' sub'"
  using assms
proof (induction steps arbitrary: ch sub)
  case (Cons st steps)
  obtain ch1 sub1 where one: "take_step handle st (ch, sub) = (ch1, sub1)" by fastforce
  have "tracks v0 ch1 sub1"
  proof (cases st)
    case (Publish now e)
    with Cons.prems(1) one show ?thesis by (auto simp: tracks_def bus_publish_def)
  next
    case Turn
    with tracks_turn [OF Cons.prems(1)] one show ?thesis by auto
  next
    case (Direct g)
    with Cons.prems(1,2) one show ?thesis by (auto simp: tracks_def direct_ok_def)
  qed
  with Cons.IH [of ch1 sub1] Cons.prems(2,3) one show ?case by (auto simp: direct_ok_def)
qed simp

text \<open>What a whole run leaves.\<close>

lemma run_tracks:
  assumes "bus_run handle extra capacity steps s = Some (ch, sub)" and "direct_ok steps"
  obtains handled where "subseq handled (tb_sent ch)" "view (su_state sub) = fold step handled (view s)"
    "length handled + lost (su_warnings sub) = length (tb_sent ch)"
    "length (tb_sent ch) \<le> capacity \<Longrightarrow> lost (su_warnings sub) = 0"
proof -
  obtain ch0 where ch0: "bus_new extra capacity = Some ch0" using assms(1) by (auto simp: bus_run_def bind_Some_iff)
  then have new: "tb_sent ch0 = []" "tb_capacity ch0 = capacity + extra" by (auto simp: bus_new_def split: if_splits)
  let ?sub0 = "\<lparr>su_place = bus_subscribe ch0, su_state = s, su_warnings = []\<rparr>"
  obtain ch1 sub1 where f: "fold (take_step handle) steps (ch0, ?sub0) = (ch1, sub1)" by fastforce
  have cap: "tb_capacity (fst (fold (take_step handle) steps x)) = tb_capacity (fst x)" for x
  proof (induction steps arbitrary: x)
    case (Cons st steps)
    then show ?case by (cases st; cases x) (simp_all add: bus_publish_def)
  qed simp
  have "tracks (view s) ch0 ?sub0" using new by (simp add: tracks_def bus_subscribe_def)
  from tracks_steps [OF this assms(2) f] have t: "tracks (view s) (ch1\<lparr>tb_open := False\<rparr>) sub1" by (simp add: tracks_def)
  have out: "ch = ch1\<lparr>tb_open := False\<rparr>" "sub = drain handle (ch1\<lparr>tb_open := False\<rparr>) sub1"
    using assms(1) ch0 f by (auto simp: bus_run_def Let_def)
  have "su_place sub = length (tb_sent ch)"
    using drain_reaches_end [of "ch1\<lparr>tb_open := False\<rparr>" sub1] t out by (simp add: tracks_def)
  moreover have "tb_capacity ch = capacity + extra" using cap [of "(ch0, ?sub0)"] f out new by simp
  moreover have "tracks (view s) ch sub" using tracks_drain [OF t] out by simp
  ultimately obtain handled where "subseq handled (tb_sent ch)" "view (su_state sub) = fold step handled (view s)"
    "length handled + lost (su_warnings sub) = length (tb_sent ch)" "length (tb_sent ch) \<le> capacity \<Longrightarrow> lost (su_warnings sub) = 0"
    by (auto simp: tracks_def)
  then show ?thesis by (rule that)
qed

lemma run_keeps_up:
  assumes "bus_run handle extra capacity steps s = Some (ch, sub)" and "direct_ok steps" and "lost (su_warnings sub) = 0"
  shows "view (su_state sub) = fold step (tb_sent ch) (view s)"
proof -
  from run_tracks [OF assms(1,2)] obtain handled where "subseq handled (tb_sent ch)"
    "view (su_state sub) = fold step handled (view s)" "length handled + lost (su_warnings sub) = length (tb_sent ch)" by metis
  with assms(3) show ?thesis by (metis add.right_neutral subseq_same_length)
qed

end

text \<open>A part of the state that the subscriber does not change.\<close>

locale bystander = subscriber handle view "\<lambda>env v. v"
  for handle :: "envelope \<Rightarrow> 's \<Rightarrow> message option \<times> 's" and view :: "'s \<Rightarrow> 'v"
begin

lemma turn_idle: "view (su_state (snd (subscriber_turn handle ch sub))) = view (su_state sub)"
proof (cases "bus_recv ch (su_place sub)")
  case (Pair r place)
  show ?thesis
  proof (cases r)
    case (Got env)
    with Pair handle_view [of env "su_state sub"] show ?thesis
      by (cases "handle env (su_state sub)") (simp add: subscriber_turn_def warn_def Let_def split: option.split)
  qed (use Pair in \<open>simp_all add: subscriber_turn_def warn_def\<close>)
qed

lemma steps_idle:
  "direct_ok steps \<Longrightarrow> view (su_state (snd (fold (take_step handle) steps x))) = view (su_state (snd x))"
proof (induction steps arbitrary: x)
  case (Cons st steps)
  obtain ch sub where x: "x = (ch, sub)" by (cases x)
  have "view (su_state (snd (take_step handle st x))) = view (su_state (snd x))"
    using Cons.prems by (cases st) (auto simp: x turn_idle direct_ok_def)
  with Cons show ?case by (simp add: direct_ok_def)
qed simp

lemma drain_idle: "view (su_state (drain handle ch sub)) = view (su_state sub)"
proof (induction "length (tb_sent ch) - su_place sub" arbitrary: sub rule: less_induct)
  case less
  show ?case
  proof (cases "fst (subscriber_turn handle ch sub)")
    case True
    with less.hyps [OF subscriber_turn_moves [OF True]] turn_idle show ?thesis by (subst drain.simps) simp
  qed (subst drain.simps, simp)
qed

end

section \<open>What a run delivers\<close>

text \<open>The whole state of a subscriber is a view that its handler steps.\<close>

interpretation whole: subscriber handle "\<lambda>s. s" "\<lambda>env s. snd (handle env s)" for handle
  by unfold_locales simp

text \<open>
  C25. The bus delivers what is published, or says what it dropped. Whatever a subscriber does with
  an event, errors included, and however its turns fall between the publications, a run ends;
  the subscriber has then handled a part of what was published, in order and each event once,
  and the warnings it logged count exactly the others. When no more is published than the bus
  was made for, it has handled everything.
\<close>

theorem bus_delivers_or_reports:
  assumes "0 < capacity" and "\<And>g. Direct g \<notin> set steps"
  shows "\<exists>ch sub handled. bus_run handle extra capacity steps s = Some (ch, sub)
    \<and> map en_event (tb_sent ch) = published_events steps
    \<and> subseq handled (tb_sent ch) \<and> su_state sub = fold (\<lambda>env s. snd (handle env s)) handled s
    \<and> length handled + lost (su_warnings sub) = length (published_events steps)
    \<and> (length (published_events steps) \<le> capacity \<longrightarrow> handled = tb_sent ch)"
proof -
  from bus_run_total [OF assms(1), of handle extra steps s] obtain ch sub where run: "bus_run handle extra capacity steps s = Some (ch, sub)" by blast
  from assms(2) have ok: "whole.direct_ok steps" by (simp add: whole.direct_ok_def)
  from whole.run_tracks [OF run ok] obtain handled where h: "subseq handled (tb_sent ch)"
    "su_state sub = fold (\<lambda>env s. snd (handle env s)) handled s"
    "length handled + lost (su_warnings sub) = length (tb_sent ch)"
    "length (tb_sent ch) \<le> capacity \<Longrightarrow> lost (su_warnings sub) = 0" by metis
  from run_sends [OF run] have n: "length (tb_sent ch) = length (published_events steps)" by (metis length_map)
  have all: "handled = tb_sent ch" if "length (published_events steps) \<le> capacity"
  proof -
    from that h(4) n have "lost (su_warnings sub) = 0" by simp
    with h(3) have "length handled = length (tb_sent ch)" by simp
    with h(1) show ?thesis by (rule subseq_same_length)
  qed
  show ?thesis
    by (intro exI [of _ ch] exI [of _ sub] exI [of _ handled] conjI impI) (use run run_sends [OF run] h(1,2,3) n all in simp_all)
qed

text \<open>A subscriber that lags: of three events with room for one, it is told of two.\<close>

definition demo_steps :: "event list bus_step list" where
  "demo_steps = [Publish 0 (RunEnded ''a'' False 0 0), Publish 0 (RunEnded ''b'' False 0 0), Publish 0 (RunEnded ''c'' False 0 0)]"

definition collect :: "envelope \<Rightarrow> event list \<Rightarrow> message option \<times> event list" where
  "collect env es = (None, es @ [en_event env])"

theorem bus_delivers_or_reports_witness:
  "\<exists>ch sub handled. bus_run collect 0 1 demo_steps [] = Some (ch, sub) \<and> subseq handled (tb_sent ch)
     \<and> length handled + lost (su_warnings sub) = 3
     \<and> su_state sub = [RunEnded ''c'' False 0 0] \<and> su_warnings sub = [FellBehind 2]"
proof -
  have "Direct g \<notin> set demo_steps" for g by (simp add: demo_steps_def)
  from bus_delivers_or_reports [OF _ this, of 1 collect 0 "[]"] obtain ch sub handled where
    d: "bus_run collect 0 1 demo_steps [] = Some (ch, sub)" "subseq handled (tb_sent ch)"
      "length handled + lost (su_warnings sub) = 3" by (auto simp: demo_steps_def)
  from d(1) have "su_state sub = [RunEnded ''c'' False 0 0] \<and> su_warnings sub = [FellBehind 2]"
    by (auto simp: bus_run_def bus_new_def demo_steps_def bus_publish_def publish_def bus_subscribe_def
        drain.simps subscriber_turn_def bus_recv_def collect_def warn_def)
  with d show ?thesis by blast
qed

end
