(* ===== verification/Launch.thy ===== *)
theory Launch
  imports Bus Runner
begin

text \<open>
  A run with its store, \<open>run_loop\<close> of \<open>crates/cli/src/runner.rs\<close> with the subscriber of
  \<open>crates/store/src/lib.rs\<close> behind the bus: the ledger is loaded, the loop publishes, the
  subscriber persists what it is given at its own pace, the ledger is saved, and the run waits
  for the subscriber. Which database calls fail and when the subscriber gets its turns are
  arguments.
\<close>

section \<open>The subscriber that persists\<close>

record persistence =
  ps_sha :: "string \<Rightarrow> string"
  ps_codec :: codec
  ps_now :: "envelope \<Rightarrow> instant"
  ps_db :: "envelope \<Rightarrow> store_call \<Rightarrow> string option"

definition append_event :: "persistence \<Rightarrow> envelope \<Rightarrow> store \<Rightarrow> store" where
  "append_event PS env s = (let (kind, data) = event_audit (ps_codec PS) (en_event env) in
     append_audit (ps_sha PS) (ps_codec PS) (ps_now PS env) kind data s)"

definition store_handle :: "persistence \<Rightarrow> envelope \<Rightarrow> store \<Rightarrow> message option \<times> store" where
  "store_handle PS env s =
     (let (failed, s1) = (case en_event env of
            OrderFilled f \<Rightarrow> (case ps_db PS env AppendFill of
                Some e \<Rightarrow> (Some e, s) | None \<Rightarrow> (None, append_fill (ps_codec PS) f s))
          | _ \<Rightarrow> (None, s))
      in case failed of
           Some e \<Rightarrow> (Some [Lit e], s1)
         | None \<Rightarrow> (case ps_db PS env AppendAudit of
             Some e \<Rightarrow> (Some [Lit e], s1) | None \<Rightarrow> (None, append_event PS env s1)))"

section \<open>A run with its store\<close>

text \<open>The events one by one, each followed by some turns of the subscriber.\<close>

definition published :: "(nat \<Rightarrow> instant \<times> nat) \<Rightarrow> nat \<Rightarrow> event list \<Rightarrow> store bus_step list" where
  "published sched n es =
     concat (map (\<lambda>(i, e). Publish (fst (sched i)) e # replicate (snd (sched i)) Turn) (enumerate n es))"

text \<open>
  The last event of the loop is published after the ledger was saved. When the ledger cannot be
  loaded nothing runs; when it cannot be saved the run ends at once, and the subscriber with it.
\<close>

definition stored_run ::
    "arith \<Rightarrow> ('d \<Rightarrow> decision_context \<Rightarrow> (decision \<times> 'd) option) \<Rightarrow> risk_config \<Rightarrow> string \<Rightarrow> dec \<Rightarrow> 'd
      \<Rightarrow> (tick \<times> tick_env) list \<Rightarrow> persistence \<Rightarrow> (store_call \<Rightarrow> string option) \<Rightarrow> (nat \<Rightarrow> instant \<times> nat)
      \<Rightarrow> nat \<Rightarrow> store \<Rightarrow> ((string + unit) \<times> store \<times> warning list) option"
where
  "stored_run A decide cfg label starting_cash d ts PS db sched extra s = (case db LoadPortfolio of
       Some e \<Rightarrow> Some (Err e, s, [])
     | None \<Rightarrow> do {
         st \<leftarrow> run_loop A decide cfg label starting_cash (load_portfolio s) None d ts;
         let es = rs_events st;
         let before = published sched 0 (butlast es);
         (case db SavePortfolio of
            Some e \<Rightarrow> do {
              ch \<leftarrow> bus_default extra;
              let (_, sub) = fold (take_step (store_handle PS)) before
                (ch, \<lparr>su_place = bus_subscribe ch, su_state = s, su_warnings = []\<rparr>);
              Some (Err e, su_state sub, su_warnings sub) }
          | None \<Rightarrow> do {
              (_, sub) \<leftarrow> bus_run (store_handle PS) extra 1000
                (before @ Direct (save_portfolio (rs_portfolio st)) # published sched (length es - 1) [last es]) s;
              Some (Ok (), su_state sub, su_warnings sub) }) })"

section \<open>What the subscriber keeps\<close>

definition fill_step :: "persistence \<Rightarrow> envelope \<Rightarrow> fill_row list \<Rightarrow> fill_row list" where
  "fill_step PS env rows = rows @ (case en_event env of
       OrderFilled f \<Rightarrow> if ps_db PS env AppendFill = None then [fill_to_row (ps_codec PS) f] else []
     | _ \<Rightarrow> [])"

definition audit_step :: "persistence \<Rightarrow> envelope \<Rightarrow> audit_row list \<Rightarrow> audit_row list" where
  "audit_step PS env rows = st_audit (snd (store_handle PS env (store_empty\<lparr>st_audit := rows\<rparr>)))"

lemma append_event_frame [simp]:
  "st_fills (append_event PS env s) = st_fills s" "st_snapshots (append_event PS env s) = st_snapshots s"
  by (simp_all add: append_event_def split: prod.split)

interpretation fills: subscriber "store_handle PS" st_fills "fill_step PS" for PS
  by unfold_locales
     (auto simp: store_handle_def fill_step_def append_fill_def split: event.splits option.splits)

interpretation snapshots: bystander "store_handle PS" st_snapshots for PS
  by unfold_locales (auto simp: store_handle_def split: event.splits option.splits)

lemma append_event_audit:
  "st_audit s = st_audit s' \<Longrightarrow> st_audit (append_event PS env s) = st_audit (append_event PS env s')"
  by (simp add: append_event_def append_audit_def audit_rows_def Let_def split: prod.split list.split)

interpretation audit: subscriber "store_handle PS" st_audit "audit_step PS" for PS
proof unfold_locales
  fix env s
  show "st_audit (snd (store_handle PS env s)) = audit_step PS env (st_audit s)"
    unfolding audit_step_def store_handle_def
    by (auto split: event.splits option.splits intro: append_event_audit)
qed

lemma published_events_published [simp]: "published_events (published sched n es) = es"
  by (induction es arbitrary: n) (simp_all add: published_def)

lemma published_direct: "Direct g \<notin> set (published sched n es)"
  by (induction es arbitrary: n) (auto simp: published_def)

lemma fills_kept:
  assumes "\<And>env. env \<in> set envs \<Longrightarrow> ps_db PS env AppendFill = None"
  shows "fold (fill_step PS) envs rows = rows @ map (fill_to_row (ps_codec PS)) (fills_of (map en_event envs))"
  using assms by (induction envs arbitrary: rows) (auto simp: fill_step_def split: event.split)

lemma audit_step_linked:
  "linked (ps_sha PS) rows 0 genesis_hash \<Longrightarrow> linked (ps_sha PS) (audit_step PS env rows) 0 genesis_hash"
  using append_audit_linked [of "ps_sha PS"]
  by (auto simp: audit_step_def store_handle_def append_event_def split: event.splits option.splits prod.splits)

lemma audit_kept:
  "linked (ps_sha PS) rows 0 genesis_hash \<Longrightarrow> linked (ps_sha PS) (fold (audit_step PS) envs rows) 0 genesis_hash"
  by (induction envs arbitrary: rows) (simp_all add: audit_step_linked)

text \<open>A finished run: the snapshot is the ledger it ends with, the rows are those of its fills.\<close>

lemma stored_run_Ok:
  assumes "stored_run A decide cfg label cash d ts PS db sched extra s = Some (Ok (), s', ws)"
  obtains st where "run_loop A decide cfg label cash (load_portfolio s) None d ts = Some st"
    "load_portfolio s' = Some (rs_portfolio st)"
    "linked (ps_sha PS) (st_audit s) 0 genesis_hash \<Longrightarrow> linked (ps_sha PS) (st_audit s') 0 genesis_hash"
    "(\<And>env. ps_db PS env AppendFill = None) \<Longrightarrow> lost ws = 0 \<Longrightarrow>
       st_fills s' = st_fills s @ map (fill_to_row (ps_codec PS)) (fills_of (rs_events st))"
    "length (rs_events st) \<le> 1000 \<Longrightarrow> lost ws = 0"
proof -
  from assms obtain st ch sub where st: "run_loop A decide cfg label cash (load_portfolio s) None d ts = Some st"
    and run: "bus_run (store_handle PS) extra 1000 (published sched 0 (butlast (rs_events st))
        @ Direct (save_portfolio (rs_portfolio st)) # published sched (length (rs_events st) - 1) [last (rs_events st)]) s = Some (ch, sub)"
      (is "bus_run _ _ _ (?before @ Direct ?save # ?after) _ = _")
    and out: "s' = su_state sub" "ws = su_warnings sub"
    by (auto simp: stored_run_def bind_Some_iff Let_def split: option.splits prod.splits)
  have "rs_events st \<noteq> []" using st by (auto simp: run_loop_def bind_Some_iff)
  then have es: "map en_event (tb_sent ch) = rs_events st" using run_sends [OF run] by simp
  then have n: "length (tb_sent ch) = length (rs_events st)" by (metis length_map)
  have direct: "fills.direct_ok (?before @ Direct ?save # ?after)" "audit.direct_ok (?before @ Direct ?save # ?after)"
    "snapshots.direct_ok ?before" "snapshots.direct_ok ?after"
    by (auto simp: fills.direct_ok_def audit.direct_ok_def snapshots.direct_ok_def published_direct)
  have snap: "st_snapshots (su_state sub) = st_snapshots s @ [rs_portfolio st]"
  proof -
    obtain ch0 where ch0: "bus_new extra 1000 = Some ch0" by (simp add: bus_new_def)
    let ?x = "(ch0, \<lparr>su_place = bus_subscribe ch0, su_state = s, su_warnings = []\<rparr>)"
    obtain ch1 sub1 where 1: "fold (take_step (store_handle PS)) ?before ?x = (ch1, sub1)" by fastforce
    obtain ch2 sub2 where 2: "fold (take_step (store_handle PS)) ?after (ch1, sub1\<lparr>su_state := ?save (su_state sub1)\<rparr>) = (ch2, sub2)"
      by fastforce
    from run 1 2 ch0 have "sub = drain (store_handle PS) (ch2\<lparr>tb_open := False\<rparr>) sub2"
      by (auto simp: bus_run_def Let_def)
    with snapshots.steps_idle [OF direct(3), of PS ?x] snapshots.steps_idle [OF direct(4), of PS "(ch1, sub1\<lparr>su_state := ?save (su_state sub1)\<rparr>)"]
    show ?thesis using 1 2 by (simp add: snapshots.drain_idle save_portfolio_def)
  qed
  show ?thesis
  proof (rule that [OF st])
    show "load_portfolio s' = Some (rs_portfolio st)" by (simp add: out load_portfolio_def snap)
    show "linked (ps_sha PS) (st_audit s') 0 genesis_hash" if "linked (ps_sha PS) (st_audit s) 0 genesis_hash"
      using audit.run_tracks [OF run direct(2)] audit_kept [OF that] out by metis
    show "st_fills s' = st_fills s @ map (fill_to_row (ps_codec PS)) (fills_of (rs_events st))"
      if "\<And>env. ps_db PS env AppendFill = None" and "lost ws = 0"
      using fills.run_keeps_up [OF run direct(1)] that es fills_kept [of "tb_sent ch" PS] out by simp
    show "lost ws = 0" if "length (rs_events st) \<le> 1000"
      using fills.run_tracks [OF run direct(1)] that n out by metis
  qed
qed

section \<open>The books over any history\<close>

text \<open>
  What can happen to a store: runs whose subscriber kept up, and reconciliations by the server
  and from the command line with a database that works. All runs start from the same cash.
\<close>

inductive book_history ::
    "arith \<Rightarrow> ('d \<Rightarrow> decision_context \<Rightarrow> (decision \<times> 'd) option) \<Rightarrow> dec \<Rightarrow> persistence \<Rightarrow> store \<Rightarrow> bool"
  for A decide cash PS where
  fresh: "book_history A decide cash PS store_empty"
| ran: "book_history A decide cash PS s \<Longrightarrow>
    stored_run A decide cfg label cash d ts PS db sched extra s = Some (Ok (), s', ws) \<Longrightarrow> lost ws = 0 \<Longrightarrow>
    book_history A decide cash PS s'"
| reconciled: "book_history A decide cash PS s \<Longrightarrow>
    record_reconciled_fill A (ps_sha PS) (ps_codec PS) (\<lambda>_. None) now f s = Some (r, s') \<Longrightarrow>
    book_history A decide cash PS s'"
| recorded: "book_history A decide cash PS s \<Longrightarrow>
    record_fill A (ps_sha PS) (ps_codec PS) (\<lambda>_. None) now cash f s = Some (r', s') \<Longrightarrow>
    book_history A decide cash PS s'"

definition books_replay :: "arith \<Rightarrow> dec \<Rightarrow> persistence \<Rightarrow> store \<Rightarrow> bool" where
  "books_replay A cash PS s \<longleftrightarrow> linked (ps_sha PS) (st_audit s) 0 genesis_hash
     \<and> (\<exists>fs. st_fills s = map (fill_to_row (ps_codec PS)) fs
          \<and> apply_fills A (portfolio_new cash) fs = Some (unwrap_or (portfolio_new cash) (load_portfolio s)))"

lemma books_booked:
  assumes "books_replay A cash PS s" and "apply_fill A (unwrap_or (portfolio_new cash) (load_portfolio s)) f = Some p"
  shows "books_replay A cash PS (append_audit (ps_sha PS) c now kind data (save_portfolio p (append_fill (ps_codec PS) f s)))"
proof -
  from assms(1) obtain fs where l: "linked (ps_sha PS) (st_audit s) 0 genesis_hash"
    and fs: "st_fills s = map (fill_to_row (ps_codec PS)) fs"
      "apply_fills A (portfolio_new cash) fs = Some (unwrap_or (portfolio_new cash) (load_portfolio s))"
    by (auto simp: books_replay_def)
  have "apply_fills A (portfolio_new cash) (fs @ [f]) = Some p" using fs(2) assms(2) by (simp add: apply_fills_append)
  with fs(1) append_audit_linked [of "ps_sha PS" "save_portfolio p (append_fill (ps_codec PS) f s)" c now kind data] l
  show ?thesis by (auto simp: books_replay_def append_fill_def intro: exI [of _ "fs @ [f]"])
qed

lemma books_ran:
  assumes "books_replay A cash PS s" and "\<And>env. ps_db PS env AppendFill = None"
    and "stored_run A decide cfg label cash d ts PS db sched extra s = Some (Ok (), s', ws)" and "lost ws = 0"
  shows "books_replay A cash PS s'"
proof -
  from stored_run_Ok [OF assms(3)] assms(2,4) obtain st where
    st: "run_loop A decide cfg label cash (load_portfolio s) None d ts = Some st" "load_portfolio s' = Some (rs_portfolio st)"
      "linked (ps_sha PS) (st_audit s) 0 genesis_hash \<Longrightarrow> linked (ps_sha PS) (st_audit s') 0 genesis_hash"
      "st_fills s' = st_fills s @ map (fill_to_row (ps_codec PS)) (fills_of (rs_events st))" by metis
  from assms(1) obtain fs where l: "linked (ps_sha PS) (st_audit s) 0 genesis_hash"
    and fs: "st_fills s = map (fill_to_row (ps_codec PS)) fs"
      "apply_fills A (portfolio_new cash) fs = Some (unwrap_or (portfolio_new cash) (load_portfolio s))"
    by (auto simp: books_replay_def)
  have "apply_fills A (unwrap_or (portfolio_new cash) (load_portfolio s)) (fills_of (rs_events st)) = Some (rs_portfolio st)"
    using run_loop_trail [OF st(1)] by (simp add: trail_inv_def)
  with fs st l show ?thesis
    by (auto simp: books_replay_def apply_fills_append intro: exI [of _ "fs @ fills_of (rs_events st)"])
qed

lemma books_history:
  assumes "book_history A decide cash PS s" and "\<And>env. ps_db PS env AppendFill = None"
  shows "books_replay A cash PS s"
  using assms(1)
proof (induction rule: book_history.induct)
  case fresh
  show ?case by (simp add: books_replay_def store_empty_def load_portfolio_def)
next
  case (ran s cfg label d ts db sched s' ws)
  from books_ran [OF ran.IH assms(2) ran.hyps(2,3)] show ?case .
next
  case (reconciled s now f r s')
  then show ?case
    using books_booked [OF reconciled.IH]
    by (auto simp: record_reconciled_fill_def Let_def bind_Some_iff split: option.splits)
next
  case (recorded s now f r' s')
  then show ?case
    using books_booked [OF recorded.IH]
    by (auto simp: record_fill_def Let_def bind_Some_iff)
qed


definition demo_persistence :: persistence where
  "demo_persistence = \<lparr>ps_sha = \<lambda>x. x, ps_codec = demo_codec, ps_now = \<lambda>_. 0, ps_db = \<lambda>_ _. None\<rparr>"

lemma stored_run_finishes:
  assumes "run_loop A decide cfg label cash (load_portfolio s) None d ts = Some st" and "length (rs_events st) \<le> 1000"
  obtains s' ws where "stored_run A decide cfg label cash d ts PS (\<lambda>_. None) sched extra s = Some (Ok (), s', ws)" and "lost ws = 0"
proof -
  obtain ch sub where "bus_run (store_handle PS) extra 1000 (published sched 0 (butlast (rs_events st))
        @ Direct (save_portfolio (rs_portfolio st)) # published sched (length (rs_events st) - 1) [last (rs_events st)]) s = Some (ch, sub)"
    using bus_run_total [of 1000] by fastforce
  with assms(1) have run: "stored_run A decide cfg label cash d ts PS (\<lambda>_. None) sched extra s = Some (Ok (), su_state sub, su_warnings sub)"
    by (simp add: stored_run_def)
  from run have "lost (su_warnings sub) = 0"
    by (rule stored_run_Ok) (use assms in auto)
  with run show ?thesis by (rule that)
qed


end
