(* ===== verification/Feeds.thy ===== *)
theory Feeds
  imports Core_Types Lines
begin

text \<open>
  The price feeds of \<open>crates/cli/src/feed.rs\<close>: a fixed list of ticks and a CSV file. Reading
  the file, a time in RFC 3339 and a decimal are arguments.
\<close>

section \<open>The feeds\<close>

text \<open>A feed is the list of the ticks that are left.\<close>

type_synonym slice_feed = "tick list"

definition next_tick :: "slice_feed \<Rightarrow> tick option \<times> slice_feed" where
  "next_tick feed = (case feed of [] \<Rightarrow> (None, []) | t # ts \<Rightarrow> (Some t, ts))"

datatype feed_error =
    FeedBail message
  | FeedContext message message

text \<open>One line: nothing for a blank line, a comment or the header, else a tick. Lines count from 1.\<close>

definition csv_line ::
    "(string \<Rightarrow> message + instant) \<Rightarrow> (string \<Rightarrow> message + dec) \<Rightarrow> string \<Rightarrow> nat \<Rightarrow> string \<Rightarrow> feed_error + tick option"
where
  "csv_line parse_time parse_dec path n raw = (let line = trim raw in
     if line = [] \<or> starts_with line ''#'' then Ok None
     else (case split_on CHR '','' line of
         [ts, sy, px] \<Rightarrow>
           (let ts = trim ts; sy = trim sy; px = trim px;
                place = [Lit path, Lit '':'', ShowInt (int n)] in
            if eq_ignore_ascii_case ts ''timestamp'' then Ok None
            else (case parse_time ts of
                Inl e \<Rightarrow> Err (FeedContext (place @ [Lit '': bad timestamp '', ShowDebug ts]) e)
              | Inr at_time \<Rightarrow> (case parse_dec px of
                  Inl e \<Rightarrow> Err (FeedContext (place @ [Lit '': bad price '', ShowDebug px]) e)
                | Inr price \<Rightarrow> Ok (Some \<lparr>tk_at = at_time, tk_symbol = sy, tk_price = price\<rparr>))))
       | _ \<Rightarrow> Err (FeedBail [Lit path, Lit '':'', ShowInt (int n), Lit '': expected `timestamp,symbol,price`, got '',
           ShowDebug line])))"

fun csv_lines ::
    "(string \<Rightarrow> message + instant) \<Rightarrow> (string \<Rightarrow> message + dec) \<Rightarrow> string \<Rightarrow> nat \<Rightarrow> string list \<Rightarrow> feed_error + tick list"
where
  "csv_lines parse_time parse_dec path n [] = Ok []"
| "csv_lines parse_time parse_dec path n (l # ls) =
     and_then (csv_line parse_time parse_dec path n l) (\<lambda>t.
     and_then (csv_lines parse_time parse_dec path (Suc n) ls) (\<lambda>ts.
     Ok (case t of None \<Rightarrow> ts | Some t \<Rightarrow> t # ts)))"

definition csv_open ::
    "(string \<Rightarrow> message + string) \<Rightarrow> (string \<Rightarrow> message + instant) \<Rightarrow> (string \<Rightarrow> message + dec) \<Rightarrow> string
      \<Rightarrow> feed_error + slice_feed"
where
  "csv_open read_file parse_time parse_dec path = (case read_file path of
       Inl e \<Rightarrow> Err (FeedContext [Lit ''reading feed '', Lit path] e)
     | Inr raw \<Rightarrow>
         and_then (csv_lines parse_time parse_dec path 1 (text_lines raw)) (\<lambda>ticks.
         if ticks = [] then Err (FeedBail [Lit ''feed '', Lit path, Lit '' contained no ticks'']) else Ok ticks))"

section \<open>Writing a feed\<close>

text \<open>A field that reads back as itself: no separator in it and nothing to trim.\<close>

definition plain_field :: "string \<Rightarrow> bool" where
  "plain_field s \<longleftrightarrow> (\<forall>c \<in> set s. 33 \<le> (of_char c :: nat) \<and> (of_char c :: nat) < 127 \<and> c \<noteq> CHR '','')"

definition csv_row :: "(instant \<Rightarrow> string) \<Rightarrow> (dec \<Rightarrow> string) \<Rightarrow> tick \<Rightarrow> string" where
  "csv_row show_time show_dec t = show_time (tk_at t) @ '','' @ tk_symbol t @ '','' @ show_dec (tk_price t)"

definition csv_text :: "(instant \<Rightarrow> string) \<Rightarrow> (dec \<Rightarrow> string) \<Rightarrow> tick list \<Rightarrow> string" where
  "csv_text show_time show_dec ts =
     ''timestamp,symbol,price'' @ [newline_char] @ concat (map (\<lambda>t. csv_row show_time show_dec t @ [newline_char]) ts)"

lemma plain_field_visible: "plain_field s \<Longrightarrow> c \<in> set s \<Longrightarrow> visible c"
  by (simp add: plain_field_def visible_def)

lemma plain_field_trim: "plain_field s \<Longrightarrow> trim s = s"
  by (rule trim_visible) (metis hd_in_set last_in_set plain_field_visible)

lemma plain_field_not: "plain_field s \<Longrightarrow> \<not> visible c \<or> c = CHR '','' \<Longrightarrow> c \<notin> set s"
  by (auto simp: plain_field_def visible_def)

text \<open>The text forms of times and decimals, with what the feed relies on.\<close>

definition time_text :: "(string \<Rightarrow> message + instant) \<Rightarrow> (instant \<Rightarrow> string) \<Rightarrow> instant \<Rightarrow> bool" where
  "time_text parse_time show_time t \<longleftrightarrow> parse_time (show_time t) = Ok t \<and> plain_field (show_time t) \<and> show_time t \<noteq> []
     \<and> hd (show_time t) \<noteq> CHR ''#'' \<and> \<not> eq_ignore_ascii_case (show_time t) ''timestamp''"

definition dec_text :: "(string \<Rightarrow> message + dec) \<Rightarrow> (dec \<Rightarrow> string) \<Rightarrow> dec \<Rightarrow> bool" where
  "dec_text parse_dec show_dec p \<longleftrightarrow> parse_dec (show_dec p) = Ok p \<and> plain_field (show_dec p)"

lemma csv_line_row:
  assumes "time_text parse_time show_time (tk_at t)" and "dec_text parse_dec show_dec (tk_price t)"
    and "plain_field (tk_symbol t)"
  shows "csv_line parse_time parse_dec path n (csv_row show_time show_dec t) = Ok (Some t)"
proof -
  let ?a = "show_time (tk_at t)" and ?p = "show_dec (tk_price t)"
  note a = assms(1) [unfolded time_text_def] and p = assms(2) [unfolded dec_text_def]
  have "visible (CHR '','')" by (simp add: visible_def)
  then have "visible (List.last (csv_row show_time show_dec t))"
    using p plain_field_visible [of ?p "List.last ?p"] by (cases "?p = []") (simp_all add: csv_row_def)
  moreover have hd: "hd (csv_row show_time show_dec t) = hd ?a" "csv_row show_time show_dec t \<noteq> []"
    using a by (simp_all add: csv_row_def)
  moreover have "visible (hd ?a)" using a plain_field_visible hd_in_set by blast
  ultimately have trim: "trim (csv_row show_time show_dec t) = csv_row show_time show_dec t"
    by (intro trim_visible) simp
  have hash: "\<not> starts_with (csv_row show_time show_dec t) ''#''"
    using hd a by (cases "csv_row show_time show_dec t") (auto simp: starts_with_def)
  have "CHR '','' \<notin> set ?a" "CHR '','' \<notin> set (tk_symbol t)" "CHR '','' \<notin> set ?p"
    using a p assms(3) plain_field_not by blast+
  then have "split_on CHR '','' (csv_row show_time show_dec t) = [?a, tk_symbol t, ?p]"
    by (simp add: csv_row_def split_on_append split_on_no)
  with trim hash hd a p assms(3) show ?thesis
    by (simp add: csv_line_def Let_def plain_field_trim)
qed

lemma csv_lines_rows:
  assumes "\<forall>t \<in> set ts. time_text parse_time show_time (tk_at t) \<and> dec_text parse_dec show_dec (tk_price t)
    \<and> plain_field (tk_symbol t)"
  shows "csv_lines parse_time parse_dec path n (map (csv_row show_time show_dec) ts) = Ok ts"
  using assms by (induction ts arbitrary: n) (simp_all add: csv_line_row and_then_def)

section \<open>Properties\<close>

text \<open>
  A feed reads back. A CSV file that holds the header and a row for each tick, with texts for
  times and prices that parse to them and fields without separators, opens to exactly those
  ticks in order, and the feed gives them one by one.
\<close>

theorem csv_feed_reads_back:
  assumes "read_file path = Ok (csv_text show_time show_dec (t # ts))"
    and "\<forall>x \<in> set (t # ts). time_text parse_time show_time (tk_at x) \<and> dec_text parse_dec show_dec (tk_price x)
      \<and> plain_field (tk_symbol x)"
  shows "csv_open read_file parse_time parse_dec path = Ok (t # ts) \<and> next_tick (t # ts) = (Some t, ts)"
proof -
  have row: "newline_char \<notin> set (csv_row show_time show_dec x) \<and> CHR 0x0D \<notin> set (csv_row show_time show_dec x)"
    if "x \<in> set (t # ts)" for x
  proof -
    have x: "plain_field (show_time (tk_at x))" "plain_field (tk_symbol x)" "plain_field (show_dec (tk_price x))"
      using bspec [OF assms(2) that] by (simp_all add: time_text_def dec_text_def)
    have "\<not> visible newline_char" "\<not> visible (CHR 0x0D)" by (simp_all add: visible_def newline_char_def)
    with x show ?thesis
      using plain_field_not [of _ newline_char] plain_field_not [of _ "CHR 0x0D"]
      by (simp add: csv_row_def) (simp add: newline_char_def)
  qed
  let ?rows = "''timestamp,symbol,price'' # map (csv_row show_time show_dec) (t # ts)"
  have text_eq: "csv_text show_time show_dec (t # ts) = concat (map (\<lambda>r. r @ [newline_char]) ?rows)"
    by (simp add: csv_text_def comp_def)
  have "\<forall>r \<in> set ?rows. newline_char \<notin> set r \<and> CHR 0x0D \<notin> set r"
    using row by (auto simp: newline_char_def)
  then have "text_lines (csv_text show_time show_dec (t # ts)) = ?rows"
    unfolding text_eq by (rule text_lines_rows)
  moreover have "csv_line parse_time parse_dec path 1 ''timestamp,symbol,price'' = Ok None"
    by (simp add: csv_line_def trim_visible visible_def starts_with_def plain_field_trim plain_field_def
        eq_ignore_ascii_case_def)
  moreover have "csv_lines parse_time parse_dec path (Suc 1) (map (csv_row show_time show_dec) (t # ts)) = Ok (t # ts)"
    by (rule csv_lines_rows) (rule assms(2))
  ultimately have "csv_lines parse_time parse_dec path 1 (text_lines (csv_text show_time show_dec (t # ts))) = Ok (t # ts)"
    by (simp only: csv_lines.simps and_then_def sum.case option.case)
  then show ?thesis using assms(1) by (simp add: csv_open_def and_then_def next_tick_def)
qed

definition demo_show_time :: "instant \<Rightarrow> string" where
  "demo_show_time t = (if t = 0 then ''2026-01-01T00:00:00Z'' else ''2026-01-01T00:01:00Z'')"

definition demo_parse_time :: "string \<Rightarrow> message + instant" where
  "demo_parse_time s = (if s = ''2026-01-01T00:00:00Z'' then Ok 0
     else if s = ''2026-01-01T00:01:00Z'' then Ok 60 else Err [Lit ''bad time''])"

definition demo_show_dec :: "dec \<Rightarrow> string" where
  "demo_show_dec p = (if p = 200 then ''200'' else ''2.5'')"

definition demo_parse_dec :: "string \<Rightarrow> message + dec" where
  "demo_parse_dec s = (if s = ''200'' then Ok 200 else if s = ''2.5'' then Ok (5 / 2) else Err [Lit ''bad decimal''])"

definition demo_ticks :: "tick list" where
  "demo_ticks = [\<lparr>tk_at = 0, tk_symbol = ''NVDA'', tk_price = 200\<rparr>, \<lparr>tk_at = 60, tk_symbol = ''TSLA'', tk_price = 5 / 2\<rparr>]"

theorem csv_feed_reads_back_witness:
  "csv_open (\<lambda>_. Ok (csv_text demo_show_time demo_show_dec demo_ticks)) demo_parse_time demo_parse_dec ''feed.csv''
     = Ok demo_ticks"
proof -
  have ok: "time_text demo_parse_time demo_show_time 0" "time_text demo_parse_time demo_show_time 60"
    "dec_text demo_parse_dec demo_show_dec 200" "dec_text demo_parse_dec demo_show_dec (5 / 2)"
    "plain_field ''NVDA''" "plain_field ''TSLA''"
    by (simp_all add: time_text_def dec_text_def demo_show_time_def demo_parse_time_def demo_show_dec_def
        demo_parse_dec_def plain_field_def eq_ignore_ascii_case_def to_ascii_lowercase_def ascii_lower_def Let_def)
  show ?thesis
    using csv_feed_reads_back [of "\<lambda>_. Ok (csv_text demo_show_time demo_show_dec demo_ticks)" "''feed.csv''"
        demo_show_time demo_show_dec "hd demo_ticks" "tl demo_ticks" demo_parse_time demo_parse_dec] ok
    by (simp add: demo_ticks_def)
qed

end
