(* ===== verification/Run_Setup.thy ===== *)
theory Run_Setup
  imports Launch Ai_Decider Chain_Feed Feeds Wallets Backtest Chain_Commands
begin

text \<open>
  \<open>sherwood run\<close> from its configuration: the decider, the store, the feed and the wallet preview
  that \<open>crates/cli/src/runner.rs\<close> builds, and the loop over them; the provider of
  \<open>crates/decision/src/ai/openai_compat.rs\<close> with the request that it sends; and \<open>run_backtest\<close>.
  The network, the vault, files and clocks are arguments.
\<close>

section \<open>The provider\<close>

record openai_provider =
  op_base_url :: string
  op_model :: string
  op_api_key :: string
  op_temperature :: "dec option"

record chat_request =
  cr_model :: string
  cr_messages :: "(string \<times> message) list"
  cr_max_tokens :: u32
  cr_temperature :: "dec option"
  cr_stream :: bool

record chat_post =
  cp_url :: string
  cp_bearer :: string
  cp_body :: chat_request

text \<open>\<open>failed\<close> is why the HTTP client could not be built, if it could not.\<close>

definition openai_new :: "string option \<Rightarrow> string \<Rightarrow> string \<Rightarrow> string \<Rightarrow> dec option \<Rightarrow> ai_error + openai_provider" where
  "openai_new failed base_url model api_key temperature = (case failed of
       Some e \<Rightarrow> Err (Transport e)
     | None \<Rightarrow> Ok \<lparr>op_base_url = rev (dropWhile (\<lambda>c. c = CHR ''/'') (rev base_url)), op_model = model,
         op_api_key = api_key, op_temperature = temperature\<rparr>)"

definition openai_request :: "openai_provider \<Rightarrow> message \<Rightarrow> message \<Rightarrow> u32 \<Rightarrow> chat_post" where
  "openai_request P system user max_tokens =
     \<lparr>cp_url = op_base_url P @ ''/chat/completions'', cp_bearer = op_api_key P,
      cp_body = \<lparr>cr_model = op_model P, cr_messages = [(''system'', system), (''user'', user)],
        cr_max_tokens = max_tokens, cr_temperature = op_temperature P, cr_stream = False\<rparr>\<rparr>"

definition openai_chat ::
    "(chat_post \<Rightarrow> 'h \<Rightarrow> (bool \<times> string + http_answer) \<times> 'h) \<Rightarrow> openai_provider
      \<Rightarrow> 'h \<Rightarrow> message \<Rightarrow> message \<Rightarrow> u32 \<Rightarrow> ((ai_error + string) \<times> 'h) option"
where
  "openai_chat send P h system user max_tokens =
     (let (sent, h') = send (openai_request P system user max_tokens) h
      in map_option (\<lambda>r. (r, h')) (openai_complete sent))"

definition openai_describe :: "openai_provider \<Rightarrow> string" where
  "openai_describe P = ''openai-compat model='' @ op_model P @ '' @ '' @ op_base_url P"

section \<open>The machine\<close>

text \<open>
  What a run is given: the packages, the environment and its vaults, the network with its state
  \<open>'h\<close>, the node with its state \<open>'c\<close>, the reading of files, and the keys \<open>'k\<close> of wallets.
  \<open>rn_narrow\<close> is the cast of the temperature to a shorter float, \<open>rn_open_store\<close> why the database
  at a path does not open.
\<close>

record ('h, 'c, 'k) machine =
  rn_arith :: arith
  rn_packages :: vault_packages
  rn_environment :: environment
  rn_vaults :: vaults
  rn_client_failed :: "string option"
  rn_narrow :: "dec option \<Rightarrow> dec option"
  rn_send :: "chat_post \<Rightarrow> 'h \<Rightarrow> (bool \<times> string + http_answer) \<times> 'h"
  rn_from_json :: "string \<Rightarrow> message + ai_output"
  rn_connect :: "string \<Rightarrow> chain_error option"
  rn_chain :: "'c chain_env"
  rn_read_file :: "string \<Rightarrow> message + string"
  rn_parse_time :: "string \<Rightarrow> message + instant"
  rn_parse_dec :: "string \<Rightarrow> message + dec"
  rn_parse_key :: "string \<Rightarrow> signer_error + 'k local_signer"
  rn_open_store :: "string \<Rightarrow> message option"

text \<open>The vault as it is read: its path, for messages, and its secrets by name.\<close>

definition vault_reader ::
    "vault_packages \<Rightarrow> environment \<Rightarrow> vaults \<Rightarrow> vault_error + string \<times> (string \<Rightarrow> vault_error + string option)"
where
  "vault_reader P env vs = (case open_vault env of
       Inl e \<Rightarrow> Err e
     | Inr (path, pass) \<Rightarrow> Ok (path, \<lambda>name. vault_get P pass (vs path) name))"

abbreviation machine_vault ::
    "('h, 'c, 'k) machine \<Rightarrow> vault_error + string \<times> (string \<Rightarrow> vault_error + string option)" where
  "machine_vault M \<equiv> vault_reader (rn_packages M) (rn_environment M) (rn_vaults M)"

section \<open>The decider\<close>

datatype 'h built_decider =
    Rules rule_config
  | Model openai_provider ai_config u32 'h     \<comment> \<open>with the calls made and the state of the network\<close>

definition built_decide ::
    "('h, 'c, 'k) machine \<Rightarrow> 'h built_decider \<Rightarrow> decision_context \<Rightarrow> (decision \<times> 'h built_decider) option"
where
  "built_decide M d ctx = (case d of
       Rules cfg \<Rightarrow> do { (x, _) \<leftarrow> rule_decider (rn_arith M) cfg () ctx; Some (x, Rules cfg) }
     | Model P cfg calls h \<Rightarrow> do {
         (x, calls', h') \<leftarrow> decide_with_provider (openai_chat (rn_send M) P) (rn_from_json M) cfg (calls, h) ctx;
         Some (x, Model P cfg calls' h') })"

definition build_decider :: "('h, 'c, 'k) machine \<Rightarrow> 'h \<Rightarrow> app_config \<Rightarrow> message list + 'h built_decider" where
  "build_decider M h cfg =
     (if ge_decider (ac_general cfg) = ''rule'' then Ok (Rules default_rule_config)
      else if ge_decider (ac_general cfg) = ''ai'' then (case machine_vault M of
          Inl e \<Rightarrow> Err [[Lit ''opening the vault to resolve ai.api_key''], [Lit ''opening the vault''], show_vault_error [] e]
        | Inr (path, get) \<Rightarrow> (case resolve_ref (as_api_key (ac_ai cfg)) get of
            Inl e \<Rightarrow> Err [show_vault_error path e]
          | Inr None \<Rightarrow> Err [[Lit ''ai.api_key '', ShowDebug (as_api_key (ac_ai cfg)), Lit '' is not in the vault'']]
          | Inr (Some key) \<Rightarrow>
              (case openai_new (rn_client_failed M) (as_base_url (ac_ai cfg)) (as_model (ac_ai cfg)) key
                  (rn_narrow M (as_temperature (ac_ai cfg))) of
                Inl e \<Rightarrow> Err [show_ai_error e]
              | Inr P \<Rightarrow> Ok (Model P \<lparr>ai_max_tokens = as_max_tokens (ac_ai cfg),
                  ai_max_calls_per_run = as_max_calls_per_run (ac_ai cfg), ai_universe = as_universe (ac_ai cfg)\<rparr> 0 h))))
      else Err [[Lit ''general.decider = '', ShowDebug (ge_decider (ac_general cfg)), Lit '' is not \"rule\" or \"ai\"'']])"

section \<open>The feed\<close>

datatype built_feed =
    Listed "tick list"
  | Polling chain_feed

definition show_feed_error :: "feed_error \<Rightarrow> message list" where
  "show_feed_error e = (case e of FeedBail m \<Rightarrow> [m] | FeedContext m e \<Rightarrow> [m, e])"

definition listed_feed :: "('h, 'c, 'k) machine \<Rightarrow> app_config \<Rightarrow> (message list + tick list) option" where
  "listed_feed M cfg = (case ge_feed_path (ac_general cfg) of
       Some path \<Rightarrow> Some (map_sum show_feed_error id (csv_open (rn_read_file M) (rn_parse_time M) (rn_parse_dec M) path))
     | None \<Rightarrow> do { ts \<leftarrow> demo_feed (rn_arith M); Some (Ok ts) })"

definition build_feed :: "('h, 'c, 'k) machine \<Rightarrow> app_config \<Rightarrow> (message list + built_feed) option" where
  "build_feed M cfg =
     (if ch_enabled (ac_chain cfg) then Some (case rn_connect M (ch_rpc_url (ac_chain cfg)) of
          Some e \<Rightarrow> Err [Lit ''chain feed: '' # show_chain_error e]
        | None \<Rightarrow>
            (let (_, denom_address, denom_decimals) = resolve_token (ch_denom (ac_chain cfg)) in
             Ok (Polling (chain_feed_new (ch_symbols (ac_chain cfg)) (chain_feed_config_default\<lparr>
               cf_denom_address := denom_address, cf_denom_decimals := of_nat denom_decimals,
               cf_poll_interval := unat (ch_poll_interval_secs (ac_chain cfg)) * nat nanos_per_sec\<rparr>)))))
      else map_option (map_sum id Listed) (listed_feed M cfg))"

text \<open>
  The ticks a feed delivers to the loop: each comes with how long its poll may retry and with
  the clocks that the poll and the tick read. Nothing comes when a poll is still retrying, or
  when the list ends before the feed does and no shutdown was seen.
\<close>

record poll_env =
  pe_fuel :: nat
  pe_before :: instant
  pe_after :: instant
  pe_now :: instant
  pe_tick :: tick_env

definition feed_tick ::
    "'c chain_env \<Rightarrow> poll_env \<Rightarrow> built_feed \<Rightarrow> 'c \<Rightarrow> (tick_result \<times> built_feed \<times> 'c) option" where
  "feed_tick V e feed c = (case feed of
       Listed ts \<Rightarrow> (let (t, rest) = next_tick ts in
         Some (case t of None \<Rightarrow> NoTick | Some t \<Rightarrow> NewTick t, Listed rest, c))
     | Polling fd \<Rightarrow> map_option (\<lambda>(r, fd', c'). (r, Polling fd', c'))
         (feed_next_tick (pe_fuel e) V (pe_before e) (pe_after e) (pe_now e) fd c))"

fun feed_ticks ::
    "'c chain_env \<Rightarrow> poll_env list \<Rightarrow> built_feed \<Rightarrow> 'c \<Rightarrow> ((tick \<times> tick_env) list option) option" where
  "feed_ticks V [] feed c = Some None"
| "feed_ticks V (e # es) feed c = do {
     (r, feed', c') \<leftarrow> feed_tick V e feed c;
     (case r of
        NoTick \<Rightarrow> Some (Some [])
      | StillRetrying \<Rightarrow> Some None
      | NewTick t \<Rightarrow>
          if te_shutdown (pe_tick e) then Some (Some [(t, pe_tick e)])
          else map_option (map_option (Cons (t, pe_tick e))) (feed_ticks V es feed' c')) }"

section \<open>The wallet preview\<close>

definition show_signer_error :: "signer_error \<Rightarrow> message" where
  "show_signer_error e = (case e of
       KeyError m \<Rightarrow> Lit ''private key: '' # m
     | SignError m \<Rightarrow> Lit ''signing failed: '' # m)"

definition show_wallet_error :: "string \<Rightarrow> wallet_error \<Rightarrow> message" where
  "show_wallet_error path e = (case e of
       DuplicateName n \<Rightarrow> [Lit ''duplicate wallet name '', ShowDebug n]
     | WalletKey n e \<Rightarrow> [Lit ''wallet '', ShowDebug n, Lit '': ''] @ show_signer_error e
     | MissingSecret n r \<Rightarrow> [Lit ''wallet '', ShowDebug n, Lit '': key_ref '', ShowDebug r,
         Lit ('' resolved to no secret '' @ em_dash @ '' run `sherwood secrets set` first'')]
     | WalletVault n e \<Rightarrow> [Lit ''wallet '', ShowDebug n, Lit '': resolving key_ref: ''] @ show_vault_error path e)"

definition show_preview_error :: "string \<Rightarrow> preview_error \<Rightarrow> message list" where
  "show_preview_error path e = (case e of
       PreviewVault e \<Rightarrow> [[Lit ''opening the vault to resolve [[wallets]] key_ref''], [Lit ''opening the vault''],
         show_vault_error path e]
     | PreviewWallets e \<Rightarrow> [[Lit ''loading [[wallets]]''], show_wallet_error path e]
     | PreviewRouter e \<Rightarrow> [[Lit ''invalid [router] config''], show_router_error e])"

definition build_preview ::
    "('h, 'c, 'k) machine \<Rightarrow> instant list \<Rightarrow> app_config \<Rightarrow> message list + 'k live_preview option" where
  "build_preview M starts cfg =
     map_sum (show_preview_error (case machine_vault M of Inl _ \<Rightarrow> [] | Inr (path, _) \<Rightarrow> path)) id
       (preview_build (rn_parse_key M) (map_sum id snd (machine_vault M)) starts cfg)"

section \<open>The run\<close>

text \<open>What is built before the loop, in this order: decider, store, feed, preview.\<close>

definition run_setup ::
    "('h, 'c, 'k) machine \<Rightarrow> 'h \<Rightarrow> instant list \<Rightarrow> app_config
      \<Rightarrow> (message list + 'h built_decider \<times> built_feed \<times> 'k live_preview option) option"
where
  "run_setup M h starts cfg = (case build_decider M h cfg of
       Inl e \<Rightarrow> Some (Err e)
     | Inr d \<Rightarrow>
         (case (case ge_state_path (ac_general cfg) of None \<Rightarrow> None | Some path \<Rightarrow> rn_open_store M path) of
            Some e \<Rightarrow> Some (Err [e])
          | None \<Rightarrow> do {
              feed \<leftarrow> build_feed M cfg;
              Some (and_then feed (\<lambda>feed. and_then (build_preview M starts cfg) (\<lambda>preview. Ok (d, feed, preview)))) }))"

text \<open>How the command ends: before the loop, at a call of the store, or after the loop.\<close>

datatype 'h run_outcome =
    SetupFails "message list"
  | StoreFails string store "warning list"
  | Stored store "warning list"
  | Unstored "'h built_decider run_state"

text \<open>\<open>None\<close> inside is a run that has not ended yet.\<close>

definition run_command ::
    "('h, 'c, 'k) machine \<Rightarrow> 'h \<Rightarrow> 'c \<Rightarrow> instant list \<Rightarrow> poll_env list \<Rightarrow> persistence \<Rightarrow> (store_call \<Rightarrow> string option)
      \<Rightarrow> (nat \<Rightarrow> instant \<times> nat) \<Rightarrow> nat \<Rightarrow> app_config \<Rightarrow> store \<Rightarrow> 'h run_outcome option option"
where
  "run_command M h c starts polls PS db sched extra cfg s = do {
     setup \<leftarrow> run_setup M h starts cfg;
     let gate = risk_to_core (ac_risk cfg);
     let cash = ge_starting_cash (ac_general cfg);
     (case setup of
        Inl e \<Rightarrow> Some (Some (SetupFails e))
      | Inr (d, feed, preview) \<Rightarrow> do {
          ticks \<leftarrow> feed_ticks (rn_chain M) polls feed c;
          (case ticks of
             None \<Rightarrow> Some None
           | Some ts \<Rightarrow>
               if ge_state_path (ac_general cfg) = None then do {
                 st \<leftarrow> run_loop (rn_arith M) (built_decide M) gate ''run'' cash None None d ts;
                 Some (Some (Unstored st)) }
               else do {
                 (r, s', ws) \<leftarrow> stored_run (rn_arith M) (built_decide M) gate ''run'' cash d ts PS db sched extra s;
                 Some (Some (case r of Inl e \<Rightarrow> StoreFails e s' ws | Inr _ \<Rightarrow> Stored s' ws)) }) }) }"

text \<open>The line that is printed at the end.\<close>

definition run_summary :: "arith \<Rightarrow> 'd run_state \<Rightarrow> message option" where
  "run_summary A st = (case last (rs_events st) of
       RunEnded label interrupted cash pnl \<Rightarrow> do {
         e \<leftarrow> equity A (rs_portfolio st) (rs_latest st);
         Some [Lit ''['', Lit label, Lit ''] '', Lit (if interrupted then ''interrupted'' else ''done''), Lit ''. cash='', Show cash,
           Lit '' open_positions='', ShowInt (int (open_position_count (rs_portfolio st))), Lit '' equity='', Show e,
           Lit '' realized_pnl='', Show pnl] }
     | _ \<Rightarrow> None)"

text \<open>A backtest: the feed of the file, no store, a recording and its report.\<close>

definition run_backtest ::
    "('h, 'c, 'k) machine \<Rightarrow> 'h \<Rightarrow> tick_env list \<Rightarrow> app_config \<Rightarrow> (message list + recording) option" where
  "run_backtest M h envs cfg = (case build_decider M h cfg of
       Inl e \<Rightarrow> Some (Err e)
     | Inr d \<Rightarrow> do {
         feed \<leftarrow> listed_feed M cfg;
         (case feed of
            Inl e \<Rightarrow> Some (Err e)
          | Inr ts \<Rightarrow> do {
              st \<leftarrow> run_loop (rn_arith M) (built_decide M) (risk_to_core (ac_risk cfg)) ''backtest''
                (ge_starting_cash (ac_general cfg)) None (Some recording_default) d (zip ts envs);
              Some (ok_or [] (rs_recorder st)) }) })"

text \<open>The rule around the heading; \<open>round2\<close> rounds a decimal to two places.\<close>

definition rule_mark :: string where
  "rule_mark = [CHR 0xE2, CHR 0x94, CHR 0x80, CHR 0xE2, CHR 0x94, CHR 0x80]"

definition show_report_lines :: "(dec \<Rightarrow> dec) \<Rightarrow> backtest_report \<Rightarrow> message list" where
  "show_report_lines round2 r =
     [[], [Lit (rule_mark @ '' backtest: ''), Lit (br_label r), Lit ('' '' @ rule_mark)],
      [Lit ''  starting cash     '', Show (round2 (br_starting_cash r))],
      [Lit ''  final equity      '', Show (round2 (br_final_equity r))],
      [Lit ''  total return      '', Show (round2 (br_total_return_pct r)), Lit '' %''],
      [Lit ''  max drawdown      '', Show (round2 (br_max_drawdown_pct r)), Lit '' %''],
      [Lit ''  fills             '', ShowInt (int (br_fills r))],
      [Lit ''  closed trades     '', ShowInt (int (br_closed_trades r)), Lit '' ('', ShowInt (int (br_wins r)), Lit '' win / '',
       ShowInt (int (br_closed_trades r - br_wins r)), Lit '' loss)''],
      [Lit ''  win rate          '', Show (round2 (br_win_rate_pct r)), Lit '' %''],
      [Lit ''  gross profit      '', Show (round2 (br_gross_profit r))],
      [Lit ''  gross loss        '', Show (round2 (br_gross_loss r))],
      (case br_profit_factor r of
         Some pf \<Rightarrow> [Lit ''  profit factor     '', Show (round2 pf)]
       | None \<Rightarrow> [Lit ''  profit factor     n/a (no losing trades)'']),
      [Lit ''  expectancy/trade  '', Show (round2 (br_expectancy r))]]"

definition backtest_command ::
    "('h, 'c, 'k) machine \<Rightarrow> (string set \<Rightarrow> string) \<Rightarrow> (dec \<Rightarrow> dec) \<Rightarrow> 'h \<Rightarrow> tick_env list \<Rightarrow> app_config \<Rightarrow> printed option"
where
  "backtest_command M names round2 h envs cfg = (case backtest_config cfg of
       Inl e \<Rightarrow> Some ([], EndsWith [show_chain names e])
     | Inr cfg \<Rightarrow> do {
         r \<leftarrow> run_backtest M h envs cfg;
         (case r of
            Inl e \<Rightarrow> Some ([], EndsWith e)
          | Inr recorded \<Rightarrow> do {
              report \<leftarrow> analyze (rn_arith M) (ge_decider (ac_general cfg)) recorded;
              Some (show_report_lines round2 report, EndsWell) }) })"

section \<open>What a configured run keeps\<close>

interpretation built: decider "built_decide M" for M
proof unfold_locales
  fix d ctx fr r d'
  assume "built_decide M d ctx = Some (DSell fr r, d')"
  then show "fr \<le> 1"
    by (cases d) (auto simp: built_decide_def bind_Some_iff dest: rule.sell_at_most_all ai.sell_at_most_all)
qed

text \<open>The ledger a run starts with, and the one it ends with if it comes to its end.\<close>

definition start_ledger :: "app_config \<Rightarrow> store \<Rightarrow> portfolio" where
  "start_ledger cfg s = (case ge_state_path (ac_general cfg) of
       None \<Rightarrow> portfolio_new (ge_starting_cash (ac_general cfg))
     | Some _ \<Rightarrow> unwrap_or (portfolio_new (ge_starting_cash (ac_general cfg))) (load_portfolio s))"

definition outcome_ledger :: "'h run_outcome \<Rightarrow> portfolio option" where
  "outcome_ledger out = (case out of
       Unstored st \<Rightarrow> Some (rs_portfolio st) | Stored s' ws \<Rightarrow> load_portfolio s' | _ \<Rightarrow> None)"

text \<open>The notes of the preview over the fills of a run, in order.\<close>

fun preview_notes :: "arith \<Rightarrow> string list \<Rightarrow> 'k live_preview \<Rightarrow> fill list \<Rightarrow> 'k preview_note list option" where
  "preview_notes A order lp [] = Some []"
| "preview_notes A order lp (f # fs) = do {
     n \<leftarrow> note_fill A order lp (as_symbol (f_asset f)) (f_qty f) (f_price f);
     ns \<leftarrow> preview_notes A order lp fs;
     Some (n # ns) }"

text \<open>What is booked has a notional, so the preview of it does not panic.\<close>

lemma preview_notes_total: "apply_fills A p fs = Some p' \<Longrightarrow> \<exists>ns. preview_notes A order lp fs = Some ns"
proof (induction fs arbitrary: p)
  case (Cons f fs)
  then obtain q where q: "apply_fill A p f = Some q" and "apply_fills A q fs = Some p'" by (auto simp: bind_Some_iff)
  from q obtain n where "d_mul A (f_qty f) (f_price f) = Some n"
    by (cases "f_side f") (auto simp: apply_fill_def cash_delta_def bind_Some_iff)
  with Cons.IH [OF \<open>apply_fills A q fs = Some p'\<close>] show ?case by (auto simp: note_fill_def)
qed simp

lemma halted_trail: "rc_kill_switch cfg \<Longrightarrow> gated_trail A cfg p fs \<Longrightarrow> fs = []"
  using core_gate.gate_halted by (cases fs) (fastforce simp: gated_fill_def)+

lemma run_command_ready:
  assumes "run_command M h c starts polls PS db sched extra cfg s = Some (Some out)" and "\<And>e. out \<noteq> SetupFails e"
  obtains d feed preview ts where "run_setup M h starts cfg = Some (Ok (d, feed, preview))"
    and "feed_ticks (rn_chain M) polls feed c = Some (Some ts)"
    and "ge_state_path (ac_general cfg) = None \<Longrightarrow> \<exists>st. out = Unstored st
      \<and> run_loop (rn_arith M) (built_decide M) (risk_to_core (ac_risk cfg)) ''run'' (ge_starting_cash (ac_general cfg))
          None None d ts = Some st"
    and "ge_state_path (ac_general cfg) \<noteq> None \<Longrightarrow> \<exists>r s' ws. out = (case r of Inl e \<Rightarrow> StoreFails e s' ws | Inr _ \<Rightarrow> Stored s' ws)
      \<and> stored_run (rn_arith M) (built_decide M) (risk_to_core (ac_risk cfg)) ''run'' (ge_starting_cash (ac_general cfg))
          d ts PS db sched extra s = Some (r, s', ws)"
proof -
  from assms obtain r0 where "run_setup M h starts cfg = Some r0" by (auto simp: run_command_def Let_def bind_Some_iff)
  with assms obtain d feed preview where ready: "run_setup M h starts cfg = Some (Ok (d, feed, preview))"
    by (cases r0) (auto simp: run_command_def Let_def)
  with assms obtain ts where ts: "feed_ticks (rn_chain M) polls feed c = Some (Some ts)"
    by (auto simp: run_command_def Let_def bind_Some_iff split: option.splits)
  from ready ts show ?thesis
    by (rule that) (use assms(1) ready ts in \<open>auto simp: run_command_def Let_def bind_Some_iff split: if_splits\<close>)
qed

lemma run_command_ran:
  assumes "run_command M h c starts polls PS db sched extra cfg s = Some (Some out)" and "outcome_ledger out = Some p"
  obtains d ts st where "run_loop (rn_arith M) (built_decide M) (risk_to_core (ac_risk cfg)) ''run'' (ge_starting_cash (ac_general cfg))
      (if ge_state_path (ac_general cfg) = None then None else load_portfolio s) None d ts = Some st"
    and "p = rs_portfolio st"
    and "\<And>s' ws. out = Stored s' ws \<Longrightarrow> (\<And>env. ps_db PS env AppendFill = None) \<Longrightarrow> lost ws = 0 \<Longrightarrow>
      st_fills s' = st_fills s @ map (fill_to_row (ps_codec PS)) (fills_of (rs_events st))"
proof (rule run_command_ready [OF assms(1)])
  fix d feed preview ts
  assume none: "ge_state_path (ac_general cfg) = None \<Longrightarrow> \<exists>st. out = Unstored st
      \<and> run_loop (rn_arith M) (built_decide M) (risk_to_core (ac_risk cfg)) ''run'' (ge_starting_cash (ac_general cfg))
          None None d ts = Some st"
    and some: "ge_state_path (ac_general cfg) \<noteq> None \<Longrightarrow> \<exists>r s' ws. out = (case r of Inl e \<Rightarrow> StoreFails e s' ws | Inr _ \<Rightarrow> Stored s' ws)
      \<and> stored_run (rn_arith M) (built_decide M) (risk_to_core (ac_risk cfg)) ''run'' (ge_starting_cash (ac_general cfg))
          d ts PS db sched extra s = Some (r, s', ws)"
  show ?thesis
  proof (cases "ge_state_path (ac_general cfg) = None")
    case True
    with none assms(2) show ?thesis by (auto simp: outcome_ledger_def intro: that)
  next
    case False
    with some obtain r s' ws where r: "out = (case r of Inl e \<Rightarrow> StoreFails e s' ws | Inr _ \<Rightarrow> Stored s' ws)"
      "stored_run (rn_arith M) (built_decide M) (risk_to_core (ac_risk cfg)) ''run'' (ge_starting_cash (ac_general cfg))
          d ts PS db sched extra s = Some (r, s', ws)" by blast
    then have out: "r = Ok ()" "out = Stored s' ws" using assms(2) by (cases r; simp add: outcome_ledger_def)+
    from r(2) [unfolded out(1)] show ?thesis
      by (rule stored_run_Ok) (use False assms(2) out in \<open>auto simp: outcome_ledger_def intro!: that\<close>)
  qed
qed (use assms(2) in \<open>auto simp: outcome_ledger_def\<close>)

lemma run_command_unstored:
  assumes "run_command M h c starts polls PS db sched extra cfg s = Some (Some (Unstored st))"
  obtains d feed preview ts where "run_setup M h starts cfg = Some (Ok (d, feed, preview))"
    and "feed_ticks (rn_chain M) polls feed c = Some (Some ts)"
    and "run_loop (rn_arith M) (built_decide M) (risk_to_core (ac_risk cfg)) ''run'' (ge_starting_cash (ac_general cfg))
      None None d ts = Some st"
proof (rule run_command_ready [OF assms])
  fix d feed preview ts
  assume ready: "run_setup M h starts cfg = Some (Ok (d, feed, preview))" "feed_ticks (rn_chain M) polls feed c = Some (Some ts)"
    and none: "ge_state_path (ac_general cfg) = None \<Longrightarrow> \<exists>st'. Unstored st = Unstored st'
      \<and> run_loop (rn_arith M) (built_decide M) (risk_to_core (ac_risk cfg)) ''run'' (ge_starting_cash (ac_general cfg))
          None None d ts = Some st'"
    and some: "ge_state_path (ac_general cfg) \<noteq> None \<Longrightarrow> \<exists>r s' ws. Unstored st = (case r of Inl e \<Rightarrow> StoreFails e s' ws | Inr _ \<Rightarrow> Stored s' ws)
      \<and> stored_run (rn_arith M) (built_decide M) (risk_to_core (ac_risk cfg)) ''run'' (ge_starting_cash (ac_general cfg))
          d ts PS db sched extra s = Some (r, s', ws)"
  have "ge_state_path (ac_general cfg) = None"
  proof (rule ccontr)
    assume "ge_state_path (ac_general cfg) \<noteq> None"
    from some [OF this] obtain r s' ws where "Unstored st = (case r of Inl e \<Rightarrow> StoreFails e s' ws | Inr (u :: unit) \<Rightarrow> Stored s' ws)"
      by blast
    then show False by (cases r) simp_all
  qed
  with none ready show ?thesis by (auto intro: that)
qed simp

lemma run_setup_listed:
  assumes "run_setup M h starts cfg = Some (Ok (d, feed, preview))" and "\<not> ch_enabled (ac_chain cfg)"
  obtains ts where "build_decider M h cfg = Ok d" and "listed_feed M cfg = Some (Ok ts)" and "feed = Listed ts"
proof -
  from assms(1) obtain d0 f where d0: "build_decider M h cfg = Ok d0" and f: "build_feed M cfg = Some f"
    and rest: "and_then f (\<lambda>feed. and_then (build_preview M starts cfg) (\<lambda>preview. Ok (d0, feed, preview))) = Ok (d, feed, preview)"
    by (cases "build_decider M h cfg") (auto simp: run_setup_def bind_Some_iff split: option.splits)
  from rest have "d0 = d" "f = Ok feed" by (auto simp: and_then_def split: sum.splits)
  with d0 have d: "build_decider M h cfg = Ok d" by simp
  note \<open>f = Ok feed\<close>
  with f assms(2) obtain r where r: "listed_feed M cfg = Some r" "map_sum id Listed r = Ok feed"
    by (auto simp: build_feed_def)
  with d show ?thesis by (cases r) (auto intro: that)
qed

text \<open>
  C1. What the run command does to the books. Whatever the configuration, the feed, the model behind
  the decider and the machine: if a run comes to its end, there are fills that lead from the
  ledger it started with to the one it ends with, and every one of them answers an order of
  positive size that the gate of the configuration accepted at that moment; with the kill
  switch of the configuration on there are none. In arithmetic that does not round, over a
  ledger without short positions, none gets short, and cash, cost and profit balance up to the
  fees of the buys. A store that took every fill holds exactly these after those it had, and the
  preview of them, for whatever wallets, does not stop the run.
\<close>

theorem configured_run_is_gated:
  assumes "run_command M h c starts polls PS db sched extra cfg s = Some (Some out)" and "outcome_ledger out = Some p"
  shows "\<exists>fs. gated_trail (rn_arith M) (risk_to_core (ac_risk cfg)) (start_ledger cfg s) fs
    \<and> apply_fills (rn_arith M) (start_ledger cfg s) fs = Some p
    \<and> (rs_kill_switch (ac_risk cfg) \<longrightarrow> fs = [])
    \<and> (rn_arith M = exact_arith \<and> portfolio_wf (start_ledger cfg s) \<and> long_only (start_ledger cfg s) \<longrightarrow>
        (\<forall>a. 0 \<le> position p a)
        \<and> pf_cash p + cost_basis p - pf_realized_pnl p + sum_list (map buy_fee fs)
          = pf_cash (start_ledger cfg s) + cost_basis (start_ledger cfg s) - pf_realized_pnl (start_ledger cfg s))
    \<and> (\<forall>s' ws. out = Stored s' ws \<and> (\<forall>env. ps_db PS env AppendFill = None) \<and> lost ws = 0 \<longrightarrow>
        st_fills s' = st_fills s @ map (fill_to_row (ps_codec PS)) fs)
    \<and> (\<forall>order (lp :: 'k live_preview). \<exists>ns. preview_notes (rn_arith M) order lp fs = Some ns)"
proof -
  from assms obtain d ts st where run: "run_loop (rn_arith M) (built_decide M) (risk_to_core (ac_risk cfg)) ''run''
      (ge_starting_cash (ac_general cfg)) (if ge_state_path (ac_general cfg) = None then None else load_portfolio s) None d ts = Some st"
    and p: "p = rs_portfolio st"
    and rows: "\<And>s' ws. out = Stored s' ws \<Longrightarrow> (\<And>env. ps_db PS env AppendFill = None) \<Longrightarrow> lost ws = 0 \<Longrightarrow>
      st_fills s' = st_fills s @ map (fill_to_row (ps_codec PS)) (fills_of (rs_events st))"
    by (rule run_command_ran) blast
  let ?fs = "fills_of (rs_events st)" and ?p0 = "start_ledger cfg s"
  have p0: "unwrap_or (portfolio_new (ge_starting_cash (ac_general cfg)))
      (if ge_state_path (ac_general cfg) = None then None else load_portfolio s) = ?p0"
    by (simp add: start_ledger_def split: option.split)
  from run_loop_trail [OF run] p0 have trail: "gated_trail (rn_arith M) (risk_to_core (ac_risk cfg)) ?p0 ?fs"
    "apply_fills (rn_arith M) ?p0 ?fs = Some p"
    by (simp_all add: trail_inv_def p)
  have kill: "rs_kill_switch (ac_risk cfg) \<Longrightarrow> ?fs = []"
    using halted_trail [OF _ trail(1)] by (simp add: risk_to_core_def)
  have books: "(\<forall>a. 0 \<le> position p a) \<and> pf_cash p + cost_basis p - pf_realized_pnl p + sum_list (map buy_fee ?fs)
      = pf_cash ?p0 + cost_basis ?p0 - pf_realized_pnl ?p0"
    if exact: "rn_arith M = exact_arith" and wf: "portfolio_wf ?p0" "long_only ?p0"
  proof -
    let ?c0 = "pf_cash ?p0 + cost_basis ?p0 - pf_realized_pnl ?p0"
    from wf have inv: "ledger_inv ?c0 0 ?p0" by (simp add: ledger_inv_def)
    with built.run_covered [OF run [unfolded exact]] have "covered_fills ?p0 ?fs" by (simp add: p0)
    from apply_fills_keep_ledger [OF inv this] trail(2) exact have "ledger_inv ?c0 (sum_list (map buy_fee ?fs)) p" by simp
    then show ?thesis by (auto simp: ledger_inv_def intro: long_only_position)
  qed
  show ?thesis
    by (rule exI [of _ ?fs]) (use trail kill books rows preview_notes_total [OF trail(2)] in blast)
qed

definition demo_machine :: "(unit, unit, unit) machine" where
  "demo_machine = \<lparr>rn_arith = exact_arith, rn_packages = plain_packages, rn_environment = Map.empty, rn_vaults = \<lambda>_. NoFile,
     rn_client_failed = None, rn_narrow = id, rn_send = \<lambda>_ h. (Err (True, []), h), rn_from_json = \<lambda>_. Err [],
     rn_connect = \<lambda>_. None, rn_chain = demo_chain mute_node,
     rn_read_file = \<lambda>_. Ok (''0,ROAR,100'' @ newline_char # ''1,ROAR,110''),
     rn_parse_time = \<lambda>s. Ok (if s = ''0'' then 0 else 60), rn_parse_dec = \<lambda>s. Ok (if s = ''100'' then 100 else 110),
     rn_parse_key = demo_parse_key, rn_open_store = \<lambda>_. None\<rparr>"

definition demo_poll :: poll_env where
  "demo_poll = \<lparr>pe_fuel = 1, pe_before = 0, pe_after = 0, pe_now = 0, pe_tick = Runner.demo_env\<rparr>"

definition csv_config :: app_config where
  "csv_config = demo_config\<lparr>ac_general := general_default\<lparr>ge_feed_path := Some ''feed.csv''\<rparr>, ac_wallets := []\<rparr>"

lemma demo_feed_read:
  "csv_open (rn_read_file demo_machine) (rn_parse_time demo_machine) (rn_parse_dec demo_machine) ''feed.csv''
     = Ok [\<lparr>tk_at = 0, tk_symbol = ''ROAR'', tk_price = 100\<rparr>, \<lparr>tk_at = 60, tk_symbol = ''ROAR'', tk_price = 110\<rparr>]"
  by code_simp

lemma demo_run:
  "\<exists>st. run_loop exact_arith (built_decide demo_machine) (risk_to_core risk_section_default) ''run'' 1000 None None (Rules default_rule_config)
     [(\<lparr>tk_at = 0, tk_symbol = ''ROAR'', tk_price = 100\<rparr>, Runner.demo_env),
      (\<lparr>tk_at = 60, tk_symbol = ''ROAR'', tk_price = 110\<rparr>, Runner.demo_env)] = Some st \<and> pf_cash (rs_portfolio st) < 1000
       \<and> fills_of (rs_events st) \<noteq> []"
  by (simp add: run_eval built_decide_def demo_machine_def rule_decider_def rule_decide_def below_floor_def default_rule_config_def
      Runner.demo_env_def risk_to_core_def risk_section_default_def)

lemma csv_run:
  "\<exists>st. run_command demo_machine () () [] [demo_poll, demo_poll, demo_poll] demo_persistence (\<lambda>_. None) (\<lambda>_. (0, 1)) 0
       csv_config store_empty = Some (Some (Unstored st)) \<and> pf_cash (rs_portfolio st) < 1000 \<and> fills_of (rs_events st) \<noteq> []"
proof -
  have cfg: "ge_state_path (ac_general csv_config) = None" "ge_decider (ac_general csv_config) = ''rule''"
    "ge_feed_path (ac_general csv_config) = Some ''feed.csv''" "ch_enabled (ac_chain csv_config) = False"
    "ac_wallets csv_config = []" "ac_risk csv_config = risk_section_default" "ge_starting_cash (ac_general csv_config) = 1000"
    by (simp_all add: csv_config_def demo_config_def general_default_def chain_default_def)
  have ready: "run_setup demo_machine () [] csv_config = Some (Ok (Rules default_rule_config,
      Listed [\<lparr>tk_at = 0, tk_symbol = ''ROAR'', tk_price = 100\<rparr>, \<lparr>tk_at = 60, tk_symbol = ''ROAR'', tk_price = 110\<rparr>], None))"
    using demo_feed_read
    by (simp add: run_setup_def build_decider_def build_feed_def listed_feed_def build_preview_def preview_build_def cfg)
  obtain st where st: "run_loop exact_arith (built_decide demo_machine) (risk_to_core risk_section_default) ''run'' 1000 None None
      (Rules default_rule_config) [(\<lparr>tk_at = 0, tk_symbol = ''ROAR'', tk_price = 100\<rparr>, Runner.demo_env),
      (\<lparr>tk_at = 60, tk_symbol = ''ROAR'', tk_price = 110\<rparr>, Runner.demo_env)] = Some st" "pf_cash (rs_portfolio st) < 1000" "fills_of (rs_events st) \<noteq> []"
    using demo_run by blast
  have "\<not> te_shutdown Runner.demo_env" by (simp add: Runner.demo_env_def)
  with st(1) have run: "run_command demo_machine () () [] [demo_poll, demo_poll, demo_poll] demo_persistence (\<lambda>_. None) (\<lambda>_. (0, 1)) 0
      csv_config store_empty = Some (Some (Unstored st))"
    by (simp add: run_command_def ready cfg feed_tick_def next_tick_def demo_poll_def) (simp add: demo_machine_def)
  with st(2,3) show ?thesis by blast
qed

theorem configured_run_is_gated_witness:
  "\<exists>st fs. run_command demo_machine () () [] [demo_poll, demo_poll, demo_poll] demo_persistence (\<lambda>_. None) (\<lambda>_. (0, 1)) 0
       csv_config store_empty = Some (Some (Unstored st))
     \<and> gated_trail exact_arith (risk_to_core risk_section_default) (portfolio_new 1000) fs \<and> fs \<noteq> []
     \<and> apply_fills exact_arith (portfolio_new 1000) fs = Some (rs_portfolio st)"
proof -
  have cfg: "ge_state_path (ac_general csv_config) = None" "ac_risk csv_config = risk_section_default"
    "ge_starting_cash (ac_general csv_config) = 1000"
    by (simp_all add: csv_config_def demo_config_def general_default_def)
  from csv_run obtain st where run: "run_command demo_machine () () [] [demo_poll, demo_poll, demo_poll] demo_persistence (\<lambda>_. None)
      (\<lambda>_. (0, 1)) 0 csv_config store_empty = Some (Some (Unstored st))" and cash: "pf_cash (rs_portfolio st) < 1000" by blast
  have A: "rn_arith demo_machine = exact_arith" by (simp add: demo_machine_def)
  have start: "start_ledger csv_config store_empty = portfolio_new 1000" by (simp add: start_ledger_def cfg)
  from configured_run_is_gated [OF run, of "rs_portfolio st"] obtain fs where
    fs: "gated_trail exact_arith (risk_to_core risk_section_default) (portfolio_new 1000) fs"
      "apply_fills exact_arith (portfolio_new 1000) fs = Some (rs_portfolio st)"
    by (auto simp: outcome_ledger_def A start cfg)
  have "fs \<noteq> []"
  proof
    assume "fs = []"
    with fs(2) have "rs_portfolio st = portfolio_new 1000" by simp
    with cash show False by (simp add: portfolio_new_def)
  qed
  with run fs show ?thesis by blast
qed

text \<open>
  A validated configuration starts. What validation leaves open is what the machine has: when
  the key of the model is found and its client can be built, the keys of the wallets are found
  and parse, the database opens, the node is reached and the file of the feed can be read, then
  nothing stops the run before its loop.
\<close>

theorem validated_run_starts:
  assumes "validate E cfg = Ok ()" and "length starts = length (ac_wallets cfg)"
    and "ge_decider (ac_general cfg) = ''ai'' \<or> ac_wallets cfg \<noteq> [] \<Longrightarrow> machine_vault M = Ok (path, get)"
    and "ge_decider (ac_general cfg) = ''ai'' \<Longrightarrow> resolve_ref (as_api_key (ac_ai cfg)) get = Ok (Some key) \<and> rn_client_failed M = None"
    and "\<And>w. w \<in> set (ac_wallets cfg) \<Longrightarrow>
      signer_of \<lparr>kp_parse = rn_parse_key M, kp_get = get\<rparr> (wallet_to_core w) \<noteq> None"
    and "\<And>p. ge_state_path (ac_general cfg) = Some p \<Longrightarrow> rn_open_store M p = None"
    and "ch_enabled (ac_chain cfg) \<Longrightarrow> rn_connect M (ch_rpc_url (ac_chain cfg)) = None"
    and "\<And>p. \<not> ch_enabled (ac_chain cfg) \<Longrightarrow> ge_feed_path (ac_general cfg) = Some p \<Longrightarrow>
      is_ok (csv_open (rn_read_file M) (rn_parse_time M) (rn_parse_dec M) p)"
    and "\<not> ch_enabled (ac_chain cfg) \<Longrightarrow> ge_feed_path (ac_general cfg) = None \<Longrightarrow> demo_feed (rn_arith M) \<noteq> None"
  shows "\<exists>d feed preview. run_setup M h starts cfg = Some (Ok (d, feed, preview))
    \<and> (ac_wallets cfg \<noteq> [] \<longrightarrow> (\<exists>lp. preview = Some lp \<and> dom (lp_wallets lp) = set (map we_name (ac_wallets cfg))))"
proof -
  from assms(1) have valid: "valid_config E cfg" by (simp add: validate_iff)
  then have "ge_decider (ac_general cfg) = ''rule'' \<or> ge_decider (ac_general cfg) = ''ai''" by (auto simp: valid_config_def)
  then obtain d where d: "build_decider M h cfg = Ok d"
    using assms(3,4) by (auto simp: build_decider_def openai_new_def)
  have state: "(case ge_state_path (ac_general cfg) of None \<Rightarrow> None | Some path \<Rightarrow> rn_open_store M path) = None"
    using assms(6) by (simp split: option.split)
  obtain feed where feed: "build_feed M cfg = Some (Ok feed)"
  proof (cases "ch_enabled (ac_chain cfg)")
    case True
    with assms(7) show ?thesis by (cases "resolve_token (ch_denom (ac_chain cfg))") (auto simp: build_feed_def intro: that)
  next
    case False
    with assms(8,9) obtain listed where "listed_feed M cfg = Some (Ok listed)"
      by (cases "ge_feed_path (ac_general cfg)") (fastforce simp: listed_feed_def is_ok_def split: sum.splits)+
    with False show ?thesis by (intro that) (simp add: build_feed_def)
  qed
  obtain preview where preview: "build_preview M starts cfg = Ok preview"
    and names: "ac_wallets cfg \<noteq> [] \<Longrightarrow> \<exists>lp. preview = Some lp \<and> dom (lp_wallets lp) = set (map we_name (ac_wallets cfg))"
  proof (cases "ac_wallets cfg = []")
    case True
    then show ?thesis by (intro that) (auto simp: build_preview_def preview_build_def)
  next
    case False
    from validated_preview_builds [OF assms(1) False assms(2), of "rn_parse_key M" get] assms(5) obtain lp where
      lp: "preview_build (rn_parse_key M) (Ok get) starts cfg = Ok (Some lp)" "dom (lp_wallets lp) = set (map we_name (ac_wallets cfg))"
      by (auto simp: list_all_iff)
    with assms(3) False show ?thesis by (intro that [of "Some lp"]) (simp_all add: build_preview_def)
  qed
  with d feed state show ?thesis by (auto simp: run_setup_def and_then_def)
qed

text \<open>A machine whose vault holds the key of the one wallet.\<close>

theorem validated_run_starts_witness:
  "\<exists>d feed lp. run_setup (demo_machine\<lparr>rn_environment := [passphrase_env \<mapsto> ''pw'']\<rparr>) () [0]
       (csv_config\<lparr>ac_wallets := [\<lparr>we_name = ''main'', we_key_ref = ''key'', we_allowed_symbols = [], we_max_tx_count = 0,
         we_max_notional = 0, we_max_duration_secs = 0\<rparr>]\<rparr>) = Some (Ok (d, feed, Some lp))
     \<and> dom (lp_wallets lp) = {''main''}"
proof -
  let ?M = "demo_machine\<lparr>rn_environment := [passphrase_env \<mapsto> ''pw'']\<rparr>"
  let ?cfg = "csv_config\<lparr>ac_wallets := [\<lparr>we_name = ''main'', we_key_ref = ''key'', we_allowed_symbols = [], we_max_tx_count = 0,
         we_max_notional = 0, we_max_duration_secs = 0\<rparr>]\<rparr>"
  have valid: "validate Config.demo_env ?cfg = Ok ()"
    using demo_config_valid unfolding validate_iff
    by (simp add: valid_config_def csv_config_def demo_config_def general_default_def valid_wallet_def starts_with_def)
  have cfg: "ge_decider (ac_general ?cfg) = ''rule''" "ge_state_path (ac_general ?cfg) = None" "ch_enabled (ac_chain ?cfg) = False"
    "ge_feed_path (ac_general ?cfg) = Some ''feed.csv''"
    by (simp_all add: csv_config_def demo_config_def general_default_def chain_default_def)
  have csv: "is_ok (csv_open (rn_read_file ?M) (rn_parse_time ?M) (rn_parse_dec ?M) ''feed.csv'')"
    using demo_feed_read by (simp add: is_ok_def)
  obtain path get where vault: "machine_vault ?M = Ok (path, get)" by (simp add: vault_reader_def open_vault_def)
  have key: "signer_of \<lparr>kp_parse = rn_parse_key ?M, kp_get = get\<rparr> (wallet_to_core w) \<noteq> None" if "w \<in> set (ac_wallets ?cfg)" for w
    using that by (simp add: signer_of_def wallet_to_core_def resolve_ref_def strip_prefix_def starts_with_def demo_machine_def demo_parse_key_def)
  from validated_run_starts [OF valid, of "[0]" ?M path get] vault cfg csv key show ?thesis
    by (fastforce simp: csv_config_def)
qed

end
