(* ===== verification/Command_Line.thy ===== *)
theory Command_Line
  imports Run_Setup
begin

text \<open>
  The command line of \<open>crates/cli/src/main.rs\<close>: which command its arguments ask for, and the
  commands that print wallets, \<open>wallet_cmd.rs\<close> and \<open>wallets_cmd.rs\<close>. The lemmas show that a
  command that takes a configuration only gets a valid one, and that what is printed of wallets
  depends on their keys through their addresses alone.
\<close>

section \<open>Which command\<close>

datatype invocation =
    CmdSecrets "string list"
  | CmdChainProbe "string list"
  | CmdChainPrice "string list"
  | CmdDexSimulate "string list"
  | CmdRoute "string list"
  | CmdReconcile "string list"
  | CmdWalletAddress "string list"
  | CmdDemo
  | CmdRun app_config
  | CmdBacktest app_config
  | CmdServe app_config string
  | CmdCheck app_config
  | CmdWallets app_config
  | CmdBackup app_config string
  | CmdRestore app_config string bool
  | CmdUsage
  | CmdBadConfig config_error

definition with_config ::
    "(string \<Rightarrow> config_error + app_config) \<Rightarrow> string list \<Rightarrow> (app_config \<Rightarrow> string \<Rightarrow> invocation) \<Rightarrow> invocation" where
  "with_config load_file args k = (case args of
       [] \<Rightarrow> CmdUsage
     | path # _ \<Rightarrow> (case load_file path of Inl e \<Rightarrow> CmdBadConfig e | Inr cfg \<Rightarrow> k cfg path))"

definition parse_invocation :: "(string \<Rightarrow> config_error + app_config) \<Rightarrow> string list \<Rightarrow> invocation" where
  "parse_invocation load_file argv = (case argv of
       [] \<Rightarrow> CmdUsage
     | cmd # args \<Rightarrow>
         if cmd = ''secrets'' then CmdSecrets args
         else if cmd = ''chain-probe'' then CmdChainProbe args
         else if cmd = ''chain-price'' then CmdChainPrice args
         else if cmd = ''dex-simulate'' then CmdDexSimulate args
         else if cmd = ''route'' then CmdRoute args
         else if cmd = ''reconcile'' then CmdReconcile args
         else if cmd = ''wallet-address'' then CmdWalletAddress args
         else if cmd = ''demo'' then CmdDemo
         else if cmd = ''run'' then with_config load_file args (\<lambda>cfg _. CmdRun cfg)
         else if cmd = ''backtest'' then with_config load_file args (\<lambda>cfg _. CmdBacktest cfg)
         else if cmd = ''serve'' then with_config load_file args CmdServe
         else if cmd = ''check'' then with_config load_file args (\<lambda>cfg _. CmdCheck cfg)
         else if cmd = ''wallets'' then with_config load_file args (\<lambda>cfg _. CmdWallets cfg)
         else if cmd = ''backup'' then (case drop 1 args of
             [] \<Rightarrow> CmdUsage
           | dest # _ \<Rightarrow> with_config load_file args (\<lambda>cfg _. CmdBackup cfg dest))
         else if cmd = ''restore'' then (case drop 1 args of
             [] \<Rightarrow> CmdUsage
           | from_dir # others \<Rightarrow> with_config load_file args (\<lambda>cfg _. CmdRestore cfg from_dir (take 1 others = [''--force''])))
         else CmdUsage)"

text \<open>The configuration that a command is given.\<close>

definition config_of :: "invocation \<Rightarrow> app_config option" where
  "config_of what = (case what of
       CmdRun cfg \<Rightarrow> Some cfg | CmdBacktest cfg \<Rightarrow> Some cfg | CmdServe cfg _ \<Rightarrow> Some cfg | CmdCheck cfg \<Rightarrow> Some cfg
     | CmdWallets cfg \<Rightarrow> Some cfg | CmdBackup cfg _ \<Rightarrow> Some cfg | CmdRestore cfg _ _ \<Rightarrow> Some cfg | _ \<Rightarrow> None)"

definition check_command :: "app_config \<Rightarrow> printed" where
  "check_command cfg = ([[Lit ''ok: '', ShowInt (int (length (cs_leaders (ac_copytrade cfg)))), Lit '' leaders, allowlist '',
     ShowInt (int (card (rs_allowlist (ac_risk cfg)))), Lit '' symbols, mode = paper'']], EndsWell)"

section \<open>Wallets\<close>

definition wallet_address ::
    "(bytes \<Rightarrow> string) \<Rightarrow> (string \<Rightarrow> signer_error + 'k local_signer)
      \<Rightarrow> vault_error + string \<times> (string \<Rightarrow> vault_error + string option) \<Rightarrow> string list \<Rightarrow> printed"
where
  "wallet_address to_lower_hex parse vault args = (case args of
       [] \<Rightarrow> ([], ShowsUsage)
     | name # _ \<Rightarrow> (case vault of
         Inl e \<Rightarrow> ([], EndsWith [[Lit ''opening the vault''], show_vault_error [] e])
       | Inr (path, get) \<Rightarrow> (case get name of
           Inl e \<Rightarrow> ([], EndsWith [[Lit ''reading the vault''], show_vault_error path e])
         | Inr None \<Rightarrow> ([], EndsWith [[Lit ''no secret named '', Lit name, Lit ('' '' @ em_dash @ '' run `sherwood secrets set ''),
             Lit name, Lit ''` first'']])
         | Inr (Some secret) \<Rightarrow> (case parse secret of
             Inl e \<Rightarrow> ([], EndsWith [[Lit name, Lit '' is not a valid secp256k1 private key: ''] @ show_signer_error e])
           | Inr signer \<Rightarrow> ([[Lit (signer_address_hex to_lower_hex (ls_address signer))]], EndsWell)))))"

fun join_with :: "string \<Rightarrow> string list \<Rightarrow> string" where
  "join_with sep [] = []"
| "join_with sep [s] = s"
| "join_with sep (s # ss) = s @ sep @ join_with sep ss"

definition budget_line :: "wallet_budget_view \<Rightarrow> message option" where
  "budget_line b =
     (if wv_tx_cap b = 0 \<and> wv_notional_cap b = 0 \<and> wv_duration_cap_secs b = 0 then None
      else Some [Lit ''  budget: '', ShowInt (uint (wv_tx_used b)), Lit ''/'', ShowInt (uint (wv_tx_cap b)), Lit '' tx, '',
        Show (wv_notional_used b), Lit ''/'', Show (wv_notional_cap b), Lit '' notional, '', ShowInt (wv_elapsed_secs b),
        Lit ''s/'', ShowInt (wv_duration_cap_secs b), Lit ''s'', Lit (if wv_breached b then '' (BREACHED)'' else [])])"

definition wallet_lines :: "(bytes \<Rightarrow> string) \<Rightarrow> (string \<Rightarrow> instant) \<Rightarrow> app_config \<Rightarrow> 'k registry \<Rightarrow> string \<Rightarrow> message list" where
  "wallet_lines to_lower_hex now cfg reg name = (case registry_get reg name of
       None \<Rightarrow> []
     | Some w \<Rightarrow>
         [[Lit name, Lit ''  '', Lit (wallet_address_hex to_lower_hex w)]]
         @ (case find (\<lambda>e. we_name e = name) (ac_wallets cfg) of
              None \<Rightarrow> []
            | Some entry \<Rightarrow> if we_allowed_symbols entry = [] then []
                else [[Lit ''  symbols: '', Lit (join_with '', '' (we_allowed_symbols entry))]])
         @ (case budget_line (wallet_view (now name) w) of None \<Rightarrow> [] | Some l \<Rightarrow> [l]))"

text \<open>\<open>order\<close> is the order in which the hash map gives the names, \<open>starts\<close> when the budgets begin.\<close>

definition wallets_command ::
    "(bytes \<Rightarrow> string) \<Rightarrow> (string \<Rightarrow> signer_error + 'k local_signer)
      \<Rightarrow> vault_error + string \<times> (string \<Rightarrow> vault_error + string option) \<Rightarrow> instant list \<Rightarrow> (string \<Rightarrow> instant)
      \<Rightarrow> string list \<Rightarrow> app_config \<Rightarrow> printed"
where
  "wallets_command to_lower_hex parse vault starts now order cfg =
     (if ac_wallets cfg = [] then ([[Lit ''no [[wallets]] configured'']], EndsWell)
      else (case vault of
          Inl e \<Rightarrow> ([], EndsWith [[Lit ''opening the vault''], show_vault_error [] e])
        | Inr (path, get) \<Rightarrow>
          (case registry_load \<lparr>kp_parse = parse, kp_get = get\<rparr> (zip (map wallet_to_core (ac_wallets cfg)) starts) of
             Inl e \<Rightarrow> ([], EndsWith [[Lit ''loading the wallet registry''], show_wallet_error path e])
           | Inr reg \<Rightarrow> (concat (map (wallet_lines to_lower_hex now cfg reg) (sort order)), EndsWell))))"

section \<open>Properties\<close>

text \<open>
  A command that takes a configuration only gets a valid one. Whatever the arguments and the
  file: a run, a backtest, a server, a check, a list of wallets, a backup or a restore is given
  a configuration that satisfies every constraint, paper mode among them; any other file ends
  the command with the reason, before anything is opened.
\<close>

theorem commands_get_valid_configurations:
  assumes "parse_invocation (load E read_file from_toml) argv = what" and "config_of what = Some cfg"
  shows "valid_config E cfg \<and> ge_mode (ac_general cfg) = ''paper''
    \<and> (\<exists>path raw. argv ! 1 = path \<and> read_file path = Ok raw \<and> from_toml raw = Ok cfg)"
proof -
  have loads: "valid_config E cfg \<and> ge_mode (ac_general cfg) = ''paper''
      \<and> (\<exists>raw. read_file path = Ok raw \<and> from_toml raw = Ok cfg)"
    if "load E read_file from_toml path = Ok cfg" for path
    using that by (auto simp: load_def validate_iff valid_config_def split: sum.splits)
  obtain cmd path others where argv: "argv = cmd # path # others" and "load E read_file from_toml path = Ok cfg"
    using assms
    by (auto simp: parse_invocation_def with_config_def config_of_def split: list.splits if_splits sum.splits)
  from loads [OF this(2)] argv show ?thesis by simp
qed

theorem commands_get_valid_configurations_witness:
  "\<exists>cfg. parse_invocation (load Config.demo_env (\<lambda>_. Ok []) (\<lambda>_. Ok demo_config)) [''run'', ''c.toml''] = CmdRun cfg
     \<and> ge_mode (ac_general cfg) = ''paper''"
proof -
  have "parse_invocation (load Config.demo_env (\<lambda>_. Ok []) (\<lambda>_. Ok demo_config)) [''run'', ''c.toml''] = CmdRun demo_config"
    by (simp add: parse_invocation_def with_config_def load_def demo_config_valid)
  with commands_get_valid_configurations [OF this, of demo_config] show ?thesis by (simp add: config_of_def)
qed

text \<open>Two wallets that differ at most in the key itself, and two registries of such.\<close>

definition same_public :: "'k wallet \<Rightarrow> 'k wallet \<Rightarrow> bool" where
  "same_public v w \<longleftrightarrow> wa_name v = wa_name w \<and> ls_address (wa_signer v) = ls_address (wa_signer w)
     \<and> wa_allowed_symbols v = wa_allowed_symbols w \<and> wa_limits v = wa_limits w \<and> wa_budget v = wa_budget w"

definition same_address :: "(string \<Rightarrow> signer_error + 'k local_signer) \<Rightarrow> string \<Rightarrow> string \<Rightarrow> bool" where
  "same_address parse a b \<longleftrightarrow> map_sum id ls_address (parse a) = map_sum id ls_address (parse b)"

lemma same_address_cases:
  assumes "same_address parse a b"
  obtains (bad) e where "parse a = Err e" "parse b = Err e"
  | (good) s t where "parse a = Ok s" "parse b = Ok t" "ls_address s = ls_address t"
  using assms by (cases "parse a"; cases "parse b") (auto simp: same_address_def)

lemma same_address_refl [simp]: "same_address parse a a"
  by (simp add: same_address_def)

lemma resolve_ref_public:
  assumes "\<And>n. rel_sum (=) (rel_option (same_address parse)) (get n) (get' n)"
  shows "rel_sum (=) (rel_option (same_address parse)) (resolve_ref r get) (resolve_ref r get')"
  using assms by (auto simp: resolve_ref_def split: option.split)

lemma wallet_signer_public:
  assumes "\<And>n. rel_sum (=) (rel_option (same_address parse)) (get n) (get' n)"
  shows "rel_sum (=) (\<lambda>s t. ls_address s = ls_address t) (wallet_signer \<lparr>kp_parse = parse, kp_get = get\<rparr> cfg)
     (wallet_signer \<lparr>kp_parse = parse, kp_get = get'\<rparr> cfg)"
proof -
  have "rel_sum (=) (rel_option (same_address parse)) (resolve_ref (wc_key_ref cfg) get) (resolve_ref (wc_key_ref cfg) get')"
    using assms by (rule resolve_ref_public)
  then show ?thesis
  proof (cases rule: rel_sum.cases)
    case (2 a b)
    from 2(3) show ?thesis
    proof (cases rule: option.rel_cases)
      case (Some x y)
      from Some(3) show ?thesis by (cases rule: same_address_cases) (auto simp: wallet_signer_def 2 Some)
    qed (simp add: wallet_signer_def 2)
  qed (simp add: wallet_signer_def)
qed

lemma load_wallets_public:
  assumes "\<And>cfg. rel_sum (=) (\<lambda>s t. ls_address s = ls_address t) (wallet_signer K cfg) (wallet_signer K' cfg)"
    and "\<And>n. rel_option same_public (reg n) (reg' n)"
  shows "rel_sum (=) (\<lambda>r r'. \<forall>n. rel_option same_public (r n) (r' n)) (load_wallets K cfgs reg) (load_wallets K' cfgs reg')"
  using assms(2)
proof (induction cfgs arbitrary: reg reg')
  case (Cons c cfgs)
  obtain cfg now where c: "c = (cfg, now)" by (cases c)
  have known: "reg (wc_name cfg) = None \<longleftrightarrow> reg' (wc_name cfg) = None" using Cons.prems [of "wc_name cfg"] by (auto elim: option.rel_cases)
  from assms(1) [of cfg] show ?case
  proof (cases rule: rel_sum.cases)
    case (1 e e')
    then show ?thesis using known by (simp add: c and_then_def)
  next
    case (2 s t)
    have "rel_option same_public ((reg(wc_name cfg \<mapsto> new_wallet cfg now s)) n) ((reg'(wc_name cfg \<mapsto> new_wallet cfg now t)) n)" for n
    proof -
      have "same_public (new_wallet cfg now s) (new_wallet cfg now t)" using 2(3) by (simp add: same_public_def new_wallet_def)
      with Cons.prems [of n] show ?thesis by simp
    qed
    with Cons.IH [of "reg(wc_name cfg \<mapsto> new_wallet cfg now s)" "reg'(wc_name cfg \<mapsto> new_wallet cfg now t)"] 2 known
    show ?thesis by (simp add: c and_then_def del: fun_upd_apply)
  qed
qed simp

lemma wallet_lines_public:
  assumes "\<And>n. rel_option same_public (reg n) (reg' n)"
  shows "wallet_lines to_lower_hex now cfg reg name = wallet_lines to_lower_hex now cfg reg' name"
  using assms [of name]
  by (cases rule: option.rel_cases)
    (simp_all add: wallet_lines_def registry_get_def same_public_def wallet_address_hex_def wallet_view_def)

text \<open>
  C26. Keys are not printed. Take two vaults that fail alike, hold the same names, and under each
  name two texts from which the same address or the same error is derived. Both commands that
  print wallets then print the same and end the same: what they show depends on a key through
  its address alone.
\<close>

theorem wallets_show_only_addresses:
  assumes "\<And>n. rel_sum (=) (rel_option (\<lambda>a b. map_sum id ls_address (parse a) = map_sum id ls_address (parse b))) (get n) (get' n)"
  shows "wallets_command to_lower_hex parse (Ok (path, get)) starts now order cfg
      = wallets_command to_lower_hex parse (Ok (path, get')) starts now order cfg
    \<and> wallet_address to_lower_hex parse (Ok (path, get)) args = wallet_address to_lower_hex parse (Ok (path, get')) args"
proof
  have "(\<lambda>a b. map_sum id ls_address (parse a) = map_sum id ls_address (parse b)) = same_address parse"
    by (simp add: same_address_def fun_eq_iff)
  with assms have public: "rel_sum (=) (rel_option (same_address parse)) (get n) (get' n)" for n by simp
  let ?load = "\<lambda>get. registry_load \<lparr>kp_parse = parse, kp_get = get\<rparr> (zip (map wallet_to_core (ac_wallets cfg)) starts)"
  have "rel_sum (=) (\<lambda>r r'. \<forall>n. rel_option same_public (r n) (r' n)) (?load get) (?load get')"
    unfolding registry_load_def by (rule load_wallets_public [OF wallet_signer_public [OF public]]) simp
  then show "wallets_command to_lower_hex parse (Ok (path, get)) starts now order cfg
      = wallets_command to_lower_hex parse (Ok (path, get')) starts now order cfg"
  proof (cases rule: rel_sum.cases)
    case (2 r r')
    from 2(3) have "wallet_lines to_lower_hex now cfg r = wallet_lines to_lower_hex now cfg r'"
      by (intro ext wallet_lines_public) blast
    with 2 show ?thesis by (simp add: wallets_command_def)
  qed (simp add: wallets_command_def)
  show "wallet_address to_lower_hex parse (Ok (path, get)) args = wallet_address to_lower_hex parse (Ok (path, get')) args"
  proof (cases args)
    case (Cons name others)
    from public [of name] show ?thesis
    proof (cases rule: rel_sum.cases)
      case (2 a b)
      from 2(3) show ?thesis
      proof (cases rule: option.rel_cases)
        case (Some x y)
        from Some(3) show ?thesis by (cases rule: same_address_cases) (auto simp: wallet_address_def Cons 2 Some)
      qed (simp add: wallet_address_def Cons 2)
    qed (simp add: wallet_address_def Cons)
  qed (simp add: wallet_address_def)
qed

text \<open>Two texts of one key, with and without the prefix, show alike.\<close>

theorem wallets_show_only_addresses_witness:
  "wallet_address (\<lambda>_. ''00'') demo_parse_key (Ok ([], \<lambda>_. Ok (Some ''0x11''))) [''main'']
     = wallet_address (\<lambda>_. ''00'') demo_parse_key (Ok ([], \<lambda>_. Ok (Some ''11''))) [''main'']"
  by (rule wallets_show_only_addresses [THEN conjunct2]) (simp add: demo_parse_key_def)

end
