(* ===== verification/Replay.thy ===== *)
theory Replay
  imports Run_Setup
begin

text \<open>
  A backtest against the run of the same configuration (\<open>run_backtest\<close> and \<open>run\<close> of
  \<open>crates/cli/src/runner.rs\<close>): recording what a run does changes nothing of what it does, so a
  backtest reports the run.
\<close>

section \<open>Recording is passive\<close>

lemma place_order_recorded:
  assumes "place_order A cfg env s px eq ord st = Some st'" and "rs_recorder st = None"
  shows "rs_recorder st' = None
    \<and> (\<exists>R'. place_order A cfg env s px eq ord (st\<lparr>rs_recorder := Some R\<rparr>) = Some (st'\<lparr>rs_recorder := Some R'\<rparr>))"
proof -
  let ?ctx = "\<lambda>u. \<lparr>gc_portfolio = rs_portfolio st, gc_ref_price = Some px, gc_equity = eq, gc_unrealized_pnl = u,
     gc_last_order_at = rs_last_order st s, gc_now = te_gate_now env\<rparr>"
  from assms(1) obtain u v where u: "unrealized_pnl A (rs_portfolio st) (rs_latest st) = Some u"
    and v: "check A cfg ord (?ctx u) = Some v"
    by (auto simp: place_order_def bind_Some_iff)
  show ?thesis
  proof (cases v)
    case (Inl r)
    with assms u v show ?thesis by (cases st) (auto simp: place_order_def)
  next
    case (Inr x)
    with assms(1) u v obtain out ex where "paper_execute A (rs_exec st) ord (te_exec_now env) = Some (out, ex)"
      by (auto simp: place_order_def bind_Some_iff)
    with assms u v Inr show ?thesis
      by (cases st; cases out) (auto simp: place_order_def bind_Some_iff push_fill_def)
  qed
qed

lemma equity_exact_total: "\<exists>e. equity exact_arith p price_of = Some e"
  by (simp add: equity_def equity_loop_exact)

lemma tick_step_recorded:
  assumes "tick_step exact_arith dcd cfg t env st = Some st'" and "rs_recorder st = None"
  shows "rs_recorder st' = None
    \<and> (\<exists>R'. tick_step exact_arith dcd cfg t env (st\<lparr>rs_recorder := Some R\<rparr>) = Some (st'\<lparr>rs_recorder := Some R'\<rparr>))"
proof -
  let ?px = "tk_price t" and ?s = "tk_symbol t" and ?a = "tick_asset t"
  let ?latest = "(rs_latest st)(?s \<mapsto> ?px)"
  from assms(1) obtain ch eq fr d ds sized st2 st3 where
    pre: "change_since exact_arith (unwrap_or ?px (rs_prev st ?s)) ?px = Some ch" "equity exact_arith (rs_portfolio st) ?latest = Some eq"
      "fraction_of_equity exact_arith (position (rs_portfolio st) ?a) ?px eq = Some fr"
      "dcd (rs_decider st) \<lparr>dc_snapshot = \<lparr>ms_asset = ?a, ms_price = ?px, ms_change_24h = ch, ms_liquidity = Some 250000,
         ms_at = tk_at t\<rparr>, dc_position = position (rs_portfolio st) ?a, dc_avg_cost = avg_cost (rs_portfolio st) ?a,
         dc_position_fraction = fr\<rparr> = Some (d, ds)"
      "size_decision exact_arith d ?a (position (rs_portfolio st) ?a) eq ?px (te_id_now env) = Some sized"
    and st2: "(case sized of None \<Rightarrow> Some (st\<lparr>rs_exec := set_price (rs_exec st) ?s ?px, rs_latest := ?latest, rs_decider := ds,
         rs_events := rs_events st @ (if is_hold d then [] else [Decided (rs_tick_no st) ?px (decision_tag d)])\<rparr>)
       | Some ord \<Rightarrow> place_order exact_arith cfg env ?s ?px eq ord (st\<lparr>rs_exec := set_price (rs_exec st) ?s ?px, rs_latest := ?latest,
         rs_decider := ds, rs_events := rs_events st @ (if is_hold d then [] else [Decided (rs_tick_no st) ?px (decision_tag d)])\<rparr>))
       = Some st2"
    and st3: "record_equity exact_arith st2 = Some st3"
    and st': "st' = st3\<lparr>rs_prev := (rs_prev st3)(?s \<mapsto> ?px), rs_tick_no := rs_tick_no st3 + 1\<rparr>"
    unfolding tick_step_def Let_def bind_Some_iff by (auto simp: bind_Some_iff split: prod.splits)
  let ?st1 = "st\<lparr>rs_exec := set_price (rs_exec st) ?s ?px, rs_latest := ?latest, rs_decider := ds,
         rs_events := rs_events st @ (if is_hold d then [] else [Decided (rs_tick_no st) ?px (decision_tag d)])\<rparr>"
  have order: "rs_recorder st2 = None \<and> (\<exists>R1. (case sized of None \<Rightarrow> Some (?st1\<lparr>rs_recorder := Some R\<rparr>)
      | Some ord \<Rightarrow> place_order exact_arith cfg env ?s ?px eq ord (?st1\<lparr>rs_recorder := Some R\<rparr>)) = Some (st2\<lparr>rs_recorder := Some R1\<rparr>))"
  proof (cases sized)
    case None
    with st2 assms(2) show ?thesis by auto
  next
    case (Some ord)
    with st2 place_order_recorded [of exact_arith cfg env ?s ?px eq ord ?st1 st2 R] assms(2) show ?thesis by simp
  qed
  then obtain R1 where R1: "(case sized of None \<Rightarrow> Some (?st1\<lparr>rs_recorder := Some R\<rparr>)
      | Some ord \<Rightarrow> place_order exact_arith cfg env ?s ?px eq ord (?st1\<lparr>rs_recorder := Some R\<rparr>)) = Some (st2\<lparr>rs_recorder := Some R1\<rparr>)" by blast
  from equity_exact_total obtain e where e: "equity exact_arith (rs_portfolio st2) (rs_latest st2) = Some e" by blast
  from order st3 have "st3 = st2" by (simp add: record_equity_def)
  with order st' have "rs_recorder st' = None" by simp
  moreover have "tick_step exact_arith dcd cfg t env (st\<lparr>rs_recorder := Some R\<rparr>) = Some (st'\<lparr>rs_recorder := Some (push_equity e R1)\<rparr>)"
  proof -
    have moved: "st\<lparr>rs_recorder := Some R, rs_exec := x, rs_latest := l, rs_decider := ds, rs_events := es\<rparr>
        = st\<lparr>rs_exec := x, rs_latest := l, rs_decider := ds, rs_events := es, rs_recorder := Some R\<rparr>" for x l es
      by (cases st) simp
    have last: "st2\<lparr>rs_recorder := S, rs_prev := p, rs_tick_no := n\<rparr> = st2\<lparr>rs_prev := p, rs_tick_no := n, rs_recorder := S\<rparr>" for S p n
      by (cases st2) simp
    have same: "rs_tick_no (st\<lparr>rs_recorder := Some R\<rparr>) = rs_tick_no st" by simp
    have "do {
        st2 \<leftarrow> (case sized of None \<Rightarrow> Some (?st1\<lparr>rs_recorder := Some R\<rparr>)
          | Some ord \<Rightarrow> place_order exact_arith cfg env ?s ?px eq ord (?st1\<lparr>rs_recorder := Some R\<rparr>));
        st3 \<leftarrow> record_equity exact_arith st2;
        Some (st3\<lparr>rs_prev := (rs_prev st3)(?s \<mapsto> ?px), rs_tick_no := rs_tick_no st3 + 1\<rparr>) }
      = Some (st'\<lparr>rs_recorder := Some (push_equity e R1)\<rparr>)"
      unfolding R1 st' \<open>st3 = st2\<close> by (simp add: record_equity_def e last)
    then show ?thesis
      unfolding tick_step_def Let_def same by (simp add: pre moved cong: option.case_cong)
  qed
  ultimately show ?thesis by blast
qed

lemma run_ticks_recorded:
  assumes "run_ticks exact_arith dcd cfg ts st = Some (b, st')" and "rs_recorder st = None"
  shows "rs_recorder st' = None
    \<and> (\<exists>R'. run_ticks exact_arith dcd cfg ts (st\<lparr>rs_recorder := Some R\<rparr>) = Some (b, st'\<lparr>rs_recorder := Some R'\<rparr>))"
  using assms
proof (induction ts arbitrary: st R)
  case (Cons te ts)
  obtain t env where te: "te = (t, env)" by (cases te)
  show ?case
  proof (cases "te_shutdown env")
    case False
    with Cons.prems te obtain st1 where one: "tick_step exact_arith dcd cfg t env st = Some st1"
      and rest: "run_ticks exact_arith dcd cfg ts st1 = Some (b, st')" by (auto simp: bind_Some_iff)
    from tick_step_recorded [OF one Cons.prems(2), of R] obtain R1 where R1: "rs_recorder st1 = None"
      "tick_step exact_arith dcd cfg t env (st\<lparr>rs_recorder := Some R\<rparr>) = Some (st1\<lparr>rs_recorder := Some R1\<rparr>)" by blast
    from Cons.IH [OF rest R1(1), of R1] R1(2) False te show ?thesis by simp
  qed (use Cons.prems te in auto)
qed auto

section \<open>The same ticks\<close>

lemma feed_ticks_listed:
  assumes "feed_ticks V polls (Listed ts) c = Some (Some xs)"
  shows "run_ticks A dcd cfg (zip ts (map pe_tick polls)) st = run_ticks A dcd cfg xs st"
  using assms
proof (induction polls arbitrary: ts xs st)
  case (Cons e es)
  show ?case
  proof (cases ts)
    case Nil
    with Cons.prems show ?thesis by (simp add: feed_tick_def next_tick_def)
  next
    case (Cons t ts')
    with Cons.prems Cons.IH [of ts'] show ?thesis
      by (auto simp: feed_tick_def next_tick_def split: if_splits Option.bind_split)
  qed
qed simp

section \<open>Properties\<close>

lemma run_loop_recorded:
  assumes "run_loop exact_arith dcd cfg label c None None d ts = Some st"
  obtains st' r where "run_loop exact_arith dcd cfg label' c None (Some recording_default) d ts = Some st'"
    and "rs_recorder st' = Some r" and "rec_fills r = fills_of (rs_events st)" and "rec_starting_cash r = c"
    and "rec_realized_pnl r = pf_realized_pnl (rs_portfolio st)"
    and "equity exact_arith (rs_portfolio st) (rs_latest st) = Some (rec_final_equity r)"
proof -
  from assms obtain b st1 final where run: "run_ticks exact_arith dcd cfg ts (run_start c None None d) = Some (b, st1)"
    and final: "equity exact_arith (rs_portfolio st1) (rs_latest st1) = Some final"
    and st: "st = st1\<lparr>rs_recorder := map_option (\<lambda>r. r\<lparr>rec_starting_cash := c, rec_final_equity := final,
         rec_realized_pnl := pf_realized_pnl (rs_portfolio st1)\<rparr>) (rs_recorder st1),
       rs_events := rs_events st1 @ [RunEnded label b (pf_cash (rs_portfolio st1)) (pf_realized_pnl (rs_portfolio st1))]\<rparr>"
    by (auto simp: run_loop_def bind_Some_iff)
  have fresh: "(run_start c None None d)\<lparr>rs_recorder := Some recording_default\<rparr> = run_start c None (Some recording_default) d"
    and "rs_recorder (run_start c None None d) = None"
    by (simp_all add: run_start_def)
  with run_ticks_recorded [OF run, of recording_default] obtain R where
    R: "run_ticks exact_arith dcd cfg ts (run_start c None (Some recording_default) d) = Some (b, st1\<lparr>rs_recorder := Some R\<rparr>)"
    by auto
  let ?r = "R\<lparr>rec_starting_cash := c, rec_final_equity := final, rec_realized_pnl := pf_realized_pnl (rs_portfolio st1)\<rparr>"
  obtain st' where st': "run_loop exact_arith dcd cfg label' c None (Some recording_default) d ts = Some st'"
    "rs_recorder st' = Some ?r" "fills_of (rs_events st') = fills_of (rs_events st1)"
    using R final by (simp add: run_loop_def)
  have "recorded_fills st' = Some (fills_of (rs_events st1))"
    using run_loop_trail [OF st'(1)] st'(2,3) by (simp add: trail_inv_def recorded_fills_def)
  with st' show ?thesis by (intro that [of st' ?r]) (simp_all add: st final recorded_fills_def)
qed



end
