(* ===== verification/Spec2Isabelle.thy ===== *)
theory Spec2Isabelle
  imports Agent_Session Serve_Setup Signer Chain_Commands Wallets Backtest Backup Screens Command_Line Replay
begin

text \<open>
  Sherwood is a trading agent: a loop that decides, gates, executes and books orders, and a
  control-plane server through which an agent's tool calls are gated, orders are approved by
  an operator and transactions are reconciled. This development models both and proves what
  they promise. File names below are under \<open>src/crates\<close>.

  The parts and the theories that model them, each with the names of the code:

  \<open>Prelude\<close>: results, panics, the question-mark operator, words. \<open>Decimal\<close>: decimal
  arithmetic and formatted messages. \<open>Core_Types\<close> (\<open>core/src/types.rs\<close>, \<open>feed.rs\<close>, \<open>clock.rs\<close>):
  assets, orders, fills, decisions, ticks. \<open>Text_Ops\<close>: the string operations of the
  standard library that the code uses.

  \<open>Portfolio\<close> (\<open>core/src/portfolio.rs\<close>): the ledger of cash, positions and average costs.
  \<open>Risk_Gate\<close> (\<open>core/src/risk.rs\<close>): every condition of an order, in the order of the code.
  \<open>Paper_Executor\<close> (\<open>execution/src/lib.rs\<close>): the simulated fill. \<open>Order_Parse\<close> and
  \<open>Hook\<close> (\<open>execution/src/order_parse.rs\<close>, \<open>hook.rs\<close>): from the arguments of a tool call
  to an order and to allow or deny. \<open>Rule_Decider\<close> (\<open>decision/src/lib.rs\<close>). \<open>Events\<close>
  (\<open>events/src/lib.rs\<close>). \<open>Runner\<close> (\<open>cli/src/runner.rs\<close>): the loop that ties them
  together, over a feed, until the feed ends or a shutdown is seen.

  \<open>Budgets\<close> (\<open>server/src/budget.rs\<close>, \<open>wallets/src/budget.rs\<close>), \<open>Approvals\<close>
  (\<open>server/src/approvals.rs\<close>), \<open>Store\<close> (\<open>store/src/lib.rs\<close>), \<open>Venue_Router\<close>
  (\<open>router/src/lib.rs\<close>), \<open>Reconcile\<close> (\<open>reconcile/src/lib.rs\<close>, \<open>cli/src/reconcile_cmd.rs\<close>,
  part of \<open>server/src/routes.rs\<close>), \<open>Server_Auth\<close> (\<open>server/src/auth.rs\<close>, \<open>error.rs\<close>,
  \<open>limit.rs\<close>, \<open>mw.rs\<close>, \<open>metrics.rs\<close>): the parts of the server. \<open>Control_Plane\<close>
  (\<open>server/src/state.rs\<close>, \<open>routes.rs\<close>): its state and its handlers. \<open>Server_Run\<close>: the
  handlers interleaved. \<open>Server_Views\<close> (\<open>routes.rs\<close>, \<open>metrics.rs\<close>): the activity, the event
  stream, the metrics page and the simulation of a swap. \<open>Server_Http\<close> (\<open>server/src/lib.rs\<close>,
  \<open>mw.rs\<close>): the router with its roles, limiter and counters. \<open>Agent_Session\<close>: what a history of
  requests means for the agent. \<open>Serve_Setup\<close>
  (\<open>cli/src/serve_cmd.rs\<close>, \<open>secrets_cmd.rs\<close>, \<open>config_ext.rs\<close>, \<open>config_store.rs\<close>,
  \<open>server/src/auth.rs\<close>): the vault of a machine, the tokens, the start of the server and the
  configuration file that it replaces.

  \<open>Bus\<close> (\<open>events/src/lib.rs\<close>): the channel of events and the loop of a subscriber. \<open>Launch\<close>
  (\<open>cli/src/runner.rs\<close>, \<open>store/src/lib.rs\<close>): a run with the subscriber that stores it.
  \<open>Run_Setup\<close> (\<open>cli/src/runner.rs\<close>, \<open>backtest.rs\<close>, \<open>decision/src/ai/openai_compat.rs\<close>): the run
  and the backtest command, from the configuration to the loop, and the request to a model.
  \<open>Chain_Commands\<close> (\<open>cli/src/chain_cmd.rs\<close>, \<open>chain_price_cmd.rs\<close>, \<open>dex_simulate_cmd.rs\<close>,
  \<open>route_cmd.rs\<close>, \<open>reconcile_cmd.rs\<close>, \<open>reconcile_preview.rs\<close>): the commands that read the
  chain. \<open>Command_Line\<close> (\<open>cli/src/main.rs\<close>, \<open>wallet_cmd.rs\<close>, \<open>wallets_cmd.rs\<close>): which command
  the arguments ask for, and the wallet commands.

  \<open>Ai_Decider\<close> (\<open>decision/src/ai.rs\<close>, \<open>ai/openai_compat.rs\<close>): the decider that asks a
  model. \<open>Bytes\<close>, \<open>Rlp\<close> and \<open>Signer\<close> (\<open>signer/src\<close>): RLP, the EIP-1559 envelope and
  the key holder. \<open>Abi\<close> and \<open>Rpc\<close> (\<open>chain/src/abi.rs\<close>, \<open>rpc.rs\<close>): the words and strings
  of contract calls, the calls of a node, the reader of logs and the HTTP client. \<open>Univ4\<close>
  (\<open>chain/src/keccak.rs\<close>, \<open>tokens.rs\<close>, \<open>erc20.rs\<close>, \<open>univ4.rs\<close>): tokens, amounts, pools
  and prices. \<open>Swap\<close> (\<open>dex/src\<close>): the calldata of a swap and its bounds. \<open>Dex_Preview\<close> (\<open>cli/src/dex_preview.rs\<close>): a swap from a
  node's answers. \<open>Chain_Feed\<close> (\<open>chain/src/feed.rs\<close>): prices polled from pools. \<open>Probe\<close>
  (\<open>chain/src/probe.rs\<close>, \<open>cli/src/live_preflight.rs\<close>): whether a token can be transferred, and
  the pre-flight of live mode.

  \<open>Config\<close> (\<open>config/src/lib.rs\<close>): the sections of the configuration and their validation.
  \<open>Lines\<close>: splitting a text. \<open>Vault\<close> (\<open>secrets/src/lib.rs\<close>): the encrypted file of secrets.
  \<open>Wallets\<close> (\<open>wallets/src/lib.rs\<close>, \<open>cli/src/config_ext.rs\<close>): the registry of wallets and the
  live preview of the loop. \<open>Screens\<close> (\<open>copytrade/src/lib.rs\<close>, \<open>sniper/src/lib.rs\<close>): copied
  trades and new pools. \<open>Backtest\<close> and \<open>Feeds\<close> (\<open>cli/src/backtest.rs\<close>, \<open>feed.rs\<close>): the analysis
  of a run and the feeds it runs on. \<open>Replay\<close>: a backtest against the run of the same
  configuration. \<open>Backup\<close> (\<open>cli/src/backup_cmd.rs\<close>): backup and restore.

  How the code is read:

  A \<open>Result\<close> is a sum, \<open>Err\<close> on the left; a panic is \<open>None\<close> around it, so a
  theorem that gives \<open>Some\<close> also says that nothing panics. The decimal type is outside the
  repository: a decimal is a rational and the four operations are the argument \<open>arith\<close>,
  which may round and may overflow (\<open>None\<close>); a property of amounts is stated for
  \<open>exact_arith\<close>, all others hold for every arithmetic. Machine integers are words. Clock
  readings are arguments, in nanoseconds, one per call of the clock in the code; durations
  are natural numbers of nanoseconds. A message is the list of its pieces, so that the values
  it reports can be compared. SQLite is lists of rows; SHA-256, JSON and the text form of
  decimals and times are arguments. A handler that waits is split into the step up to the
  wait and the step from it on.

  What the lemmas show. The gate: acceptance is exactly the declarative \<open>admissible\<close>, and a
  rejection is true. The ledger: an identity between equity, profits and fees that every
  history keeps. The loop: whatever the decider, every fill was gated, the fills replay to
  the ledger, the books balance and no position goes short under a decider that sells what
  it has; a shutdown and the kill switch stop it. The decider that asks a model trades only
  what a reply says. The chain: what is encoded reads back (words, RLP, swap and approval
  calldata, against readers written from the formats), the log reader loses and repeats
  nothing, the pool a price comes from is the deepest one, and a previewed swap is bounded by
  the price of that pool. Validation accepts exactly a declarative set of configurations, and
  what it accepts builds. The vault refines a map. The locales \<open>order_gate\<close> (what a gate
  promises, interpreted by the risk gate), \<open>decider\<close> (interpreted by both deciders) and
  \<open>latched_budget\<close> (interpreted by both budgets) and \<open>secret_store\<close> (interpreted by the vault)
  are the interfaces, with
  \<open>subscriber\<close> and its extension \<open>bystander\<close> (what a subscriber does to the part of its state that
  only it changes, and that it leaves a part alone; interpreted by the fills, the audit rows and
  the snapshots of the store, and for a whole state). The commands: a run gates by the limits of
  its configuration whatever decider and feed it builds; the books replay over any history of
  runs and reconciliations; what is configured and validated starts; a backtest is the run of its
  configuration. The server: an order
  leaves it only gated, counted and, in manual mode, approved by name; the kill switch and the
  mode change only by the requests that may change them, over every interleaving, and a run of
  HTTP requests is a run of these handlers; so whatever is requested, an order goes out only as
  it was gated when it came in, and all that go out stay within the caps of the session. A posted configuration is in force and on disk or
  neither, and tokens survive a restart. The store:
  what is written is read back, and the audit chain fixes its rows. Where the code does not
  do what its comments say, a theorem states what it does.

  Bounds. The histories of the approval queue are those in which its 64-bit sequence number
  does not wrap. \<open>wait_and_reconcile\<close> recurses over the list of clock readings and answers,
  which is its fuel; the loop of the agent recurses over the feed. The polling of a price has
  a number of attempts as fuel: a theorem gives the fuel that is enough when some attempt
  succeeds, and another shows that no fuel is enough against a node that refuses all.

  The run command has, for every tick, how long its poll may retry, as fuel; a run that is
  still retrying, or whose clock readings end first, has no outcome, and the theorem about a
  run speaks of those that have one, while another says that a validated configuration gets to
  the loop. The channel of the bus keeps at least the capacity that it was asked for.

  Not modelled: the user interface; what the framework does with sockets, CORS headers, static
  files and the decoding of a body; the log set-up, the signal handler, usage texts and
  progress messages, which are I/O; and the packages: TOML, JSON, SQLite, the cipher, the hash
  and the curve, which are arguments.
\<close>

end
